(* ===== verification/Prelude.thy ===== *)
theory Prelude
  imports Main "HOL-Library.Word" "HOL-Library.AList"
begin

text \<open>
  Shared material of the development: the machine types of the C++ sources, the arithmetic
  facts on them that every component needs (no wrap-around below the bound, saturation), and
  the model of the two standard containers the sources use most. A \<open>std::unordered_map\<close> is
  an association list with distinct keys: the list order stands for the (unspecified)
  iteration order of the hash table, a lookup is \<open>map_of\<close>, \<open>erase\<close> is \<open>AList.delete\<close> and an
  assignment through an iterator is \<open>AList.update\<close>. \<open>std::find\<close> followed by \<open>erase\<close> on a
  vector or deque is \<open>remove1\<close>.
\<close>

section \<open>Machine types\<close>

type_synonym u64 = "64 word"
type_synonym u32 = "32 word"
type_synonym size_t = "64 word"
type_synonym MemoryBytes = "64 word"
type_synonym TaskId = "64 word"
type_synonym TenantId = string
type_synonym time_ns = int

abbreviation u64_max :: u64 where
  "u64_max \<equiv> - 1"

named_theorems word_nat \<comment> \<open>moving order and guarded arithmetic from words to \<open>nat\<close>\<close>
named_theorems umap \<comment> \<open>lookups and sums over association lists\<close>

declare word_le_nat_alt [word_nat]
declare word_less_nat_alt [word_nat]

lemma unat_u64_max [simp]: "unat u64_max = 18446744073709551615"
  by (simp add: unsigned_minus_1_eq_mask mask_eq_exp_minus_1)

lemma unat_less_u64 [simp]: "unat (w :: u64) < 18446744073709551616"
  using unsigned_less [where ?'a = nat, of w] by simp

lemma unat_le_u64_max [simp]: "unat (w :: u64) \<le> 18446744073709551615"
  using unat_less_u64 [of w] by linarith

lemma unat_add_no_wrap:
  "unat (a :: 'a::len word) + unat b < 2 ^ LENGTH('a) \<Longrightarrow> unat (a + b) = unat a + unat b"
  by (simp add: unat_word_ariths)

lemma unat_sub_no_wrap: "b \<le> a \<Longrightarrow> unat (a - b :: 'a::len word) = unat a - unat b"
  by (rule unat_sub)

lemma unat_sub_max [simp]: "unat (u64_max - w) = 18446744073709551615 - unat w"
  by (subst unat_sub) (simp_all add: word_le_nat_alt)

lemma unat_Suc_no_wrap: "a \<noteq> u64_max \<Longrightarrow> unat (a + 1 :: u64) = Suc (unat a)"
proof -
  assume "a \<noteq> u64_max"
  then have "unat a \<noteq> 18446744073709551615"
    by (metis unat_u64_max word_unat_eq_iff)
  then have "unat a + unat (1 :: u64) < 2 ^ LENGTH(64)"
    using unat_less_u64 [of a] by (simp add: order_less_le)
  then show ?thesis
    by (simp only: unat_add_no_wrap) simp
qed

lemma u64_Suc_nonzero: "a \<noteq> u64_max \<Longrightarrow> (a + 1 :: u64) \<noteq> 0"
  using unat_Suc_no_wrap [of a] by auto

lemma unat_pred: "a \<noteq> 0 \<Longrightarrow> unat (a - 1 :: 'a::len word) = unat a - 1"
  by (simp add: unat_minus_one)

lemma unat_widen [simp]: "unat (ucast (w :: u32) :: u64) = unat w"
proof -
  have "unat w < 2 ^ LENGTH(32)" by (rule unsigned_less)
  then have "unat w < 2 ^ 64" by simp
  then show ?thesis by (simp add: unsigned_ucast_eq take_bit_nat_eq_self)
qed

lemma unat_min: "unat (min (a :: 'a::len word) b) = min (unat a) (unat b)"
  by (simp add: min_def word_le_nat_alt)

lemma unat_max: "unat (max (a :: 'a::len word) b) = max (unat a) (unat b)"
  by (simp add: max_def word_le_nat_alt)

declare unat_min [word_nat]
declare unat_max [word_nat]

section \<open>Durations\<close>

text \<open>
  Time points of \<open>std::chrono::steady_clock\<close> are integers counting nanoseconds. The
  sources convert a difference to microseconds, truncating towards zero, and clamp a
  negative difference to zero.
\<close>

definition elapsed_us :: "time_ns \<Rightarrow> time_ns \<Rightarrow> u64" where
  "elapsed_us from_ns to_ns =
     (if to_ns - from_ns < 0 then 0 else word_of_int ((to_ns - from_ns) div 1000))"

section \<open>Hash maps as association lists\<close>

definition umap_contains :: "('k \<times> 'v) list \<Rightarrow> 'k \<Rightarrow> bool" where
  "umap_contains m k = (map_of m k \<noteq> None)"

text \<open>\<open>emplace\<close> inserts only when the key is absent and reports whether it did.\<close>

definition umap_emplace :: "'k \<Rightarrow> 'v \<Rightarrow> ('k \<times> 'v) list \<Rightarrow> bool \<times> ('k \<times> 'v) list" where
  "umap_emplace k v m = (if umap_contains m k then (False, m) else (True, AList.update k v m))"

definition umap_sum :: "('v \<Rightarrow> nat) \<Rightarrow> ('k \<times> 'v) list \<Rightarrow> nat" where
  "umap_sum f m = sum_list (map (f \<circ> snd) m)"

abbreviation keys_distinct :: "('k \<times> 'v) list \<Rightarrow> bool" where
  "keys_distinct m \<equiv> distinct (map fst m)"

lemma map_of_update [simp]: "map_of (AList.update k v m) = (map_of m)(k \<mapsto> v)"
  by (rule update_conv')

lemma map_of_delete [simp]: "map_of (AList.delete k m) = (map_of m)(k := None)"
  by (rule delete_conv')

lemma keys_distinct_update [simp]: "keys_distinct m \<Longrightarrow> keys_distinct (AList.update k v m)"
  by (rule distinct_update)

lemma keys_distinct_delete [simp]: "keys_distinct m \<Longrightarrow> keys_distinct (AList.delete k m)"
  by (rule distinct_delete)

lemma map_of_None_keys: "map_of m k = None \<longleftrightarrow> k \<notin> fst ` set m"
  by (simp add: map_of_eq_None_iff)

lemma keys_update_present:
  "map_of m k = Some v \<Longrightarrow> map fst (AList.update k v' m) = map fst m"
  by (induction m) auto

lemma update_absent: "map_of m k = None \<Longrightarrow> AList.update k v m = m @ [(k, v)]"
  by (induction m) auto

lemma delete_absent: "map_of m k = None \<Longrightarrow> AList.delete k m = m"
  by (simp add: map_of_None_keys delete_id)

lemma delete_update_absent:
  "map_of m k = None \<Longrightarrow> AList.delete k (AList.update k v m) = m"
  by (induction m) (auto simp: delete_absent split: if_splits)

lemma update_same: "map_of m k = Some v \<Longrightarrow> AList.update k v m = m"
  by (induction m) auto

lemma umap_sum_Nil [simp]: "umap_sum f [] = 0"
  by (simp add: umap_sum_def)

lemma umap_sum_Cons [simp]: "umap_sum f ((k, v) # m) = f v + umap_sum f m"
  by (simp add: umap_sum_def)

lemma umap_sum_absent [umap]:
  "map_of m k = None \<Longrightarrow> umap_sum f (AList.update k v m) = umap_sum f m + f v"
  by (induction m) auto

lemma umap_sum_present:
  "map_of m k = Some v \<Longrightarrow> umap_sum f (AList.update k v' m) + f v = umap_sum f m + f v'"
  by (induction m) (auto split: if_splits)

lemma umap_sum_ge: "map_of m k = Some v \<Longrightarrow> f v \<le> umap_sum f m"
  by (induction m) (auto split: if_splits)

lemma umap_sum_update [umap]:
  "map_of m k = Some v \<Longrightarrow> umap_sum f (AList.update k v' m) = umap_sum f m - f v + f v'"
  using umap_sum_present [of m k v f v'] umap_sum_ge [of m k v f] by linarith

lemma umap_sum_delete [umap]:
  "keys_distinct m \<Longrightarrow> map_of m k = Some v \<Longrightarrow> umap_sum f (AList.delete k m) = umap_sum f m - f v"
proof (induction m)
  case (Cons a m)
  obtain k' v' where a: "a = (k', v')" by (cases a)
  show ?case
  proof (cases "k' = k")
    case True
    with Cons.prems a have "map_of m k = None" by (simp add: map_of_None_keys)
    with True a Cons.prems show ?thesis by (simp add: delete_absent)
  next
    case False
    with Cons.prems a have m: "map_of m k = Some v" "keys_distinct m" by auto
    then have "f v \<le> umap_sum f m" by (blast intro: umap_sum_ge)
    with Cons.IH m a False show ?thesis by simp
  qed
qed simp

lemma umap_sum_mono: "(\<And>v. f v \<le> g v) \<Longrightarrow> umap_sum f m \<le> umap_sum g m"
  by (induction m) (auto simp: add_mono)

lemma umap_sum_add: "umap_sum f m + umap_sum g m = umap_sum (\<lambda>v. f v + g v) m"
  by (induction m) auto

lemma umap_sum_const: "umap_sum (\<lambda>_. 1) m = length m"
  by (induction m) auto

lemma umap_sum_zero_iff: "umap_sum f m = 0 \<longleftrightarrow> (\<forall>(k, v) \<in> set m. f v = 0)"
  by (induction m) auto

lemma umap_sum_cong: "(\<And>k v. (k, v) \<in> set m \<Longrightarrow> f v = g v) \<Longrightarrow> umap_sum f m = umap_sum g m"
  unfolding umap_sum_def by (intro arg_cong [where f = sum_list] map_cong) auto

lemma umap_sum_pos: "map_of m k = Some v \<Longrightarrow> 0 < f v \<Longrightarrow> 0 < umap_sum f m"
  using umap_sum_ge [of m k v f] by simp

text \<open>A property of all values of a map.\<close>

lemma list_all_update:
  "list_all P (map snd m) \<Longrightarrow> P v \<Longrightarrow> list_all P (map snd (AList.update k v m))"
  by (induction m) auto

lemma list_all_delete: "list_all P (map snd m) \<Longrightarrow> list_all P (map snd (AList.delete k m))"
  by (induction m) auto

lemma list_all_lookup: "list_all P (map snd m) \<Longrightarrow> map_of m k = Some v \<Longrightarrow> P v"
  by (induction m) (auto split: if_splits)

lemma list_all_filter: "list_all P (map snd m) \<Longrightarrow> list_all P (map snd (filter Q m))"
  by (induction m) auto

end
