(* ===== verification/QuotaLedger.thy ===== *)
theory QuotaLedger
  imports Prelude
begin

text \<open>
  The byte ledger of \<^verbatim>\<open>src/src/core/quota_ledger.cc\<close>: a limit, the bytes reserved and the
  bytes allocated. A reservation is a move-only handle on the ledger (\<open>res_active\<close> is
  \<open>state_ != nullptr\<close>); destroying it cancels it. The ledger mutex serialises the
  operations, so each one is a function from the ledger state to the new one, and the
  acquisition of the mutex is taken to succeed.
\<close>

section \<open>Usage snapshots\<close>

record QuotaUsage =
  limit_bytes :: MemoryBytes
  reserved_bytes :: MemoryBytes
  allocated_bytes :: MemoryBytes

definition used_bytes :: "QuotaUsage \<Rightarrow> MemoryBytes" where
  "used_bytes u =
     (if reserved_bytes u > u64_max - allocated_bytes u then u64_max
      else reserved_bytes u + allocated_bytes u)"

definition available_bytes :: "QuotaUsage \<Rightarrow> MemoryBytes" where
  "available_bytes u =
     (let used = used_bytes u in if used \<ge> limit_bytes u then 0 else limit_bytes u - used)"

section \<open>The ledger and its reservations\<close>

record QuotaLedgerState =
  ledger_limit :: MemoryBytes
  ledger_reserved :: MemoryBytes
  ledger_allocated :: MemoryBytes

record QuotaReservation =
  res_active :: bool
  res_bytes :: MemoryBytes

definition QuotaLedger_new :: "MemoryBytes \<Rightarrow> QuotaLedgerState" where
  "QuotaLedger_new limit =
     \<lparr>ledger_limit = limit, ledger_reserved = 0, ledger_allocated = 0\<rparr>"

definition ledger_usage :: "QuotaLedgerState \<Rightarrow> QuotaUsage" where
  "ledger_usage l =
     \<lparr>limit_bytes = ledger_limit l, reserved_bytes = ledger_reserved l,
      allocated_bytes = ledger_allocated l\<rparr>"

definition ledger_try_reserve ::
  "QuotaLedgerState \<Rightarrow> MemoryBytes \<Rightarrow> QuotaReservation option \<times> QuotaLedgerState" where
  "ledger_try_reserve l b =
     (if b > available_bytes (ledger_usage l) then (None, l)
      else (Some \<lparr>res_active = True, res_bytes = b\<rparr>,
            l\<lparr>ledger_reserved := ledger_reserved l + b\<rparr>))"

definition ledger_release :: "QuotaLedgerState \<Rightarrow> MemoryBytes \<Rightarrow> bool \<times> QuotaLedgerState" where
  "ledger_release l b =
     (if b > ledger_allocated l then (False, l)
      else (True, l\<lparr>ledger_allocated := ledger_allocated l - b\<rparr>))"

definition commit_reservation :: "QuotaLedgerState \<Rightarrow> MemoryBytes \<Rightarrow> bool \<times> QuotaLedgerState" where
  "commit_reservation l b =
     (if b > ledger_reserved l then (False, l)
      else (True, l\<lparr>ledger_reserved := ledger_reserved l - b,
                    ledger_allocated := ledger_allocated l + b\<rparr>))"

definition cancel_reservation :: "QuotaLedgerState \<Rightarrow> MemoryBytes \<Rightarrow> bool \<times> QuotaLedgerState" where
  "cancel_reservation l b =
     (if b > ledger_reserved l then (False, l)
      else (True, l\<lparr>ledger_reserved := ledger_reserved l - b\<rparr>))"

definition inactive_reservation :: QuotaReservation where
  "inactive_reservation = \<lparr>res_active = False, res_bytes = 0\<rparr>"

definition reservation_commit ::
  "QuotaLedgerState \<Rightarrow> QuotaReservation \<Rightarrow> bool \<times> QuotaReservation \<times> QuotaLedgerState" where
  "reservation_commit l r =
     (if \<not> res_active r then (False, r, l)
      else case commit_reservation l (res_bytes r) of
        (ok, l') \<Rightarrow> if \<not> ok then (False, r, l') else (True, inactive_reservation, l'))"

definition reservation_cancel ::
  "QuotaLedgerState \<Rightarrow> QuotaReservation \<Rightarrow> QuotaReservation \<times> QuotaLedgerState" where
  "reservation_cancel l r =
     (if \<not> res_active r then (r, l)
      else case cancel_reservation l (res_bytes r) of
        (ok, l') \<Rightarrow> if \<not> ok then (r, l') else (inactive_reservation, l'))"

definition reservation_abandon :: "QuotaReservation \<Rightarrow> QuotaReservation" where
  "reservation_abandon r = inactive_reservation"

text \<open>The destructor cancels; a moved-from handle keeps no state and no bytes.\<close>

definition reservation_destroy :: "QuotaLedgerState \<Rightarrow> QuotaReservation \<Rightarrow> QuotaLedgerState" where
  "reservation_destroy l r = snd (reservation_cancel l r)"

definition reservation_move :: "QuotaReservation \<Rightarrow> QuotaReservation \<times> QuotaReservation" where
  "reservation_move other = (other, inactive_reservation)"

text \<open>
  Move assignment between two distinct handles: the target is cancelled first, then takes
  over the source. The result is the new target, the moved-from source and the ledger.
\<close>

definition reservation_move_assign ::
  "QuotaLedgerState \<Rightarrow> QuotaReservation \<Rightarrow> QuotaReservation \<Rightarrow>
   QuotaReservation \<times> QuotaReservation \<times> QuotaLedgerState" where
  "reservation_move_assign l self other =
     (let l' = snd (reservation_cancel l self);
          (self', other') = reservation_move other
      in (self', other', l'))"

section \<open>Arithmetic of the ledger\<close>

definition ledger_used :: "QuotaLedgerState \<Rightarrow> nat" where
  "ledger_used l = unat (ledger_reserved l) + unat (ledger_allocated l)"

definition ledger_ok :: "QuotaLedgerState \<Rightarrow> bool" where
  "ledger_ok l \<longleftrightarrow> ledger_used l \<le> unat (ledger_limit l)"

lemma unat_used_bytes:
  "unat (used_bytes u) =
     min (unat (reserved_bytes u) + unat (allocated_bytes u)) 18446744073709551615"
proof (cases "reserved_bytes u > u64_max - allocated_bytes u")
  case True
  then show ?thesis by (simp add: used_bytes_def word_less_nat_alt)
next
  case False
  then have "unat (reserved_bytes u) \<le> 18446744073709551615 - unat (allocated_bytes u)"
    by (simp add: word_less_nat_alt)
  then have "unat (reserved_bytes u) + unat (allocated_bytes u) \<le> 18446744073709551615"
    using unat_le_u64_max [of "allocated_bytes u"] by linarith
  with False show ?thesis by (simp add: used_bytes_def unat_add_no_wrap)
qed

lemma unat_available_bytes:
  "unat (available_bytes u) =
     unat (limit_bytes u) - (unat (reserved_bytes u) + unat (allocated_bytes u))"
  using unat_le_u64_max [of "limit_bytes u"]
  by (auto simp: available_bytes_def Let_def word_le_nat_alt unat_sub unat_used_bytes min_def
      simp del: unat_le_u64_max)

lemma ledger_try_reserve_None:
  "ledger_try_reserve l b = (None, l') \<longleftrightarrow>
     l' = l \<and> unat b > unat (ledger_limit l) - ledger_used l"
  by (auto simp: ledger_try_reserve_def word_less_nat_alt unat_available_bytes ledger_usage_def
      ledger_used_def)

lemma ledger_try_reserve_Some:
  assumes ok: "ledger_ok l" and res: "ledger_try_reserve l b = (Some r, l')"
  shows "r = \<lparr>res_active = True, res_bytes = b\<rparr>"
    and "ledger_limit l' = ledger_limit l"
    and "ledger_allocated l' = ledger_allocated l"
    and "unat (ledger_reserved l') = unat (ledger_reserved l) + unat b"
    and "ledger_ok l'"
proof -
  from res have le: "unat b \<le> unat (ledger_limit l) - ledger_used l"
    by (auto simp: ledger_try_reserve_def word_less_nat_alt unat_available_bytes ledger_usage_def
        ledger_used_def split: if_splits)
  from le ok have sum: "ledger_used l + unat b \<le> unat (ledger_limit l)"
    by (simp add: ledger_ok_def)
  then have bound: "unat (ledger_reserved l) + unat b < 2 ^ LENGTH(64)"
    using unat_less_u64 [of "ledger_limit l"] by (simp add: ledger_used_def del: unat_less_u64)
  from res have l': "l' = l\<lparr>ledger_reserved := ledger_reserved l + b\<rparr>"
    and r: "r = \<lparr>res_active = True, res_bytes = b\<rparr>"
    by (auto simp: ledger_try_reserve_def split: if_splits)
  show "r = \<lparr>res_active = True, res_bytes = b\<rparr>" by (rule r)
  show "ledger_limit l' = ledger_limit l" "ledger_allocated l' = ledger_allocated l"
    by (simp_all add: l')
  show res': "unat (ledger_reserved l') = unat (ledger_reserved l) + unat b"
    using bound by (simp add: l' unat_add_no_wrap)
  show "ledger_ok l'"
    using sum res' by (simp add: ledger_ok_def ledger_used_def l')
qed

lemma commit_reservation_ok:
  assumes "ledger_ok l" and "unat b \<le> unat (ledger_reserved l)"
  obtains l' where "commit_reservation l b = (True, l')"
    and "ledger_limit l' = ledger_limit l"
    and "unat (ledger_reserved l') = unat (ledger_reserved l) - unat b"
    and "unat (ledger_allocated l') = unat (ledger_allocated l) + unat b"
    and "ledger_ok l'"
proof -
  let ?l = "l\<lparr>ledger_reserved := ledger_reserved l - b, ledger_allocated := ledger_allocated l + b\<rparr>"
  have le: "b \<le> ledger_reserved l" using assms by (simp add: word_le_nat_alt)
  then have c: "commit_reservation l b = (True, ?l)"
    by (simp add: commit_reservation_def)
  have "unat (ledger_allocated l) + unat b < 2 ^ LENGTH(64)"
    using assms unat_less_u64 [of "ledger_limit l"]
    by (simp add: ledger_ok_def ledger_used_def del: unat_less_u64)
  then have a: "unat (ledger_allocated l + b) = unat (ledger_allocated l) + unat b"
    by (rule unat_add_no_wrap)
  show thesis
    using assms by (intro that [OF c]) (simp_all add: a unat_sub le ledger_ok_def ledger_used_def)
qed

lemma cancel_reservation_ok:
  assumes "ledger_ok l" and "unat b \<le> unat (ledger_reserved l)"
  obtains l' where "cancel_reservation l b = (True, l')"
    and "ledger_limit l' = ledger_limit l" and "ledger_allocated l' = ledger_allocated l"
    and "unat (ledger_reserved l') = unat (ledger_reserved l) - unat b"
    and "ledger_ok l'"
proof -
  have le: "b \<le> ledger_reserved l" using assms by (simp add: word_le_nat_alt)
  show thesis
    using assms
    by (intro that [of "l\<lparr>ledger_reserved := ledger_reserved l - b\<rparr>"])
      (simp_all add: cancel_reservation_def leD [OF le] unat_sub le ledger_ok_def ledger_used_def)
qed

lemma ledger_release_ok:
  assumes "ledger_ok l" and "unat b \<le> unat (ledger_allocated l)"
  obtains l' where "ledger_release l b = (True, l')"
    and "ledger_limit l' = ledger_limit l" and "ledger_reserved l' = ledger_reserved l"
    and "unat (ledger_allocated l') = unat (ledger_allocated l) - unat b"
    and "ledger_ok l'"
proof -
  have le: "b \<le> ledger_allocated l" using assms by (simp add: word_le_nat_alt)
  show thesis
    using assms
    by (intro that [of "l\<lparr>ledger_allocated := ledger_allocated l - b\<rparr>"])
      (simp_all add: ledger_release_def leD [OF le] unat_sub le ledger_ok_def ledger_used_def)
qed

lemma QuotaLedger_new_ok [simp]: "ledger_ok (QuotaLedger_new limit)"
  by (simp add: ledger_ok_def ledger_used_def QuotaLedger_new_def)

text \<open>A reservation that is destroyed right away leaves the ledger as it was.\<close>

lemma reserve_destroy:
  assumes "ledger_ok l" and "ledger_try_reserve l b = (Some r, l')"
  shows "reservation_destroy l' r = l"
proof -
  note spec = ledger_try_reserve_Some [OF assms]
  from assms(2) have l': "l' = l\<lparr>ledger_reserved := ledger_reserved l + b\<rparr>"
    by (auto simp: ledger_try_reserve_def split: if_splits)
  have "b \<le> ledger_reserved l'"
    using spec(4) by (simp add: word_le_nat_alt)
  then show ?thesis
    by (simp add: reservation_destroy_def reservation_cancel_def cancel_reservation_def spec(1) l')
qed

end
