(* ===== verification/SchedulerCore.thy ===== *)
theory SchedulerCore
  imports QuotaLedger
begin

text \<open>
  The task-boundary scheduler of \<^verbatim>\<open>src/src/core/scheduler.cc\<close>, translated method by method.
  Every public method takes the scheduler mutex, so a method is a function from the
  scheduler state to its result and the new state. Clock readings are arguments. An
  allocation failure that the source catches is an argument too: a value of type
  \<open>submit_fault\<close> or \<open>dispatch_fault\<close> names the allocation that throws. Acquiring a mutex is
  taken to succeed. \<open>size()\<close> of a container is its \<open>length\<close>; configured capacities and
  counters are 64-bit words.
\<close>

section \<open>Data\<close>

record TaskSpec =
  spec_tenant_id :: TenantId
  spec_memory_bytes :: MemoryBytes
  spec_weight :: u32
  spec_work_units :: u32
  spec_priority :: u32

datatype TaskState =
    TaskState_kQueued
  | TaskState_kRunning
  | TaskState_kCompleted
  | TaskState_kCancelled
  | TaskState_kFailed

text \<open>The last constructor stands for an enum value outside the four listed ones.\<close>

datatype SchedulingPolicy =
    kWeightedRoundRobin
  | kDeficitRoundRobin
  | kFifo
  | kPriority
  | SchedulingPolicy_unlisted

datatype SubmitStatus =
    SubmitStatus_kAccepted
  | SubmitStatus_kInvalidTask
  | SubmitStatus_kQuotaExceeded
  | SubmitStatus_kQueueFull
  | SubmitStatus_kTenantWeightMismatch
  | SubmitStatus_kInternalError

record SubmitResult =
  sr_status :: SubmitStatus
  sr_task_id :: TaskId

record SchedulerOptions =
  opt_max_running_tasks :: size_t
  opt_max_queued_tasks :: size_t
  opt_priority_reserved_slots :: size_t
  opt_priority_reservation_threshold :: u32
  opt_scheduling_policy :: SchedulingPolicy

record TaskSnapshot =
  snap_task_id :: TaskId
  snap_tenant_id :: TenantId
  snap_memory_bytes :: MemoryBytes
  snap_weight :: u32
  snap_work_units :: u32
  snap_priority :: u32
  snap_state :: TaskState
  snap_dispatch_sequence :: u64

record SchedulerStats =
  stats_quota :: QuotaUsage
  stats_total_task_count :: nat
  stats_queued_task_count :: size_t
  stats_running_task_count :: nat
  stats_completed_task_count :: nat
  stats_cancelled_task_count :: nat
  stats_failed_task_count :: nat
  stats_max_running_tasks :: size_t
  stats_max_queued_tasks :: size_t
  stats_priority_reserved_slots :: size_t
  stats_priority_reservation_threshold :: u32
  stats_priority_reservation_active :: bool
  stats_scheduling_policy :: SchedulingPolicy
  stats_total_queue_wait_microseconds :: u64
  stats_max_queue_wait_microseconds :: u64
  stats_total_service_time_microseconds :: u64
  stats_max_service_time_microseconds :: u64

record TaskRecord =
  task_spec :: TaskSpec
  task_st :: TaskState
  task_reservation :: "QuotaReservation option"
  task_queued_at :: time_ns
  task_running_at :: time_ns
  task_dispatch_sequence :: u64

record TenantQueue =
  tq_weight :: u32
  tq_task_ids :: "TaskId list"
  tq_deficit :: u64

record Scheduler =
  quota_ledger :: QuotaLedgerState
  next_task_id :: TaskId
  next_dispatch_sequence :: u64
  tasks :: "(TaskId \<times> TaskRecord) list"
  tenant_queues :: "(TenantId \<times> TenantQueue) list"
  tenant_order :: "TenantId list"
  tenant_cursor :: nat
  tenant_budget :: u32
  scheduling_policy :: SchedulingPolicy
  max_running_tasks :: size_t
  max_queued_tasks :: size_t
  priority_reserved_slots :: size_t
  priority_reservation_threshold :: u32
  running_task_ids :: "TaskId list"
  queued_task_count :: size_t
  total_queue_wait_us :: u64
  max_queue_wait_us :: u64
  total_service_time_us :: u64
  max_service_time_us :: u64

datatype submit_fault =
    Fault_tenant_emplace
  | Fault_tenant_order_push
  | Fault_task_emplace
  | Fault_queue_push

datatype dispatch_fault = Fault_snapshot | Fault_running_push

section \<open>Helpers, parsing and construction\<close>

definition saturating_add :: "u64 \<Rightarrow> u64 \<Rightarrow> u64" where
  "saturating_add v acc = (if acc > u64_max - v then u64_max else acc + v)"

fun is_supported_scheduling_policy :: "SchedulingPolicy \<Rightarrow> bool" where
  "is_supported_scheduling_policy kWeightedRoundRobin = True"
| "is_supported_scheduling_policy kDeficitRoundRobin = True"
| "is_supported_scheduling_policy kFifo = True"
| "is_supported_scheduling_policy kPriority = True"
| "is_supported_scheduling_policy SchedulingPolicy_unlisted = False"

definition accepted :: "SubmitResult \<Rightarrow> bool" where
  "accepted r \<longleftrightarrow> sr_status r = SubmitStatus_kAccepted"

definition parse_scheduling_policy :: "string \<Rightarrow> SchedulingPolicy option" where
  "parse_scheduling_policy v =
     (if v = ''weighted_rr'' then Some kWeightedRoundRobin
      else if v = ''drr'' then Some kDeficitRoundRobin
      else if v = ''fifo'' then Some kFifo
      else if v = ''priority'' then Some kPriority
      else None)"

fun scheduling_policy_name :: "SchedulingPolicy \<Rightarrow> string" where
  "scheduling_policy_name kWeightedRoundRobin = ''weighted_rr''"
| "scheduling_policy_name kDeficitRoundRobin = ''drr''"
| "scheduling_policy_name kFifo = ''fifo''"
| "scheduling_policy_name kPriority = ''priority''"
| "scheduling_policy_name SchedulingPolicy_unlisted = ''unknown''"

definition Scheduler_new :: "MemoryBytes \<Rightarrow> SchedulerOptions \<Rightarrow> Scheduler" where
  "Scheduler_new limit opts =
     \<lparr>quota_ledger = QuotaLedger_new limit, next_task_id = 1, next_dispatch_sequence = 1,
      tasks = [], tenant_queues = [], tenant_order = [], tenant_cursor = 0, tenant_budget = 0,
      scheduling_policy =
        (if is_supported_scheduling_policy (opt_scheduling_policy opts)
         then opt_scheduling_policy opts else kWeightedRoundRobin),
      max_running_tasks = max (opt_max_running_tasks opts) 1,
      max_queued_tasks = opt_max_queued_tasks opts,
      priority_reserved_slots =
        min (opt_priority_reserved_slots opts) (max (opt_max_running_tasks opts) 1),
      priority_reservation_threshold = opt_priority_reservation_threshold opts,
      running_task_ids = [], queued_task_count = 0, total_queue_wait_us = 0,
      max_queue_wait_us = 0, total_service_time_us = 0, max_service_time_us = 0\<rparr>"

definition task_queued :: "(TaskId \<times> TaskRecord) list \<Rightarrow> TaskId \<Rightarrow> bool" where
  "task_queued ts i =
     (case map_of ts i of None \<Rightarrow> False | Some t \<Rightarrow> task_st t = TaskState_kQueued)"

definition set_task :: "TaskId \<Rightarrow> TaskRecord \<Rightarrow> Scheduler \<Rightarrow> Scheduler" where
  "set_task i t s = s\<lparr>tasks := AList.update i t (tasks s)\<rparr>"

definition set_queue :: "TenantId \<Rightarrow> TenantQueue \<Rightarrow> Scheduler \<Rightarrow> Scheduler" where
  "set_queue tn q s = s\<lparr>tenant_queues := AList.update tn q (tenant_queues s)\<rparr>"

definition snapshot_locked :: "TaskId \<Rightarrow> TaskRecord \<Rightarrow> TaskSnapshot" where
  "snapshot_locked i t =
     \<lparr>snap_task_id = i, snap_tenant_id = spec_tenant_id (task_spec t),
      snap_memory_bytes = spec_memory_bytes (task_spec t), snap_weight = spec_weight (task_spec t),
      snap_work_units = spec_work_units (task_spec t), snap_priority = spec_priority (task_spec t),
      snap_state = task_st t, snap_dispatch_sequence = task_dispatch_sequence t\<rparr>"

section \<open>Submission\<close>

text \<open>
  The tenant slot: find or create the tenant's queue. \<open>None\<close> is the failure return, with
  the tenant erased again; otherwise the flag says whether the tenant is new.
\<close>

definition submit_tenant_slot ::
  "submit_fault option \<Rightarrow> TaskSpec \<Rightarrow> Scheduler \<Rightarrow> bool option \<times> Scheduler" where
  "submit_tenant_slot fault spec s =
     (let tn = spec_tenant_id spec in
      case map_of (tenant_queues s) tn of
        Some _ \<Rightarrow> (Some False, s)
      | None \<Rightarrow>
          if fault = Some Fault_tenant_emplace
          then (None, s\<lparr>tenant_queues := AList.delete tn (tenant_queues s)\<rparr>)
          else case umap_emplace tn \<lparr>tq_weight = spec_weight spec, tq_task_ids = [], tq_deficit = 0\<rparr>
                      (tenant_queues s) of
            (inserted, qs) \<Rightarrow>
              if \<not> inserted then (None, s)
              else if fault = Some Fault_tenant_order_push
              then (None, s\<lparr>tenant_queues := AList.delete tn qs\<rparr>)
              else (Some True, s\<lparr>tenant_queues := qs, tenant_order := tenant_order s @ [tn]\<rparr>))"

definition submit_rollback_tenant :: "bool \<Rightarrow> TenantId \<Rightarrow> Scheduler \<Rightarrow> Scheduler" where
  "submit_rollback_tenant inserted tn s =
     (if inserted
      then s\<lparr>tenant_queues := AList.delete tn (tenant_queues s), tenant_order := butlast (tenant_order s)\<rparr>
      else s)"

definition submit_failed :: "SubmitStatus \<Rightarrow> SubmitResult" where
  "submit_failed st = \<lparr>sr_status = st, sr_task_id = 0\<rparr>"

text \<open>
  The task slot: publish the task record and queue it. Every failure destroys the task
  record, whose reservation is cancelled by its destructor, and rolls a new tenant back.
  The source holds an iterator to the tenant's queue, so the lookup of the queue at the end
  always succeeds.
\<close>

definition submit_task_slot ::
  "submit_fault option \<Rightarrow> time_ns \<Rightarrow> TaskSpec \<Rightarrow> QuotaReservation \<Rightarrow> bool \<Rightarrow> Scheduler \<Rightarrow>
   SubmitResult \<times> Scheduler" where
  "submit_task_slot fault now spec r inserted_tenant s =
     (let i = next_task_id s; tn = spec_tenant_id spec;
          t = \<lparr>task_spec = spec, task_st = TaskState_kQueued, task_reservation = Some r,
               task_queued_at = now, task_running_at = 0, task_dispatch_sequence = 0\<rparr>;
          s_cancelled = s\<lparr>quota_ledger := reservation_destroy (quota_ledger s) r\<rparr>;
          failed = submit_failed SubmitStatus_kInternalError
      in if fault = Some Fault_task_emplace
         then (failed, submit_rollback_tenant inserted_tenant tn
                 (s_cancelled\<lparr>tasks := AList.delete i (tasks s)\<rparr>))
         else (case umap_emplace i t (tasks s) of
           (inserted, ts) \<Rightarrow>
             if \<not> inserted then (failed, submit_rollback_tenant inserted_tenant tn s_cancelled)
             else if fault = Some Fault_queue_push
             then (failed, submit_rollback_tenant inserted_tenant tn
                     (s_cancelled\<lparr>tasks := AList.delete i ts\<rparr>))
             else (case map_of (tenant_queues s) tn of
               None \<Rightarrow> (failed, s)
             | Some q \<Rightarrow>
                 (\<lparr>sr_status = SubmitStatus_kAccepted, sr_task_id = i\<rparr>,
                  set_queue tn (q\<lparr>tq_task_ids := tq_task_ids q @ [i]\<rparr>)
                    (s\<lparr>tasks := ts, next_task_id := next_task_id s + 1,
                       queued_task_count := queued_task_count s + 1\<rparr>)))))"

definition Scheduler_submit ::
  "submit_fault option \<Rightarrow> time_ns \<Rightarrow> TaskSpec \<Rightarrow> Scheduler \<Rightarrow> SubmitResult \<times> Scheduler" where
  "Scheduler_submit fault now spec s =
     (if spec_tenant_id spec = [] \<or> spec_memory_bytes spec = 0 \<or> spec_weight spec = 0 \<or>
         spec_work_units spec = 0
      then (submit_failed SubmitStatus_kInvalidTask, s)
      else if next_task_id s = u64_max then (submit_failed SubmitStatus_kInternalError, s)
      else if max_queued_tasks s \<noteq> 0 \<and> queued_task_count s \<ge> max_queued_tasks s
      then (submit_failed SubmitStatus_kQueueFull, s)
      else if (case map_of (tenant_queues s) (spec_tenant_id spec) of
                 None \<Rightarrow> False | Some q \<Rightarrow> tq_weight q \<noteq> spec_weight spec)
      then (submit_failed SubmitStatus_kTenantWeightMismatch, s)
      else case ledger_try_reserve (quota_ledger s) (spec_memory_bytes spec) of
        (None, l) \<Rightarrow> (submit_failed SubmitStatus_kQuotaExceeded, s\<lparr>quota_ledger := l\<rparr>)
      | (Some r, l) \<Rightarrow>
          (case submit_tenant_slot fault spec (s\<lparr>quota_ledger := l\<rparr>) of
             (None, s') \<Rightarrow> (submit_failed SubmitStatus_kInternalError,
                            s'\<lparr>quota_ledger := reservation_destroy l r\<rparr>)
           | (Some inserted, s') \<Rightarrow> submit_task_slot fault now spec r inserted s'))"

section \<open>Peeking at the next task\<close>

definition peek_fifo_task_locked :: "Scheduler \<Rightarrow> TaskId option" where
  "peek_fifo_task_locked s =
     fold (\<lambda>(_, q) sel.
        fold (\<lambda>i sel.
           if task_queued (tasks s) i \<and> (case sel of None \<Rightarrow> True | Some j \<Rightarrow> i < j)
           then Some i else sel)
          (tq_task_ids q) sel)
       (tenant_queues s) None"

text \<open>The loop body of the priority scan; the accumulator is the selected id and priority.\<close>

definition priority_scan_step ::
  "(TaskId \<times> TaskRecord) list \<Rightarrow> TaskId \<Rightarrow> (TaskId \<times> u32) option \<Rightarrow> (TaskId \<times> u32) option" where
  "priority_scan_step ts i sel =
     (case map_of ts i of
        None \<Rightarrow> sel
      | Some t \<Rightarrow>
          if task_st t \<noteq> TaskState_kQueued then sel
          else (let p = spec_priority (task_spec t) in
            case sel of
              None \<Rightarrow> Some (i, p)
            | Some (j, pj) \<Rightarrow> if p < pj \<or> (p = pj \<and> i > j) then sel else Some (i, p)))"

definition peek_priority_task_locked :: "Scheduler \<Rightarrow> TaskId option" where
  "peek_priority_task_locked s =
     map_option fst
       (fold (\<lambda>(_, q) sel. fold (priority_scan_step (tasks s)) (tq_task_ids q) sel)
          (tenant_queues s) None)"

text \<open>
  The weighted round-robin peek: at most one attempt per tenant. The budget the source
  tracks here is never read, so only the cursor is kept.
\<close>

fun peek_wrr_loop :: "nat \<Rightarrow> nat \<Rightarrow> Scheduler \<Rightarrow> TaskId option" where
  "peek_wrr_loop 0 cursor s = None"
| "peek_wrr_loop (Suc attempts) cursor s =
     (let n = length (tenant_order s); c = (if cursor \<ge> n then 0 else cursor) in
      case map_of (tenant_queues s) (tenant_order s ! c) of
        None \<Rightarrow> peek_wrr_loop attempts ((c + 1) mod n) s
      | Some q \<Rightarrow>
          (case find (task_queued (tasks s)) (tq_task_ids q) of
             Some i \<Rightarrow> Some i
           | None \<Rightarrow> peek_wrr_loop attempts ((c + 1) mod n) s))"

definition peek_weighted_round_robin_task_locked :: "Scheduler \<Rightarrow> TaskId option" where
  "peek_weighted_round_robin_task_locked s =
     (if tenant_order s = [] then None
      else peek_wrr_loop (length (tenant_order s)) (tenant_cursor s) s)"

definition task_cost :: "(TaskId \<times> TaskRecord) list \<Rightarrow> TaskId \<Rightarrow> u64" where
  "task_cost ts i =
     (case map_of ts i of None \<Rightarrow> 0 | Some t \<Rightarrow> ucast (spec_work_units (task_spec t)))"

fun peek_drr_loop :: "nat \<Rightarrow> nat \<Rightarrow> Scheduler \<Rightarrow> TaskId option" where
  "peek_drr_loop 0 cursor s = None"
| "peek_drr_loop (Suc attempts) cursor s =
     (let next = peek_drr_loop attempts ((cursor + 1) mod length (tenant_order s)) s in
      case map_of (tenant_queues s) (tenant_order s ! cursor) of
        None \<Rightarrow> next
      | Some q \<Rightarrow>
          (case find (task_queued (tasks s)) (tq_task_ids q) of
             None \<Rightarrow> next
           | Some i \<Rightarrow> if tq_deficit q \<ge> task_cost (tasks s) i then Some i else next))"

definition peek_deficit_round_robin_task_locked :: "Scheduler \<Rightarrow> TaskId option" where
  "peek_deficit_round_robin_task_locked s =
     (if tenant_order s = [] then None
      else peek_drr_loop (length (tenant_order s)) (tenant_cursor s) s)"

fun peek_by_policy :: "SchedulingPolicy \<Rightarrow> Scheduler \<Rightarrow> TaskId option" where
  "peek_by_policy kFifo s = peek_fifo_task_locked s"
| "peek_by_policy kWeightedRoundRobin s = peek_weighted_round_robin_task_locked s"
| "peek_by_policy kDeficitRoundRobin s = peek_deficit_round_robin_task_locked s"
| "peek_by_policy kPriority s = peek_priority_task_locked s"
| "peek_by_policy SchedulingPolicy_unlisted s = None"

definition peek_next_task_locked :: "Scheduler \<Rightarrow> TaskId option" where
  "peek_next_task_locked s = peek_by_policy (scheduling_policy s) s"

definition low_running_count :: "Scheduler \<Rightarrow> nat" where
  "low_running_count s =
     length (filter (\<lambda>i. case map_of (tasks s) i of
                           None \<Rightarrow> False
                         | Some t \<Rightarrow> spec_priority (task_spec t) < priority_reservation_threshold s)
               (running_task_ids s))"

definition priority_reservation_blocks_low_dispatch_locked :: "Scheduler \<Rightarrow> bool" where
  "priority_reservation_blocks_low_dispatch_locked s =
     (if scheduling_policy s \<noteq> kPriority \<or> priority_reserved_slots s = 0 then False
      else if low_running_count s < unat (max_running_tasks s - priority_reserved_slots s) then False
      else case peek_next_task_locked s of
        None \<Rightarrow> False
      | Some i \<Rightarrow>
          (case map_of (tasks s) i of
             None \<Rightarrow> False
           | Some t \<Rightarrow> task_st t = TaskState_kQueued \<and>
               spec_priority (task_spec t) < priority_reservation_threshold s))"

section \<open>Selecting the next task\<close>

definition advance_tenant_locked :: "Scheduler \<Rightarrow> Scheduler" where
  "advance_tenant_locked s =
     (if tenant_order s = [] then s\<lparr>tenant_budget := 0, tenant_cursor := 0\<rparr>
      else s\<lparr>tenant_budget := 0,
             tenant_cursor := (tenant_cursor s + 1) mod length (tenant_order s)\<rparr>)"

definition remove_task_from_tenant_queue_locked :: "TenantId \<Rightarrow> TaskId \<Rightarrow> Scheduler \<Rightarrow> Scheduler" where
  "remove_task_from_tenant_queue_locked tn i s =
     (case map_of (tenant_queues s) tn of
        None \<Rightarrow> s
      | Some q \<Rightarrow> set_queue tn (q\<lparr>tq_task_ids := remove1 i (tq_task_ids q)\<rparr>) s)"

text \<open>The common tail of the FIFO and the priority selection: dequeue the peeked task.\<close>

definition select_peeked :: "TaskId option \<Rightarrow> Scheduler \<Rightarrow> TaskId option \<times> Scheduler" where
  "select_peeked sel s =
     (case sel of
        None \<Rightarrow> (None, s)
      | Some i \<Rightarrow>
          (case map_of (tasks s) i of
             None \<Rightarrow> (None, s)
           | Some t \<Rightarrow>
               if task_st t \<noteq> TaskState_kQueued then (None, s)
               else let s' = remove_task_from_tenant_queue_locked (spec_tenant_id (task_spec t)) i s
                    in (Some i, s'\<lparr>queued_task_count := queued_task_count s' - 1\<rparr>)))"

definition select_fifo_task_locked :: "Scheduler \<Rightarrow> TaskId option \<times> Scheduler" where
  "select_fifo_task_locked s = select_peeked (peek_fifo_task_locked s) s"

definition select_priority_task_locked :: "Scheduler \<Rightarrow> TaskId option \<times> Scheduler" where
  "select_priority_task_locked s = select_peeked (peek_priority_task_locked s) s"

text \<open>The inner \<open>while\<close> of the weighted selection pops until a queued task is found.\<close>

fun pop_queued :: "(TaskId \<times> TaskRecord) list \<Rightarrow> TaskId list \<Rightarrow> TaskId option \<times> TaskId list" where
  "pop_queued ts [] = (None, [])"
| "pop_queued ts (i # is) = (if task_queued ts i then (Some i, is) else pop_queued ts is)"

fun select_wrr_loop :: "nat \<Rightarrow> Scheduler \<Rightarrow> TaskId option \<times> Scheduler" where
  "select_wrr_loop 0 s = (None, s)"
| "select_wrr_loop (Suc attempts) s =
     (let s0 = (if tenant_cursor s \<ge> length (tenant_order s)
                then s\<lparr>tenant_cursor := 0, tenant_budget := 0\<rparr> else s);
          tn = tenant_order s0 ! tenant_cursor s0
      in case map_of (tenant_queues s0) tn of
           None \<Rightarrow> select_wrr_loop attempts (advance_tenant_locked s0)
         | Some q \<Rightarrow>
             (case pop_queued (tasks s0) (tq_task_ids q) of
                (None, rest) \<Rightarrow>
                  select_wrr_loop attempts
                    (advance_tenant_locked (set_queue tn (q\<lparr>tq_task_ids := rest\<rparr>) s0))
              | (Some i, rest) \<Rightarrow>
                  let s1 = set_queue tn (q\<lparr>tq_task_ids := rest\<rparr>) s0;
                      budget = (if tenant_budget s1 = 0 then tq_weight q else tenant_budget s1) - 1;
                      s2 = s1\<lparr>tenant_budget := budget\<rparr>;
                      s3 = (if budget = 0 \<or> rest = [] then advance_tenant_locked s2 else s2)
                  in (Some i, s3\<lparr>queued_task_count := queued_task_count s3 - 1\<rparr>)))"

definition select_weighted_round_robin_task_locked :: "Scheduler \<Rightarrow> TaskId option \<times> Scheduler" where
  "select_weighted_round_robin_task_locked s =
     (if tenant_order s = [] then (None, s)
      else select_wrr_loop (length (tenant_order s)) s)"

text \<open>
  Deficit round robin: stale heads are popped, a head that costs more than the tenant's
  deficit gains one quantum and the round moves on, otherwise the head is selected.
\<close>

definition add_quantum :: "TenantQueue \<Rightarrow> TenantQueue" where
  "add_quantum q =
     (let quantum = ucast (tq_weight q) :: u64 in
      q\<lparr>tq_deficit := if tq_deficit q > u64_max - quantum then u64_max else tq_deficit q + quantum\<rparr>)"

fun select_drr_loop :: "nat \<Rightarrow> Scheduler \<Rightarrow> TaskId option \<times> Scheduler" where
  "select_drr_loop 0 s = (None, s)"
| "select_drr_loop (Suc attempts) s =
     (let s0 = (if tenant_cursor s \<ge> length (tenant_order s) then s\<lparr>tenant_cursor := 0\<rparr> else s);
          tn = tenant_order s0 ! tenant_cursor s0
      in case map_of (tenant_queues s0) tn of
           None \<Rightarrow> select_drr_loop attempts (advance_tenant_locked s0)
         | Some q \<Rightarrow>
             (case dropWhile (\<lambda>i. \<not> task_queued (tasks s0) i) (tq_task_ids q) of
                [] \<Rightarrow>
                  select_drr_loop attempts
                    (advance_tenant_locked (set_queue tn (q\<lparr>tq_task_ids := []\<rparr>) s0))
              | i # rest \<Rightarrow>
                  let cost = task_cost (tasks s0) i in
                  if tq_deficit q < cost
                  then select_drr_loop attempts
                         (advance_tenant_locked
                            (set_queue tn (add_quantum (q\<lparr>tq_task_ids := i # rest\<rparr>)) s0))
                  else let s1 = advance_tenant_locked
                                  (set_queue tn (q\<lparr>tq_task_ids := rest,
                                                   tq_deficit := tq_deficit q - cost\<rparr>) s0)
                       in (Some i, s1\<lparr>queued_task_count := queued_task_count s1 - 1\<rparr>)))"

definition select_deficit_round_robin_task_locked :: "Scheduler \<Rightarrow> TaskId option \<times> Scheduler" where
  "select_deficit_round_robin_task_locked s =
     (if tenant_order s = [] then (None, s)
      else select_drr_loop (length (tenant_order s)) s)"

fun select_by_policy :: "SchedulingPolicy \<Rightarrow> Scheduler \<Rightarrow> TaskId option \<times> Scheduler" where
  "select_by_policy kFifo s = select_fifo_task_locked s"
| "select_by_policy kWeightedRoundRobin s = select_weighted_round_robin_task_locked s"
| "select_by_policy kDeficitRoundRobin s = select_deficit_round_robin_task_locked s"
| "select_by_policy kPriority s = select_priority_task_locked s"
| "select_by_policy SchedulingPolicy_unlisted s = (None, s)"

definition select_next_task_locked :: "Scheduler \<Rightarrow> TaskId option \<times> Scheduler" where
  "select_next_task_locked s = select_by_policy (scheduling_policy s) s"

section \<open>Dispatch\<close>

text \<open>
  The two allocation-failure paths of the dispatch: a continuation gives its committed
  bytes back, a first dispatch cancels its reservation; the task is failed either way.
\<close>

definition dispatch_abort ::
  "TaskId \<Rightarrow> TaskRecord \<Rightarrow> QuotaReservation \<Rightarrow> Scheduler \<Rightarrow> TaskSnapshot option \<times> Scheduler" where
  "dispatch_abort i t r s =
     (if task_dispatch_sequence t \<noteq> 0
      then case ledger_release (quota_ledger s) (spec_memory_bytes (task_spec t)) of
        (_, l) \<Rightarrow> (None, set_task i (t\<lparr>task_st := TaskState_kFailed\<rparr>) (s\<lparr>quota_ledger := l\<rparr>))
      else case reservation_cancel (quota_ledger s) r of
        (r', l) \<Rightarrow> (None, set_task i (t\<lparr>task_st := TaskState_kFailed, task_reservation := Some r'\<rparr>)
                           (s\<lparr>quota_ledger := l\<rparr>)))"

definition dispatch_commit ::
  "time_ns \<Rightarrow> TaskId \<Rightarrow> TaskRecord \<Rightarrow> QuotaReservation \<Rightarrow> Scheduler \<Rightarrow> TaskSnapshot option \<times> Scheduler" where
  "dispatch_commit now i t r s =
     (let s1 = s\<lparr>running_task_ids := running_task_ids s @ [i]\<rparr>;
          (committed, r', l) =
            (if task_dispatch_sequence t \<noteq> 0 then (True, r, quota_ledger s1)
             else reservation_commit (quota_ledger s1) r)
      in if \<not> committed
         then case reservation_cancel l r' of
           (r'', l') \<Rightarrow>
             (None, set_task i (t\<lparr>task_st := TaskState_kFailed, task_reservation := Some r''\<rparr>)
                      (s1\<lparr>quota_ledger := l', running_task_ids := butlast (running_task_ids s1)\<rparr>))
         else let sq = next_dispatch_sequence s1;
                  t' = t\<lparr>task_st := TaskState_kRunning, task_reservation := Some r',
                         task_dispatch_sequence := sq, task_running_at := now\<rparr>;
                  wait = elapsed_us (task_queued_at t) now
              in (Some ((snapshot_locked i t)\<lparr>snap_state := TaskState_kRunning,
                                              snap_dispatch_sequence := sq\<rparr>),
                  set_task i t'
                    (s1\<lparr>quota_ledger := l,
                        next_dispatch_sequence := (if sq \<noteq> u64_max then sq + 1 else sq),
                        total_queue_wait_us := saturating_add wait (total_queue_wait_us s1),
                        max_queue_wait_us := max (max_queue_wait_us s1) wait\<rparr>)))"

definition dispatch_selected_task_locked ::
  "dispatch_fault option \<Rightarrow> time_ns \<Rightarrow> TaskId \<Rightarrow> Scheduler \<Rightarrow> TaskSnapshot option \<times> Scheduler" where
  "dispatch_selected_task_locked fault now i s =
     (case map_of (tasks s) i of
        None \<Rightarrow> (None, s)
      | Some t \<Rightarrow>
          if task_st t \<noteq> TaskState_kQueued then (None, s)
          else (case task_reservation t of
            None \<Rightarrow> (None, set_task i (t\<lparr>task_st := TaskState_kFailed\<rparr>) s)
          | Some r \<Rightarrow>
              if fault = Some Fault_snapshot \<or> fault = Some Fault_running_push
              then dispatch_abort i t r s
              else dispatch_commit now i t r s))"

definition Scheduler_dispatch_next ::
  "dispatch_fault option \<Rightarrow> time_ns \<Rightarrow> Scheduler \<Rightarrow> TaskSnapshot option \<times> Scheduler" where
  "Scheduler_dispatch_next fault now s =
     (if length (running_task_ids s) \<ge> unat (max_running_tasks s) then (None, s)
      else if priority_reservation_blocks_low_dispatch_locked s then (None, s)
      else case select_next_task_locked s of
        (None, s') \<Rightarrow> (None, s')
      | (Some i, s') \<Rightarrow> dispatch_selected_task_locked fault now i s')"

definition Scheduler_dispatch_task ::
  "dispatch_fault option \<Rightarrow> time_ns \<Rightarrow> TaskId \<Rightarrow> Scheduler \<Rightarrow> TaskSnapshot option \<times> Scheduler" where
  "Scheduler_dispatch_task fault now i s =
     (if i = 0 then (None, s)
      else if length (running_task_ids s) \<ge> unat (max_running_tasks s) then (None, s)
      else if priority_reservation_blocks_low_dispatch_locked s then (None, s)
      else if \<not> task_queued (tasks s) i then (None, s)
      else case peek_next_task_locked s of
        None \<Rightarrow>
          (None, if scheduling_policy s = kDeficitRoundRobin
                 then snd (select_deficit_round_robin_task_locked s) else s)
      | Some j \<Rightarrow>
          if j \<noteq> i then (None, s)
          else (case select_next_task_locked s of
            (None, s') \<Rightarrow> (None, s')
          | (Some k, s') \<Rightarrow>
              if k \<noteq> i then (None, s') else dispatch_selected_task_locked fault now i s'))"

section \<open>Suspension and terminal transitions\<close>

definition record_service :: "time_ns \<Rightarrow> TaskRecord \<Rightarrow> Scheduler \<Rightarrow> Scheduler" where
  "record_service now t s =
     (let service = elapsed_us (task_running_at t) now in
      s\<lparr>total_service_time_us := saturating_add service (total_service_time_us s),
        max_service_time_us := max (max_service_time_us s) service\<rparr>)"

text \<open>The flag says that the \<open>push_front\<close> throws.\<close>

definition Scheduler_suspend :: "bool \<Rightarrow> time_ns \<Rightarrow> TaskId \<Rightarrow> Scheduler \<Rightarrow> bool \<times> Scheduler" where
  "Scheduler_suspend push_throws now i s =
     (case map_of (tasks s) i of
        None \<Rightarrow> (False, s)
      | Some t \<Rightarrow>
          if task_st t \<noteq> TaskState_kRunning \<or> task_dispatch_sequence t = u64_max \<or>
             i \<notin> set (running_task_ids s)
          then (False, s)
          else (case map_of (tenant_queues s) (spec_tenant_id (task_spec t)) of
            None \<Rightarrow> (False, s)
          | Some q \<Rightarrow>
              if push_throws then (False, s)
              else (True,
                let s1 = record_service now t
                      (set_queue (spec_tenant_id (task_spec t))
                         (q\<lparr>tq_task_ids := i # tq_task_ids q\<rparr>) s);
                    s2 = set_task i (t\<lparr>task_st := TaskState_kQueued, task_queued_at := now\<rparr>) s1
                in s2\<lparr>running_task_ids := remove1 i (running_task_ids s2),
                      queued_task_count := queued_task_count s2 + 1\<rparr>)))"

definition Scheduler_retreat_requested :: "TaskId \<Rightarrow> Scheduler \<Rightarrow> bool" where
  "Scheduler_retreat_requested i s =
     (case map_of (tasks s) i of
        None \<Rightarrow> False
      | Some t \<Rightarrow>
          if scheduling_policy s \<noteq> kPriority \<or> task_dispatch_sequence t = u64_max \<or>
             task_st t \<noteq> TaskState_kRunning
          then False
          else (case peek_priority_task_locked s of
            None \<Rightarrow> False
          | Some j \<Rightarrow>
              (case map_of (tasks s) j of
                 None \<Rightarrow> False
               | Some u \<Rightarrow> spec_priority (task_spec u) > spec_priority (task_spec t))))"

definition finish_running_task_locked ::
  "time_ns \<Rightarrow> TaskId \<Rightarrow> TaskState \<Rightarrow> Scheduler \<Rightarrow> bool \<times> Scheduler" where
  "finish_running_task_locked now i terminal s =
     (case map_of (tasks s) i of
        None \<Rightarrow> (False, s)
      | Some t \<Rightarrow>
          if task_st t \<noteq> TaskState_kRunning \<or> i \<notin> set (running_task_ids s) then (False, s)
          else case ledger_release (quota_ledger s) (spec_memory_bytes (task_spec t)) of
            (released, l) \<Rightarrow>
              if \<not> released then (False, s\<lparr>quota_ledger := l\<rparr>)
              else (True,
                let s1 = set_task i (t\<lparr>task_st := terminal\<rparr>)
                           (record_service now t (s\<lparr>quota_ledger := l\<rparr>))
                in s1\<lparr>running_task_ids := remove1 i (running_task_ids s1)\<rparr>))"

definition cancel_queued_task_locked :: "TaskId \<Rightarrow> TaskRecord \<Rightarrow> Scheduler \<Rightarrow> bool \<times> Scheduler" where
  "cancel_queued_task_locked i t s =
     (let finish = (\<lambda>t' s'. (True,
            remove_task_from_tenant_queue_locked (spec_tenant_id (task_spec t)) i
              (set_task i (t'\<lparr>task_st := TaskState_kCancelled\<rparr>)
                 (s'\<lparr>queued_task_count := queued_task_count s' - 1\<rparr>))))
      in case task_reservation t of
           None \<Rightarrow> (False, s)
         | Some r \<Rightarrow>
             if task_dispatch_sequence t \<noteq> 0
             then case ledger_release (quota_ledger s) (spec_memory_bytes (task_spec t)) of
               (released, l) \<Rightarrow>
                 if \<not> released then (False, s\<lparr>quota_ledger := l\<rparr>)
                 else finish t (s\<lparr>quota_ledger := l\<rparr>)
             else if \<not> res_active r then (False, s)
             else case reservation_cancel (quota_ledger s) r of
               (r', l) \<Rightarrow>
                 let t' = t\<lparr>task_reservation := Some r'\<rparr>; s' = s\<lparr>quota_ledger := l\<rparr> in
                 if res_active r' then (False, set_task i t' s') else finish t' s')"

definition Scheduler_complete :: "time_ns \<Rightarrow> TaskId \<Rightarrow> Scheduler \<Rightarrow> bool \<times> Scheduler" where
  "Scheduler_complete now i s = finish_running_task_locked now i TaskState_kCompleted s"

definition Scheduler_fail :: "time_ns \<Rightarrow> TaskId \<Rightarrow> Scheduler \<Rightarrow> bool \<times> Scheduler" where
  "Scheduler_fail now i s = finish_running_task_locked now i TaskState_kFailed s"

definition Scheduler_cancel :: "time_ns \<Rightarrow> TaskId \<Rightarrow> Scheduler \<Rightarrow> bool \<times> Scheduler" where
  "Scheduler_cancel now i s =
     (case map_of (tasks s) i of
        None \<Rightarrow> (False, s)
      | Some t \<Rightarrow>
          if task_st t = TaskState_kQueued then cancel_queued_task_locked i t s
          else if task_st t \<noteq> TaskState_kRunning then (False, s)
          else finish_running_task_locked now i TaskState_kCancelled s)"

definition Scheduler_cancel_queued :: "TaskId \<Rightarrow> Scheduler \<Rightarrow> bool \<times> Scheduler" where
  "Scheduler_cancel_queued i s =
     (case map_of (tasks s) i of
        None \<Rightarrow> (False, s)
      | Some t \<Rightarrow>
          if task_st t \<noteq> TaskState_kQueued then (False, s) else cancel_queued_task_locked i t s)"

text \<open>Erasing the record destroys its reservation, which cancels it when still active.\<close>

definition Scheduler_forget :: "TaskId \<Rightarrow> Scheduler \<Rightarrow> bool \<times> Scheduler" where
  "Scheduler_forget i s =
     (case map_of (tasks s) i of
        None \<Rightarrow> (False, s)
      | Some t \<Rightarrow>
          if task_st t = TaskState_kQueued \<or> task_st t = TaskState_kRunning then (False, s)
          else (True,
            s\<lparr>tasks := AList.delete i (tasks s),
              quota_ledger := (case task_reservation t of
                                 None \<Rightarrow> quota_ledger s
                               | Some r \<Rightarrow> reservation_destroy (quota_ledger s) r)\<rparr>))"

section \<open>Queries and configuration\<close>

definition Scheduler_find :: "TaskId \<Rightarrow> Scheduler \<Rightarrow> TaskSnapshot option" where
  "Scheduler_find i s = map_option (snapshot_locked i) (map_of (tasks s) i)"

definition Scheduler_task_state :: "TaskId \<Rightarrow> Scheduler \<Rightarrow> TaskState option" where
  "Scheduler_task_state i s = map_option task_st (map_of (tasks s) i)"

definition Scheduler_set_priority_reserved_slots :: "size_t \<Rightarrow> Scheduler \<Rightarrow> bool \<times> Scheduler" where
  "Scheduler_set_priority_reserved_slots n s =
     (if scheduling_policy s \<noteq> kPriority then (False, s)
      else (True, s\<lparr>priority_reserved_slots := min n (max_running_tasks s)\<rparr>))"

definition Scheduler_usage :: "Scheduler \<Rightarrow> QuotaUsage" where
  "Scheduler_usage s = ledger_usage (quota_ledger s)"

definition count_state :: "TaskState \<Rightarrow> Scheduler \<Rightarrow> nat" where
  "count_state st s = length (filter (\<lambda>(_, t). task_st t = st) (tasks s))"

definition Scheduler_stats :: "Scheduler \<Rightarrow> SchedulerStats" where
  "Scheduler_stats s =
     \<lparr>stats_quota = ledger_usage (quota_ledger s),
      stats_total_task_count = length (tasks s),
      stats_queued_task_count = queued_task_count s,
      stats_running_task_count = length (running_task_ids s),
      stats_completed_task_count = count_state TaskState_kCompleted s,
      stats_cancelled_task_count = count_state TaskState_kCancelled s,
      stats_failed_task_count = count_state TaskState_kFailed s,
      stats_max_running_tasks = max_running_tasks s,
      stats_max_queued_tasks = max_queued_tasks s,
      stats_priority_reserved_slots = priority_reserved_slots s,
      stats_priority_reservation_threshold = priority_reservation_threshold s,
      stats_priority_reservation_active =
        (priority_reserved_slots s \<noteq> 0 \<and> scheduling_policy s = kPriority),
      stats_scheduling_policy = scheduling_policy s,
      stats_total_queue_wait_microseconds = total_queue_wait_us s,
      stats_max_queue_wait_microseconds = max_queue_wait_us s,
      stats_total_service_time_microseconds = total_service_time_us s,
      stats_max_service_time_microseconds = max_service_time_us s\<rparr>"

definition Scheduler_queued_task_count :: "Scheduler \<Rightarrow> size_t" where
  "Scheduler_queued_task_count s = queued_task_count s"

definition Scheduler_running_task_count :: "Scheduler \<Rightarrow> nat" where
  "Scheduler_running_task_count s = length (running_task_ids s)"

end
