(* ===== verification/SchedulerPolicies.thy ===== *)
theory SchedulerPolicies
  imports SchedulerCore
begin

text \<open>
  The four dispatch policies behind one interface. \<open>queues_ok\<close> is what the tenant queues
  promise; the locale \<open>dispatch_policy\<close> is what a policy promises in return: selecting
  dequeues one queued task and touches nothing but the round-robin bookkeeping, and the
  read-only peek names exactly the task that selecting would take. The FIFO, priority,
  weighted and deficit policies and the switch over them are instances.
\<close>

section \<open>Well-formed queues\<close>

definition q_ids :: "Scheduler \<Rightarrow> TenantId \<Rightarrow> TaskId list" where
  "q_ids s tn = (case map_of (tenant_queues s) tn of None \<Rightarrow> [] | Some q \<Rightarrow> tq_task_ids q)"

definition q_weight :: "Scheduler \<Rightarrow> TenantId \<Rightarrow> u32 option" where
  "q_weight s tn = map_option tq_weight (map_of (tenant_queues s) tn)"

definition queued_for :: "Scheduler \<Rightarrow> TenantId \<Rightarrow> TaskId \<Rightarrow> bool" where
  "queued_for s tn i \<longleftrightarrow>
     (\<exists>t. map_of (tasks s) i = Some t \<and> task_st t = TaskState_kQueued \<and>
          spec_tenant_id (task_spec t) = tn)"

definition queues_ok :: "Scheduler \<Rightarrow> bool" where
  "queues_ok s \<longleftrightarrow>
     keys_distinct (tenant_queues s) \<and>
     distinct (tenant_order s) \<and>
     set (tenant_order s) = dom (map_of (tenant_queues s)) \<and>
     (tenant_cursor s = 0 \<or> tenant_cursor s < length (tenant_order s)) \<and>
     (\<forall>tn. distinct (q_ids s tn)) \<and>
     (\<forall>tn i. i \<in> set (q_ids s tn) \<longleftrightarrow> queued_for s tn i)"

lemma queues_okD:
  assumes "queues_ok s"
  shows "keys_distinct (tenant_queues s)" and "distinct (tenant_order s)"
    and "set (tenant_order s) = dom (map_of (tenant_queues s))"
    and "tenant_cursor s = 0 \<or> tenant_cursor s < length (tenant_order s)"
    and "distinct (q_ids s tn)" and "i \<in> set (q_ids s tn) \<longleftrightarrow> queued_for s tn i"
  using assms by (auto simp: queues_ok_def)

lemma q_ids_Some [simp]: "map_of (tenant_queues s) tn = Some q \<Longrightarrow> q_ids s tn = tq_task_ids q"
  by (simp add: q_ids_def)

lemma task_queued_iff: "task_queued (tasks s) i \<longleftrightarrow> (\<exists>tn. queued_for s tn i)"
  by (auto simp: task_queued_def queued_for_def split: option.splits)

lemma queued_for_unique: "queued_for s tn i \<Longrightarrow> queued_for s tn' i \<Longrightarrow> tn = tn'"
  by (auto simp: queued_for_def)

lemma queue_all_queued:
  "queues_ok s \<Longrightarrow> map_of (tenant_queues s) tn = Some q \<Longrightarrow> i \<in> set (tq_task_ids q) \<Longrightarrow>
   task_queued (tasks s) i"
  using queues_okD(6) [of s i tn] by (auto simp: task_queued_iff)

lemma queued_in_some_queue:
  "queues_ok s \<Longrightarrow> task_queued (tasks s) i \<Longrightarrow>
   \<exists>tn q. map_of (tenant_queues s) tn = Some q \<and> i \<in> set (tq_task_ids q) \<and> tn \<in> set (tenant_order s)"
proof -
  assume ok: "queues_ok s" and "task_queued (tasks s) i"
  then obtain tn where "i \<in> set (q_ids s tn)"
    by (auto simp: task_queued_iff queues_okD(6))
  then obtain q where "map_of (tenant_queues s) tn = Some q" "i \<in> set (tq_task_ids q)"
    by (cases "map_of (tenant_queues s) tn") (auto simp: q_ids_def)
  with queues_okD(3) [OF ok] show ?thesis by blast
qed

text \<open>What a selection leaves untouched, and the two outcomes of a selection.\<close>

definition rr_frame :: "Scheduler \<Rightarrow> Scheduler \<Rightarrow> bool" where
  "rr_frame s s' \<longleftrightarrow>
     s' = s\<lparr>tenant_queues := tenant_queues s', tenant_cursor := tenant_cursor s',
            tenant_budget := tenant_budget s', queued_task_count := queued_task_count s'\<rparr> \<and>
     map fst (tenant_queues s') = map fst (tenant_queues s) \<and>
     q_weight s' = q_weight s \<and>
     (tenant_cursor s' = 0 \<or> tenant_cursor s' < length (tenant_order s))"

definition dequeued :: "TaskId \<Rightarrow> Scheduler \<Rightarrow> Scheduler \<Rightarrow> bool" where
  "dequeued i s s' \<longleftrightarrow>
     rr_frame s s' \<and> task_queued (tasks s) i \<and>
     queued_task_count s' = queued_task_count s - 1 \<and>
     (\<forall>tn. q_ids s' tn = remove1 i (q_ids s tn))"

definition idle_round :: "Scheduler \<Rightarrow> Scheduler \<Rightarrow> bool" where
  "idle_round s s' \<longleftrightarrow>
     rr_frame s s' \<and> queued_task_count s' = queued_task_count s \<and> q_ids s' = q_ids s"

lemma rr_frameD:
  assumes "rr_frame s s'"
  shows "tasks s' = tasks s" and "quota_ledger s' = quota_ledger s"
    and "next_task_id s' = next_task_id s"
    and "next_dispatch_sequence s' = next_dispatch_sequence s"
    and "tenant_order s' = tenant_order s" and "scheduling_policy s' = scheduling_policy s"
    and "max_running_tasks s' = max_running_tasks s"
    and "max_queued_tasks s' = max_queued_tasks s"
    and "priority_reserved_slots s' = priority_reserved_slots s"
    and "priority_reservation_threshold s' = priority_reservation_threshold s"
    and "running_task_ids s' = running_task_ids s"
proof -
  from assms have eq:
    "s' = s\<lparr>tenant_queues := tenant_queues s', tenant_cursor := tenant_cursor s',
            tenant_budget := tenant_budget s', queued_task_count := queued_task_count s'\<rparr>"
    by (simp add: rr_frame_def)
  show "tasks s' = tasks s" by (subst eq) simp
  show "quota_ledger s' = quota_ledger s" by (subst eq) simp
  show "next_task_id s' = next_task_id s" by (subst eq) simp
  show "next_dispatch_sequence s' = next_dispatch_sequence s" by (subst eq) simp
  show "tenant_order s' = tenant_order s" by (subst eq) simp
  show "scheduling_policy s' = scheduling_policy s" by (subst eq) simp
  show "max_running_tasks s' = max_running_tasks s" by (subst eq) simp
  show "max_queued_tasks s' = max_queued_tasks s" by (subst eq) simp
  show "priority_reserved_slots s' = priority_reserved_slots s" by (subst eq) simp
  show "priority_reservation_threshold s' = priority_reservation_threshold s" by (subst eq) simp
  show "running_task_ids s' = running_task_ids s" by (subst eq) simp
qed

lemma rr_frame_queues:
  assumes "rr_frame s s'"
  shows "map fst (tenant_queues s') = map fst (tenant_queues s)" and "q_weight s' = q_weight s"
    and "tenant_cursor s' = 0 \<or> tenant_cursor s' < length (tenant_order s)"
  using assms unfolding rr_frame_def by blast+

lemma rr_frame_refl: "queues_ok s \<Longrightarrow> rr_frame s s"
  by (auto simp: rr_frame_def queues_ok_def)

lemma rr_frame_trans:
  assumes "rr_frame s s'" and "rr_frame s' s''"
  shows "rr_frame s s''"
proof -
  from assms have eq: "s' = s\<lparr>tenant_queues := tenant_queues s', tenant_cursor := tenant_cursor s',
            tenant_budget := tenant_budget s', queued_task_count := queued_task_count s'\<rparr>"
    and eq': "s'' = s'\<lparr>tenant_queues := tenant_queues s'', tenant_cursor := tenant_cursor s'',
            tenant_budget := tenant_budget s'', queued_task_count := queued_task_count s''\<rparr>"
    by (simp_all add: rr_frame_def)
  have "s'' = s\<lparr>tenant_queues := tenant_queues s'', tenant_cursor := tenant_cursor s'',
            tenant_budget := tenant_budget s'', queued_task_count := queued_task_count s''\<rparr>"
    by (subst eq', subst eq) simp
  with assms show ?thesis
    by (simp add: rr_frame_def rr_frameD(5) [OF assms(1)])
qed

lemma map_fst_eq_dom: "map fst m = map fst m' \<Longrightarrow> dom (map_of m) = dom (map_of m')"
  by (simp add: dom_map_of_conv_image_fst) (metis list.set_map)

lemma idle_round_queues_ok:
  assumes ok: "queues_ok s" and idle: "idle_round s s'"
  shows "queues_ok s'"
proof -
  from idle have f: "rr_frame s s'" and ids: "q_ids s' = q_ids s"
    by (auto simp: idle_round_def)
  from f have k: "map fst (tenant_queues s') = map fst (tenant_queues s)"
    and c: "tenant_cursor s' = 0 \<or> tenant_cursor s' < length (tenant_order s)"
    by (auto simp: rr_frame_def)
  have "queued_for s' tn i = queued_for s tn i" for tn i
    by (simp add: queued_for_def rr_frameD [OF f])
  with ok ids k c show ?thesis
    by (simp add: queues_ok_def rr_frameD(5) [OF f] map_fst_eq_dom [OF k])
qed

lemma idle_round_trans: "idle_round s s' \<Longrightarrow> idle_round s' s'' \<Longrightarrow> idle_round s s''"
  unfolding idle_round_def by (auto intro: rr_frame_trans)

lemma idle_round_dequeued: "idle_round s s' \<Longrightarrow> dequeued i s' s'' \<Longrightarrow> dequeued i s s''"
  unfolding idle_round_def dequeued_def by (auto intro: rr_frame_trans dest: rr_frameD(1))

section \<open>The policy interface\<close>

locale dispatch_policy =
  fixes peek :: "Scheduler \<Rightarrow> TaskId option"
    and select :: "Scheduler \<Rightarrow> TaskId option \<times> Scheduler"
  assumes select_Some: "queues_ok s \<Longrightarrow> select s = (Some i, s') \<Longrightarrow> dequeued i s s'"
    and select_None: "queues_ok s \<Longrightarrow> select s = (None, s') \<Longrightarrow> idle_round s s'"
    and peek_select: "queues_ok s \<Longrightarrow> peek s = fst (select s)"
begin

lemma peek_queued: "queues_ok s \<Longrightarrow> peek s = Some i \<Longrightarrow> task_queued (tasks s) i"
  using select_Some [of s i "snd (select s)"] peek_select [of s]
  by (cases "select s") (auto simp: dequeued_def)

lemma select_frame: "queues_ok s \<Longrightarrow> select s = (r, s') \<Longrightarrow> rr_frame s s'"
  by (cases r) (auto dest: select_Some select_None simp: dequeued_def idle_round_def)

lemma peek_None_idle: "queues_ok s \<Longrightarrow> peek s = None \<Longrightarrow> idle_round s (snd (select s))"
  using select_None [of s "snd (select s)"] peek_select [of s] by (cases "select s") auto

end

text \<open>A work-conserving policy selects a task whenever one is queued.\<close>

locale work_conserving = dispatch_policy +
  assumes conserving: "queues_ok s \<Longrightarrow> task_queued (tasks s) i \<Longrightarrow> peek s \<noteq> None"
begin

lemma peek_None_iff: "queues_ok s \<Longrightarrow> peek s = None \<longleftrightarrow> (\<forall>i. \<not> task_queued (tasks s) i)"
  using conserving peek_queued by (metis not_None_eq)

end

section \<open>Scans over all queues\<close>

definition all_ids :: "Scheduler \<Rightarrow> TaskId list" where
  "all_ids s = concat (map (tq_task_ids \<circ> snd) (tenant_queues s))"

lemma fold_queues:
  "fold (\<lambda>(_, q) acc. fold f (tq_task_ids q) acc) qs a =
     fold f (concat (map (tq_task_ids \<circ> snd) qs)) a"
  by (induction qs arbitrary: a) auto

lemma set_all_ids: "queues_ok s \<Longrightarrow> set (all_ids s) = {i. task_queued (tasks s) i}"
proof -
  assume ok: "queues_ok s"
  have "i \<in> set (all_ids s) \<longleftrightarrow> task_queued (tasks s) i" for i
  proof
    assume "i \<in> set (all_ids s)"
    then obtain tn q where "(tn, q) \<in> set (tenant_queues s)" "i \<in> set (tq_task_ids q)"
      by (auto simp: all_ids_def)
    moreover from this ok have "map_of (tenant_queues s) tn = Some q"
      by (auto intro: map_of_is_SomeI simp: queues_ok_def)
    ultimately show "task_queued (tasks s) i"
      using ok queue_all_queued by blast
  next
    assume "task_queued (tasks s) i"
    with ok obtain tn q where "map_of (tenant_queues s) tn = Some q" "i \<in> set (tq_task_ids q)"
      using queued_in_some_queue by blast
    then show "i \<in> set (all_ids s)"
      by (force simp: all_ids_def dest: map_of_SomeD)
  qed
  then show ?thesis by auto
qed

text \<open>
  A scan keeps the best candidate seen so far. \<open>scan_best R S acc\<close> says that \<open>acc\<close> is the
  \<open>R\<close>-least element of the set \<open>S\<close> of candidates seen, if there is one.
\<close>

definition scan_best :: "('a \<Rightarrow> 'a \<Rightarrow> bool) \<Rightarrow> 'a set \<Rightarrow> 'a option \<Rightarrow> bool" where
  "scan_best R S acc = (case acc of None \<Rightarrow> S = {} | Some i \<Rightarrow> i \<in> S \<and> (\<forall>j \<in> S. R i j))"

lemma scan_fold:
  assumes "\<And>S x acc. I S acc \<Longrightarrow> I (S \<union> {y. y = x \<and> P y}) (f x acc)"
  shows "I S acc \<Longrightarrow> I (S \<union> {x \<in> set xs. P x}) (fold f xs acc)"
proof (induction xs arbitrary: S acc)
  case (Cons x xs)
  have "S \<union> {y \<in> set (x # xs). P y} = (S \<union> {y. y = x \<and> P y}) \<union> {y \<in> set xs. P y}" by auto
  moreover have "I (S \<union> {y. y = x \<and> P y} \<union> {y \<in> set xs. P y}) (fold f xs (f x acc))"
    by (rule Cons.IH, rule assms, rule Cons.prems)
  ultimately show ?case by simp
qed simp

lemma scan_best_unique:
  assumes "\<And>i j. R i j \<Longrightarrow> R j i \<Longrightarrow> i = j" and "scan_best R S acc"
  shows "acc = Some i \<longleftrightarrow> i \<in> S \<and> (\<forall>j \<in> S. R i j)" and "acc = None \<longleftrightarrow> S = {}"
  using assms by (auto simp: scan_best_def split: option.splits)

lemma peek_fifo_best: "queues_ok s \<Longrightarrow> scan_best (\<le>) {i. task_queued (tasks s) i} (peek_fifo_task_locked s)"
proof -
  assume ok: "queues_ok s"
  let ?f = "\<lambda>i sel. if task_queued (tasks s) i \<and> (case sel of None \<Rightarrow> True | Some j \<Rightarrow> i < j)
                    then Some i else sel"
  have "scan_best (\<le>) ({} \<union> {i \<in> set (all_ids s). task_queued (tasks s) i}) (fold ?f (all_ids s) None)"
    by (rule scan_fold [where I = "scan_best (\<le>)"])
      (auto simp: scan_best_def split: option.splits if_splits)
  with set_all_ids [OF ok] show ?thesis
    unfolding peek_fifo_task_locked_def fold_queues all_ids_def [symmetric] by simp
qed

definition prio_of :: "Scheduler \<Rightarrow> TaskId \<Rightarrow> u32" where
  "prio_of s i = (case map_of (tasks s) i of None \<Rightarrow> 0 | Some t \<Rightarrow> spec_priority (task_spec t))"

definition prio_before :: "Scheduler \<Rightarrow> TaskId \<Rightarrow> TaskId \<Rightarrow> bool" where
  "prio_before s i j \<longleftrightarrow> prio_of s j < prio_of s i \<or> prio_of s j = prio_of s i \<and> i \<le> j"

lemma prio_before_antisym: "prio_before s i j \<Longrightarrow> prio_before s j i \<Longrightarrow> i = j"
  by (auto simp: prio_before_def)

lemma prio_before_refl [simp]: "prio_before s i i"
  by (simp add: prio_before_def)

lemma prio_before_trans: "prio_before s i j \<Longrightarrow> prio_before s j k \<Longrightarrow> prio_before s i k"
  by (auto simp: prio_before_def)

lemma priority_scan_step_best:
  assumes "scan_best (prio_before s) S (map_option fst acc)"
    and "\<And>j p. acc = Some (j, p) \<Longrightarrow> p = prio_of s j"
  shows "scan_best (prio_before s) (S \<union> {y. y = x \<and> task_queued (tasks s) y})
           (map_option fst (priority_scan_step (tasks s) x acc))"
    and "\<And>j p. priority_scan_step (tasks s) x acc = Some (j, p) \<Longrightarrow> p = prio_of s j"
proof -
  show "p = prio_of s j" if "priority_scan_step (tasks s) x acc = Some (j, p)" for j p
    using that assms(2)
    by (auto simp: priority_scan_step_def prio_of_def Let_def split: option.splits if_splits)
  show "scan_best (prio_before s) (S \<union> {y. y = x \<and> task_queued (tasks s) y})
           (map_option fst (priority_scan_step (tasks s) x acc))"
  proof (cases "task_queued (tasks s) x")
    case False
    then have "priority_scan_step (tasks s) x acc = acc"
      by (auto simp: priority_scan_step_def task_queued_def split: option.splits)
    moreover from False have "{y. y = x \<and> task_queued (tasks s) y} = {}" by auto
    ultimately show ?thesis using assms(1) by (simp only: Un_empty_right)
  next
    case True
    then have step: "priority_scan_step (tasks s) x acc =
        (case acc of None \<Rightarrow> Some (x, prio_of s x)
         | Some (j, pj) \<Rightarrow> if prio_of s x < pj \<or> prio_of s x = pj \<and> x > j then acc
                          else Some (x, prio_of s x))"
      by (auto simp: priority_scan_step_def task_queued_def prio_of_def Let_def split: option.splits)
    show ?thesis
    proof (cases acc)
      case None
      with True assms(1) step show ?thesis by (auto simp: scan_best_def)
    next
      case (Some a)
      obtain j p where a: "a = (j, p)" by (cases a)
      have p: "p = prio_of s j" using assms(2) Some a by blast
      from assms(1) Some a have j: "j \<in> S" "\<forall>k \<in> S. prio_before s j k"
        by (auto simp: scan_best_def)
      show ?thesis
      proof (cases "prio_of s x < prio_of s j \<or> prio_of s x = prio_of s j \<and> x > j")
        case True
        then have "prio_before s j x" by (auto simp: prio_before_def)
        with True step Some a p j show ?thesis by (auto simp: scan_best_def)
      next
        case False
        then have "prio_before s x j" by (auto simp: prio_before_def)
        with False step Some a p j \<open>task_queued (tasks s) x\<close> show ?thesis
          by (auto simp: scan_best_def intro: prio_before_trans)
      qed
    qed
  qed
qed

lemma peek_priority_best:
  assumes ok: "queues_ok s"
  shows "scan_best (prio_before s) {i. task_queued (tasks s) i} (peek_priority_task_locked s)"
proof -
  let ?I = "\<lambda>S acc. scan_best (prio_before s) S (map_option fst acc) \<and>
              (\<forall>j p. acc = Some (j, p) \<longrightarrow> p = prio_of s j)"
  have "?I ({} \<union> {i \<in> set (all_ids s). task_queued (tasks s) i})
          (fold (priority_scan_step (tasks s)) (all_ids s) None)"
  proof (rule scan_fold [where I = ?I])
    show "?I (S \<union> {y. y = x \<and> task_queued (tasks s) y}) (priority_scan_step (tasks s) x acc)"
      if "?I S acc" for S x acc
      using that priority_scan_step_best [of s S acc x] by blast
  qed (simp add: scan_best_def)
  with set_all_ids [OF ok] show ?thesis
    unfolding peek_priority_task_locked_def fold_queues all_ids_def [symmetric] by simp
qed

lemma peek_fifo_iff:
  assumes "queues_ok s"
  shows "peek_fifo_task_locked s = Some i \<longleftrightarrow>
      task_queued (tasks s) i \<and> (\<forall>j. task_queued (tasks s) j \<longrightarrow> i \<le> j)"
    and "peek_fifo_task_locked s = None \<longleftrightarrow> (\<forall>j. \<not> task_queued (tasks s) j)"
  using scan_best_unique [OF _ peek_fifo_best [OF assms]] by auto

lemma peek_priority_iff:
  assumes "queues_ok s"
  shows "peek_priority_task_locked s = Some i \<longleftrightarrow>
      task_queued (tasks s) i \<and> (\<forall>j. task_queued (tasks s) j \<longrightarrow> prio_before s i j)"
    and "peek_priority_task_locked s = None \<longleftrightarrow> (\<forall>j. \<not> task_queued (tasks s) j)"
  using scan_best_unique [OF _ peek_priority_best [OF assms]] prio_before_antisym by auto

section \<open>Dequeueing from one tenant\<close>

lemma q_ids_update:
  "tenant_queues s' = AList.update tn q (tenant_queues s) \<Longrightarrow>
   q_ids s' tn' = (if tn' = tn then tq_task_ids q else q_ids s tn')"
  by (simp add: q_ids_def)

lemma q_weight_update:
  "tenant_queues s' = AList.update tn q' (tenant_queues s) \<Longrightarrow>
   map_of (tenant_queues s) tn = Some q \<Longrightarrow> tq_weight q' = tq_weight q \<Longrightarrow> q_weight s' = q_weight s"
  by (auto simp: q_weight_def fun_eq_iff)

lemma dequeued_from:
  assumes ok: "queues_ok s" and q: "map_of (tenant_queues s) tn = Some q"
    and i: "i \<in> set (tq_task_ids q)"
    and q': "tq_task_ids q' = remove1 i (tq_task_ids q)" "tq_weight q' = tq_weight q"
    and s': "s' = s\<lparr>tenant_queues := AList.update tn q' (tenant_queues s), tenant_cursor := c,
                    tenant_budget := b, queued_task_count := queued_task_count s - 1\<rparr>"
    and c: "c < length (tenant_order s)"
  shows "dequeued i s s'"
proof -
  have tq: "tenant_queues s' = AList.update tn q' (tenant_queues s)" by (simp add: s')
  have keys: "map fst (tenant_queues s') = map fst (tenant_queues s)"
    using q by (simp add: tq keys_update_present)
  have here: "queued_for s tn i" using ok q i queues_okD(6) by force
  have "remove1 i (q_ids s tn') = q_ids s tn'" if "tn' \<noteq> tn" for tn'
    using that here queues_okD(6) [OF ok] queued_for_unique remove1_idem by metis
  then have "q_ids s' tn' = remove1 i (q_ids s tn')" for tn'
    using q q' by (simp add: q_ids_update [OF tq])
  moreover have "rr_frame s s'"
    using keys c q_weight_update [OF tq q q'(2)] by (simp add: rr_frame_def s')
  moreover have "task_queued (tasks s) i"
    using queue_all_queued [OF ok q i] .
  ultimately show ?thesis by (simp add: dequeued_def s')
qed

lemma idle_round_cursor:
  assumes "queues_ok s" and "c < length (tenant_order s)"
  shows "idle_round s (s\<lparr>tenant_cursor := c, tenant_budget := b\<rparr>)"
  using assms by (auto simp: idle_round_def rr_frame_def q_ids_def q_weight_def fun_eq_iff)

lemma idle_round_deficit:
  assumes "queues_ok s" and "map_of (tenant_queues s) tn = Some q"
    and "tq_task_ids q' = tq_task_ids q" "tq_weight q' = tq_weight q"
    and "c < length (tenant_order s)"
  shows "idle_round s (s\<lparr>tenant_queues := AList.update tn q' (tenant_queues s),
                         tenant_cursor := c, tenant_budget := b\<rparr>)"
  using assms
  by (auto simp: idle_round_def rr_frame_def q_ids_def q_weight_def fun_eq_iff keys_update_present)

section \<open>FIFO and strict priority\<close>

lemma select_peeked_Some:
  assumes ok: "queues_ok s" and i: "task_queued (tasks s) i"
  obtains s' where "select_peeked (Some i) s = (Some i, s')" and "dequeued i s s'"
proof -
  from i obtain t where t: "map_of (tasks s) i = Some t" "task_st t = TaskState_kQueued"
    by (auto simp: task_queued_def split: option.splits)
  let ?tn = "spec_tenant_id (task_spec t)"
  have "queued_for s ?tn i" using t by (simp add: queued_for_def)
  then have "i \<in> set (q_ids s ?tn)" using queues_okD(6) [OF ok] by simp
  then obtain q where q: "map_of (tenant_queues s) ?tn = Some q" "i \<in> set (tq_task_ids q)"
    by (cases "map_of (tenant_queues s) ?tn") (auto simp: q_ids_def)
  let ?q = "q\<lparr>tq_task_ids := remove1 i (tq_task_ids q)\<rparr>"
  let ?s = "s\<lparr>tenant_queues := AList.update ?tn ?q (tenant_queues s),
              queued_task_count := queued_task_count s - 1\<rparr>"
  have "?tn \<in> set (tenant_order s)" using q queues_okD(3) [OF ok] by auto
  then have c: "tenant_cursor s < length (tenant_order s)"
    using queues_okD(4) [OF ok] by auto
  have "dequeued i s ?s"
    by (rule dequeued_from [OF ok q(1,2), where q' = ?q and c = "tenant_cursor s" and
          b = "tenant_budget s"]) (simp_all add: c)
  moreover have "select_peeked (Some i) s = (Some i, ?s)"
    using t q by (simp add: select_peeked_def remove_task_from_tenant_queue_locked_def set_queue_def)
  ultimately show thesis by (rule that [rotated])
qed

lemma select_peeked_policy:
  assumes "\<And>s i. queues_ok s \<Longrightarrow> peek s = Some i \<Longrightarrow> task_queued (tasks s) i"
  shows "dispatch_policy peek (\<lambda>s. select_peeked (peek s) s)"
proof
  fix s i s'
  assume ok: "queues_ok s" and sel: "select_peeked (peek s) s = (Some i, s')"
  then obtain j where "peek s = Some j" by (auto simp: select_peeked_def split: option.splits)
  with ok sel assms show "dequeued i s s'" by (metis Pair_inject option.inject select_peeked_Some)
next
  fix s s'
  assume ok: "queues_ok s" and sel: "select_peeked (peek s) s = (None, s')"
  then have "peek s = None"
    using assms select_peeked_Some by (metis Pair_inject not_None_eq)
  with sel ok show "idle_round s s'"
    by (simp add: select_peeked_def idle_round_def rr_frame_refl)
next
  fix s
  assume ok: "queues_ok s"
  show "peek s = fst (select_peeked (peek s) s)"
  proof (cases "peek s")
    case None
    then show ?thesis by (simp add: select_peeked_def)
  next
    case (Some i)
    with ok assms have "task_queued (tasks s) i" by blast
    with ok Some show ?thesis by (metis fst_conv select_peeked_Some)
  qed
qed

interpretation fifo: work_conserving peek_fifo_task_locked select_fifo_task_locked
proof -
  have p: "dispatch_policy peek_fifo_task_locked select_fifo_task_locked"
    unfolding select_fifo_task_locked_def
    by (rule select_peeked_policy) (simp add: peek_fifo_iff)
  show "work_conserving peek_fifo_task_locked select_fifo_task_locked"
    using p by (rule work_conserving.intro) (unfold_locales, auto simp: peek_fifo_iff)
qed

interpretation prio: work_conserving peek_priority_task_locked select_priority_task_locked
proof -
  have p: "dispatch_policy peek_priority_task_locked select_priority_task_locked"
    unfolding select_priority_task_locked_def
    by (rule select_peeked_policy) (simp add: peek_priority_iff)
  show "work_conserving peek_priority_task_locked select_priority_task_locked"
    using p by (rule work_conserving.intro) (unfold_locales, auto simp: peek_priority_iff)
qed

end
