(* ===== verification/SchedulerRoundRobin.thy ===== *)
theory SchedulerRoundRobin
  imports SchedulerPolicies
begin

text \<open>
  The two round-robin policies as instances of the policy interface. Both loops make at
  most one attempt per tenant from the cursor on. The weighted loop finds a task whenever
  one is queued; the deficit loop may instead spend the round on adding one quantum to
  every tenant that has work.
\<close>

section \<open>Facts shared by both loops\<close>

lemma cursor_in_range: "queues_ok s \<Longrightarrow> tenant_order s \<noteq> [] \<Longrightarrow> tenant_cursor s < length (tenant_order s)"
  by (auto simp: queues_ok_def)

lemma tenant_queue_at:
  assumes "queues_ok s" and "c < length (tenant_order s)"
  obtains q where "map_of (tenant_queues s) (tenant_order s ! c) = Some q"
proof -
  have "tenant_order s ! c \<in> dom (map_of (tenant_queues s))"
    using assms queues_okD(3) by (metis nth_mem)
  with that show thesis by blast
qed

lemma advance_conv:
  "tenant_order s \<noteq> [] \<Longrightarrow> advance_tenant_locked s =
     s\<lparr>tenant_cursor := (tenant_cursor s + 1) mod length (tenant_order s), tenant_budget := 0\<rparr>"
  by (simp add: advance_tenant_locked_def)

lemma find_queue_head:
  "queues_ok s \<Longrightarrow> map_of (tenant_queues s) tn = Some q \<Longrightarrow>
   find (task_queued (tasks s)) (tq_task_ids q) = (case tq_task_ids q of [] \<Rightarrow> None | i # _ \<Rightarrow> Some i)"
  using queue_all_queued [of s tn q] by (cases "tq_task_ids q") auto

lemma pop_queue_head:
  "queues_ok s \<Longrightarrow> map_of (tenant_queues s) tn = Some q \<Longrightarrow>
   pop_queued (tasks s) (tq_task_ids q) =
     (case tq_task_ids q of [] \<Rightarrow> (None, []) | i # is \<Rightarrow> (Some i, is))"
  using queue_all_queued [of s tn q] by (cases "tq_task_ids q") auto

lemma drop_queue_head:
  "queues_ok s \<Longrightarrow> map_of (tenant_queues s) tn = Some q \<Longrightarrow>
   dropWhile (\<lambda>i. \<not> task_queued (tasks s) i) (tq_task_ids q) = tq_task_ids q"
  using queue_all_queued [of s tn q] by (cases "tq_task_ids q") auto

lemma mod_next: "(c + Suc k) mod n = ((c + 1) mod n + k) mod (n::nat)"
  by (simp add: mod_simps)

lemma every_tenant_visited:
  assumes "c < length xs" and "x \<in> set xs"
  obtains k where "k < length xs" and "x = xs ! ((c + k) mod length xs)"
proof -
  from assms(2) obtain j where j: "j < length xs" "x = xs ! j"
    by (metis in_set_conv_nth)
  show thesis
  proof (cases "c \<le> j")
    case True
    show thesis by (rule that [of "j - c"]) (use j True in auto)
  next
    case False
    have "(c + (length xs + j - c)) mod length xs = j" using j assms(1) False by simp
    with j False assms(1) show thesis by (intro that [of "length xs + j - c"]) auto
  qed
qed

lemma all_queues_empty:
  assumes ok: "queues_ok s" and ne: "tenant_order s \<noteq> []"
    and empty: "\<forall>k < length (tenant_order s).
        q_ids s (tenant_order s ! ((tenant_cursor s + k) mod length (tenant_order s))) = []"
  shows "\<not> task_queued (tasks s) i"
proof
  assume "task_queued (tasks s) i"
  with ok obtain tn q where q: "map_of (tenant_queues s) tn = Some q" "i \<in> set (tq_task_ids q)"
      "tn \<in> set (tenant_order s)"
    using queued_in_some_queue by blast
  obtain k where "k < length (tenant_order s)"
      "tn = tenant_order s ! ((tenant_cursor s + k) mod length (tenant_order s))"
    using every_tenant_visited [OF cursor_in_range [OF ok ne] q(3)] by blast
  with empty q show False by (metis empty_iff list.set(1) q_ids_Some)
qed

lemma no_tenant_no_task: "queues_ok s \<Longrightarrow> tenant_order s = [] \<Longrightarrow> \<not> task_queued (tasks s) i"
  using queued_in_some_queue by fastforce

section \<open>Weighted round robin\<close>

lemma peek_wrr_cong:
  "tenant_order s' = tenant_order s \<Longrightarrow> tenant_queues s' = tenant_queues s \<Longrightarrow> tasks s' = tasks s \<Longrightarrow>
   peek_wrr_loop a c s' = peek_wrr_loop a c s"
  by (induction a arbitrary: c) (auto simp: Let_def split: option.splits)

lemma wrr_skip:
  assumes ok: "queues_ok s" and ne: "tenant_order s \<noteq> []"
    and q: "map_of (tenant_queues s) (tenant_order s ! tenant_cursor s) = Some q"
    and empty: "tq_task_ids q = []"
  shows "select_wrr_loop (Suc a) s = select_wrr_loop a (advance_tenant_locked s)"
    and "peek_wrr_loop (Suc a) (tenant_cursor s) s =
           peek_wrr_loop a (tenant_cursor (advance_tenant_locked s)) (advance_tenant_locked s)"
proof -
  note c = cursor_in_range [OF ok ne]
  have "set_queue (tenant_order s ! tenant_cursor s) (q\<lparr>tq_task_ids := []\<rparr>) s = s"
    using q empty by (simp add: set_queue_def update_same)
  then show "select_wrr_loop (Suc a) s = select_wrr_loop a (advance_tenant_locked s)"
    using c q empty by (simp add: Let_def)
  show "peek_wrr_loop (Suc a) (tenant_cursor s) s =
      peek_wrr_loop a (tenant_cursor (advance_tenant_locked s)) (advance_tenant_locked s)"
    using c q empty ne by (simp add: Let_def advance_conv) (rule peek_wrr_cong [symmetric], simp_all)
qed

lemma wrr_take:
  assumes ok: "queues_ok s" and ne: "tenant_order s \<noteq> []"
    and q: "map_of (tenant_queues s) (tenant_order s ! tenant_cursor s) = Some q"
    and head: "tq_task_ids q = i # rest"
  shows "\<exists>s'. select_wrr_loop (Suc a) s = (Some i, s') \<and> dequeued i s s'"
    and "peek_wrr_loop (Suc a) (tenant_cursor s) s = Some i"
proof -
  let ?tn = "tenant_order s ! tenant_cursor s"
  let ?q = "q\<lparr>tq_task_ids := rest\<rparr>"
  let ?b = "(if tenant_budget s = 0 then tq_weight q else tenant_budget s) - 1"
  let ?adv = "?b = 0 \<or> rest = []"
  let ?c' = "if ?adv then (tenant_cursor s + 1) mod length (tenant_order s) else tenant_cursor s"
  let ?b' = "if ?adv then 0 else ?b"
  let ?s = "s\<lparr>tenant_queues := AList.update ?tn ?q (tenant_queues s),
              tenant_cursor := ?c', tenant_budget := ?b',
              queued_task_count := queued_task_count s - 1\<rparr>"
  note c = cursor_in_range [OF ok ne]
  have i: "task_queued (tasks s) i" using queue_all_queued [OF ok q] head by simp
  have "select_wrr_loop (Suc a) s = (Some i, ?s)"
    using c q head i ne by (simp add: Let_def set_queue_def advance_conv)
  moreover have "dequeued i s ?s"
    by (rule dequeued_from [OF ok q, where q' = ?q and c = ?c' and b = ?b']) (use head c ne in auto)
  ultimately show "\<exists>s'. select_wrr_loop (Suc a) s = (Some i, s') \<and> dequeued i s s'" by blast
  show "peek_wrr_loop (Suc a) (tenant_cursor s) s = Some i"
    using c q head i by (simp add: Let_def)
qed

lemma advance_idle: "queues_ok s \<Longrightarrow> tenant_order s \<noteq> [] \<Longrightarrow> idle_round s (advance_tenant_locked s)"
  by (simp add: advance_conv idle_round_cursor)

lemma wrr_loop:
  assumes "queues_ok s" and "tenant_order s \<noteq> []"
  shows "case select_wrr_loop a s of
           (Some i, s') \<Rightarrow> dequeued i s s' \<and> peek_wrr_loop a (tenant_cursor s) s = Some i
         | (None, s') \<Rightarrow> idle_round s s' \<and> peek_wrr_loop a (tenant_cursor s) s = None \<and>
             (\<forall>k < a. q_ids s (tenant_order s ! ((tenant_cursor s + k) mod length (tenant_order s))) = [])"
  using assms
proof (induction a arbitrary: s)
  case 0
  then show ?case by (simp add: idle_round_def rr_frame_refl)
next
  case (Suc a)
  note ok = Suc.prems(1) and ne = Suc.prems(2)
  obtain q where q: "map_of (tenant_queues s) (tenant_order s ! tenant_cursor s) = Some q"
    using tenant_queue_at [OF ok cursor_in_range [OF ok ne]] by blast
  show ?case
  proof (cases "tq_task_ids q")
    case (Cons i rest)
    from wrr_take [OF ok ne q Cons, of a] show ?thesis by auto
  next
    case Nil
    let ?s = "advance_tenant_locked s"
    note skip = wrr_skip [OF ok ne q Nil, of a]
    note idle = advance_idle [OF ok ne]
    have ok': "queues_ok ?s" using idle_round_queues_ok [OF ok idle] .
    have ne': "tenant_order ?s = tenant_order s" using ne by (simp add: advance_conv)
    have here: "q_ids s (tenant_order s ! tenant_cursor s) = []" using q Nil by simp
    have ids: "q_ids ?s = q_ids s" using idle by (simp add: idle_round_def)
    have cur: "tenant_cursor ?s = (tenant_cursor s + 1) mod length (tenant_order s)"
      using ne by (simp add: advance_conv)
    have IH: "case select_wrr_loop a ?s of
           (Some i, s') \<Rightarrow> dequeued i ?s s' \<and> peek_wrr_loop a (tenant_cursor ?s) ?s = Some i
         | (None, s') \<Rightarrow> idle_round ?s s' \<and> peek_wrr_loop a (tenant_cursor ?s) ?s = None \<and>
             (\<forall>k < a. q_ids s (tenant_order s ! ((tenant_cursor ?s + k) mod length (tenant_order s))) = [])"
      using Suc.IH [OF ok', unfolded ne' ids, OF ne] .
    have shift: "(tenant_cursor s + Suc k) mod length (tenant_order s) =
        (tenant_cursor ?s + k) mod length (tenant_order s)" for k
      unfolding cur by (rule mod_next)
    have all: "(\<forall>k < Suc a. q_ids s (tenant_order s ! ((tenant_cursor s + k) mod length (tenant_order s))) = [])
       \<longleftrightarrow> (\<forall>k < a. q_ids s (tenant_order s ! ((tenant_cursor ?s + k) mod length (tenant_order s))) = [])"
      using here cursor_in_range [OF ok ne]
      by (simp only: All_less_Suc2 shift) simp
    show ?thesis
      using IH skip all
      by (auto split: prod.splits option.splits
          intro: idle_round_dequeued [OF idle] idle_round_trans [OF idle])
  qed
qed

interpretation wrr: work_conserving peek_weighted_round_robin_task_locked
    select_weighted_round_robin_task_locked
proof
  fix s i s'
  assume "queues_ok s" "select_weighted_round_robin_task_locked s = (Some i, s')"
  then show "dequeued i s s'"
    using wrr_loop [of s "length (tenant_order s)"]
    by (auto simp: select_weighted_round_robin_task_locked_def split: if_splits)
next
  fix s s'
  assume "queues_ok s" "select_weighted_round_robin_task_locked s = (None, s')"
  then show "idle_round s s'"
    using wrr_loop [of s "length (tenant_order s)"]
    by (auto simp: select_weighted_round_robin_task_locked_def idle_round_def rr_frame_refl
        split: if_splits)
next
  fix s
  assume "queues_ok s"
  then show "peek_weighted_round_robin_task_locked s = fst (select_weighted_round_robin_task_locked s)"
    using wrr_loop [of s "length (tenant_order s)"]
    by (auto simp: select_weighted_round_robin_task_locked_def
        peek_weighted_round_robin_task_locked_def split: prod.splits option.splits)
next
  fix s i
  assume ok: "queues_ok s" and i: "task_queued (tasks s) i"
  then have ne: "tenant_order s \<noteq> []" using no_tenant_no_task by blast
  show "peek_weighted_round_robin_task_locked s \<noteq> None"
    using wrr_loop [OF ok ne, of "length (tenant_order s)"] all_queues_empty [OF ok ne] i ne
    by (auto simp: peek_weighted_round_robin_task_locked_def split: prod.splits option.splits)
qed

section \<open>Deficit round robin\<close>

lemma add_quantum_simps [simp]:
  "tq_task_ids (add_quantum q) = tq_task_ids q" "tq_weight (add_quantum q) = tq_weight q"
  by (simp_all add: add_quantum_def Let_def)

lemma peek_drr_cong:
  assumes "tenant_order s' = tenant_order s" and "tasks s' = tasks s" and "c < length (tenant_order s)"
    and "\<And>k. k < a \<Longrightarrow>
        map_of (tenant_queues s') (tenant_order s ! ((c + k) mod length (tenant_order s))) =
        map_of (tenant_queues s) (tenant_order s ! ((c + k) mod length (tenant_order s)))"
  shows "peek_drr_loop a c s' = peek_drr_loop a c s"
  using assms(3,4)
proof (induction a arbitrary: c)
  case (Suc a)
  let ?n = "length (tenant_order s)"
  have "map_of (tenant_queues s') (tenant_order s ! (((c + 1) mod ?n + k) mod ?n)) =
        map_of (tenant_queues s) (tenant_order s ! (((c + 1) mod ?n + k) mod ?n))" if "k < a" for k
    using Suc.prems(2) [of "Suc k"] that by (simp only: mod_next not_less_eq Suc_less_eq)
  moreover have "(c + 1) mod ?n < ?n" using Suc.prems(1) by (intro mod_less_divisor) linarith
  ultimately have "peek_drr_loop a ((c + 1) mod ?n) s' = peek_drr_loop a ((c + 1) mod ?n) s"
    by (intro Suc.IH)
  moreover have "map_of (tenant_queues s') (tenant_order s ! c) = map_of (tenant_queues s) (tenant_order s ! c)"
    using Suc.prems(2) [of 0] Suc.prems(1) by simp
  ultimately show ?case using assms(1,2) by (simp add: Let_def split: option.splits)
qed simp

lemma visited_ne:
  assumes "k < a" and "Suc a \<le> n" and "c < (n::nat)"
  shows "((c + 1) mod n + k) mod n \<noteq> c"
proof -
  have "(c + Suc k) mod n \<noteq> c" using assms by (auto simp: mod_if)
  then show ?thesis unfolding mod_next .
qed

lemma tq_task_ids_self: "tq_task_ids q = xs \<Longrightarrow> q\<lparr>tq_task_ids := xs\<rparr> = q"
  by (cases q) simp

text \<open>What one attempt does at the cursor, by the three cases of the source.\<close>

definition drr_bumped :: "TenantQueue \<Rightarrow> TenantQueue" where
  "drr_bumped q = (if tq_task_ids q = [] then q else add_quantum q)"

lemma drr_pass:
  assumes ok: "queues_ok s" and ne: "tenant_order s \<noteq> []"
    and q: "map_of (tenant_queues s) (tenant_order s ! tenant_cursor s) = Some q"
    and pass: "tq_task_ids q = [] \<or> tq_deficit q < task_cost (tasks s) (hd (tq_task_ids q))"
  defines "s1 \<equiv> advance_tenant_locked (set_queue (tenant_order s ! tenant_cursor s) (drr_bumped q) s)"
  shows "select_drr_loop (Suc a) s = select_drr_loop a s1"
    and "peek_drr_loop (Suc a) (tenant_cursor s) s = peek_drr_loop a (tenant_cursor s1) s"
    and "idle_round s s1"
    and "tenant_queues s1 = AList.update (tenant_order s ! tenant_cursor s) (drr_bumped q) (tenant_queues s)"
    and "tenant_cursor s1 = (tenant_cursor s + 1) mod length (tenant_order s)"
proof -
  let ?tn = "tenant_order s ! tenant_cursor s"
  note c = cursor_in_range [OF ok ne]
  have s1: "s1 = s\<lparr>tenant_queues := AList.update ?tn (drr_bumped q) (tenant_queues s),
                   tenant_cursor := (tenant_cursor s + 1) mod length (tenant_order s),
                   tenant_budget := 0\<rparr>"
    unfolding s1_def using ne by (simp add: set_queue_def advance_conv)
  show "idle_round s s1"
    unfolding s1 by (rule idle_round_deficit [OF ok q]) (use c ne in \<open>auto simp: drr_bumped_def\<close>)
  show "tenant_queues s1 = AList.update ?tn (drr_bumped q) (tenant_queues s)"
    and cur: "tenant_cursor s1 = (tenant_cursor s + 1) mod length (tenant_order s)"
    by (simp_all add: s1)
  show "select_drr_loop (Suc a) s = select_drr_loop a s1"
    using pass c q drop_queue_head [OF ok q]
    by (cases "tq_task_ids q") (auto simp: Let_def s1_def drr_bumped_def tq_task_ids_self)
  show "peek_drr_loop (Suc a) (tenant_cursor s) s = peek_drr_loop a (tenant_cursor s1) s"
    using pass c q find_queue_head [OF ok q]
    by (cases "tq_task_ids q") (auto simp: Let_def cur)
qed

lemma drr_take:
  assumes ok: "queues_ok s" and ne: "tenant_order s \<noteq> []"
    and q: "map_of (tenant_queues s) (tenant_order s ! tenant_cursor s) = Some q"
    and head: "tq_task_ids q = i # rest" and funds: "\<not> tq_deficit q < task_cost (tasks s) i"
  shows "\<exists>s'. select_drr_loop (Suc a) s = (Some i, s') \<and> dequeued i s s'"
    and "peek_drr_loop (Suc a) (tenant_cursor s) s = Some i"
proof -
  let ?tn = "tenant_order s ! tenant_cursor s"
  let ?q = "q\<lparr>tq_task_ids := rest, tq_deficit := tq_deficit q - task_cost (tasks s) i\<rparr>"
  let ?s = "s\<lparr>tenant_queues := AList.update ?tn ?q (tenant_queues s),
              tenant_cursor := (tenant_cursor s + 1) mod length (tenant_order s),
              tenant_budget := 0, queued_task_count := queued_task_count s - 1\<rparr>"
  note c = cursor_in_range [OF ok ne]
  have "select_drr_loop (Suc a) s = (Some i, ?s)"
    using c q head funds ne drop_queue_head [OF ok q]
    by (simp add: Let_def set_queue_def advance_conv)
  moreover have "dequeued i s ?s"
    by (rule dequeued_from [OF ok q, where q' = ?q and b = 0 and
          c = "(tenant_cursor s + 1) mod length (tenant_order s)"]) (use head c ne in auto)
  ultimately show "\<exists>s'. select_drr_loop (Suc a) s = (Some i, s') \<and> dequeued i s s'" by blast
  show "peek_drr_loop (Suc a) (tenant_cursor s) s = Some i"
    using c q head funds find_queue_head [OF ok q] by (simp add: Let_def not_less)
qed

text \<open>
  After an idle round every visited tenant with work has gained one quantum and every
  other queue is as before.
\<close>

definition drr_progress :: "nat \<Rightarrow> Scheduler \<Rightarrow> Scheduler \<Rightarrow> bool" where
  "drr_progress a s s' \<longleftrightarrow>
     (\<forall>tn. map_of (tenant_queues s') tn =
        map_option (if \<exists>k < a. tn = tenant_order s ! ((tenant_cursor s + k) mod length (tenant_order s))
                    then drr_bumped else id)
          (map_of (tenant_queues s) tn))"

lemma drr_loop:
  assumes "queues_ok s" and "tenant_order s \<noteq> []" and "a \<le> length (tenant_order s)"
  shows "case select_drr_loop a s of
           (Some i, s') \<Rightarrow> dequeued i s s' \<and> peek_drr_loop a (tenant_cursor s) s = Some i
         | (None, s') \<Rightarrow> idle_round s s' \<and> peek_drr_loop a (tenant_cursor s) s = None \<and> drr_progress a s s'"
  using assms
proof (induction a arbitrary: s)
  case 0
  then show ?case by (simp add: idle_round_def rr_frame_refl drr_progress_def option.map_id)
next
  case (Suc a)
  note ok = Suc.prems(1) and ne = Suc.prems(2)
  let ?n = "length (tenant_order s)"
  let ?tn = "tenant_order s ! tenant_cursor s"
  note c = cursor_in_range [OF ok ne]
  obtain q where q: "map_of (tenant_queues s) ?tn = Some q"
    using tenant_queue_at [OF ok c] by blast
  show ?case
  proof (cases "tq_task_ids q = [] \<or> tq_deficit q < task_cost (tasks s) (hd (tq_task_ids q))")
    case False
    then obtain i rest where "tq_task_ids q = i # rest" "\<not> tq_deficit q < task_cost (tasks s) i"
      by (cases "tq_task_ids q") auto
    from drr_take [OF ok ne q this, of a] show ?thesis by auto
  next
    case True
    define s1 where "s1 = advance_tenant_locked (set_queue ?tn (drr_bumped q) s)"
    note pass = drr_pass [OF ok ne q True, folded s1_def]
    note idle = pass(3)
    have frame: "rr_frame s s1" using idle by (simp add: idle_round_def)
    have ok1: "queues_ok s1" using idle_round_queues_ok [OF ok idle] .
    have ord: "tenant_order s1 = tenant_order s" using rr_frameD(5) [OF frame] .
    have elsewhere: "tenant_order s ! ((tenant_cursor s1 + k) mod ?n) \<noteq> ?tn" if "k < a" for k
      using visited_ne [OF that Suc.prems(3) c] c ne queues_okD(2) [OF ok]
      unfolding pass(5) by (simp add: nth_eq_iff_index_eq)
    then have other: "map_of (tenant_queues s1) (tenant_order s ! ((tenant_cursor s1 + k) mod ?n)) =
        map_of (tenant_queues s) (tenant_order s ! ((tenant_cursor s1 + k) mod ?n))" if "k < a" for k
      using that by (simp add: pass(4))
    have peek: "peek_drr_loop a (tenant_cursor s1) s1 = peek_drr_loop a (tenant_cursor s1) s"
      by (rule peek_drr_cong) (use other ord ne rr_frameD(1) [OF frame] in \<open>auto simp: pass(5)\<close>)
    have progress: "drr_progress (Suc a) s s'" if p: "drr_progress a s1 s'" for s'
      unfolding drr_progress_def
    proof
      fix tn
      have idx: "(\<exists>k < Suc a. tn = tenant_order s ! ((tenant_cursor s + k) mod ?n)) \<longleftrightarrow>
          tn = ?tn \<or> (\<exists>k < a. tn = tenant_order s ! ((tenant_cursor s1 + k) mod ?n))"
        using c by (simp only: Ex_less_Suc2 mod_next pass(5)) simp
      have notboth: "\<not> (\<exists>k < a. ?tn = tenant_order s ! ((tenant_cursor s1 + k) mod ?n))"
        using elsewhere by metis
      have "map_of (tenant_queues s') tn =
          map_option (if \<exists>k < a. tn = tenant_order s ! ((tenant_cursor s1 + k) mod ?n)
                      then drr_bumped else id) (map_of (tenant_queues s1) tn)"
        using p by (simp add: drr_progress_def ord)
      then show "map_of (tenant_queues s') tn =
        map_option (if \<exists>k < Suc a. tn = tenant_order s ! ((tenant_cursor s + k) mod ?n)
                    then drr_bumped else id) (map_of (tenant_queues s) tn)"
        unfolding idx using notboth q by (cases "tn = ?tn") (simp_all add: pass(4))
    qed
    have "case select_drr_loop a s1 of
           (Some i, s') \<Rightarrow> dequeued i s1 s' \<and> peek_drr_loop a (tenant_cursor s1) s = Some i
         | (None, s') \<Rightarrow> idle_round s1 s' \<and> peek_drr_loop a (tenant_cursor s1) s = None \<and>
             drr_progress a s1 s'"
      using Suc.IH [OF ok1, unfolded ord peek, OF ne] Suc.prems(3) by simp
    then show ?thesis
      using pass(1,2)
      by (auto split: prod.splits option.splits
          intro: idle_round_dequeued [OF idle] idle_round_trans [OF idle] progress)
  qed
qed

interpretation drr: dispatch_policy peek_deficit_round_robin_task_locked
    select_deficit_round_robin_task_locked
proof
  fix s i s'
  assume "queues_ok s" "select_deficit_round_robin_task_locked s = (Some i, s')"
  then show "dequeued i s s'"
    using drr_loop [of s "length (tenant_order s)"]
    by (auto simp: select_deficit_round_robin_task_locked_def split: if_splits)
next
  fix s s'
  assume "queues_ok s" "select_deficit_round_robin_task_locked s = (None, s')"
  then show "idle_round s s'"
    using drr_loop [of s "length (tenant_order s)"]
    by (auto simp: select_deficit_round_robin_task_locked_def idle_round_def rr_frame_refl
        split: if_splits)
next
  fix s
  assume "queues_ok s"
  then show "peek_deficit_round_robin_task_locked s = fst (select_deficit_round_robin_task_locked s)"
    using drr_loop [of s "length (tenant_order s)"]
    by (auto simp: select_deficit_round_robin_task_locked_def
        peek_deficit_round_robin_task_locked_def split: prod.splits option.splits)
qed

text \<open>An idle deficit round raises the deficit of every tenant that has work.\<close>

lemma drr_idle_bumps_all:
  assumes ok: "queues_ok s" and sel: "select_deficit_round_robin_task_locked s = (None, s')"
    and q: "map_of (tenant_queues s) tn = Some q"
  shows "map_of (tenant_queues s') tn = Some (drr_bumped q)"
proof -
  have tn: "tn \<in> set (tenant_order s)" using queues_okD(3) [OF ok] q by auto
  then have ne: "tenant_order s \<noteq> []" by auto
  with sel have "drr_progress (length (tenant_order s)) s s'"
    using drr_loop [OF ok ne, of "length (tenant_order s)"]
    by (auto simp: select_deficit_round_robin_task_locked_def)
  moreover obtain k where "k < length (tenant_order s)"
      "tn = tenant_order s ! ((tenant_cursor s + k) mod length (tenant_order s))"
    using every_tenant_visited [OF cursor_in_range [OF ok ne] tn] by blast
  ultimately show ?thesis using q unfolding drr_progress_def by auto
qed

section \<open>The configured policy\<close>

lemma idle_round_refl: "queues_ok s \<Longrightarrow> idle_round s s"
  by (simp add: idle_round_def rr_frame_refl)

interpretation sel: dispatch_policy peek_next_task_locked select_next_task_locked
proof
  fix s i s'
  assume "queues_ok s" "select_next_task_locked s = (Some i, s')"
  then show "dequeued i s s'"
    by (cases "scheduling_policy s")
      (auto simp: select_next_task_locked_def
        intro: fifo.select_Some prio.select_Some wrr.select_Some drr.select_Some)
next
  fix s s'
  assume "queues_ok s" "select_next_task_locked s = (None, s')"
  then show "idle_round s s'"
    by (cases "scheduling_policy s")
      (auto simp: select_next_task_locked_def idle_round_refl
        intro: fifo.select_None prio.select_None wrr.select_None drr.select_None)
next
  fix s
  assume "queues_ok s"
  then show "peek_next_task_locked s = fst (select_next_task_locked s)"
    by (cases "scheduling_policy s")
      (auto simp: select_next_task_locked_def peek_next_task_locked_def
        fifo.peek_select prio.peek_select wrr.peek_select drr.peek_select)
qed

lemma configured_policy_conserving:
  assumes ok: "queues_ok s" and "task_queued (tasks s) i"
    and "scheduling_policy s \<in> {kFifo, kWeightedRoundRobin, kPriority}"
  shows "peek_next_task_locked s \<noteq> None"
  using assms fifo.conserving wrr.conserving prio.conserving
  by (auto simp: peek_next_task_locked_def)

end
