(* ===== verification/SchedulerInv.thy ===== *)
theory SchedulerInv
  imports SchedulerRoundRobin
begin

text \<open>
  The representation invariant of the scheduler and its preservation by every operation,
  allocation failures included. The invariant ties the four views of a task together: its
  record, its tenant queue, the running list and the bytes the ledger holds for it.
\<close>

section \<open>Field access\<close>

lemma set_task_sel [simp]:
  "quota_ledger (set_task i t s) = quota_ledger s"
  "next_task_id (set_task i t s) = next_task_id s"
  "next_dispatch_sequence (set_task i t s) = next_dispatch_sequence s"
  "tenant_order (set_task i t s) = tenant_order s"
  "tenant_cursor (set_task i t s) = tenant_cursor s"
  "tenant_budget (set_task i t s) = tenant_budget s"
  "scheduling_policy (set_task i t s) = scheduling_policy s"
  "max_running_tasks (set_task i t s) = max_running_tasks s"
  "max_queued_tasks (set_task i t s) = max_queued_tasks s"
  "priority_reserved_slots (set_task i t s) = priority_reserved_slots s"
  "priority_reservation_threshold (set_task i t s) = priority_reservation_threshold s"
  "running_task_ids (set_task i t s) = running_task_ids s"
  "queued_task_count (set_task i t s) = queued_task_count s"
  "tenant_queues (set_task i t s) = tenant_queues s"
  by (simp_all add: set_task_def)

lemma tasks_set_task [simp]: "tasks (set_task i t s) = AList.update i t (tasks s)"
  by (simp add: set_task_def)

lemma set_queue_sel [simp]:
  "quota_ledger (set_queue tn q s) = quota_ledger s"
  "next_task_id (set_queue tn q s) = next_task_id s"
  "next_dispatch_sequence (set_queue tn q s) = next_dispatch_sequence s"
  "tenant_order (set_queue tn q s) = tenant_order s"
  "tenant_cursor (set_queue tn q s) = tenant_cursor s"
  "tenant_budget (set_queue tn q s) = tenant_budget s"
  "scheduling_policy (set_queue tn q s) = scheduling_policy s"
  "max_running_tasks (set_queue tn q s) = max_running_tasks s"
  "max_queued_tasks (set_queue tn q s) = max_queued_tasks s"
  "priority_reserved_slots (set_queue tn q s) = priority_reserved_slots s"
  "priority_reservation_threshold (set_queue tn q s) = priority_reservation_threshold s"
  "running_task_ids (set_queue tn q s) = running_task_ids s"
  "queued_task_count (set_queue tn q s) = queued_task_count s"
  "tasks (set_queue tn q s) = tasks s"
  by (simp_all add: set_queue_def)

lemma tenant_queues_set_queue [simp]:
  "tenant_queues (set_queue tn q s) = AList.update tn q (tenant_queues s)"
  by (simp add: set_queue_def)

lemma record_service_sel [simp]:
  "quota_ledger (record_service now t s) = quota_ledger s"
  "next_task_id (record_service now t s) = next_task_id s"
  "next_dispatch_sequence (record_service now t s) = next_dispatch_sequence s"
  "tenant_order (record_service now t s) = tenant_order s"
  "tenant_cursor (record_service now t s) = tenant_cursor s"
  "tenant_budget (record_service now t s) = tenant_budget s"
  "scheduling_policy (record_service now t s) = scheduling_policy s"
  "max_running_tasks (record_service now t s) = max_running_tasks s"
  "max_queued_tasks (record_service now t s) = max_queued_tasks s"
  "priority_reserved_slots (record_service now t s) = priority_reserved_slots s"
  "priority_reservation_threshold (record_service now t s) = priority_reservation_threshold s"
  "running_task_ids (record_service now t s) = running_task_ids s"
  "queued_task_count (record_service now t s) = queued_task_count s"
  "tenant_queues (record_service now t s) = tenant_queues s"
  "tasks (record_service now t s) = tasks s"
  by (simp_all add: record_service_def Let_def)

lemma q_ids_cong: "tenant_queues s' = tenant_queues s \<Longrightarrow> q_ids s' = q_ids s"
  by (simp add: q_ids_def fun_eq_iff)

lemma q_ids_eta: "q_ids s = (\<lambda>tn. case map_of (tenant_queues s) tn of None \<Rightarrow> [] | Some q \<Rightarrow> tq_task_ids q)"
  by (simp add: q_ids_def fun_eq_iff)

lemma q_weight_eta: "q_weight s = (\<lambda>tn. map_option tq_weight (map_of (tenant_queues s) tn))"
  by (simp add: q_weight_def fun_eq_iff)

lemma q_weight_cong: "tenant_queues s' = tenant_queues s \<Longrightarrow> q_weight s' = q_weight s"
  by (simp add: q_weight_def fun_eq_iff)

section \<open>The invariant\<close>

definition reserved_of :: "TaskRecord \<Rightarrow> nat" where
  "reserved_of t =
     (if task_st t = TaskState_kQueued \<and> task_dispatch_sequence t = 0
      then unat (spec_memory_bytes (task_spec t)) else 0)"

definition allocated_of :: "TaskRecord \<Rightarrow> nat" where
  "allocated_of t =
     (if task_st t = TaskState_kRunning \<or>
         task_st t = TaskState_kQueued \<and> task_dispatch_sequence t \<noteq> 0
      then unat (spec_memory_bytes (task_spec t)) else 0)"

definition queued_one :: "TaskRecord \<Rightarrow> nat" where
  "queued_one t = (if task_st t = TaskState_kQueued then 1 else 0)"

definition spec_valid :: "TaskSpec \<Rightarrow> bool" where
  "spec_valid sp \<longleftrightarrow>
     spec_tenant_id sp \<noteq> [] \<and> spec_memory_bytes sp \<noteq> 0 \<and> spec_weight sp \<noteq> 0 \<and> spec_work_units sp \<noteq> 0"

text \<open>A first-time queued task holds an active reservation for its bytes; no other does.\<close>

definition reservation_ok :: "TaskRecord \<Rightarrow> bool" where
  "reservation_ok t \<longleftrightarrow>
     (\<exists>r. task_reservation t = Some r \<and>
        (if task_st t = TaskState_kQueued \<and> task_dispatch_sequence t = 0
         then r = \<lparr>res_active = True, res_bytes = spec_memory_bytes (task_spec t)\<rparr>
         else \<not> res_active r))"

definition task_ok :: "Scheduler \<Rightarrow> TaskId \<Rightarrow> TaskRecord \<Rightarrow> bool" where
  "task_ok s i t \<longleftrightarrow>
     0 < i \<and> i < next_task_id s \<and> spec_valid (task_spec t) \<and> reservation_ok t \<and>
     (task_st t = TaskState_kRunning \<longrightarrow> task_dispatch_sequence t \<noteq> 0) \<and>
     q_weight s (spec_tenant_id (task_spec t)) = Some (spec_weight (task_spec t))"

definition inv_tasks :: "Scheduler \<Rightarrow> bool" where
  "inv_tasks s \<longleftrightarrow>
     keys_distinct (tasks s) \<and> next_task_id s \<noteq> 0 \<and> next_dispatch_sequence s \<noteq> 0 \<and>
     (\<forall>i t. map_of (tasks s) i = Some t \<longrightarrow> task_ok s i t) \<and>
     (\<forall>tn w. q_weight s tn = Some w \<longrightarrow> w \<noteq> 0)"

definition inv_running :: "Scheduler \<Rightarrow> bool" where
  "inv_running s \<longleftrightarrow>
     distinct (running_task_ids s) \<and>
     (\<forall>i. i \<in> set (running_task_ids s) \<longleftrightarrow>
          (\<exists>t. map_of (tasks s) i = Some t \<and> task_st t = TaskState_kRunning)) \<and>
     length (running_task_ids s) \<le> unat (max_running_tasks s)"

definition inv_accounts :: "Scheduler \<Rightarrow> bool" where
  "inv_accounts s \<longleftrightarrow>
     ledger_ok (quota_ledger s) \<and>
     unat (ledger_reserved (quota_ledger s)) = umap_sum reserved_of (tasks s) \<and>
     unat (ledger_allocated (quota_ledger s)) = umap_sum allocated_of (tasks s) \<and>
     unat (queued_task_count s) = umap_sum queued_one (tasks s)"

definition inv_config :: "Scheduler \<Rightarrow> bool" where
  "inv_config s \<longleftrightarrow>
     1 \<le> max_running_tasks s \<and> priority_reserved_slots s \<le> max_running_tasks s \<and>
     is_supported_scheduling_policy (scheduling_policy s)"

definition sched_inv :: "Scheduler \<Rightarrow> bool" where
  "sched_inv s \<longleftrightarrow> queues_ok s \<and> inv_tasks s \<and> inv_running s \<and> inv_accounts s \<and> inv_config s"

lemma sched_invD:
  assumes "sched_inv s"
  shows "queues_ok s" "inv_tasks s" "inv_running s" "inv_accounts s" "inv_config s"
  using assms by (simp_all add: sched_inv_def)

lemma task_okD:
  assumes "sched_inv s" and "map_of (tasks s) i = Some t"
  shows "task_ok s i t"
  using assms by (simp add: sched_inv_def inv_tasks_def)

text \<open>Task ids are distinct and below the next id, so there are fewer tasks than ids.\<close>

lemma task_count_bound:
  assumes "sched_inv s"
  shows "length (tasks s) < unat (next_task_id s)"
proof -
  let ?ids = "map (unat \<circ> fst) (tasks s)"
  have dk: "keys_distinct (tasks s)" and nz: "next_task_id s \<noteq> 0"
    using sched_invD(2) [OF assms] by (simp_all add: inv_tasks_def)
  have "distinct ?ids"
    using dk unfolding map_map [symmetric]
    by (simp add: distinct_map inj_on_def word_unat_eq_iff)
  then have "length (tasks s) = card (set ?ids)" by (metis distinct_card length_map)
  also have "set ?ids \<subseteq> {1..<unat (next_task_id s)}"
  proof
    fix n assume "n \<in> set ?ids"
    then obtain i t where "(i, t) \<in> set (tasks s)" and n: "n = unat i" by auto
    then have "map_of (tasks s) i = Some t" using dk by simp
    then have "task_ok s i t" using assms by (rule task_okD [rotated])
    then show "n \<in> {1..<unat (next_task_id s)}"
      by (simp add: n task_ok_def word_less_nat_alt Suc_le_eq)
  qed
  then have "card (set ?ids) \<le> card {1..<unat (next_task_id s)}" by (intro card_mono) auto
  finally show ?thesis using nz by (simp add: unat_gt_0) (metis Suc_pred le_imp_less_Suc unat_gt_0)
qed

lemma queued_count_bound:
  assumes "sched_inv s"
  shows "unat (queued_task_count s) < unat (next_task_id s)"
proof -
  have "unat (queued_task_count s) = umap_sum queued_one (tasks s)"
    using sched_invD(4) [OF assms] by (simp add: inv_accounts_def)
  also have "\<dots> \<le> umap_sum (\<lambda>_. 1) (tasks s)"
    by (rule umap_sum_mono) (simp add: queued_one_def)
  also have "\<dots> = length (tasks s)" by (rule umap_sum_const)
  finally show ?thesis using task_count_bound [OF assms] by simp
qed

text \<open>What the ledger holds for one task.\<close>

lemma charged_bytes:
  assumes "sched_inv s" and "map_of (tasks s) i = Some t"
  shows "reserved_of t \<le> unat (ledger_reserved (quota_ledger s))"
    and "allocated_of t \<le> unat (ledger_allocated (quota_ledger s))"
    and "queued_one t \<le> unat (queued_task_count s)"
  using sched_invD(4) [OF assms(1)] umap_sum_ge [OF assms(2)] by (auto simp: inv_accounts_def)

section \<open>One task changes state\<close>

text \<open>
  Every transition of an existing task replaces its record and adjusts the queue, the
  running list, the queued counter and the ledger. \<open>task_transition i t t' s s'\<close> collects
  what such a transition has to do; together with the invariant before, it gives the
  invariant after.
\<close>

definition frame_config :: "Scheduler \<Rightarrow> Scheduler \<Rightarrow> bool" where
  "frame_config s s' \<longleftrightarrow>
     next_task_id s' = next_task_id s \<and> tenant_order s' = tenant_order s \<and>
     scheduling_policy s' = scheduling_policy s \<and> max_running_tasks s' = max_running_tasks s \<and>
     max_queued_tasks s' = max_queued_tasks s \<and>
     priority_reserved_slots s' = priority_reserved_slots s \<and>
     priority_reservation_threshold s' = priority_reservation_threshold s \<and>
     map fst (tenant_queues s') = map fst (tenant_queues s) \<and> q_weight s' = q_weight s \<and>
     (tenant_cursor s' = 0 \<or> tenant_cursor s' < length (tenant_order s))"

definition ledger_moves :: "TaskRecord \<Rightarrow> TaskRecord \<Rightarrow> QuotaLedgerState \<Rightarrow> QuotaLedgerState \<Rightarrow> bool" where
  "ledger_moves t t' l l' \<longleftrightarrow>
     ledger_ok l' \<and> ledger_limit l' = ledger_limit l \<and>
     unat (ledger_reserved l') = unat (ledger_reserved l) - reserved_of t + reserved_of t' \<and>
     unat (ledger_allocated l') = unat (ledger_allocated l) - allocated_of t + allocated_of t'"

definition task_transition :: "TaskId \<Rightarrow> TaskRecord \<Rightarrow> TaskRecord \<Rightarrow> Scheduler \<Rightarrow> Scheduler \<Rightarrow> bool" where
  "task_transition i t t' s s' \<longleftrightarrow>
     frame_config s s' \<and>
     tasks s' = AList.update i t' (tasks s) \<and> task_spec t' = task_spec t \<and> reservation_ok t' \<and>
     (task_st t' = TaskState_kRunning \<longrightarrow> task_dispatch_sequence t' \<noteq> 0) \<and>
     next_dispatch_sequence s' \<noteq> 0 \<and>
     distinct (running_task_ids s') \<and>
     set (running_task_ids s') =
       (if task_st t' = TaskState_kRunning then insert i (set (running_task_ids s))
        else set (running_task_ids s) - {i}) \<and>
     length (running_task_ids s') \<le> unat (max_running_tasks s) \<and>
     (\<forall>tn. distinct (q_ids s' tn)) \<and>
     (\<forall>tn. set (q_ids s' tn) =
        (if task_st t' = TaskState_kQueued \<and> spec_tenant_id (task_spec t) = tn
         then insert i (set (q_ids s tn)) else set (q_ids s tn) - {i})) \<and>
     ledger_moves t t' (quota_ledger s) (quota_ledger s') \<and>
     unat (queued_task_count s') = unat (queued_task_count s) - queued_one t + queued_one t'"

lemma task_transition_inv:
  assumes inv: "sched_inv s" and t: "map_of (tasks s) i = Some t"
    and tr: "task_transition i t t' s s'"
  shows "sched_inv s'"
proof -
  note ok = sched_invD(1) [OF inv]
  from tr have fr: "frame_config s s'" and ts: "tasks s' = AList.update i t' (tasks s)"
    and sp: "task_spec t' = task_spec t"
    by (simp_all add: task_transition_def)
  have lookup: "map_of (tasks s') j = (if j = i then Some t' else map_of (tasks s) j)" for j
    by (simp add: ts)
  have q: "queued_for s' tn j \<longleftrightarrow>
      (if j = i then task_st t' = TaskState_kQueued \<and> spec_tenant_id (task_spec t) = tn
       else queued_for s tn j)" for tn j
    by (simp add: queued_for_def lookup sp)
  have dom: "dom (map_of (tenant_queues s')) = dom (map_of (tenant_queues s))"
    using fr by (intro map_fst_eq_dom) (simp add: frame_config_def)
  have "queues_ok s'"
    using tr fr queues_okD [OF ok]
    by (simp add: queues_ok_def q frame_config_def task_transition_def dom)
  moreover have "inv_tasks s'"
    using tr fr sched_invD(2) [OF inv] t
    by (auto simp: inv_tasks_def task_transition_def frame_config_def task_ok_def lookup sp)
  moreover have "inv_running s'"
    using tr fr sched_invD(3) [OF inv]
    by (auto simp: inv_running_def task_transition_def frame_config_def lookup)
  moreover have "inv_accounts s'"
    using tr sched_invD(4) [OF inv]
    by (simp add: inv_accounts_def task_transition_def ledger_moves_def ts umap_sum_update [OF t])
  moreover have "inv_config s'"
    using fr sched_invD(5) [OF inv] by (simp add: inv_config_def frame_config_def)
  ultimately show ?thesis by (simp add: sched_inv_def)
qed

lemma idle_round_inv:
  assumes inv: "sched_inv s" and idle: "idle_round s s'"
  shows "sched_inv s'"
proof -
  have fr: "rr_frame s s'" and cnt: "queued_task_count s' = queued_task_count s"
    using idle by (simp_all add: idle_round_def)
  note same = rr_frameD [OF fr]
  have "task_ok s' i t = task_ok s i t" for i t
    by (simp add: task_ok_def same rr_frame_queues [OF fr])
  then have "inv_tasks s'" "inv_running s'" "inv_accounts s'" "inv_config s'"
    using sched_invD(2-5) [OF inv] cnt
    by (simp_all add: inv_tasks_def inv_running_def inv_accounts_def inv_config_def same
        rr_frame_queues [OF fr])
  with idle_round_queues_ok [OF sched_invD(1) [OF inv] idle] show ?thesis
    by (simp add: sched_inv_def)
qed

section \<open>The life of a task\<close>

fun next_states :: "TaskState \<Rightarrow> TaskState list" where
  "next_states TaskState_kQueued = [TaskState_kRunning, TaskState_kCancelled, TaskState_kFailed]"
| "next_states TaskState_kRunning =
     [TaskState_kQueued, TaskState_kCompleted, TaskState_kCancelled, TaskState_kFailed]"
| "next_states TaskState_kCompleted = []"
| "next_states TaskState_kCancelled = []"
| "next_states TaskState_kFailed = []"

text \<open>
  What dispatch, suspension, completion and cancellation may do: nothing, turn the round
  robin, or move one task to a next state of its life.
\<close>

inductive lifecycle :: "Scheduler \<Rightarrow> Scheduler \<Rightarrow> bool" where
  same: "lifecycle s s"
| turned: "idle_round s s' \<Longrightarrow> lifecycle s s'"
| moved: "map_of (tasks s) i = Some t \<Longrightarrow> task_transition i t t' s s' \<Longrightarrow>
    task_st t' \<in> set (next_states (task_st t)) \<Longrightarrow> lifecycle s s'"

lemma lifecycle_inv: "lifecycle s s' \<Longrightarrow> sched_inv s \<Longrightarrow> sched_inv s'"
  by (induction rule: lifecycle.induct) (auto intro: idle_round_inv task_transition_inv)

end
