(* ===== verification/SchedulerDispatch.thy ===== *)
theory SchedulerDispatch
  imports SchedulerInv
begin

text \<open>
  Dispatch in terms of the invariant: what \<open>dispatch_next\<close> and \<open>dispatch_task\<close> return, which
  transition they perform, and that the invariant holds afterwards, on the success path and
  when an allocation fails half way.
\<close>

section \<open>Ledger moves of a single task\<close>

lemma queued_taskE:
  assumes "sched_inv s" and "task_queued (tasks s) i"
  obtains t where "map_of (tasks s) i = Some t" and "task_st t = TaskState_kQueued"
    and "task_ok s i t"
  using assms task_okD by (auto simp: task_queued_def split: option.splits)

lemma first_reservation:
  assumes "reservation_ok t" and "task_st t = TaskState_kQueued" and "task_dispatch_sequence t = 0"
  shows "task_reservation t = Some \<lparr>res_active = True, res_bytes = spec_memory_bytes (task_spec t)\<rparr>"
  using assms by (auto simp: reservation_ok_def)

lemma first_commit:
  assumes inv: "sched_inv s" and t: "map_of (tasks s) i = Some t"
    and st: "task_st t = TaskState_kQueued" and first: "task_dispatch_sequence t = 0"
    and t': "task_st t' = TaskState_kRunning" "task_spec t' = task_spec t"
  obtains l' where
    "reservation_commit (quota_ledger s)
       \<lparr>res_active = True, res_bytes = spec_memory_bytes (task_spec t)\<rparr> = (True, inactive_reservation, l')"
    and "ledger_moves t t' (quota_ledger s) l'"
proof -
  have ok: "ledger_ok (quota_ledger s)"
    using sched_invD(4) [OF inv] by (simp add: inv_accounts_def)
  have le: "unat (spec_memory_bytes (task_spec t)) \<le> unat (ledger_reserved (quota_ledger s))"
    using charged_bytes(1) [OF inv t] st first by (simp add: reserved_of_def)
  obtain l' where "commit_reservation (quota_ledger s) (spec_memory_bytes (task_spec t)) = (True, l')"
    "ledger_limit l' = ledger_limit (quota_ledger s)"
    "unat (ledger_reserved l') =
       unat (ledger_reserved (quota_ledger s)) - unat (spec_memory_bytes (task_spec t))"
    "unat (ledger_allocated l') =
       unat (ledger_allocated (quota_ledger s)) + unat (spec_memory_bytes (task_spec t))"
    "ledger_ok l'"
    by (rule commit_reservation_ok [OF ok le])
  then show thesis
    using st first t'
    by (intro that [of l'])
      (simp_all add: reservation_commit_def ledger_moves_def reserved_of_def allocated_of_def)
qed

lemma first_cancel:
  assumes inv: "sched_inv s" and t: "map_of (tasks s) i = Some t"
    and st: "task_st t = TaskState_kQueued" and first: "task_dispatch_sequence t = 0"
    and t': "task_st t' \<noteq> TaskState_kQueued" "task_st t' \<noteq> TaskState_kRunning"
  obtains l' where
    "reservation_cancel (quota_ledger s)
       \<lparr>res_active = True, res_bytes = spec_memory_bytes (task_spec t)\<rparr> = (inactive_reservation, l')"
    and "ledger_moves t t' (quota_ledger s) l'"
proof -
  have ok: "ledger_ok (quota_ledger s)"
    using sched_invD(4) [OF inv] by (simp add: inv_accounts_def)
  have le: "unat (spec_memory_bytes (task_spec t)) \<le> unat (ledger_reserved (quota_ledger s))"
    using charged_bytes(1) [OF inv t] st first by (simp add: reserved_of_def)
  obtain l' where "cancel_reservation (quota_ledger s) (spec_memory_bytes (task_spec t)) = (True, l')"
    "ledger_limit l' = ledger_limit (quota_ledger s)"
    "ledger_allocated l' = ledger_allocated (quota_ledger s)"
    "unat (ledger_reserved l') =
       unat (ledger_reserved (quota_ledger s)) - unat (spec_memory_bytes (task_spec t))"
    "ledger_ok l'"
    by (rule cancel_reservation_ok [OF ok le])
  then show thesis
    using st first t'
    by (intro that [of l'])
      (simp_all add: reservation_cancel_def ledger_moves_def reserved_of_def allocated_of_def)
qed

lemma charged_release:
  assumes inv: "sched_inv s" and t: "map_of (tasks s) i = Some t"
    and charged: "allocated_of t = unat (spec_memory_bytes (task_spec t))" "reserved_of t = 0"
    and t': "task_st t' \<noteq> TaskState_kQueued" "task_st t' \<noteq> TaskState_kRunning"
  obtains l' where
    "ledger_release (quota_ledger s) (spec_memory_bytes (task_spec t)) = (True, l')"
    and "ledger_moves t t' (quota_ledger s) l'"
proof -
  have ok: "ledger_ok (quota_ledger s)"
    using sched_invD(4) [OF inv] by (simp add: inv_accounts_def)
  have le: "unat (spec_memory_bytes (task_spec t)) \<le> unat (ledger_allocated (quota_ledger s))"
    using charged_bytes(2) [OF inv t] charged by simp
  obtain l' where "ledger_release (quota_ledger s) (spec_memory_bytes (task_spec t)) = (True, l')"
    "ledger_limit l' = ledger_limit (quota_ledger s)"
    "ledger_reserved l' = ledger_reserved (quota_ledger s)"
    "unat (ledger_allocated l') =
       unat (ledger_allocated (quota_ledger s)) - unat (spec_memory_bytes (task_spec t))"
    "ledger_ok l'"
    by (rule ledger_release_ok [OF ok le])
  then show thesis
    using charged t'
    by (intro that [of l']) (simp_all add: ledger_moves_def reserved_of_def allocated_of_def)
qed

lemma same_charge_moves:
  assumes "sched_inv s" and "map_of (tasks s) i = Some t"
    and "reserved_of t' = reserved_of t" and "allocated_of t' = allocated_of t"
  shows "ledger_moves t t' (quota_ledger s) (quota_ledger s)"
  using assms charged_bytes [OF assms(1,2)] sched_invD(4) [OF assms(1)]
  by (simp add: ledger_moves_def inv_accounts_def)

section \<open>Dispatch\<close>

lemma frame_config_rr: "rr_frame s s' \<Longrightarrow> frame_config s s'"
  by (simp add: frame_config_def rr_frameD rr_frame_queues)

lemma frame_config_refl: "queues_ok s \<Longrightarrow> frame_config s s"
  by (auto simp: frame_config_def queues_ok_def)

lemma dequeued_transition:
  assumes inv: "sched_inv s" and deq: "dequeued i s s1" and t: "map_of (tasks s) i = Some t"
    and st: "task_st t = TaskState_kQueued"
    and s': "frame_config s1 s'" "tasks s' = AList.update i t' (tasks s)" "q_ids s' = q_ids s1"
      "queued_task_count s' = queued_task_count s1" "next_dispatch_sequence s' \<noteq> 0"
    and t': "task_spec t' = task_spec t" "reservation_ok t'" "task_st t' \<noteq> TaskState_kQueued"
      "task_st t' = TaskState_kRunning \<longrightarrow> task_dispatch_sequence t' \<noteq> 0"
    and run: "running_task_ids s' =
        (if task_st t' = TaskState_kRunning then running_task_ids s @ [i] else running_task_ids s)"
      "task_st t' = TaskState_kRunning \<longrightarrow> length (running_task_ids s) < unat (max_running_tasks s)"
    and l: "ledger_moves t t' (quota_ledger s) (quota_ledger s')"
  shows "task_transition i t t' s s'"
proof -
  note ok = sched_invD(1) [OF inv]
  from deq have fr: "rr_frame s s1" and cnt: "queued_task_count s1 = queued_task_count s - 1"
    and ids: "\<And>tn. q_ids s1 tn = remove1 i (q_ids s tn)"
    by (auto simp: dequeued_def)
  have cfg: "frame_config s s'"
    using frame_config_rr [OF fr] s'(1) by (auto simp: frame_config_def)
  have i: "i \<notin> set (running_task_ids s)"
    using sched_invD(3) [OF inv] t st by (auto simp: inv_running_def)
  have "1 \<le> unat (queued_task_count s)"
    using charged_bytes(3) [OF inv t] st by (simp add: queued_one_def)
  then have "queued_task_count s \<noteq> 0" by (metis not_one_le_zero unat_0)
  then have count: "unat (queued_task_count s') = unat (queued_task_count s) - 1"
    using s'(4) cnt by (simp add: unat_pred)
  have q: "distinct (q_ids s' tn)" "set (q_ids s' tn) = set (q_ids s tn) - {i}" for tn
    using queues_okD(5) [OF ok, of tn] by (simp_all add: s'(3) ids)
  have r: "distinct (running_task_ids s')"
    "set (running_task_ids s') = (if task_st t' = TaskState_kRunning
       then insert i (set (running_task_ids s)) else set (running_task_ids s) - {i})"
    "length (running_task_ids s') \<le> unat (max_running_tasks s)"
    using run i sched_invD(3) [OF inv] by (simp_all add: inv_running_def Suc_le_eq)
  show ?thesis
    unfolding task_transition_def
    using cfg s'(2,5) t' l q r count st by (simp add: queued_one_def)
qed

definition dispatched_record :: "time_ns \<Rightarrow> Scheduler \<Rightarrow> TaskRecord \<Rightarrow> TaskRecord" where
  "dispatched_record now s t =
     t\<lparr>task_st := TaskState_kRunning,
       task_reservation := Some (if task_dispatch_sequence t = 0 then inactive_reservation
                                 else the (task_reservation t)),
       task_dispatch_sequence := next_dispatch_sequence s, task_running_at := now\<rparr>"

lemma dispatch_commit_ok:
  assumes "(if task_dispatch_sequence t \<noteq> 0 then (True, r, quota_ledger s)
            else reservation_commit (quota_ledger s) r) = (True, r', l)"
  shows "dispatch_commit now i t r s =
    (Some ((snapshot_locked i t)\<lparr>snap_state := TaskState_kRunning,
           snap_dispatch_sequence := next_dispatch_sequence s\<rparr>),
     set_task i (t\<lparr>task_st := TaskState_kRunning, task_reservation := Some r',
         task_dispatch_sequence := next_dispatch_sequence s, task_running_at := now\<rparr>)
       (s\<lparr>running_task_ids := running_task_ids s @ [i], quota_ledger := l,
          next_dispatch_sequence := (if next_dispatch_sequence s \<noteq> u64_max
             then next_dispatch_sequence s + 1 else next_dispatch_sequence s),
          total_queue_wait_us :=
            saturating_add (elapsed_us (task_queued_at t) now) (total_queue_wait_us s),
          max_queue_wait_us := max (max_queue_wait_us s) (elapsed_us (task_queued_at t) now)\<rparr>))"
  using assms by (cases "task_dispatch_sequence t = 0") (clarsimp simp: dispatch_commit_def Let_def)+

text \<open>Without an allocation failure a dispatch always succeeds: the commit cannot fail.\<close>

lemma dispatch_selected_ok:
  assumes inv: "sched_inv s" and deq: "dequeued i s s1" and t: "map_of (tasks s) i = Some t"
    and room: "length (running_task_ids s) < unat (max_running_tasks s)"
  obtains s' where
    "dispatch_selected_task_locked None now i s1 =
       (Some ((snapshot_locked i t)\<lparr>snap_state := TaskState_kRunning,
              snap_dispatch_sequence := next_dispatch_sequence s\<rparr>), s')"
    and "task_transition i t (dispatched_record now s t) s s'"
proof -
  from deq have fr: "rr_frame s s1" and tq: "task_queued (tasks s) i"
    by (simp_all add: dequeued_def)
  note same = rr_frameD [OF fr]
  let ?t' = "dispatched_record now s t"
  have st: "task_st t = TaskState_kQueued" using tq t by (simp add: task_queued_def)
  have tok: "task_ok s i t" using task_okD [OF inv t] .
  have t1: "map_of (tasks s1) i = Some t" using t same by simp
  obtain r where r: "task_reservation t = Some r"
    using tok by (auto simp: task_ok_def reservation_ok_def)
  have seq: "next_dispatch_sequence s \<noteq> 0"
    using sched_invD(2) [OF inv] by (simp add: inv_tasks_def)
  have seq': "(if next_dispatch_sequence s \<noteq> u64_max then next_dispatch_sequence s + 1
               else next_dispatch_sequence s) \<noteq> 0"
    using seq by (auto dest: u64_Suc_nonzero)
  obtain l where com: "(if task_dispatch_sequence t \<noteq> 0 then (True, r, quota_ledger s)
        else reservation_commit (quota_ledger s) r) = (True, the (task_reservation ?t'), l)"
    and mv: "ledger_moves t ?t' (quota_ledger s) l"
  proof (cases "task_dispatch_sequence t = 0")
    case True
    then have "r = \<lparr>res_active = True, res_bytes = spec_memory_bytes (task_spec t)\<rparr>"
      using first_reservation [of t] st r tok by (simp add: task_ok_def)
    with True show thesis
      using first_commit [OF inv t st True, of ?t'] that by (auto simp: dispatched_record_def)
  next
    case False
    then show thesis
      using that same_charge_moves [OF inv t, of ?t'] r seq st
      by (simp add: dispatched_record_def reserved_of_def allocated_of_def)
  qed
  obtain s' where disp: "dispatch_selected_task_locked None now i s1 =
      (Some ((snapshot_locked i t)\<lparr>snap_state := TaskState_kRunning,
             snap_dispatch_sequence := next_dispatch_sequence s\<rparr>), s')"
    and s': "tasks s' = AList.update i ?t' (tasks s)" "tenant_queues s' = tenant_queues s1"
      "tenant_cursor s' = tenant_cursor s1" "queued_task_count s' = queued_task_count s1"
      "running_task_ids s' = running_task_ids s @ [i]" "quota_ledger s' = l"
      "next_dispatch_sequence s' = (if next_dispatch_sequence s \<noteq> u64_max
         then next_dispatch_sequence s + 1 else next_dispatch_sequence s)"
    and cfg: "frame_config s1 s'"
  proof -
    have r': "?t' = t\<lparr>task_st := TaskState_kRunning, task_reservation := Some (the (task_reservation ?t')),
         task_dispatch_sequence := next_dispatch_sequence s1, task_running_at := now\<rparr>"
      by (simp add: dispatched_record_def same)
    have com1: "(if task_dispatch_sequence t \<noteq> 0 then (True, r, quota_ledger s1)
        else reservation_commit (quota_ledger s1) r) = (True, the (task_reservation ?t'), l)"
      using com by (simp only: same)
    note commit = dispatch_commit_ok [OF com1, of now i, folded r']
    show thesis
    proof (rule that)
      show "dispatch_selected_task_locked None now i s1 =
          (Some ((snapshot_locked i t)\<lparr>snap_state := TaskState_kRunning,
             snap_dispatch_sequence := next_dispatch_sequence s\<rparr>), snd (dispatch_commit now i t r s1))"
        using t1 st r by (simp add: dispatch_selected_task_locked_def commit same)
      show "frame_config s1 (snd (dispatch_commit now i t r s1))"
        using frame_config_rr [OF fr] unfolding commit by (simp add: frame_config_def q_weight_eta)
    qed (simp_all add: commit same)
  qed
  have resv: "reservation_ok ?t'"
    using tok st r by (auto simp: reservation_ok_def dispatched_record_def task_ok_def
        inactive_reservation_def)
  have "task_transition i t ?t' s s'"
    by (rule dequeued_transition [OF inv deq t st cfg s'(1) q_ids_cong [OF s'(2)] s'(4)])
      (use s' resv seq seq' room mv in \<open>simp_all add: dispatched_record_def\<close>)
  with disp show thesis by (rule that)
qed

definition failed_record :: "TaskRecord \<Rightarrow> TaskRecord" where
  "failed_record t =
     t\<lparr>task_st := TaskState_kFailed,
       task_reservation := Some (if task_dispatch_sequence t = 0 then inactive_reservation
                                 else the (task_reservation t))\<rparr>"

text \<open>An allocation failure during a dispatch fails the task and gives its bytes back.\<close>

lemma dispatch_selected_fault:
  assumes inv: "sched_inv s" and deq: "dequeued i s s1" and t: "map_of (tasks s) i = Some t"
  obtains s' where "dispatch_selected_task_locked (Some fault) now i s1 = (None, s')"
    and "task_transition i t (failed_record t) s s'"
proof -
  from deq have fr: "rr_frame s s1" and tq: "task_queued (tasks s) i"
    by (simp_all add: dequeued_def)
  note same = rr_frameD [OF fr]
  let ?t' = "failed_record t"
  have st: "task_st t = TaskState_kQueued" using tq t by (simp add: task_queued_def)
  have tok: "task_ok s i t" using task_okD [OF inv t] .
  have t1: "map_of (tasks s1) i = Some t" using t same by simp
  obtain r where r: "task_reservation t = Some r"
    using tok by (auto simp: task_ok_def reservation_ok_def)
  obtain l where ab: "dispatch_abort i t r s1 = (None, set_task i ?t' (s1\<lparr>quota_ledger := l\<rparr>))"
    and mv: "ledger_moves t ?t' (quota_ledger s) l"
  proof (cases "task_dispatch_sequence t = 0")
    case True
    then have req: "r = \<lparr>res_active = True, res_bytes = spec_memory_bytes (task_spec t)\<rparr>"
      using first_reservation [of t] st r tok by (simp add: task_ok_def)
    obtain l where "reservation_cancel (quota_ledger s) r = (inactive_reservation, l)"
      "ledger_moves t ?t' (quota_ledger s) l"
      using first_cancel [OF inv t st True, of ?t'] req by (auto simp: failed_record_def)
    with True show thesis
      by (intro that [of l]) (simp_all add: dispatch_abort_def same failed_record_def)
  next
    case False
    obtain l where "ledger_release (quota_ledger s) (spec_memory_bytes (task_spec t)) = (True, l)"
      "ledger_moves t ?t' (quota_ledger s) l"
      using charged_release [OF inv t, of ?t'] False st
      by (auto simp: failed_record_def allocated_of_def reserved_of_def)
    moreover have "?t' = t\<lparr>task_st := TaskState_kFailed\<rparr>"
      using False r by (cases t) (simp add: failed_record_def)
    ultimately show thesis
      using False by (intro that [of l]) (simp_all add: dispatch_abort_def same)
  qed
  let ?s' = "set_task i ?t' (s1\<lparr>quota_ledger := l\<rparr>)"
  have resv: "reservation_ok ?t'"
    using tok st r by (auto simp: reservation_ok_def failed_record_def task_ok_def
        inactive_reservation_def)
  have cfg: "frame_config s1 ?s'"
    using frame_config_rr [OF fr] by (simp add: frame_config_def q_weight_eta)
  have "dispatch_selected_task_locked (Some fault) now i s1 = (None, ?s')"
    using t1 st r ab by (cases fault) (simp_all add: dispatch_selected_task_locked_def)
  moreover have "task_transition i t ?t' s ?s'"
    by (rule dequeued_transition [OF inv deq t st cfg])
      (use sched_invD(2) [OF inv] resv mv in
        \<open>simp_all add: same failed_record_def inv_tasks_def q_ids_eta\<close>)
  ultimately show thesis by (rule that)
qed

lemma dispatch_selected_effect:
  assumes inv: "sched_inv s" and deq: "dequeued i s s1"
    and room: "length (running_task_ids s) < unat (max_running_tasks s)"
    and d: "dispatch_selected_task_locked fault now i s1 = (r, s')"
  shows "lifecycle s s'"
proof -
  obtain t where t: "map_of (tasks s) i = Some t" and st: "task_st t = TaskState_kQueued"
    using deq by (auto simp: dequeued_def task_queued_def split: option.splits)
  show ?thesis
  proof (cases fault)
    case None
    with d dispatch_selected_ok [OF inv deq t room, of now]
    have "task_transition i t (dispatched_record now s t) s s'" by (metis prod.inject)
    with t st show ?thesis by (auto intro: lifecycle.moved simp: dispatched_record_def)
  next
    case (Some f)
    with d dispatch_selected_fault [OF inv deq t, of f now]
    have "task_transition i t (failed_record t) s s'" by (metis prod.inject)
    with t st show ?thesis by (auto intro: lifecycle.moved simp: failed_record_def)
  qed
qed

lemma dispatch_next_effect:
  assumes inv: "sched_inv s" and d: "Scheduler_dispatch_next fault now s = (r, s')"
  shows "lifecycle s s'"
proof -
  note ok = sched_invD(1) [OF inv]
  show ?thesis
  proof (cases "length (running_task_ids s) \<ge> unat (max_running_tasks s) \<or>
      priority_reservation_blocks_low_dispatch_locked s")
    case True
    with d show ?thesis
      by (auto simp: Scheduler_dispatch_next_def intro: lifecycle.same split: if_splits)
  next
    case False
    obtain sel s1 where sel: "select_next_task_locked s = (sel, s1)" by (cases "select_next_task_locked s")
    show ?thesis
    proof (cases sel)
      case None
      with d False sel sel.select_None [OF ok] show ?thesis
        by (auto simp: Scheduler_dispatch_next_def intro: lifecycle.turned)
    next
      case (Some i)
      with d False sel have "dispatch_selected_task_locked fault now i s1 = (r, s')"
        by (auto simp: Scheduler_dispatch_next_def)
      with False sel Some show ?thesis
        by (intro dispatch_selected_effect [OF inv sel.select_Some [OF ok]]) (simp_all add: not_le)
    qed
  qed
qed

lemma dispatch_task_effect:
  assumes inv: "sched_inv s" and d: "Scheduler_dispatch_task fault now i s = (r, s')"
  shows "lifecycle s s'"
proof -
  note ok = sched_invD(1) [OF inv]
  have drr: "lifecycle s (snd (select_deficit_round_robin_task_locked s))"
    if "peek_next_task_locked s = None" "scheduling_policy s = kDeficitRoundRobin"
    using drr.peek_None_idle [OF ok] that by (simp add: peek_next_task_locked_def lifecycle.turned)
  show ?thesis
  proof (cases "peek_next_task_locked s = Some i \<and> \<not> length (running_task_ids s) \<ge> unat (max_running_tasks s)")
    case False
    with d drr show ?thesis
      by (auto simp: Scheduler_dispatch_task_def intro: lifecycle.same split: if_splits option.splits)
  next
    case True
    then obtain s1 where sel: "select_next_task_locked s = (Some i, s1)"
      using sel.peek_select [OF ok] by (cases "select_next_task_locked s") auto
    have "lifecycle s s''" if "dispatch_selected_task_locked fault now i s1 = (r'', s'')" for r'' s''
      using True that by (intro dispatch_selected_effect [OF inv sel.select_Some [OF ok sel]]) auto
    with d True sel show ?thesis
      by (auto simp: Scheduler_dispatch_task_def intro: lifecycle.same split: if_splits)
  qed
qed

end
