(* ===== verification/SchedulerLifecycle.thy ===== *)
theory SchedulerLifecycle
  imports SchedulerDispatch
begin

text \<open>
  The remaining transitions of a task: suspension, completion, failure, cancellation and
  removal, and the submission that creates it. Each keeps the invariant; the step relation
  collects the operations and every reachable state satisfies the invariant.
\<close>

section \<open>Suspension, terminal transitions and cancellation\<close>

lemma remove_task_sel [simp]:
  "quota_ledger (remove_task_from_tenant_queue_locked tn i s) = quota_ledger s"
  "next_task_id (remove_task_from_tenant_queue_locked tn i s) = next_task_id s"
  "next_dispatch_sequence (remove_task_from_tenant_queue_locked tn i s) = next_dispatch_sequence s"
  "tasks (remove_task_from_tenant_queue_locked tn i s) = tasks s"
  "tenant_order (remove_task_from_tenant_queue_locked tn i s) = tenant_order s"
  "tenant_cursor (remove_task_from_tenant_queue_locked tn i s) = tenant_cursor s"
  "tenant_budget (remove_task_from_tenant_queue_locked tn i s) = tenant_budget s"
  "scheduling_policy (remove_task_from_tenant_queue_locked tn i s) = scheduling_policy s"
  "max_running_tasks (remove_task_from_tenant_queue_locked tn i s) = max_running_tasks s"
  "max_queued_tasks (remove_task_from_tenant_queue_locked tn i s) = max_queued_tasks s"
  "priority_reserved_slots (remove_task_from_tenant_queue_locked tn i s) = priority_reserved_slots s"
  "priority_reservation_threshold (remove_task_from_tenant_queue_locked tn i s) = priority_reservation_threshold s"
  "running_task_ids (remove_task_from_tenant_queue_locked tn i s) = running_task_ids s"
  "queued_task_count (remove_task_from_tenant_queue_locked tn i s) = queued_task_count s"
  by (simp_all add: remove_task_from_tenant_queue_locked_def split: option.splits)

lemma remove_task_queues [simp]:
  "map fst (tenant_queues (remove_task_from_tenant_queue_locked tn i s)) = map fst (tenant_queues s)"
  "q_weight (remove_task_from_tenant_queue_locked tn i s) = q_weight s"
  "q_ids (remove_task_from_tenant_queue_locked tn i s) tn' =
     (if tn' = tn then remove1 i (q_ids s tn) else q_ids s tn')"
  by (auto simp: remove_task_from_tenant_queue_locked_def keys_update_present q_weight_def q_ids_def
      fun_eq_iff split: option.splits)

text \<open>A running task is on the running list, so the searches of the source find it.\<close>

lemma running_member:
  "sched_inv s \<Longrightarrow> map_of (tasks s) i = Some t \<Longrightarrow>
   i \<in> set (running_task_ids s) \<longleftrightarrow> task_st t = TaskState_kRunning"
  using sched_invD(3) by (auto simp: inv_running_def)

lemma not_queued_not_in_queue:
  "sched_inv s \<Longrightarrow> map_of (tasks s) i = Some t \<Longrightarrow> task_st t \<noteq> TaskState_kQueued \<Longrightarrow>
   i \<notin> set (q_ids s tn)"
  using queues_okD(6) [OF sched_invD(1)] by (auto simp: queued_for_def)

lemma queued_in_own_queue:
  "sched_inv s \<Longrightarrow> map_of (tasks s) i = Some t \<Longrightarrow> task_st t = TaskState_kQueued \<Longrightarrow>
   i \<in> set (q_ids s tn) \<longleftrightarrow> tn = spec_tenant_id (task_spec t)"
  using queues_okD(6) [OF sched_invD(1)] by (auto simp: queued_for_def)

lemma tenant_known:
  assumes "sched_inv s" and "map_of (tasks s) i = Some t"
  obtains q where "map_of (tenant_queues s) (spec_tenant_id (task_spec t)) = Some q"
  using task_okD [OF assms] by (auto simp: task_ok_def q_weight_def)

lemma finish_running_ok:
  assumes inv: "sched_inv s" and t: "map_of (tasks s) i = Some t"
    and st: "task_st t = TaskState_kRunning"
    and tm: "terminal \<noteq> TaskState_kQueued" "terminal \<noteq> TaskState_kRunning"
  obtains s' where "finish_running_task_locked now i terminal s = (True, s')"
    and "task_transition i t (t\<lparr>task_st := terminal\<rparr>) s s'"
proof -
  let ?t' = "t\<lparr>task_st := terminal\<rparr>"
  have run: "i \<in> set (running_task_ids s)" using running_member [OF inv t] st by simp
  obtain l where rel: "ledger_release (quota_ledger s) (spec_memory_bytes (task_spec t)) = (True, l)"
    and mv: "ledger_moves t ?t' (quota_ledger s) l"
    using charged_release [OF inv t, of ?t'] st tm
    by (auto simp: allocated_of_def reserved_of_def)
  let ?s1 = "set_task i ?t' (record_service now t (s\<lparr>quota_ledger := l\<rparr>))"
  let ?s' = "?s1\<lparr>running_task_ids := remove1 i (running_task_ids ?s1)\<rparr>"
  have fin: "finish_running_task_locked now i terminal s = (True, ?s')"
    using t st run rel by (simp add: finish_running_task_locked_def Let_def)
  have resv: "reservation_ok ?t'"
    using task_okD [OF inv t] st tm by (auto simp: task_ok_def reservation_ok_def)
  have cfg: "frame_config s ?s'"
    using frame_config_refl [OF sched_invD(1) [OF inv]] by (simp add: frame_config_def q_weight_eta)
  have ids: "q_ids ?s' = q_ids s" by (simp add: q_ids_eta)
  have notq: "i \<notin> set (q_ids s tn)" for tn using not_queued_not_in_queue [OF inv t] st by simp
  have lists: "distinct (running_task_ids s)" "length (running_task_ids s) \<le> unat (max_running_tasks s)"
    using sched_invD(3) [OF inv] by (simp_all add: inv_running_def)
  have "task_transition i t ?t' s ?s'"
    unfolding task_transition_def ids
    using cfg resv mv tm notq lists queues_okD(5) [OF sched_invD(1) [OF inv]] st
      sched_invD(2) [OF inv] length_remove1 [of i "running_task_ids s"]
    by (auto simp: queued_one_def inv_tasks_def)
  with fin show thesis by (rule that)
qed

lemma suspend_ok:
  assumes inv: "sched_inv s" and t: "map_of (tasks s) i = Some t"
    and st: "task_st t = TaskState_kRunning" and seq: "task_dispatch_sequence t \<noteq> u64_max"
  obtains s' where "Scheduler_suspend False now i s = (True, s')"
    and "task_transition i t (t\<lparr>task_st := TaskState_kQueued, task_queued_at := now\<rparr>) s s'"
    and "quota_ledger s' = quota_ledger s"
proof -
  let ?t' = "t\<lparr>task_st := TaskState_kQueued, task_queued_at := now\<rparr>"
  let ?tn = "spec_tenant_id (task_spec t)"
  note ok = sched_invD(1) [OF inv]
  have run: "i \<in> set (running_task_ids s)" using running_member [OF inv t] st by simp
  obtain q where q: "map_of (tenant_queues s) ?tn = Some q" by (rule tenant_known [OF inv t])
  let ?q = "q\<lparr>tq_task_ids := i # tq_task_ids q\<rparr>"
  let ?s1 = "set_task i ?t' (record_service now t (set_queue ?tn ?q s))"
  let ?s' = "?s1\<lparr>running_task_ids := remove1 i (running_task_ids ?s1),
                  queued_task_count := queued_task_count ?s1 + 1\<rparr>"
  have tok: "task_ok s i t" using task_okD [OF inv t] .
  have sus: "Scheduler_suspend False now i s = (True, ?s')"
    using t st seq run q by (simp add: Scheduler_suspend_def Let_def)
  have seq0: "task_dispatch_sequence t \<noteq> 0" using tok st by (simp add: task_ok_def)
  have resv: "reservation_ok ?t'"
    using tok st seq0 by (auto simp: task_ok_def reservation_ok_def)
  have mv: "ledger_moves t ?t' (quota_ledger s) (quota_ledger s)"
    by (rule same_charge_moves [OF inv t]) (use st seq0 in \<open>simp_all add: reserved_of_def allocated_of_def\<close>)
  have cfg: "frame_config s ?s'"
    using frame_config_refl [OF ok] q
    by (simp add: frame_config_def keys_update_present q_weight_eta fun_eq_iff)
  have ids: "q_ids ?s' tn = (if tn = ?tn then i # q_ids s tn else q_ids s tn)" for tn
    using q by (simp add: q_ids_def)
  have notq: "i \<notin> set (q_ids s tn)" for tn using not_queued_not_in_queue [OF inv t] st by simp
  have lists: "distinct (running_task_ids s)" "length (running_task_ids s) \<le> unat (max_running_tasks s)"
    using sched_invD(3) [OF inv] by (simp_all add: inv_running_def)
  have len: "length (remove1 i (running_task_ids s)) \<le> unat (max_running_tasks s)"
    using lists(2) by (auto simp: length_remove1)
  have seqs: "next_dispatch_sequence s \<noteq> 0" using sched_invD(2) [OF inv] by (simp add: inv_tasks_def)
  have "queued_task_count s \<noteq> u64_max"
    using queued_count_bound [OF inv] by (metis linorder_not_less unat_le_u64_max unat_u64_max)
  then have cnt: "unat (queued_task_count s + 1) = unat (queued_task_count s) + 1"
    by (simp add: unat_Suc_no_wrap)
  have "task_transition i t ?t' s ?s'"
    unfolding task_transition_def ids
    using cfg resv mv notq lists queues_okD(5) [OF ok] st cnt seqs len
    by (simp add: queued_one_def)
  with sus show thesis by (rule that) simp
qed

definition cancelled_record :: "TaskRecord \<Rightarrow> TaskRecord" where
  "cancelled_record t =
     t\<lparr>task_reservation := Some (if task_dispatch_sequence t = 0 then inactive_reservation
                                 else the (task_reservation t)),
       task_st := TaskState_kCancelled\<rparr>"

lemma cancel_queued_ok:
  assumes inv: "sched_inv s" and t: "map_of (tasks s) i = Some t"
    and st: "task_st t = TaskState_kQueued"
  obtains s' where "cancel_queued_task_locked i t s = (True, s')"
    and "task_transition i t (cancelled_record t) s s'"
proof -
  let ?t' = "cancelled_record t"
  let ?tn = "spec_tenant_id (task_spec t)"
  note ok = sched_invD(1) [OF inv]
  have tok: "task_ok s i t" using task_okD [OF inv t] .
  obtain r where r: "task_reservation t = Some r"
    using tok by (auto simp: task_ok_def reservation_ok_def)
  obtain l where can: "cancel_queued_task_locked i t s =
      (True, remove_task_from_tenant_queue_locked ?tn i
         (set_task i ?t' (s\<lparr>quota_ledger := l, queued_task_count := queued_task_count s - 1\<rparr>)))"
    and mv: "ledger_moves t ?t' (quota_ledger s) l"
  proof (cases "task_dispatch_sequence t = 0")
    case True
    then have req: "r = \<lparr>res_active = True, res_bytes = spec_memory_bytes (task_spec t)\<rparr>"
      using first_reservation [of t] st r tok by (simp add: task_ok_def)
    obtain l where "reservation_cancel (quota_ledger s) r = (inactive_reservation, l)"
      "ledger_moves t ?t' (quota_ledger s) l"
      using first_cancel [OF inv t st True, of ?t'] req by (auto simp: cancelled_record_def)
    with True r req show thesis
      by (intro that [of l])
        (simp_all add: cancel_queued_task_locked_def Let_def cancelled_record_def
          inactive_reservation_def)
  next
    case False
    obtain l where "ledger_release (quota_ledger s) (spec_memory_bytes (task_spec t)) = (True, l)"
      "ledger_moves t ?t' (quota_ledger s) l"
      using charged_release [OF inv t, of ?t'] False st
      by (auto simp: cancelled_record_def allocated_of_def reserved_of_def)
    moreover have "?t' = t\<lparr>task_st := TaskState_kCancelled\<rparr>"
      using False r by (cases t) (simp add: cancelled_record_def)
    ultimately show thesis
      using False r by (intro that [of l]) (simp_all add: cancel_queued_task_locked_def Let_def)
  qed
  let ?s' = "remove_task_from_tenant_queue_locked ?tn i
         (set_task i ?t' (s\<lparr>quota_ledger := l, queued_task_count := queued_task_count s - 1\<rparr>))"
  have resv: "reservation_ok ?t'"
    using tok st r by (auto simp: reservation_ok_def cancelled_record_def task_ok_def
        inactive_reservation_def)
  have "q_weight ?s' = q_weight s" unfolding remove_task_queues(2) by (rule q_weight_cong) simp
  then have cfg: "frame_config s ?s'"
    using frame_config_refl [OF ok] by (simp add: frame_config_def)
  have ids: "q_ids ?s' tn = remove1 i (q_ids s tn)" for tn
  proof -
    have "q_ids (set_task i ?t' (s\<lparr>quota_ledger := l, queued_task_count := queued_task_count s - 1\<rparr>)) =
      q_ids s" by (rule q_ids_cong) simp
    then show ?thesis
      using queued_in_own_queue [OF inv t st, of tn] by (auto simp: remove1_idem)
  qed
  have lists: "distinct (running_task_ids s)" "length (running_task_ids s) \<le> unat (max_running_tasks s)"
    and notrun: "i \<notin> set (running_task_ids s)"
    using sched_invD(3) [OF inv] running_member [OF inv t] st by (simp_all add: inv_running_def)
  have seqs: "next_dispatch_sequence s \<noteq> 0" using sched_invD(2) [OF inv] by (simp add: inv_tasks_def)
  have "queued_task_count s \<noteq> 0"
    using charged_bytes(3) [OF inv t] st by (auto simp: queued_one_def)
  then have cnt: "unat (queued_task_count s - 1) = unat (queued_task_count s) - 1"
    by (rule unat_pred)
  have "task_transition i t ?t' s ?s'"
    unfolding task_transition_def ids
    using cfg resv mv lists notrun queues_okD(5) [OF ok] st cnt seqs
    by (simp add: queued_one_def cancelled_record_def)
  with can show thesis by (rule that)
qed

lemma finish_effect:
  assumes "sched_inv s" and "finish_running_task_locked now i terminal s = (b, s')"
    and "terminal \<noteq> TaskState_kQueued" "terminal \<noteq> TaskState_kRunning"
  shows "lifecycle s s'"
proof (cases "\<exists>t. map_of (tasks s) i = Some t \<and> task_st t = TaskState_kRunning")
  case True
  then obtain t where t: "map_of (tasks s) i = Some t" "task_st t = TaskState_kRunning" by blast
  obtain s'' where "finish_running_task_locked now i terminal s = (True, s'')"
    and "task_transition i t (t\<lparr>task_st := terminal\<rparr>) s s''"
    by (rule finish_running_ok [OF assms(1) t assms(3,4)])
  with assms(2-4) t show ?thesis by (cases terminal) (auto intro: lifecycle.moved)
next
  case False
  with assms show ?thesis
    by (auto simp: finish_running_task_locked_def intro: lifecycle.same split: option.splits)
qed

lemma suspend_effect:
  assumes "sched_inv s" and "Scheduler_suspend fault now i s = (b, s')"
  shows "lifecycle s s'"
proof (cases "\<exists>t. map_of (tasks s) i = Some t \<and> task_st t = TaskState_kRunning \<and>
    task_dispatch_sequence t \<noteq> u64_max \<and> \<not> fault")
  case True
  then obtain t where t: "map_of (tasks s) i = Some t" "task_st t = TaskState_kRunning"
    "task_dispatch_sequence t \<noteq> u64_max" and "\<not> fault" by blast
  obtain s'' where "Scheduler_suspend False now i s = (True, s'')"
    and "task_transition i t (t\<lparr>task_st := TaskState_kQueued, task_queued_at := now\<rparr>) s s''"
    by (rule suspend_ok [OF assms(1) t])
  with assms(2) \<open>\<not> fault\<close> t show ?thesis by (auto intro: lifecycle.moved)
next
  case False
  with assms show ?thesis
    by (auto simp: Scheduler_suspend_def intro: lifecycle.same split: option.splits if_splits)
qed

lemma cancel_queued_task_effect:
  assumes inv: "sched_inv s" and t: "map_of (tasks s) i = Some t"
    and st: "task_st t = TaskState_kQueued" and c: "cancel_queued_task_locked i t s = (b, s')"
  shows "lifecycle s s'"
proof -
  obtain s'' where "cancel_queued_task_locked i t s = (True, s'')"
    and "task_transition i t (cancelled_record t) s s''"
    by (rule cancel_queued_ok [OF inv t st])
  with c t st show ?thesis by (auto intro: lifecycle.moved simp: cancelled_record_def)
qed

lemma cancel_effect: "sched_inv s \<Longrightarrow> Scheduler_cancel now i s = (b, s') \<Longrightarrow> lifecycle s s'"
  by (auto simp: Scheduler_cancel_def intro: lifecycle.same cancel_queued_task_effect finish_effect
      split: option.splits if_splits)

lemma cancel_queued_effect: "sched_inv s \<Longrightarrow> Scheduler_cancel_queued i s = (b, s') \<Longrightarrow> lifecycle s s'"
  by (auto simp: Scheduler_cancel_queued_def intro: lifecycle.same cancel_queued_task_effect
      split: option.splits if_splits)

lemma complete_effect: "sched_inv s \<Longrightarrow> Scheduler_complete now i s = (b, s') \<Longrightarrow> lifecycle s s'"
  by (auto simp: Scheduler_complete_def intro: finish_effect)

lemma fail_effect: "sched_inv s \<Longrightarrow> Scheduler_fail now i s = (b, s') \<Longrightarrow> lifecycle s s'"
  by (auto simp: Scheduler_fail_def intro: finish_effect)

lemma set_slots_inv:
  assumes "sched_inv s" and "Scheduler_set_priority_reserved_slots n s = (b, s')"
  shows "sched_inv s'"
proof -
  have s': "s' = s \<or> s' = s\<lparr>priority_reserved_slots := min n (max_running_tasks s)\<rparr>"
    using assms(2) by (auto simp: Scheduler_set_priority_reserved_slots_def split: if_splits)
  have "task_ok (s\<lparr>priority_reserved_slots := m\<rparr>) = task_ok s" for m
    by (simp add: task_ok_def q_weight_def fun_eq_iff)
  moreover have "q_ids (s\<lparr>priority_reserved_slots := m\<rparr>) = q_ids s"
    "q_weight (s\<lparr>priority_reserved_slots := m\<rparr>) = q_weight s"
    "queued_for (s\<lparr>priority_reserved_slots := m\<rparr>) = queued_for s" for m
    by (simp_all add: q_ids_def q_weight_def queued_for_def fun_eq_iff)
  ultimately have "sched_inv (s\<lparr>priority_reserved_slots := min n (max_running_tasks s)\<rparr>)"
    using assms(1)
    by (simp add: sched_inv_def queues_ok_def inv_tasks_def inv_running_def inv_accounts_def inv_config_def)
  with s' assms(1) show ?thesis by (elim disjE) simp_all
qed

end
