(* ===== verification/SchedulerSubmit.thy ===== *)
theory SchedulerSubmit
  imports SchedulerLifecycle
begin

text \<open>
  Submission and removal of tasks, the initial state, and the step relation: the scheduler
  as a transition system over its public operations, with the invariant in every reachable
  state.
\<close>

section \<open>Submission\<close>

text \<open>A submission that fails half way undoes every change it made.\<close>

lemma tenant_slot_None:
  "submit_tenant_slot fault spec s = (None, s') \<Longrightarrow> s' = s"
  by (auto simp: submit_tenant_slot_def umap_emplace_def umap_contains_def Let_def delete_absent
      delete_update_absent split: option.splits if_splits)

lemma tenant_slot_old:
  "submit_tenant_slot fault spec s = (Some False, s') \<Longrightarrow>
   s' = s \<and> map_of (tenant_queues s) (spec_tenant_id spec) \<noteq> None"
  by (auto simp: submit_tenant_slot_def umap_emplace_def Let_def split: option.splits if_splits)

lemma tenant_slot_new:
  "submit_tenant_slot fault spec s = (Some True, s') \<Longrightarrow>
   map_of (tenant_queues s) (spec_tenant_id spec) = None \<and>
   s' = s\<lparr>tenant_queues := AList.update (spec_tenant_id spec)
            \<lparr>tq_weight = spec_weight spec, tq_task_ids = [], tq_deficit = 0\<rparr> (tenant_queues s),
          tenant_order := tenant_order s @ [spec_tenant_id spec]\<rparr>"
  by (auto simp: submit_tenant_slot_def umap_emplace_def Let_def split: option.splits if_splits)

lemma tenant_slot_rollback:
  assumes "submit_tenant_slot fault spec s = (Some new, s')"
  shows "submit_rollback_tenant new (spec_tenant_id spec) s' = s"
  using assms
  by (cases new) (auto dest!: tenant_slot_old tenant_slot_new
      simp: submit_rollback_tenant_def delete_update_absent)

text \<open>The new record, and the queue it joins.\<close>

definition submitted_record :: "time_ns \<Rightarrow> TaskSpec \<Rightarrow> TaskRecord" where
  "submitted_record now spec =
     \<lparr>task_spec = spec, task_st = TaskState_kQueued,
      task_reservation = Some \<lparr>res_active = True, res_bytes = spec_memory_bytes spec\<rparr>,
      task_queued_at = now, task_running_at = 0, task_dispatch_sequence = 0\<rparr>"

definition submit_transition :: "time_ns \<Rightarrow> TaskSpec \<Rightarrow> Scheduler \<Rightarrow> Scheduler \<Rightarrow> bool" where
  "submit_transition now spec s s' \<longleftrightarrow>
     (\<exists>l. ledger_try_reserve (quota_ledger s) (spec_memory_bytes spec) =
             (Some \<lparr>res_active = True, res_bytes = spec_memory_bytes spec\<rparr>, l) \<and>
          quota_ledger s' = l) \<and>
     tasks s' = AList.update (next_task_id s) (submitted_record now spec) (tasks s) \<and>
     next_task_id s' = next_task_id s + 1 \<and>
     queued_task_count s' = queued_task_count s + 1 \<and>
     running_task_ids s' = running_task_ids s \<and>
     next_dispatch_sequence s' = next_dispatch_sequence s \<and>
     tenant_cursor s' = tenant_cursor s \<and>
     scheduling_policy s' = scheduling_policy s \<and> max_running_tasks s' = max_running_tasks s \<and>
     max_queued_tasks s' = max_queued_tasks s \<and>
     priority_reserved_slots s' = priority_reserved_slots s \<and>
     priority_reservation_threshold s' = priority_reservation_threshold s \<and>
     keys_distinct (tenant_queues s') \<and>
     tenant_order s' =
       (if spec_tenant_id spec \<in> set (tenant_order s) then tenant_order s
        else tenant_order s @ [spec_tenant_id spec]) \<and>
     set (tenant_order s') = dom (map_of (tenant_queues s')) \<and>
     (\<forall>tn. q_ids s' tn = (if tn = spec_tenant_id spec then q_ids s tn @ [next_task_id s] else q_ids s tn)) \<and>
     (\<forall>tn. q_weight s' tn = (if tn = spec_tenant_id spec then Some (spec_weight spec) else q_weight s tn))"

lemma fresh_task_id: "sched_inv s \<Longrightarrow> map_of (tasks s) (next_task_id s) = None"
  using task_okD [of s "next_task_id s"] by (cases "map_of (tasks s) (next_task_id s)")
    (auto simp: task_ok_def)

lemma submit_task_slot_failed:
  assumes inv: "sched_inv s" and l: "ledger_try_reserve (quota_ledger s) (spec_memory_bytes spec) = (Some r, l)"
    and slot: "submit_tenant_slot fault spec (s\<lparr>quota_ledger := l\<rparr>) = (Some new, s1)"
    and sub: "submit_task_slot fault now spec r new s1 = (res, s')"
    and st: "sr_status res \<noteq> SubmitStatus_kAccepted"
  shows "s' = s"
proof -
  have lok: "ledger_ok (quota_ledger s)" using sched_invD(4) [OF inv] by (simp add: inv_accounts_def)
  note rb = tenant_slot_rollback [OF slot]
  have s1: "next_task_id s1 = next_task_id s" "tasks s1 = tasks s" "quota_ledger s1 = l"
    "map_of (tenant_queues s1) (spec_tenant_id spec) \<noteq> None"
    using slot by (cases new; auto dest!: tenant_slot_old tenant_slot_new)+
  have roll: "submit_rollback_tenant new tn (x\<lparr>quota_ledger := y\<rparr>) =
      (submit_rollback_tenant new tn x)\<lparr>quota_ledger := y\<rparr>" for tn x y
    by (simp add: submit_rollback_tenant_def)
  have "reservation_destroy l r = quota_ledger s" by (rule reserve_destroy [OF lok l])
  moreover have "submit_rollback_tenant new (spec_tenant_id spec)
      (s1\<lparr>quota_ledger := quota_ledger s, tasks := tasks s\<rparr>) = s"
  proof -
    have "s1\<lparr>quota_ledger := quota_ledger s, tasks := tasks s\<rparr> = s1\<lparr>quota_ledger := quota_ledger s\<rparr>"
      using s1(2) by (cases s1) simp
    then show ?thesis by (simp only: roll rb) simp
  qed
  ultimately show ?thesis
    using sub st s1 rb fresh_task_id [OF inv]
    by (auto simp: submit_task_slot_def Let_def umap_emplace_def umap_contains_def roll
        delete_absent delete_update_absent split: if_splits option.splits)
qed

lemma submit_rejected:
  assumes inv: "sched_inv s" and sub: "Scheduler_submit fault now spec s = (res, s')"
    and st: "sr_status res \<noteq> SubmitStatus_kAccepted"
  shows "s' = s"
proof -
  have lok: "ledger_ok (quota_ledger s)" using sched_invD(4) [OF inv] by (simp add: inv_accounts_def)
  obtain ro l where l: "ledger_try_reserve (quota_ledger s) (spec_memory_bytes spec) = (ro, l)"
    by (cases "ledger_try_reserve (quota_ledger s) (spec_memory_bytes spec)")
  obtain no s1 where slot: "submit_tenant_slot fault spec (s\<lparr>quota_ledger := l\<rparr>) = (no, s1)"
    by (cases "submit_tenant_slot fault spec (s\<lparr>quota_ledger := l\<rparr>)")
  have "s\<lparr>quota_ledger := l\<rparr> = s" if "ro = None"
    using l that by (simp add: ledger_try_reserve_None)
  moreover have "s1\<lparr>quota_ledger := reservation_destroy l r\<rparr> = s" if "ro = Some r" "no = None" for r
    using tenant_slot_None [of fault spec "s\<lparr>quota_ledger := l\<rparr>" s1] slot l that
      reserve_destroy [OF lok, of "spec_memory_bytes spec" r l] by simp
  moreover have "s' = s" if "ro = Some r" "no = Some new"
    "submit_task_slot fault now spec r new s1 = (res, s')" for r new
    using submit_task_slot_failed [OF inv _ _ that(3) st] l slot that by simp
  ultimately show ?thesis
    using sub l slot by (auto simp: Scheduler_submit_def split: if_splits option.splits)
qed

lemma submit_accepted:
  assumes inv: "sched_inv s" and sub: "Scheduler_submit fault now spec s = (res, s')"
    and st: "sr_status res = SubmitStatus_kAccepted"
  shows "submit_transition now spec s s'" and "sr_task_id res = next_task_id s"
    and "spec_valid spec" and "next_task_id s \<noteq> u64_max"
    and "max_queued_tasks s \<noteq> 0 \<Longrightarrow> queued_task_count s < max_queued_tasks s"
    and "q_weight s (spec_tenant_id spec) = None \<or> q_weight s (spec_tenant_id spec) = Some (spec_weight spec)"
proof -
  note ok = sched_invD(1) [OF inv]
  let ?tn = "spec_tenant_id spec" and ?r = "\<lparr>res_active = True, res_bytes = spec_memory_bytes spec\<rparr>"
  have lok: "ledger_ok (quota_ledger s)" using sched_invD(4) [OF inv] by (simp add: inv_accounts_def)
  show "spec_valid spec" "next_task_id s \<noteq> u64_max"
    "max_queued_tasks s \<noteq> 0 \<Longrightarrow> queued_task_count s < max_queued_tasks s"
    using sub st
    by (auto simp: Scheduler_submit_def submit_failed_def spec_valid_def not_le split: if_splits)
  show w: "q_weight s ?tn = None \<or> q_weight s ?tn = Some (spec_weight spec)"
    using sub st
    by (auto simp: Scheduler_submit_def submit_failed_def q_weight_def split: if_splits option.splits)
  obtain r l new s1 where l0: "ledger_try_reserve (quota_ledger s) (spec_memory_bytes spec) = (Some r, l)"
    and slot: "submit_tenant_slot fault spec (s\<lparr>quota_ledger := l\<rparr>) = (Some new, s1)"
    and sub': "submit_task_slot fault now spec r new s1 = (res, s')"
    using sub st
    by (auto simp: Scheduler_submit_def submit_failed_def split: if_splits option.splits prod.splits)
  have r: "r = ?r" using ledger_try_reserve_Some(1) [OF lok l0] .
  have known: "?tn \<in> set (tenant_order s) \<longleftrightarrow> map_of (tenant_queues s) ?tn \<noteq> None"
    using queues_okD(3) [OF ok] by auto
  obtain q where s1: "next_task_id s1 = next_task_id s" "tasks s1 = tasks s"
      "map_of (tenant_queues s1) = (map_of (tenant_queues s))(?tn \<mapsto> q)"
    and q: "tq_task_ids q = q_ids s ?tn" "tq_weight q = spec_weight spec"
    and keys: "keys_distinct (tenant_queues s1)"
    and ord: "tenant_order s1 = (if ?tn \<in> set (tenant_order s) then tenant_order s else tenant_order s @ [?tn])"
    and fr: "s1 = s\<lparr>quota_ledger := l, tenant_queues := tenant_queues s1, tenant_order := tenant_order s1\<rparr>"
  proof (cases new)
    case True
    with tenant_slot_new [of fault spec "s\<lparr>quota_ledger := l\<rparr>" s1] slot known queues_okD(1) [OF ok]
    show thesis by (intro that [of "\<lparr>tq_weight = spec_weight spec, tq_task_ids = [], tq_deficit = 0\<rparr>"])
        (auto simp: q_ids_def)
  next
    case False
    then have "s1 = s\<lparr>quota_ledger := l\<rparr>" and "map_of (tenant_queues s) ?tn \<noteq> None"
      using tenant_slot_old [of fault spec "s\<lparr>quota_ledger := l\<rparr>" s1] slot by auto
    then obtain q where "map_of (tenant_queues s) ?tn = Some q" by auto
    with \<open>s1 = _\<close> w known queues_okD(1) [OF ok] show thesis
      by (intro that [of q]) (auto simp: q_weight_def fun_upd_idem)
  qed
  let ?q = "q\<lparr>tq_task_ids := tq_task_ids q @ [next_task_id s]\<rparr>"
  have res: "res = \<lparr>sr_status = SubmitStatus_kAccepted, sr_task_id = next_task_id s\<rparr>"
    and s': "s' = set_queue ?tn ?q (s1\<lparr>tasks := AList.update (next_task_id s) (submitted_record now spec) (tasks s),
         next_task_id := next_task_id s + 1, queued_task_count := queued_task_count s1 + 1\<rparr>)"
    using sub' st s1
    by (auto simp: submit_task_slot_def Let_def submit_failed_def umap_emplace_def r
        submitted_record_def split: if_splits)
  show "sr_task_id res = next_task_id s" by (simp add: res)
  have same: "quota_ledger s1 = l" "queued_task_count s1 = queued_task_count s"
    "running_task_ids s1 = running_task_ids s" "next_dispatch_sequence s1 = next_dispatch_sequence s"
    "tenant_cursor s1 = tenant_cursor s" "scheduling_policy s1 = scheduling_policy s"
    "max_running_tasks s1 = max_running_tasks s" "max_queued_tasks s1 = max_queued_tasks s"
    "priority_reserved_slots s1 = priority_reserved_slots s"
    "priority_reservation_threshold s1 = priority_reservation_threshold s"
    by (subst fr; simp)+
  have "map fst (tenant_queues s') = map fst (tenant_queues s1)"
    using s1(3) by (simp add: s' keys_update_present [where v = q])
  with keys have "keys_distinct (tenant_queues s')" by simp
  moreover have "dom (map_of (tenant_queues s')) = insert ?tn (set (tenant_order s))"
    using queues_okD(3) [OF ok] by (simp add: s' s1(3))
  moreover have "q_ids s' tn = (if tn = ?tn then q_ids s tn @ [next_task_id s] else q_ids s tn)" for tn
    using q by (simp add: s' s1(3) q_ids_def)
  moreover have "q_weight s' tn = (if tn = ?tn then Some (spec_weight spec) else q_weight s tn)" for tn
    using q by (simp add: s' s1(3) q_weight_def)
  ultimately show "submit_transition now spec s s'"
    unfolding submit_transition_def
    using l0 r ord by (simp add: s' same s1(1,2)) auto
qed

lemma submit_transition_inv:
  assumes inv: "sched_inv s" and tr: "submit_transition now spec s s'"
    and valid: "spec_valid spec" and room: "next_task_id s \<noteq> u64_max"
    and w: "q_weight s (spec_tenant_id spec) = None \<or> q_weight s (spec_tenant_id spec) = Some (spec_weight spec)"
  shows "sched_inv s'"
proof -
  note ok = sched_invD(1) [OF inv] and tasks = sched_invD(2) [OF inv]
    and running = sched_invD(3) [OF inv] and accounts = sched_invD(4) [OF inv]
    and config = sched_invD(5) [OF inv]
  let ?i = "next_task_id s" and ?t = "submitted_record now spec" and ?tn = "spec_tenant_id spec"
  have fresh: "map_of (tasks s) ?i = None" by (rule fresh_task_id [OF inv])
  have ts: "tasks s' = AList.update ?i ?t (tasks s)" and nx: "next_task_id s' = ?i + 1"
    and ids: "q_ids s' tn = (if tn = ?tn then q_ids s tn @ [?i] else q_ids s tn)"
    and wt: "q_weight s' tn = (if tn = ?tn then Some (spec_weight spec) else q_weight s tn)" for tn
    using tr by (simp_all add: submit_transition_def)
  have t: "task_spec ?t = spec" "task_st ?t = TaskState_kQueued" "task_dispatch_sequence ?t = 0"
    "reservation_ok ?t"
    by (simp_all add: submitted_record_def reservation_ok_def)
  have lookup: "map_of (tasks s') j = (if j = ?i then Some ?t else map_of (tasks s) j)" for j
    by (simp add: ts)
  have q: "queued_for s' tn j \<longleftrightarrow> (if j = ?i then tn = ?tn else queued_for s tn j)" for tn j
    by (auto simp: queued_for_def lookup t)
  have notq: "?i \<notin> set (q_ids s tn)" for tn
    using queues_okD(6) [OF ok, of ?i tn] fresh by (simp add: queued_for_def)
  have "queues_ok s'"
    unfolding queues_ok_def
    using tr queues_okD(2,4) [OF ok] queues_okD(5,6) [OF ok] notq
    by (simp add: ids q submit_transition_def) auto
  moreover have "inv_tasks s'"
  proof -
    have lt: "j < ?i + 1" if "j \<le> ?i" for j
      using that unat_Suc_no_wrap [OF room] by (simp add: word_less_nat_alt word_le_nat_alt)
    have "task_ok s' j u" if "map_of (tasks s) j = Some u" for j u
      using task_okD [OF inv that] lt [of j] w by (auto simp: task_ok_def nx wt)
    moreover have "task_ok s' ?i ?t"
      using lt [of ?i] valid t tasks by (simp add: task_ok_def nx wt inv_tasks_def word_gt_0)
    ultimately show ?thesis
      using tasks tr valid u64_Suc_nonzero [OF room]
      by (auto simp: inv_tasks_def lookup ts wt nx spec_valid_def submit_transition_def split: if_splits)
  qed
  moreover have "inv_running s'"
    using running tr fresh t by (auto simp: inv_running_def lookup submit_transition_def split: if_splits)
  moreover have "inv_accounts s'"
  proof -
    have "queued_task_count s \<noteq> u64_max"
      using queued_count_bound [OF inv] by (metis linorder_not_less unat_le_u64_max unat_u64_max)
    then have "unat (queued_task_count s + 1) = Suc (unat (queued_task_count s))"
      by (rule unat_Suc_no_wrap)
    moreover have lok: "ledger_ok (quota_ledger s)" using accounts by (simp add: inv_accounts_def)
    moreover obtain r where "ledger_try_reserve (quota_ledger s) (spec_memory_bytes spec) =
        (Some r, quota_ledger s')" and cnt: "queued_task_count s' = queued_task_count s + 1"
      using tr by (auto simp: submit_transition_def)
    note ledger_try_reserve_Some [OF lok this(1)]
    moreover have "umap_sum f (tasks s') = umap_sum f (tasks s) + f ?t" for f
      unfolding ts by (rule umap_sum_absent [OF fresh])
    ultimately show ?thesis
      using accounts t cnt by (simp add: inv_accounts_def reserved_of_def allocated_of_def queued_one_def)
  qed
  moreover have "inv_config s'" using config tr by (simp add: inv_config_def submit_transition_def)
  ultimately show ?thesis by (simp add: sched_inv_def)
qed

lemma submit_inv:
  assumes "sched_inv s" and "Scheduler_submit fault now spec s = (res, s')"
  shows "sched_inv s'"
proof (cases "sr_status res = SubmitStatus_kAccepted")
  case True
  from submit_accepted [OF assms True] show ?thesis
    by (intro submit_transition_inv [OF assms(1)]) auto
next
  case False
  with submit_rejected [OF assms] assms(1) show ?thesis by simp
qed

section \<open>Removal and creation\<close>

lemma forget_inv:
  assumes inv: "sched_inv s" and f: "Scheduler_forget i s = (b, s')"
  shows "sched_inv s'"
proof (cases "\<exists>t. map_of (tasks s) i = Some t \<and> task_st t \<noteq> TaskState_kQueued \<and> task_st t \<noteq> TaskState_kRunning")
  case False
  with f inv show ?thesis by (auto simp: Scheduler_forget_def split: option.splits if_splits)
next
  case True
  then obtain t where t: "map_of (tasks s) i = Some t" "task_st t \<noteq> TaskState_kQueued"
    "task_st t \<noteq> TaskState_kRunning" by blast
  then obtain r where r: "task_reservation t = Some r" "\<not> res_active r"
    using task_okD [OF inv t(1)] by (auto simp: task_ok_def reservation_ok_def)
  then have "reservation_destroy (quota_ledger s) r = quota_ledger s"
    by (simp add: reservation_destroy_def reservation_cancel_def)
  with f t r have s': "s' = s\<lparr>tasks := AList.delete i (tasks s)\<rparr>"
    by (auto simp: Scheduler_forget_def)
  have dk: "keys_distinct (tasks s)" using sched_invD(2) [OF inv] by (simp add: inv_tasks_def)
  have q: "q_ids s' = q_ids s" "q_weight s' = q_weight s"
    by (rule q_ids_cong q_weight_cong, simp add: s')+
  have qf: "queued_for s' = queued_for s"
    using t by (auto simp: queued_for_def s' fun_eq_iff)
  have "queues_ok s'" using sched_invD(1) [OF inv] by (simp add: queues_ok_def q qf) (simp add: s')
  moreover have "inv_tasks s'"
    using sched_invD(2) [OF inv] by (auto simp: inv_tasks_def q task_ok_def) (auto simp: s' split: if_splits)
  moreover have "inv_running s'"
    using sched_invD(3) [OF inv] t by (auto simp: inv_running_def s')
  moreover have "inv_accounts s'"
    using sched_invD(4) [OF inv] t
    by (simp add: inv_accounts_def s' umap_sum_delete [OF dk t(1)] reserved_of_def allocated_of_def
        queued_one_def)
  moreover have "inv_config s'" using sched_invD(5) [OF inv] by (simp add: inv_config_def s')
  ultimately show ?thesis by (simp add: sched_inv_def)
qed

lemma new_inv: "sched_inv (Scheduler_new limit opts)"
proof -
  let ?s = "Scheduler_new limit opts"
  have "queues_ok ?s" "inv_running ?s" "inv_config ?s"
    by (auto simp: queues_ok_def Scheduler_new_def q_ids_def queued_for_def inv_running_def inv_config_def)
  moreover have "inv_tasks ?s" by (simp add: inv_tasks_def Scheduler_new_def q_weight_def)
  moreover have "inv_accounts ?s"
    using QuotaLedger_new_ok [of limit]
    by (simp add: inv_accounts_def Scheduler_new_def) (simp add: QuotaLedger_new_def)
  ultimately show ?thesis by (simp add: sched_inv_def)
qed

section \<open>The scheduler as a transition system\<close>

datatype sched_op =
    Op_submit "submit_fault option" time_ns TaskSpec
  | Op_dispatch_next "dispatch_fault option" time_ns
  | Op_dispatch_task "dispatch_fault option" time_ns TaskId
  | Op_suspend bool time_ns TaskId
  | Op_complete time_ns TaskId
  | Op_fail time_ns TaskId
  | Op_cancel time_ns TaskId
  | Op_cancel_queued TaskId
  | Op_forget TaskId
  | Op_set_reserved_slots size_t

fun run_op :: "sched_op \<Rightarrow> Scheduler \<Rightarrow> Scheduler" where
  "run_op (Op_submit f now spec) s = snd (Scheduler_submit f now spec s)"
| "run_op (Op_dispatch_next f now) s = snd (Scheduler_dispatch_next f now s)"
| "run_op (Op_dispatch_task f now i) s = snd (Scheduler_dispatch_task f now i s)"
| "run_op (Op_suspend f now i) s = snd (Scheduler_suspend f now i s)"
| "run_op (Op_complete now i) s = snd (Scheduler_complete now i s)"
| "run_op (Op_fail now i) s = snd (Scheduler_fail now i s)"
| "run_op (Op_cancel now i) s = snd (Scheduler_cancel now i s)"
| "run_op (Op_cancel_queued i) s = snd (Scheduler_cancel_queued i s)"
| "run_op (Op_forget i) s = snd (Scheduler_forget i s)"
| "run_op (Op_set_reserved_slots n) s = snd (Scheduler_set_priority_reserved_slots n s)"

inductive sched_reachable :: "MemoryBytes \<Rightarrow> SchedulerOptions \<Rightarrow> Scheduler \<Rightarrow> bool"
  for limit :: MemoryBytes and opts :: SchedulerOptions where
  created: "sched_reachable limit opts (Scheduler_new limit opts)"
| stepped: "sched_reachable limit opts s \<Longrightarrow> sched_reachable limit opts (run_op op s)"

fun lifecycle_op :: "sched_op \<Rightarrow> bool" where
  "lifecycle_op (Op_submit f now spec) = False"
| "lifecycle_op (Op_forget i) = False"
| "lifecycle_op (Op_set_reserved_slots n) = False"
| "lifecycle_op _ = True"

lemma run_op_lifecycle: "sched_inv s \<Longrightarrow> lifecycle_op op \<Longrightarrow> lifecycle s (run_op op s)"
  by (cases op)
    (auto intro: dispatch_next_effect dispatch_task_effect suspend_effect complete_effect fail_effect
      cancel_effect cancel_queued_effect prod.collapse [symmetric])

lemma run_op_inv:
  assumes "sched_inv s"
  shows "sched_inv (run_op op s)"
proof (cases "lifecycle_op op")
  case True
  with assms show ?thesis by (blast intro: lifecycle_inv run_op_lifecycle)
next
  case False
  with assms show ?thesis
    by (cases op) (auto intro: submit_inv forget_inv set_slots_inv prod.collapse [symmetric])
qed

lemma reachable_inv: "sched_reachable limit opts s \<Longrightarrow> sched_inv s"
  by (induction rule: sched_reachable.induct) (simp_all add: new_inv run_op_inv)

lemma reachable_fold: "sched_reachable limit opts (fold run_op ops (Scheduler_new limit opts))"
  by (induction ops rule: rev_induct) (auto intro: sched_reachable.intros)

end
