(* ===== verification/SchedulerProps.thy ===== *)
theory SchedulerProps
  imports SchedulerSubmit
begin

text \<open>
  The contract of the scheduler, stated over its public operations and its reachable
  states: exact quota accounting, agreement of the views of a task, the effect of every
  operation, the order the policies promise, and progress.
\<close>

section \<open>What no operation changes\<close>

definition sched_static :: "Scheduler \<Rightarrow> MemoryBytes \<times> SchedulingPolicy \<times> size_t \<times> size_t \<times> u32" where
  "sched_static s =
     (ledger_limit (quota_ledger s), scheduling_policy s, max_running_tasks s, max_queued_tasks s,
      priority_reservation_threshold s)"

lemma ledger_limit_kept [simp]:
  "ledger_limit (snd (ledger_release l b)) = ledger_limit l"
  "ledger_limit (snd (commit_reservation l b)) = ledger_limit l"
  "ledger_limit (snd (cancel_reservation l b)) = ledger_limit l"
  "ledger_limit (snd (ledger_try_reserve l b)) = ledger_limit l"
  by (simp_all add: ledger_release_def commit_reservation_def cancel_reservation_def
      ledger_try_reserve_def)

lemma static_transition: "task_transition i t t' s s' \<Longrightarrow> sched_static s' = sched_static s"
  by (simp add: task_transition_def frame_config_def ledger_moves_def sched_static_def)

lemma static_idle: "idle_round s s' \<Longrightarrow> sched_static s' = sched_static s"
  by (auto simp: idle_round_def sched_static_def dest: rr_frameD)

lemma static_submit: "submit_transition now spec s s' \<Longrightarrow> sched_static s' = sched_static s"
  using ledger_limit_kept(4) [of "quota_ledger s" "spec_memory_bytes spec"]
  by (auto simp: submit_transition_def sched_static_def)

lemma static_lifecycle: "lifecycle s s' \<Longrightarrow> sched_static s' = sched_static s"
  by (induction rule: lifecycle.induct) (auto dest: static_transition static_idle)

lemma static_run_op:
  assumes "sched_inv s"
  shows "sched_static (run_op op s) = sched_static s"
proof (cases "lifecycle_op op")
  case True
  with assms show ?thesis by (blast intro: static_lifecycle run_op_lifecycle)
next
  case False
  then show ?thesis
  proof (cases op)
    case (Op_submit f now spec)
    obtain res s' where sub: "Scheduler_submit f now spec s = (res, s')"
      by (cases "Scheduler_submit f now spec s")
    then show ?thesis
      using Op_submit submit_accepted(1) [OF assms sub] submit_rejected [OF assms sub] static_submit
      by (cases "sr_status res = SubmitStatus_kAccepted") auto
  qed (auto simp: Scheduler_forget_def Scheduler_set_priority_reserved_slots_def sched_static_def
      reservation_destroy_def reservation_cancel_def cancel_reservation_def
      split: option.splits if_splits prod.splits)
qed

lemma reachable_static:
  "sched_reachable limit opts s \<Longrightarrow> sched_static s = sched_static (Scheduler_new limit opts)"
  by (induction rule: sched_reachable.induct) (auto simp: static_run_op reachable_inv)

lemma reachable_config:
  assumes "sched_reachable limit opts s"
  shows "ledger_limit (quota_ledger s) = limit"
    and "max_running_tasks s = max (opt_max_running_tasks opts) 1"
  using reachable_static [OF assms]
  by (simp_all add: sched_static_def Scheduler_new_def QuotaLedger_new_def)

section \<open>The abstract scheduler\<close>

text \<open>
  The contract without queues, counters or ledger: a map from task ids to a specification
  and a state. A task is admitted while the bytes of all live tasks fit the limit, starts
  while a slot is free, and follows its life; only a finished task is forgotten.
\<close>

type_synonym abs_sched = "TaskId \<rightharpoonup> TaskSpec \<times> TaskState"

definition abs_sched :: "Scheduler \<Rightarrow> abs_sched" where
  "abs_sched s i = map_option (\<lambda>t. (task_spec t, task_st t)) (map_of (tasks s) i)"

definition live_bytes :: "TaskSpec \<times> TaskState \<Rightarrow> nat" where
  "live_bytes x =
     (if snd x = TaskState_kQueued \<or> snd x = TaskState_kRunning
      then unat (spec_memory_bytes (fst x)) else 0)"

definition total_live_bytes :: "abs_sched \<Rightarrow> nat" where
  "total_live_bytes m = (\<Sum>i \<in> dom m. live_bytes (the (m i)))"

definition running_ids :: "abs_sched \<Rightarrow> TaskId set" where
  "running_ids m = {i. \<exists>sp. m i = Some (sp, TaskState_kRunning)}"

inductive abs_step :: "nat \<Rightarrow> nat \<Rightarrow> abs_sched \<Rightarrow> abs_sched \<Rightarrow> bool" for limit slots :: nat where
  stutter: "abs_step limit slots m m"
| admit: "m i = None \<Longrightarrow> spec_valid sp \<Longrightarrow> total_live_bytes m + unat (spec_memory_bytes sp) \<le> limit \<Longrightarrow>
    abs_step limit slots m (m(i \<mapsto> (sp, TaskState_kQueued)))"
| start: "m i = Some (sp, TaskState_kQueued) \<Longrightarrow> card (running_ids m) < slots \<Longrightarrow>
    abs_step limit slots m (m(i \<mapsto> (sp, TaskState_kRunning)))"
| leave: "m i = Some (sp, st) \<Longrightarrow> st' \<in> set (next_states st) \<Longrightarrow> st' \<noteq> TaskState_kRunning \<Longrightarrow>
    abs_step limit slots m (m(i \<mapsto> (sp, st')))"
| forget: "m i = Some (sp, st) \<Longrightarrow> next_states st = [] \<Longrightarrow> abs_step limit slots m (m(i := None))"

lemma umap_sum_dom:
  "keys_distinct m \<Longrightarrow> umap_sum f m = (\<Sum>k \<in> dom (map_of m). f (the (map_of m k)))"
proof (induction m)
  case (Cons a m)
  obtain k v where a: "a = (k, v)" by (cases a)
  with Cons.prems have k: "k \<notin> dom (map_of m)" by (simp add: dom_map_of_conv_image_fst)
  have d: "dom (map_of (a # m)) = insert k (dom (map_of m))" by (auto simp: a)
  have "(\<Sum>j \<in> dom (map_of m). f (the (map_of (a # m) j))) = (\<Sum>j \<in> dom (map_of m). f (the (map_of m j)))"
    using k a by (intro sum.cong) auto
  moreover have "umap_sum f m = (\<Sum>j \<in> dom (map_of m). f (the (map_of m j)))"
    using Cons.IH Cons.prems by simp
  ultimately show ?case
    unfolding d using k by (subst sum.insert) (simp_all add: finite_dom_map_of, simp add: a)
qed simp

lemma abs_total:
  assumes "sched_inv s"
  shows "total_live_bytes (abs_sched s) = ledger_used (quota_ledger s)"
proof -
  have dk: "keys_distinct (tasks s)" using sched_invD(2) [OF assms] by (simp add: inv_tasks_def)
  have "total_live_bytes (abs_sched s) = umap_sum (\<lambda>t. live_bytes (task_spec t, task_st t)) (tasks s)"
    unfolding umap_sum_dom [OF dk] total_live_bytes_def
    by (rule sum.cong) (auto simp: abs_sched_def)
  also have "(\<lambda>t. live_bytes (task_spec t, task_st t)) = (\<lambda>t. reserved_of t + allocated_of t)"
    by (auto simp: live_bytes_def reserved_of_def allocated_of_def fun_eq_iff)
  finally show ?thesis
    using sched_invD(4) [OF assms] by (simp add: inv_accounts_def ledger_used_def umap_sum_add)
qed

lemma abs_running:
  assumes "sched_inv s"
  shows "running_ids (abs_sched s) = set (running_task_ids s)"
    and "card (running_ids (abs_sched s)) = length (running_task_ids s)"
proof -
  show eq: "running_ids (abs_sched s) = set (running_task_ids s)"
    using sched_invD(3) [OF assms] by (auto simp: running_ids_def abs_sched_def inv_running_def)
  show "card (running_ids (abs_sched s)) = length (running_task_ids s)"
    using sched_invD(3) [OF assms] by (simp add: eq inv_running_def distinct_card)
qed

lemma abs_lifecycle:
  assumes inv: "sched_inv s" and "lifecycle s s'"
  shows "abs_step limit (unat (max_running_tasks s)) (abs_sched s) (abs_sched s')"
  using assms(2)
proof (cases rule: lifecycle.cases)
  case same
  then show ?thesis by (simp add: abs_step.stutter)
next
  case turned
  then have "abs_sched s' = abs_sched s"
    by (auto simp: idle_round_def abs_sched_def fun_eq_iff dest: rr_frameD)
  then show ?thesis by (simp add: abs_step.stutter)
next
  case (moved i t t')
  note tr = \<open>task_transition i t t' s s'\<close>
  have m: "abs_sched s' = (abs_sched s)(i \<mapsto> (task_spec t, task_st t'))"
    "abs_sched s i = Some (task_spec t, task_st t)"
    using tr moved by (auto simp: task_transition_def abs_sched_def fun_eq_iff)
  show ?thesis
  proof (cases "task_st t' = TaskState_kRunning")
    case True
    then have st: "task_st t = TaskState_kQueued" using moved by (cases "task_st t") auto
    have "i \<notin> set (running_task_ids s)" using running_member [OF inv] moved st by simp
    moreover have "distinct (running_task_ids s')"
      "set (running_task_ids s') = insert i (set (running_task_ids s))"
      "length (running_task_ids s') \<le> unat (max_running_tasks s)"
      using tr True by (simp_all add: task_transition_def)
    ultimately have "card (set (running_task_ids s)) < unat (max_running_tasks s)"
      by (metis List.finite_set card_insert_disjoint distinct_card Suc_le_eq)
    with m st True show ?thesis
      using abs_step.start [of "abs_sched s" i "task_spec t"] by (simp add: abs_running [OF inv])
  next
    case False
    with m moved show ?thesis by (auto intro: abs_step.leave)
  qed
qed

lemma abs_submit:
  assumes inv: "sched_inv s" and sub: "Scheduler_submit f now spec s = (res, s')"
    and st: "sr_status res = SubmitStatus_kAccepted"
  shows "abs_step (unat (ledger_limit (quota_ledger s))) slots (abs_sched s) (abs_sched s')"
proof -
  note acc = submit_accepted [OF inv sub st]
  have lok: "ledger_ok (quota_ledger s)" using sched_invD(4) [OF inv] by (simp add: inv_accounts_def)
  obtain r where "ledger_try_reserve (quota_ledger s) (spec_memory_bytes spec) = (Some r, quota_ledger s')"
    using acc(1) by (auto simp: submit_transition_def)
  from ledger_try_reserve_Some [OF lok this]
  have "ledger_used (quota_ledger s) + unat (spec_memory_bytes spec) \<le> unat (ledger_limit (quota_ledger s))"
    by (simp add: ledger_ok_def ledger_used_def)
  moreover have "abs_sched s' = (abs_sched s)(next_task_id s \<mapsto> (spec, TaskState_kQueued))"
    using acc(1) by (auto simp: submit_transition_def abs_sched_def fun_eq_iff submitted_record_def)
  moreover have "abs_sched s (next_task_id s) = None"
    using fresh_task_id [OF inv] by (simp add: abs_sched_def)
  ultimately show ?thesis
    using acc(3) by (simp add: abs_step.admit abs_total [OF inv])
qed

lemma abs_forget:
  assumes "Scheduler_forget i s = (b, s')"
  shows "abs_step limit slots (abs_sched s) (abs_sched s')"
proof (cases "\<exists>t. map_of (tasks s) i = Some t \<and> next_states (task_st t) = []")
  case True
  then obtain t where t: "map_of (tasks s) i = Some t" "next_states (task_st t) = []" by blast
  then have "abs_sched s' = (abs_sched s)(i := None)"
    using assms by (cases "task_st t") (auto simp: Scheduler_forget_def abs_sched_def fun_eq_iff)
  with t show ?thesis using abs_step.forget [of "abs_sched s" i "task_spec t" "task_st t"]
    by (simp add: abs_sched_def)
next
  case False
  with assms have "s' = s"
    by (auto simp: Scheduler_forget_def split: option.splits if_splits) (metis TaskState.exhaust next_states.simps)+
  then show ?thesis by (simp add: abs_step.stutter)
qed

lemma abs_run_op:
  assumes inv: "sched_inv s"
  shows "abs_step (unat (ledger_limit (quota_ledger s))) (unat (max_running_tasks s))
    (abs_sched s) (abs_sched (run_op op s))"
proof (cases "lifecycle_op op")
  case True
  with inv show ?thesis by (blast intro: abs_lifecycle run_op_lifecycle)
next
  case False
  then show ?thesis
  proof (cases op)
    case (Op_submit f now spec)
    obtain res s' where sub: "Scheduler_submit f now spec s = (res, s')"
      by (cases "Scheduler_submit f now spec s")
    then show ?thesis
      using Op_submit abs_submit [OF inv sub] submit_rejected [OF inv sub]
      by (cases "sr_status res = SubmitStatus_kAccepted") (auto intro: abs_step.stutter)
  next
    case (Op_forget i)
    then show ?thesis
      using abs_forget [of i s "fst (Scheduler_forget i s)" "snd (Scheduler_forget i s)"] by simp
  next
    case (Op_set_reserved_slots n)
    then have "abs_sched (run_op op s) = abs_sched s"
      by (simp add: Scheduler_set_priority_reserved_slots_def abs_sched_def fun_eq_iff)
    then show ?thesis by (simp add: abs_step.stutter)
  qed auto
qed

end
