(* ===== verification/SchedulerContract.thy ===== *)
theory SchedulerContract
  imports SchedulerProps
begin

text \<open>
  The properties of the scheduler that its callers rely on, each over reachable states and
  the public operations, with a concrete run that exercises it.
\<close>

section \<open>A concrete run\<close>

definition demo_opts :: "SchedulingPolicy \<Rightarrow> SchedulerOptions" where
  "demo_opts p =
     \<lparr>opt_max_running_tasks = 2, opt_max_queued_tasks = 4, opt_priority_reserved_slots = 1,
      opt_priority_reservation_threshold = 5, opt_scheduling_policy = p\<rparr>"

definition demo_spec :: "string \<Rightarrow> MemoryBytes \<Rightarrow> u32 \<Rightarrow> u32 \<Rightarrow> u32 \<Rightarrow> TaskSpec" where
  "demo_spec tn m w u p =
     \<lparr>spec_tenant_id = tn, spec_memory_bytes = m, spec_weight = w, spec_work_units = u, spec_priority = p\<rparr>"

definition demo_ops :: "sched_op list" where
  "demo_ops =
     [Op_submit None 0 (demo_spec ''a'' 10 1 3 1), Op_submit None 0 (demo_spec ''b'' 20 2 2 7),
      Op_dispatch_next None 5, Op_submit None 6 (demo_spec ''a'' 15 1 5 9)]"

definition demo :: "SchedulingPolicy \<Rightarrow> Scheduler" where
  "demo p = fold run_op demo_ops (Scheduler_new 100 (demo_opts p))"

lemma demo_reachable: "sched_reachable 100 (demo_opts p) (demo p)"
  unfolding demo_def by (rule reachable_fold)

section \<open>Dispatch, step by step\<close>

lemma dispatch_next_SomeD:
  assumes inv: "sched_inv s" and d: "Scheduler_dispatch_next f now s = (Some sn, s')"
  obtains t where "peek_next_task_locked s = Some (snap_task_id sn)"
    and "length (running_task_ids s) < unat (max_running_tasks s)"
    and "\<not> priority_reservation_blocks_low_dispatch_locked s"
    and "map_of (tasks s) (snap_task_id sn) = Some t" and "task_st t = TaskState_kQueued"
    and "task_transition (snap_task_id sn) t (dispatched_record now s t) s s'"
    and "sn = (snapshot_locked (snap_task_id sn) t)\<lparr>snap_state := TaskState_kRunning,
               snap_dispatch_sequence := next_dispatch_sequence s\<rparr>"
proof -
  note ok = sched_invD(1) [OF inv]
  obtain i s1 where sel: "select_next_task_locked s = (Some i, s1)"
    and room: "length (running_task_ids s) < unat (max_running_tasks s)"
    and nb: "\<not> priority_reservation_blocks_low_dispatch_locked s"
    and ds: "dispatch_selected_task_locked f now i s1 = (Some sn, s')"
    using d by (auto simp: Scheduler_dispatch_next_def not_le split: if_splits prod.splits option.splits)
  note deq = sel.select_Some [OF ok sel]
  obtain t where t: "map_of (tasks s) i = Some t" "task_st t = TaskState_kQueued"
    using deq by (auto simp: dequeued_def task_queued_def split: option.splits)
  have f: "f = None"
    using ds dispatch_selected_fault [OF inv deq t(1)] by (cases f) (metis option.distinct(1) prod.inject)+
  obtain s'' where ds': "dispatch_selected_task_locked None now i s1 =
       (Some ((snapshot_locked i t)\<lparr>snap_state := TaskState_kRunning,
              snap_dispatch_sequence := next_dispatch_sequence s\<rparr>), s'')"
    and tr: "task_transition i t (dispatched_record now s t) s s''"
    by (rule dispatch_selected_ok [OF inv deq t(1) room])
  have i: "snap_task_id sn = i" using ds ds' f by (auto simp: snapshot_locked_def)
  show thesis
  proof (rule that [unfolded i])
    show "peek_next_task_locked s = Some i" using sel.peek_select [OF ok] sel by simp
  qed (use room nb t tr ds ds' f in auto)
qed

lemma dispatch_next_peek:
  assumes inv: "sched_inv s" and peek: "peek_next_task_locked s = Some i"
    and room: "length (running_task_ids s) < unat (max_running_tasks s)"
    and nb: "\<not> priority_reservation_blocks_low_dispatch_locked s"
  obtains sn s' where "Scheduler_dispatch_next None now s = (Some sn, s')" and "snap_task_id sn = i"
proof -
  note ok = sched_invD(1) [OF inv]
  obtain s1 where sel: "select_next_task_locked s = (Some i, s1)"
    using sel.peek_select [OF ok] peek by (cases "select_next_task_locked s") auto
  note deq = sel.select_Some [OF ok sel]
  obtain t where t: "map_of (tasks s) i = Some t"
    using deq by (auto simp: dequeued_def task_queued_def split: option.splits)
  obtain s'' where "dispatch_selected_task_locked None now i s1 =
       (Some ((snapshot_locked i t)\<lparr>snap_state := TaskState_kRunning,
              snap_dispatch_sequence := next_dispatch_sequence s\<rparr>), s'')"
    by (rule dispatch_selected_ok [OF inv deq t room])
  with sel room nb have "Scheduler_dispatch_next None now s =
       (Some ((snapshot_locked i t)\<lparr>snap_state := TaskState_kRunning,
              snap_dispatch_sequence := next_dispatch_sequence s\<rparr>), s'')"
    by (simp add: Scheduler_dispatch_next_def)
  then show thesis by (rule that) (simp add: snapshot_locked_def)
qed

section \<open>Accounting\<close>

text \<open>
  C1. In every reachable state the ledger is exact: the reserved bytes are those of the
  tasks that wait for their first dispatch, the allocated bytes those of the running and
  of the suspended tasks, the limit is the configured one, and the two together never
  exceed it.
\<close>

theorem quota_accounting_exact:
  assumes "sched_reachable limit opts s"
  shows "limit_bytes (Scheduler_usage s) = limit \<and>
    unat (reserved_bytes (Scheduler_usage s)) = umap_sum reserved_of (tasks s) \<and>
    unat (allocated_bytes (Scheduler_usage s)) = umap_sum allocated_of (tasks s) \<and>
    unat (reserved_bytes (Scheduler_usage s)) + unat (allocated_bytes (Scheduler_usage s)) \<le> unat limit"
  using sched_invD(4) [OF reachable_inv [OF assms]] reachable_config [OF assms]
  by (simp add: Scheduler_usage_def ledger_usage_def inv_accounts_def ledger_ok_def ledger_used_def)

theorem quota_accounting_exact_witness:
  "reserved_bytes (Scheduler_usage (demo kFifo)) = 35 \<and>
   allocated_bytes (Scheduler_usage (demo kFifo)) = 10 \<and>
   umap_sum reserved_of (tasks (demo kFifo)) = 35"
proof -
  have "reserved_bytes (Scheduler_usage (demo kFifo)) = 35" by code_simp
  moreover have "allocated_bytes (Scheduler_usage (demo kFifo)) = 10" by code_simp
  ultimately show ?thesis using quota_accounting_exact [OF demo_reachable, of kFifo] by simp
qed

text \<open>
  C2. In every reachable state the views of a task agree: it is on the running list exactly
  when its record says running, in its own tenant's queue and no other exactly when its
  record says queued, no list has duplicates, at most the configured number of tasks run,
  and the queued counter counts the queued tasks.
\<close>

theorem task_views_agree:
  assumes "sched_reachable limit opts s" and "map_of (tasks s) i = Some t"
  shows "(i \<in> set (running_task_ids s) \<longleftrightarrow> task_st t = TaskState_kRunning) \<and>
    (i \<in> set (q_ids s tn) \<longleftrightarrow> task_st t = TaskState_kQueued \<and> tn = spec_tenant_id (task_spec t)) \<and>
    distinct (running_task_ids s) \<and> distinct (q_ids s tn) \<and>
    Scheduler_running_task_count s \<le> unat (max (opt_max_running_tasks opts) 1) \<and>
    unat (Scheduler_queued_task_count s) = umap_sum queued_one (tasks s)"
proof -
  note inv = reachable_inv [OF assms(1)]
  have "(i \<in> set (q_ids s tn)) = (task_st t = TaskState_kQueued \<and> tn = spec_tenant_id (task_spec t))"
    using queues_okD(6) [OF sched_invD(1) [OF inv], of i tn] assms(2) by (auto simp: queued_for_def)
  with running_member [OF inv assms(2)] sched_invD(3,4) [OF inv] queues_okD(5) [OF sched_invD(1) [OF inv]]
    reachable_config(2) [OF assms(1)]
  show ?thesis
    by (simp add: inv_running_def inv_accounts_def Scheduler_running_task_count_def
        Scheduler_queued_task_count_def)
qed

theorem task_views_agree_witness:
  "1 \<in> set (running_task_ids (demo kFifo)) \<and> 1 \<notin> set (q_ids (demo kFifo) ''a'')"
proof -
  have "map_option task_st (map_of (tasks (demo kFifo)) 1) = Some TaskState_kRunning" by code_simp
  then obtain t where "map_of (tasks (demo kFifo)) 1 = Some t" "task_st t = TaskState_kRunning" by auto
  with task_views_agree [OF demo_reachable, of kFifo 1 t "''a''"] show ?thesis by simp
qed

text \<open>
  C3. The scheduler refines the abstract scheduler: whatever operation runs in a reachable
  state, with whatever allocation failure, its effect on the tasks is one step of the
  abstract machine with the configured limit and number of slots.
\<close>

theorem scheduler_refines_abstract:
  assumes "sched_reachable limit opts s"
  shows "abs_step (unat limit) (unat (max (opt_max_running_tasks opts) 1))
    (abs_sched s) (abs_sched (run_op op s))"
  using abs_run_op [OF reachable_inv [OF assms], of op] reachable_config [OF assms] by simp

theorem scheduler_refines_abstract_witness:
  "abs_step 100 2 (abs_sched (demo kFifo)) (abs_sched (run_op (Op_dispatch_next None 7) (demo kFifo))) \<and>
   abs_sched (demo kFifo) 2 = Some (demo_spec ''b'' 20 2 2 7, TaskState_kQueued) \<and>
   abs_sched (run_op (Op_dispatch_next None 7) (demo kFifo)) 2 =
     Some (demo_spec ''b'' 20 2 2 7, TaskState_kRunning)"
proof (intro conjI)
  show "abs_step 100 2 (abs_sched (demo kFifo)) (abs_sched (run_op (Op_dispatch_next None 7) (demo kFifo)))"
    using scheduler_refines_abstract [OF demo_reachable, of kFifo "Op_dispatch_next None 7"]
    by (simp add: demo_opts_def)
qed code_simp+

section \<open>Submission\<close>

text \<open>
  C4. A submission that is not accepted changes nothing, whatever the reason: an invalid
  task, a full queue, a weight that differs from the tenant's, a lack of quota, or an
  allocation failure at any of the four points where one can happen.
\<close>

theorem rejected_submit_is_noop:
  assumes "sched_reachable limit opts s"
    and "sr_status (fst (Scheduler_submit fault now spec s)) \<noteq> SubmitStatus_kAccepted"
  shows "snd (Scheduler_submit fault now spec s) = s"
  using assms submit_rejected [OF reachable_inv [OF assms(1)], of fault now spec]
  by (metis prod.collapse)

theorem rejected_submit_is_noop_witness:
  "snd (Scheduler_submit (Some Fault_queue_push) 9 (demo_spec ''c'' 5 1 1 1) (demo kFifo)) = demo kFifo"
proof -
  have "sr_status (fst (Scheduler_submit (Some Fault_queue_push) 9 (demo_spec ''c'' 5 1 1 1) (demo kFifo)))
      = SubmitStatus_kInternalError" by code_simp
  with rejected_submit_is_noop [OF demo_reachable] show ?thesis by simp
qed



section \<open>Dispatch order\<close>

text \<open>
  C6. A claim for one task agrees with the scheduler's own choice: when the task is next
  under the policy, claiming it does exactly what \<open>dispatch_next\<close> would do, allocation
  failures included; when it is not, nothing is dispatched.
\<close>

theorem dispatch_task_agrees:
  assumes "sched_reachable limit opts s"
  shows "(peek_next_task_locked s = Some i \<longrightarrow>
            Scheduler_dispatch_task f now i s = Scheduler_dispatch_next f now s) \<and>
         (peek_next_task_locked s \<noteq> Some i \<longrightarrow> fst (Scheduler_dispatch_task f now i s) = None)"
proof -
  note inv = reachable_inv [OF assms]
  note ok = sched_invD(1) [OF inv]
  have "Scheduler_dispatch_task f now i s = Scheduler_dispatch_next f now s"
    if peek: "peek_next_task_locked s = Some i"
  proof -
    have q: "task_queued (tasks s) i" using sel.peek_queued [OF ok peek] .
    then have "i \<noteq> 0" by (auto elim!: queued_taskE [OF inv] simp: task_ok_def)
    moreover obtain s1 where "select_next_task_locked s = (Some i, s1)"
      using sel.peek_select [OF ok] peek by (cases "select_next_task_locked s") auto
    ultimately show ?thesis
      using q peek by (simp add: Scheduler_dispatch_task_def Scheduler_dispatch_next_def)
  qed
  moreover have "fst (Scheduler_dispatch_task f now i s) = None" if "peek_next_task_locked s \<noteq> Some i"
    using that by (auto simp: Scheduler_dispatch_task_def split: option.splits)
  ultimately show ?thesis by blast
qed

theorem dispatch_task_agrees_witness:
  "map_option snap_task_id (fst (Scheduler_dispatch_task None 7 2 (demo kFifo))) = Some 2 \<and>
   fst (Scheduler_dispatch_task None 7 3 (demo kFifo)) = None \<and>
   Scheduler_dispatch_task None 7 2 (demo kFifo) = Scheduler_dispatch_next None 7 (demo kFifo)"
proof -
  have p: "peek_next_task_locked (demo kFifo) = Some 2" by code_simp
  have "map_option snap_task_id (fst (Scheduler_dispatch_next None 7 (demo kFifo))) = Some 2" by code_simp
  with p dispatch_task_agrees [OF demo_reachable, of kFifo 2 None 7]
    dispatch_task_agrees [OF demo_reachable, of kFifo 3 None 7]
  show ?thesis by simp
qed

text \<open>
  Under the FIFO policy a dispatch takes the queued task with the least id, that is the
  one submitted first; the order of the hash map plays no role.
\<close>

theorem fifo_dispatches_oldest:
  assumes "sched_reachable limit opts s" and "scheduling_policy s = kFifo"
    and "Scheduler_dispatch_next f now s = (Some sn, s')"
  shows "task_queued (tasks s) (snap_task_id sn) \<and>
    (\<forall>j. task_queued (tasks s) j \<longrightarrow> snap_task_id sn \<le> j)"
proof -
  note inv = reachable_inv [OF assms(1)]
  have "peek_fifo_task_locked s = Some (snap_task_id sn)"
    using dispatch_next_SomeD [OF inv assms(3)] assms(2)
    by (metis peek_by_policy.simps(1) peek_next_task_locked_def)
  then show ?thesis using peek_fifo_iff(1) [OF sched_invD(1) [OF inv]] by auto
qed

theorem fifo_dispatches_oldest_witness:
  "\<exists>sn s'. Scheduler_dispatch_next None 7 (demo kFifo) = (Some sn, s') \<and> snap_task_id sn = 2 \<and>
     task_queued (tasks (demo kFifo)) 2 \<and> task_queued (tasks (demo kFifo)) 3 \<and> snap_task_id sn \<le> 3"
proof -
  have "map_option snap_task_id (fst (Scheduler_dispatch_next None 7 (demo kFifo))) = Some 2" by code_simp
  then obtain sn s' where d: "Scheduler_dispatch_next None 7 (demo kFifo) = (Some sn, s')"
    and i: "snap_task_id sn = 2" by (cases "Scheduler_dispatch_next None 7 (demo kFifo)") auto
  have "scheduling_policy (demo kFifo) = kFifo" by code_simp
  note w = fifo_dispatches_oldest [OF demo_reachable this d]
  have "task_queued (tasks (demo kFifo)) 3" by code_simp
  with w i have "task_queued (tasks (demo kFifo)) 2" "snap_task_id sn \<le> 3" by metis+
  with d i \<open>task_queued (tasks (demo kFifo)) 3\<close> show ?thesis by blast
qed

text \<open>
  C7. Under the priority policy a dispatch takes a task of the highest queued priority, and
  among those the one submitted first.
\<close>

theorem priority_dispatches_highest:
  assumes "sched_reachable limit opts s" and "scheduling_policy s = kPriority"
    and "Scheduler_dispatch_next f now s = (Some sn, s')"
  shows "task_queued (tasks s) (snap_task_id sn) \<and> snap_priority sn = prio_of s (snap_task_id sn) \<and>
    (\<forall>j. task_queued (tasks s) j \<longrightarrow>
       prio_of s j < snap_priority sn \<or> prio_of s j = snap_priority sn \<and> snap_task_id sn \<le> j)"
proof -
  note inv = reachable_inv [OF assms(1)]
  obtain t where peek: "peek_next_task_locked s = Some (snap_task_id sn)"
    and t: "map_of (tasks s) (snap_task_id sn) = Some t"
    and sn: "sn = (snapshot_locked (snap_task_id sn) t)\<lparr>snap_state := TaskState_kRunning,
               snap_dispatch_sequence := next_dispatch_sequence s\<rparr>"
    by (rule dispatch_next_SomeD [OF inv assms(3)])
  have "snap_priority sn = prio_of s (snap_task_id sn)"
    using arg_cong [OF sn, of snap_priority] t by (simp add: snapshot_locked_def prio_of_def)
  then show ?thesis
    using peek assms(2) peek_priority_iff(1) [OF sched_invD(1) [OF inv]]
    by (auto simp: peek_next_task_locked_def prio_before_def)
qed

theorem priority_dispatches_highest_witness:
  "\<exists>sn s'. Scheduler_dispatch_next None 7 (demo kPriority) = (Some sn, s') \<and> snap_task_id sn = 3 \<and>
     task_queued (tasks (demo kPriority)) 1 \<and> prio_of (demo kPriority) 1 < snap_priority sn"
proof -
  have "map_option (\<lambda>sn. (snap_task_id sn, snap_priority sn))
      (fst (Scheduler_dispatch_next None 7 (demo kPriority))) = Some (3, 9)" by code_simp
  then obtain sn s' where d: "Scheduler_dispatch_next None 7 (demo kPriority) = (Some sn, s')"
    and i: "snap_task_id sn = 3" "snap_priority sn = 9"
    by (cases "Scheduler_dispatch_next None 7 (demo kPriority)") auto
  have "scheduling_policy (demo kPriority) = kPriority" by code_simp
  note w = priority_dispatches_highest [OF demo_reachable this d]
  have q: "task_queued (tasks (demo kPriority)) 1" by code_simp
  have "\<not> (3 :: TaskId) \<le> 1" by code_simp
  with w q i have "prio_of (demo kPriority) 1 < snap_priority sn" by metis
  with d i q show ?thesis by blast
qed

section \<open>Progress\<close>

text \<open>
  C8. Work conservation: under FIFO, priority and weighted round robin, when a task is
  queued, a slot is free and the priority reservation does not hold the head back, one call
  of \<open>dispatch_next\<close> dispatches a task. The reservation holds back only low-priority heads.
\<close>

theorem work_conserving_dispatch:
  assumes "sched_reachable limit opts s" and "scheduling_policy s \<noteq> kDeficitRoundRobin"
    and "task_queued (tasks s) i" and "length (running_task_ids s) < unat (max_running_tasks s)"
    and "\<not> priority_reservation_blocks_low_dispatch_locked s"
  shows "fst (Scheduler_dispatch_next None now s) \<noteq> None"
proof -
  note inv = reachable_inv [OF assms(1)]
  have "scheduling_policy s \<in> {kFifo, kWeightedRoundRobin, kPriority}"
    using sched_invD(5) [OF inv] assms(2) by (cases "scheduling_policy s") (auto simp: inv_config_def)
  then obtain j where "peek_next_task_locked s = Some j"
    using configured_policy_conserving [OF sched_invD(1) [OF inv] assms(3)] by auto
  then obtain sn s' where "Scheduler_dispatch_next None now s = (Some sn, s')"
    by (rule dispatch_next_peek [OF inv _ assms(4,5)])
  then show ?thesis by simp
qed

theorem work_conserving_dispatch_witness:
  "fst (Scheduler_dispatch_next None 7 (demo kWeightedRoundRobin)) \<noteq> None"
proof (rule work_conserving_dispatch [OF demo_reachable, where i = 3])
  show "scheduling_policy (demo kWeightedRoundRobin) \<noteq> kDeficitRoundRobin" by code_simp
  show "task_queued (tasks (demo kWeightedRoundRobin)) 3" by code_simp
  show "length (running_task_ids (demo kWeightedRoundRobin)) < unat (max_running_tasks (demo kWeightedRoundRobin))"
    by code_simp
  show "\<not> priority_reservation_blocks_low_dispatch_locked (demo kWeightedRoundRobin)" by code_simp
qed

text \<open>Repeating \<open>dispatch_next\<close> until it returns a task, at most \<open>n\<close> times.\<close>

fun dispatch_rounds :: "nat \<Rightarrow> time_ns \<Rightarrow> Scheduler \<Rightarrow> TaskSnapshot option \<times> Scheduler" where
  "dispatch_rounds 0 now s = (None, s)"
| "dispatch_rounds (Suc n) now s =
     (case Scheduler_dispatch_next None now s of
        (Some sn, s') \<Rightarrow> (Some sn, s')
      | (None, s') \<Rightarrow> dispatch_rounds n now s')"

lemma unat_add_quantum:
  "unat (tq_deficit (add_quantum q)) =
     min (unat (tq_deficit q) + unat (tq_weight q)) 18446744073709551615"
proof (cases "tq_deficit q > u64_max - ucast (tq_weight q)")
  case True
  then show ?thesis by (simp add: add_quantum_def Let_def word_less_nat_alt)
next
  case False
  let ?w = "ucast (tq_weight q) :: u64"
  from False have le: "unat (tq_deficit q) \<le> 18446744073709551615 - unat (tq_weight q)"
    by (simp add: word_less_nat_alt)
  then have sum: "unat (tq_deficit q) + unat ?w \<le> 18446744073709551615"
    using unat_le_u64_max [of ?w] by simp
  then have "unat (tq_deficit q + ?w) = unat (tq_deficit q) + unat ?w"
    by (intro unat_add_no_wrap) simp
  with False sum show ?thesis by (simp add: add_quantum_def Let_def)
qed

lemma peek_drr_funded:
  assumes ok: "queues_ok s" and c: "c < length (tenant_order s)" and k: "k < a"
    and q: "map_of (tenant_queues s) (tenant_order s ! ((c + k) mod length (tenant_order s))) = Some q"
    and h: "tq_task_ids q = h # rest" "task_cost (tasks s) h \<le> tq_deficit q"
  shows "peek_drr_loop a c s \<noteq> None"
  using c k q
proof (induction a arbitrary: c k)
  case (Suc a)
  let ?n = "length (tenant_order s)"
  show ?case
  proof (cases k)
    case 0
    with Suc.prems have q0: "map_of (tenant_queues s) (tenant_order s ! c) = Some q" by simp
    with Suc.prems(1) h find_queue_head [OF ok q0] show ?thesis by (simp add: Let_def)
  next
    case (Suc k')
    have "(c + k) mod ?n = ((c + 1) mod ?n + k') mod ?n" unfolding Suc by (rule mod_next)
    moreover have "(c + 1) mod ?n < ?n" using Suc.prems(1) by (intro mod_less_divisor) auto
    ultimately have "peek_drr_loop a ((c + 1) mod ?n) s \<noteq> None"
      using Suc.IH [of "(c + 1) mod ?n" k'] Suc.prems Suc by simp
    then show ?thesis using Suc.prems(1) by (simp add: Let_def split: option.splits)
  qed
qed simp

lemma drr_rounds:
  assumes "sched_inv s" and "scheduling_policy s = kDeficitRoundRobin"
    and "length (running_task_ids s) < unat (max_running_tasks s)"
    and "map_of (tenant_queues s) tn = Some q" and "tq_task_ids q = h # rest"
    and "unat (task_cost (tasks s) h) \<le> m + unat (tq_deficit q)"
  shows "fst (dispatch_rounds (Suc m) now s) \<noteq> None"
  using assms
proof (induction m arbitrary: s q)
  case (0 s q)
  note inv = 0(1)
  note ok = sched_invD(1) [OF inv]
  have tn: "tn \<in> set (tenant_order s)" using queues_okD(3) [OF ok] 0(4) by auto
  then have ne: "tenant_order s \<noteq> []" by auto
  obtain k where k: "k < length (tenant_order s)"
    "tn = tenant_order s ! ((tenant_cursor s + k) mod length (tenant_order s))"
    using every_tenant_visited [OF cursor_in_range [OF ok ne] tn] by blast
  have "peek_drr_loop (length (tenant_order s)) (tenant_cursor s) s \<noteq> None"
    by (rule peek_drr_funded [OF ok cursor_in_range [OF ok ne] k(1)])
      (use 0 k in \<open>auto simp: word_le_nat_alt\<close>)
  then obtain j where "peek_next_task_locked s = Some j"
    using 0(2) ne by (auto simp: peek_next_task_locked_def peek_deficit_round_robin_task_locked_def)
  then obtain sn s' where "Scheduler_dispatch_next None now s = (Some sn, s')"
    by (rule dispatch_next_peek [OF inv _ 0(3)])
      (use 0(2) in \<open>simp add: priority_reservation_blocks_low_dispatch_locked_def\<close>)
  then show ?case by simp
next
  case (Suc m s q)
  note inv = Suc.prems(1)
  note ok = sched_invD(1) [OF inv]
  have nb: "\<not> priority_reservation_blocks_low_dispatch_locked s"
    using Suc.prems(2) by (simp add: priority_reservation_blocks_low_dispatch_locked_def)
  show ?case
  proof (cases "peek_next_task_locked s")
    case (Some j)
    then obtain sn s' where "Scheduler_dispatch_next None now s = (Some sn, s')"
      by (rule dispatch_next_peek [OF inv _ Suc.prems(3) nb])
    then show ?thesis by simp
  next
    case None
    obtain s' where sel: "select_deficit_round_robin_task_locked s = (None, s')"
      using drr.peek_select [OF ok] None Suc.prems(2)
      by (cases "select_deficit_round_robin_task_locked s") (auto simp: peek_next_task_locked_def)
    note idle = drr.select_None [OF ok sel]
    then have fr: "rr_frame s s'" by (simp add: idle_round_def)
    note same = rr_frameD [OF fr]
    let ?q = "drr_bumped q"
    have q': "map_of (tenant_queues s') tn = Some ?q"
      by (rule drr_idle_bumps_all [OF ok sel Suc.prems(4)])
    have ids: "tq_task_ids ?q = h # rest" "?q = add_quantum q"
      using Suc.prems(5) by (simp_all add: drr_bumped_def add_quantum_def Let_def)
    have w: "tq_weight q \<noteq> 0"
    proof -
      have "q_weight s tn = Some (tq_weight q)" using Suc.prems(4) by (simp add: q_weight_def)
      then show ?thesis using sched_invD(2) [OF inv] by (simp add: inv_tasks_def)
    qed
    have "0 < unat (tq_weight q)" using w by (simp add: unat_gt_0)
    then have cost: "unat (task_cost (tasks s') h) \<le> m + unat (tq_deficit ?q)"
      using Suc.prems(6) unat_le_u64_max [of "task_cost (tasks s) h"]
      by (simp add: ids(2) unat_add_quantum same del: unat_le_u64_max)
    have "Scheduler_dispatch_next None now s = (None, s')"
      using Suc.prems(2,3) nb sel by (simp add: Scheduler_dispatch_next_def select_next_task_locked_def)
    moreover have "fst (dispatch_rounds (Suc m) now s') \<noteq> None"
      by (rule Suc.IH [OF idle_round_inv [OF inv idle] _ _ q' ids(1) cost])
        (use Suc.prems same in simp_all)
    ultimately show ?thesis by simp
  qed
qed

text \<open>
  C9. Deficit round robin cannot stall: although one call may only add quantum, calling
  \<open>dispatch_next\<close> repeatedly with a free slot dispatches a task after at most as many calls
  as the largest queued cost plus one.
\<close>

theorem drr_eventually_dispatches:
  assumes "sched_reachable limit opts s" and "scheduling_policy s = kDeficitRoundRobin"
    and "length (running_task_ids s) < unat (max_running_tasks s)" and "task_queued (tasks s) i"
    and "\<forall>j. task_queued (tasks s) j \<longrightarrow> unat (task_cost (tasks s) j) < n"
  shows "fst (dispatch_rounds n now s) \<noteq> None"
proof -
  note inv = reachable_inv [OF assms(1)]
  note ok = sched_invD(1) [OF inv]
  obtain tn q where q: "map_of (tenant_queues s) tn = Some q" "i \<in> set (tq_task_ids q)"
    using queued_in_some_queue [OF ok assms(4)] by blast
  then obtain h rest where h: "tq_task_ids q = h # rest" by (cases "tq_task_ids q") auto
  with q have "unat (task_cost (tasks s) h) < n"
    using assms(5) queue_all_queued [OF ok q(1), of h] by simp
  then obtain m where "n = Suc m" "unat (task_cost (tasks s) h) \<le> m + unat (tq_deficit q)"
    by (cases n) auto
  with drr_rounds [OF inv assms(2,3) q(1) h] show ?thesis by blast
qed

definition drr_demo :: Scheduler where
  "drr_demo = fold run_op [Op_submit None 0 (demo_spec ''a'' 10 1 3 1)] (Scheduler_new 100 (demo_opts kDeficitRoundRobin))"

theorem drr_eventually_dispatches_witness:
  "fst (dispatch_rounds 4 7 drr_demo) \<noteq> None \<and> fst (Scheduler_dispatch_next None 7 drr_demo) = None"
proof
  show "fst (dispatch_rounds 4 7 drr_demo) \<noteq> None"
  proof (rule drr_eventually_dispatches [where i = 1])
    show "sched_reachable 100 (demo_opts kDeficitRoundRobin) drr_demo"
      unfolding drr_demo_def by (rule reachable_fold)
    have ts: "map (\<lambda>(i, t). (i, spec_work_units (task_spec t))) (tasks drr_demo) = [(1, 3)]" by code_simp
    have "map_of (tasks drr_demo) j = None" if "j \<noteq> 1" for j
      using ts that by (auto simp: map_eq_Cons_conv split: prod.splits)
    moreover have "unat (task_cost (tasks drr_demo) 1) = 3" by code_simp
    ultimately show "\<forall>j. task_queued (tasks drr_demo) j \<longrightarrow> unat (task_cost (tasks drr_demo) j) < 4"
      by (auto simp: task_queued_def split: option.splits) (metis option.distinct(1) numeral_less_iff semiring_norm(76,81))
  qed code_simp+
  show "fst (Scheduler_dispatch_next None 7 drr_demo) = None" by code_simp
qed

end
