(* ===== verification/SchedulerOutcomes.thy ===== *)
theory SchedulerOutcomes
  imports SchedulerContract
begin

text \<open>
  What each remaining operation of the scheduler does to one task, to the quota and to the
  rest: priority reservation, dispatch and its failure, suspension, completion,
  cancellation, and the queries.
\<close>

section \<open>Shared facts\<close>

lemma transition_lookup:
  "task_transition i t t' s s' \<Longrightarrow> map_of (tasks s') = (map_of (tasks s))(i \<mapsto> t')"
  by (simp add: task_transition_def)

lemma transition_usage:
  assumes "task_transition i t t' s s'"
  shows "unat (reserved_bytes (Scheduler_usage s')) =
      unat (reserved_bytes (Scheduler_usage s)) - reserved_of t + reserved_of t'"
    and "unat (allocated_bytes (Scheduler_usage s')) =
      unat (allocated_bytes (Scheduler_usage s)) - allocated_of t + allocated_of t'"
  using assms
  by (simp_all add: task_transition_def ledger_moves_def Scheduler_usage_def ledger_usage_def)

lemma low_running_card:
  assumes "distinct (running_task_ids s)"
  shows "low_running_count s =
    card {i \<in> set (running_task_ids s). \<exists>t. map_of (tasks s) i = Some t \<and>
            spec_priority (task_spec t) < priority_reservation_threshold s}"
proof -
  have "{i \<in> set (running_task_ids s). \<exists>t. map_of (tasks s) i = Some t \<and>
            spec_priority (task_spec t) < priority_reservation_threshold s} =
    set (filter (\<lambda>i. case map_of (tasks s) i of None \<Rightarrow> False
           | Some t \<Rightarrow> spec_priority (task_spec t) < priority_reservation_threshold s) (running_task_ids s))"
    by (auto split: option.splits)
  then show ?thesis
    unfolding low_running_count_def using assms by (simp only: distinct_card distinct_filter)
qed

section \<open>Priority reservation\<close>

text \<open>
  Reserved slots stay free of low-priority work: after a dispatch of a task below the
  reservation threshold, at most \<open>max_running_tasks - priority_reserved_slots\<close> running tasks
  are below it.
\<close>

theorem reservation_keeps_slots_free:
  assumes "sched_reachable limit opts s" and "scheduling_policy s = kPriority"
    and "priority_reserved_slots s \<noteq> 0" and "Scheduler_dispatch_next f now s = (Some sn, s')"
    and "snap_priority sn < priority_reservation_threshold s"
  shows "low_running_count s' \<le> unat (max_running_tasks s) - unat (priority_reserved_slots s)"
proof -
  note inv = reachable_inv [OF assms(1)]
  let ?i = "snap_task_id sn"
  obtain t where peek: "peek_next_task_locked s = Some ?i"
    and nb: "\<not> priority_reservation_blocks_low_dispatch_locked s"
    and t: "map_of (tasks s) ?i = Some t" and st: "task_st t = TaskState_kQueued"
    and tr: "task_transition ?i t (dispatched_record now s t) s s'"
    and sn: "sn = (snapshot_locked ?i t)\<lparr>snap_state := TaskState_kRunning,
               snap_dispatch_sequence := next_dispatch_sequence s\<rparr>"
    by (rule dispatch_next_SomeD [OF inv assms(4)])
  have low: "spec_priority (task_spec t) < priority_reservation_threshold s"
    using arg_cong [OF sn, of snap_priority] assms(5) by (simp add: snapshot_locked_def)
  have "low_running_count s < unat (max_running_tasks s - priority_reserved_slots s)"
    using nb assms(2,3) peek t st low
    by (auto simp: priority_reservation_blocks_low_dispatch_locked_def split: if_splits)
  moreover have "low_running_count s' = Suc (low_running_count s)"
  proof -
    let ?low = "\<lambda>s. {i \<in> set (running_task_ids s). \<exists>t. map_of (tasks s) i = Some t \<and>
            spec_priority (task_spec t) < priority_reservation_threshold s}"
    have r: "distinct (running_task_ids s')" "set (running_task_ids s') = insert ?i (set (running_task_ids s))"
      "priority_reservation_threshold s' = priority_reservation_threshold s"
      using tr by (simp_all add: task_transition_def dispatched_record_def frame_config_def)
    have "?low s' = insert ?i (?low s)"
      using r low t by (auto simp: transition_lookup [OF tr] dispatched_record_def)
    moreover have "?i \<notin> ?low s" using running_member [OF inv t] st by simp
    moreover have "distinct (running_task_ids s)" using sched_invD(3) [OF inv] by (simp add: inv_running_def)
    ultimately show ?thesis using r by (simp add: low_running_card)
  qed
  moreover have "priority_reserved_slots s \<le> max_running_tasks s"
    using sched_invD(5) [OF inv] by (simp add: inv_config_def)
  ultimately show ?thesis by (simp add: unat_sub_no_wrap)
qed

definition low_demo :: Scheduler where
  "low_demo = fold run_op
     [Op_submit None 0 (demo_spec ''a'' 10 1 3 1), Op_submit None 0 (demo_spec ''b'' 20 2 2 2)]
     (Scheduler_new 100 (demo_opts kPriority))"

lemma low_demo_reachable: "sched_reachable 100 (demo_opts kPriority) low_demo"
  unfolding low_demo_def by (rule reachable_fold)

theorem reservation_keeps_slots_free_witness:
  "low_running_count (snd (Scheduler_dispatch_next None 5 low_demo)) \<le> 1 \<and>
   fst (Scheduler_dispatch_next None 5 low_demo) \<noteq> None"
proof -
  have "map_option snap_priority (fst (Scheduler_dispatch_next None 5 low_demo)) = Some 2" by code_simp
  then obtain sn s' where d: "Scheduler_dispatch_next None 5 low_demo = (Some sn, s')"
    and p: "snap_priority sn = 2" by (cases "Scheduler_dispatch_next None 5 low_demo") auto
  have c: "scheduling_policy low_demo = kPriority" "priority_reserved_slots low_demo \<noteq> 0"
    "priority_reservation_threshold low_demo = 5"
    "unat (max_running_tasks low_demo) - unat (priority_reserved_slots low_demo) = 1"
    by code_simp+
  have "snap_priority sn < priority_reservation_threshold low_demo" unfolding c p by simp
  from reservation_keeps_slots_free [OF low_demo_reachable c(1,2) d this] c d show ?thesis by simp
qed

text \<open>
  The reservation never holds back urgent work: when it blocks a dispatch, every queued
  task is below the threshold and the unreserved slots are all taken by such tasks.
\<close>

theorem reservation_blocks_only_low:
  assumes "sched_reachable limit opts s" and "priority_reservation_blocks_low_dispatch_locked s"
    and "task_queued (tasks s) j"
  shows "prio_of s j < priority_reservation_threshold s \<and>
    unat (max_running_tasks s) - unat (priority_reserved_slots s) \<le> low_running_count s"
proof -
  note inv = reachable_inv [OF assms(1)]
  from assms(2) obtain i t where p: "scheduling_policy s = kPriority" "peek_next_task_locked s = Some i"
    "map_of (tasks s) i = Some t" "spec_priority (task_spec t) < priority_reservation_threshold s"
    and c: "unat (max_running_tasks s - priority_reserved_slots s) \<le> low_running_count s"
    by (auto simp: priority_reservation_blocks_low_dispatch_locked_def not_less split: if_splits option.splits)
  then have "prio_before s i j"
    using peek_priority_iff(1) [OF sched_invD(1) [OF inv]] assms(3) by (simp add: peek_next_task_locked_def)
  with p have "prio_of s j < priority_reservation_threshold s" by (auto simp: prio_before_def prio_of_def)
  moreover have "priority_reserved_slots s \<le> max_running_tasks s"
    using sched_invD(5) [OF inv] by (simp add: inv_config_def)
  ultimately show ?thesis using c by (simp add: unat_sub_no_wrap)
qed

theorem reservation_blocks_only_low_witness:
  "fst (Scheduler_dispatch_next None 6 (run_op (Op_dispatch_next None 5) low_demo)) = None \<and>
   prio_of (run_op (Op_dispatch_next None 5) low_demo) 1 < 5"
proof -
  let ?s = "run_op (Op_dispatch_next None 5) low_demo"
  have r: "sched_reachable 100 (demo_opts kPriority) ?s"
    by (rule sched_reachable.stepped [OF low_demo_reachable])
  have "priority_reservation_blocks_low_dispatch_locked ?s" "task_queued (tasks ?s) 1"
    "priority_reservation_threshold ?s = 5" by code_simp+
  with reservation_blocks_only_low [OF r, of 1] show ?thesis
    by (auto simp: Scheduler_dispatch_next_def)
qed

section \<open>Dispatch and its failure\<close>

text \<open>
  A dispatched task runs with the next dispatch sequence number; its first dispatch
  moves its bytes from reserved to allocated, a continuation leaves both figures alone, and
  no other task changes.
\<close>

theorem dispatch_effect:
  assumes "sched_reachable limit opts s" and "Scheduler_dispatch_next f now s = (Some sn, s')"
    and "map_of (tasks s) (snap_task_id sn) = Some t"
  shows "Scheduler_find (snap_task_id sn) s' = Some sn \<and>
    snap_state sn = TaskState_kRunning \<and> snap_dispatch_sequence sn = next_dispatch_sequence s \<and>
    (\<forall>j. j \<noteq> snap_task_id sn \<longrightarrow> map_of (tasks s') j = map_of (tasks s) j) \<and>
    (let moved = (if task_dispatch_sequence t = 0 then unat (spec_memory_bytes (task_spec t)) else 0) in
     unat (reserved_bytes (Scheduler_usage s')) = unat (reserved_bytes (Scheduler_usage s)) - moved \<and>
     unat (allocated_bytes (Scheduler_usage s')) = unat (allocated_bytes (Scheduler_usage s)) + moved)"
proof -
  note inv = reachable_inv [OF assms(1)]
  let ?i = "snap_task_id sn"
  obtain st: "task_st t = TaskState_kQueued"
    and tr: "task_transition ?i t (dispatched_record now s t) s s'"
    and sn: "sn = (snapshot_locked ?i t)\<lparr>snap_state := TaskState_kRunning,
               snap_dispatch_sequence := next_dispatch_sequence s\<rparr>"
    using dispatch_next_SomeD [OF inv assms(2)] assms(3) by (metis option.inject)
  have "Scheduler_find ?i s' =
      Some ((snapshot_locked ?i t)\<lparr>snap_state := TaskState_kRunning,
               snap_dispatch_sequence := next_dispatch_sequence s\<rparr>)"
    by (simp add: Scheduler_find_def transition_lookup [OF tr] dispatched_record_def snapshot_locked_def)
  moreover have "snap_state sn = TaskState_kRunning" "snap_dispatch_sequence sn = next_dispatch_sequence s"
    by (subst sn, simp)+
  moreover have "allocated_of t \<le> unat (allocated_bytes (Scheduler_usage s))"
    using charged_bytes(2) [OF inv assms(3)] by (simp add: Scheduler_usage_def ledger_usage_def)
  ultimately show ?thesis
    using transition_usage [OF tr] st sn
    by (auto simp: transition_lookup [OF tr] Let_def reserved_of_def allocated_of_def dispatched_record_def)
qed

theorem dispatch_effect_witness:
  "unat (allocated_bytes (Scheduler_usage (snd (Scheduler_dispatch_next None 7 (demo kFifo))))) = 30"
proof -
  have "map_option snap_task_id (fst (Scheduler_dispatch_next None 7 (demo kFifo))) = Some 2" by code_simp
  then obtain sn s' where d: "Scheduler_dispatch_next None 7 (demo kFifo) = (Some sn, s')"
    and i: "snap_task_id sn = 2" by (cases "Scheduler_dispatch_next None 7 (demo kFifo)") auto
  have "map_option (\<lambda>t. (task_dispatch_sequence t, spec_memory_bytes (task_spec t)))
      (map_of (tasks (demo kFifo)) 2) = Some (0, 20)" by code_simp
  then obtain t where t: "map_of (tasks (demo kFifo)) 2 = Some t" "task_dispatch_sequence t = 0"
    "spec_memory_bytes (task_spec t) = 20" by auto
  have "unat (allocated_bytes (Scheduler_usage (demo kFifo))) = 10" by code_simp
  with dispatch_effect [OF demo_reachable d, of t] d i t show ?thesis by (simp add: Let_def)
qed

text \<open>
  An allocation failure during a dispatch is contained: nothing is returned, the task
  that was next is failed and all its bytes are given back, and every other task and the
  running list are as before.
\<close>

theorem dispatch_fault_contained:
  assumes "sched_reachable limit opts s" and "peek_next_task_locked s = Some i"
    and "length (running_task_ids s) < unat (max_running_tasks s)"
    and "\<not> priority_reservation_blocks_low_dispatch_locked s"
  shows "fst (Scheduler_dispatch_next (Some fault) now s) = None \<and>
    (let s' = snd (Scheduler_dispatch_next (Some fault) now s) in
     Scheduler_task_state i s' = Some TaskState_kFailed \<and>
     (\<forall>j. j \<noteq> i \<longrightarrow> map_of (tasks s') j = map_of (tasks s) j) \<and>
     set (running_task_ids s') = set (running_task_ids s) \<and>
     total_live_bytes (abs_sched s') + unat (spec_memory_bytes (task_spec (the (map_of (tasks s) i)))) =
       total_live_bytes (abs_sched s))"
proof -
  note inv = reachable_inv [OF assms(1)]
  note ok = sched_invD(1) [OF inv]
  obtain s1 where sel: "select_next_task_locked s = (Some i, s1)"
    using sel.peek_select [OF ok] assms(2) by (cases "select_next_task_locked s") auto
  note deq = sel.select_Some [OF ok sel]
  obtain t where t: "map_of (tasks s) i = Some t" and st: "task_st t = TaskState_kQueued"
    using deq by (auto simp: dequeued_def task_queued_def split: option.splits)
  obtain s' where d: "dispatch_selected_task_locked (Some fault) now i s1 = (None, s')"
    and tr: "task_transition i t (failed_record t) s s'"
    by (rule dispatch_selected_fault [OF inv deq t])
  have dn: "Scheduler_dispatch_next (Some fault) now s = (None, s')"
    using assms(3,4) sel d by (simp add: Scheduler_dispatch_next_def)
  have run: "set (running_task_ids s') = set (running_task_ids s)"
    using tr running_member [OF inv t] st by (simp add: task_transition_def failed_record_def)
  have "ledger_used (quota_ledger s') + unat (spec_memory_bytes (task_spec t)) = ledger_used (quota_ledger s)"
    using tr st charged_bytes(1,2) [OF inv t]
    by (cases "task_dispatch_sequence t = 0")
      (simp_all add: task_transition_def ledger_moves_def ledger_used_def reserved_of_def
        allocated_of_def failed_record_def)
  then have "total_live_bytes (abs_sched s') + unat (spec_memory_bytes (task_spec t)) =
      total_live_bytes (abs_sched s)"
    by (simp add: abs_total [OF inv] abs_total [OF task_transition_inv [OF inv t tr]])
  then show ?thesis
    using dn run t
    by (simp add: Let_def Scheduler_task_state_def transition_lookup [OF tr] failed_record_def)
qed

theorem dispatch_fault_contained_witness:
  "Scheduler_task_state 2 (snd (Scheduler_dispatch_next (Some Fault_running_push) 7 (demo kFifo))) =
     Some TaskState_kFailed"
proof -
  have "peek_next_task_locked (demo kFifo) = Some 2"
    "length (running_task_ids (demo kFifo)) < unat (max_running_tasks (demo kFifo))"
    "\<not> priority_reservation_blocks_low_dispatch_locked (demo kFifo)" by code_simp+
  from dispatch_fault_contained [OF demo_reachable this, of Fault_running_push 7]
  show ?thesis by (simp add: Let_def)
qed

section \<open>Leaving the running state\<close>

lemma usage_eq_used:
  "unat (reserved_bytes (Scheduler_usage s)) + unat (allocated_bytes (Scheduler_usage s)) =
     ledger_used (quota_ledger s)"
  by (simp add: Scheduler_usage_def ledger_usage_def ledger_used_def)

text \<open>
  Completing a running task always succeeds and releases exactly its bytes from the
  allocated figure, leaving the reserved figure and every other task alone; completing any
  other task is refused and changes nothing.
\<close>

theorem complete_effect_exact:
  assumes "sched_reachable limit opts s"
  shows "if Scheduler_task_state i s = Some TaskState_kRunning
    then fst (Scheduler_complete now i s) \<and>
      (let s' = snd (Scheduler_complete now i s);
           bytes = spec_memory_bytes (task_spec (the (map_of (tasks s) i))) in
       Scheduler_task_state i s' = Some TaskState_kCompleted \<and>
       i \<notin> set (running_task_ids s') \<and>
       (\<forall>j. j \<noteq> i \<longrightarrow> map_of (tasks s') j = map_of (tasks s) j) \<and>
       reserved_bytes (Scheduler_usage s') = reserved_bytes (Scheduler_usage s) \<and>
       unat (allocated_bytes (Scheduler_usage s')) + unat bytes = unat (allocated_bytes (Scheduler_usage s)))
    else Scheduler_complete now i s = (False, s)"
proof (cases "Scheduler_task_state i s = Some TaskState_kRunning")
  case False
  then show ?thesis
    by (auto simp: Scheduler_complete_def finish_running_task_locked_def Scheduler_task_state_def
        split: option.splits)
next
  case True
  note inv = reachable_inv [OF assms]
  from True obtain t where t: "map_of (tasks s) i = Some t" "task_st t = TaskState_kRunning"
    by (auto simp: Scheduler_task_state_def)
  obtain s' where fin: "finish_running_task_locked now i TaskState_kCompleted s = (True, s')"
    and tr: "task_transition i t (t\<lparr>task_st := TaskState_kCompleted\<rparr>) s s'"
    by (rule finish_running_ok [OF inv t, where terminal = TaskState_kCompleted]) simp_all
  have "allocated_of t \<le> unat (allocated_bytes (Scheduler_usage s))"
    using charged_bytes(2) [OF inv t(1)] by (simp add: Scheduler_usage_def ledger_usage_def)
  moreover have "i \<notin> set (running_task_ids s')" using tr by (simp add: task_transition_def)
  ultimately show ?thesis
    using True fin t transition_usage [OF tr]
    by (auto simp: Scheduler_complete_def Let_def Scheduler_task_state_def transition_lookup [OF tr]
        reserved_of_def allocated_of_def word_unat_eq_iff)
qed

theorem complete_effect_exact_witness:
  "fst (Scheduler_complete 8 1 (demo kFifo)) \<and>
   unat (allocated_bytes (Scheduler_usage (snd (Scheduler_complete 8 1 (demo kFifo))))) + 10 = 10 \<and>
   Scheduler_complete 8 3 (demo kFifo) = (False, demo kFifo)"
proof -
  have a: "Scheduler_task_state 1 (demo kFifo) = Some TaskState_kRunning"
    "Scheduler_task_state 3 (demo kFifo) = Some TaskState_kQueued"
    "unat (spec_memory_bytes (task_spec (the (map_of (tasks (demo kFifo)) 1)))) = 10"
    "unat (allocated_bytes (Scheduler_usage (demo kFifo))) = 10" by code_simp+
  from complete_effect_exact [OF demo_reachable, of 1 kFifo 8] a
    complete_effect_exact [OF demo_reachable, of 3 kFifo 8]
  show ?thesis by (simp add: Let_def)
qed

text \<open>
  Suspension keeps the memory: a running task that is suspended becomes the head of its
  tenant's queue, frees its running slot, and neither usage figure changes.
\<close>

theorem suspend_keeps_memory:
  assumes "sched_reachable limit opts s" and "Scheduler_suspend False now i s = (True, s')"
  shows "Scheduler_task_state i s' = Some TaskState_kQueued \<and> i \<notin> set (running_task_ids s') \<and>
    Scheduler_usage s' = Scheduler_usage s \<and>
    (\<exists>t. map_of (tasks s) i = Some t \<and> task_st t = TaskState_kRunning \<and>
         q_ids s' (spec_tenant_id (task_spec t)) = i # q_ids s (spec_tenant_id (task_spec t)))"
proof -
  note inv = reachable_inv [OF assms(1)]
  obtain t q where t: "map_of (tasks s) i = Some t" "task_st t = TaskState_kRunning"
      "task_dispatch_sequence t \<noteq> u64_max"
    and q: "map_of (tenant_queues s) (spec_tenant_id (task_spec t)) = Some q"
    and tq: "tenant_queues s' = AList.update (spec_tenant_id (task_spec t))
        (q\<lparr>tq_task_ids := i # tq_task_ids q\<rparr>) (tenant_queues s)"
    using assms(2) by (auto simp: Scheduler_suspend_def Let_def split: option.splits if_splits)
  obtain s'' where sus: "Scheduler_suspend False now i s = (True, s'')"
    and tr: "task_transition i t (t\<lparr>task_st := TaskState_kQueued, task_queued_at := now\<rparr>) s s''"
    and l: "quota_ledger s'' = quota_ledger s"
    by (rule suspend_ok [OF inv t])
  have s'': "s'' = s'" using sus assms(2) by simp
  have "i \<notin> set (running_task_ids s')" using tr by (simp add: task_transition_def s'')
  moreover have "q_ids s' (spec_tenant_id (task_spec t)) = i # q_ids s (spec_tenant_id (task_spec t))"
    using q by (simp add: q_ids_update [OF tq])
  ultimately show ?thesis
    using t l by (simp add: Scheduler_task_state_def transition_lookup [OF tr [unfolded s'']] s''
        Scheduler_usage_def)
qed

theorem suspend_keeps_memory_witness:
  "Scheduler_usage (snd (Scheduler_suspend False 9 1 (demo kFifo))) = Scheduler_usage (demo kFifo)"
proof -
  have "fst (Scheduler_suspend False 9 1 (demo kFifo))" by code_simp
  then obtain s' where "Scheduler_suspend False 9 1 (demo kFifo) = (True, s')"
    by (cases "Scheduler_suspend False 9 1 (demo kFifo)") auto
  with suspend_keeps_memory [OF demo_reachable this] show ?thesis by simp
qed

text \<open>
  Cancelling a queued or a running task always succeeds and gives exactly its bytes
  back, whether they were still reserved, allocated, or kept by a suspended task; a finished
  or unknown task is refused and nothing changes.
\<close>

theorem cancel_gives_bytes_back:
  assumes "sched_reachable limit opts s"
  shows "if Scheduler_task_state i s \<in> {Some TaskState_kQueued, Some TaskState_kRunning}
    then fst (Scheduler_cancel now i s) \<and>
      (let s' = snd (Scheduler_cancel now i s) in
       Scheduler_task_state i s' = Some TaskState_kCancelled \<and>
       (\<forall>j. j \<noteq> i \<longrightarrow> map_of (tasks s') j = map_of (tasks s) j) \<and>
       total_live_bytes (abs_sched s') + unat (spec_memory_bytes (task_spec (the (map_of (tasks s) i)))) =
         total_live_bytes (abs_sched s))
    else Scheduler_cancel now i s = (False, s)"
proof (cases "Scheduler_task_state i s \<in> {Some TaskState_kQueued, Some TaskState_kRunning}")
  case False
  then show ?thesis
    by (auto simp: Scheduler_cancel_def Scheduler_task_state_def split: option.splits)
next
  case True
  note inv = reachable_inv [OF assms]
  from True obtain t where t: "map_of (tasks s) i = Some t"
    and live: "task_st t = TaskState_kQueued \<or> task_st t = TaskState_kRunning"
    by (auto simp: Scheduler_task_state_def)
  obtain s' t' where c: "Scheduler_cancel now i s = (True, s')"
    and tr: "task_transition i t t' s s'" and t': "task_st t' = TaskState_kCancelled"
  proof (cases "task_st t = TaskState_kQueued")
    case True
    then obtain s' where "cancel_queued_task_locked i t s = (True, s')"
      "task_transition i t (cancelled_record t) s s'" by (rule cancel_queued_ok [OF inv t])
    with t True show thesis
      by (intro that [of s' "cancelled_record t"]) (simp_all add: Scheduler_cancel_def cancelled_record_def)
  next
    case False
    with live have run: "task_st t = TaskState_kRunning" by simp
    obtain s' where "finish_running_task_locked now i TaskState_kCancelled s = (True, s')"
      "task_transition i t (t\<lparr>task_st := TaskState_kCancelled\<rparr>) s s'"
      by (rule finish_running_ok [OF inv t run, where terminal = TaskState_kCancelled]) simp_all
    with t run show thesis
      by (intro that [of s' "t\<lparr>task_st := TaskState_kCancelled\<rparr>"]) (simp_all add: Scheduler_cancel_def)
  qed
  have "ledger_used (quota_ledger s') + unat (spec_memory_bytes (task_spec t)) = ledger_used (quota_ledger s)"
    using tr live t' charged_bytes(1,2) [OF inv t]
    by (cases "task_dispatch_sequence t = 0 \<and> task_st t = TaskState_kQueued")
      (auto simp: task_transition_def ledger_moves_def ledger_used_def reserved_of_def allocated_of_def)
  then have "total_live_bytes (abs_sched s') + unat (spec_memory_bytes (task_spec t)) =
      total_live_bytes (abs_sched s)"
    by (simp add: abs_total [OF inv] abs_total [OF task_transition_inv [OF inv t tr]])
  with True c t t' show ?thesis
    by (simp add: Let_def Scheduler_task_state_def transition_lookup [OF tr])
qed

theorem cancel_gives_bytes_back_witness:
  "fst (Scheduler_cancel 8 3 (demo kFifo)) \<and>
   total_live_bytes (abs_sched (snd (Scheduler_cancel 8 3 (demo kFifo)))) + 15 =
     total_live_bytes (abs_sched (demo kFifo))"
proof -
  have "Scheduler_task_state 3 (demo kFifo) = Some TaskState_kQueued"
    "unat (spec_memory_bytes (task_spec (the (map_of (tasks (demo kFifo)) 3)))) = 15" by code_simp+
  with cancel_gives_bytes_back [OF demo_reachable, of 3 kFifo 8] show ?thesis by (simp add: Let_def)
qed

section \<open>Queries\<close>

text \<open>
  A retreat is requested of a running task exactly when the policy is strict priority
  and a queued task has a strictly higher priority.
\<close>

theorem retreat_requested_iff:
  assumes "sched_reachable limit opts s"
  shows "Scheduler_retreat_requested i s \<longleftrightarrow>
    scheduling_policy s = kPriority \<and>
    (\<exists>t. map_of (tasks s) i = Some t \<and> task_st t = TaskState_kRunning \<and>
         task_dispatch_sequence t \<noteq> u64_max \<and>
         (\<exists>j. task_queued (tasks s) j \<and> prio_of s i < prio_of s j))"
proof -
  note ok = sched_invD(1) [OF reachable_inv [OF assms]]
  show ?thesis
  proof (cases "peek_priority_task_locked s")
    case None
    then have "\<not> task_queued (tasks s) j" for j using peek_priority_iff(2) [OF ok] by simp
    with None show ?thesis by (auto simp: Scheduler_retreat_requested_def split: option.splits)
  next
    case (Some h)
    then have h: "task_queued (tasks s) h" "\<And>j. task_queued (tasks s) j \<Longrightarrow> prio_before s h j"
      using peek_priority_iff(1) [OF ok] by auto
    then obtain u where "map_of (tasks s) h = Some u" by (auto simp: task_queued_def split: option.splits)
    moreover have "(\<exists>j. task_queued (tasks s) j \<and> p < prio_of s j) \<longleftrightarrow> p < prio_of s h" for p
      using h by (fastforce simp: prio_before_def)
    ultimately show ?thesis
      using Some by (auto simp: Scheduler_retreat_requested_def prio_of_def split: option.splits if_splits)
  qed
qed

theorem retreat_requested_iff_witness: "Scheduler_retreat_requested 2 (demo kPriority)"
proof -
  have "scheduling_policy (demo kPriority) = kPriority"
    "map_option (\<lambda>t. (task_st t, task_dispatch_sequence t)) (map_of (tasks (demo kPriority)) 2) =
       Some (TaskState_kRunning, 1)"
    "task_queued (tasks (demo kPriority)) 3" "prio_of (demo kPriority) 2 < prio_of (demo kPriority) 3"
    by code_simp+
  then show ?thesis unfolding retreat_requested_iff [OF demo_reachable] by auto
qed

text \<open>
  Parsing and printing of policy names are inverse on the supported policies, and
  nothing else parses.
\<close>

theorem policy_name_roundtrip:
  "parse_scheduling_policy v = Some p \<longleftrightarrow>
     is_supported_scheduling_policy p \<and> v = scheduling_policy_name p"
  by (cases p) (auto simp: parse_scheduling_policy_def)

lemma count_state_sum: "count_state st s = umap_sum (\<lambda>t. if task_st t = st then 1 else 0) (tasks s)"
proof -
  have "length (filter (\<lambda>(_, t). task_st t = st) ts) = umap_sum (\<lambda>t. if task_st t = st then 1 else 0) ts"
    for ts :: "(TaskId \<times> TaskRecord) list" by (induction ts) auto
  then show ?thesis by (simp add: count_state_def)
qed

lemma running_count:
  assumes "sched_inv s"
  shows "length (running_task_ids s) = count_state TaskState_kRunning s"
proof -
  have dk: "keys_distinct (tasks s)" using sched_invD(2) [OF assms] by (simp add: inv_tasks_def)
  let ?ids = "map fst (filter (\<lambda>(_, t). task_st t = TaskState_kRunning) (tasks s))"
  have "set (running_task_ids s) = set ?ids"
    using sched_invD(3) [OF assms] dk by (auto simp: inv_running_def image_iff)
  moreover have "distinct ?ids" using dk by (simp add: distinct_map_filter)
  moreover have "distinct (running_task_ids s)" using sched_invD(3) [OF assms] by (simp add: inv_running_def)
  ultimately have "length (running_task_ids s) = length ?ids" by (metis distinct_card)
  then show ?thesis by (simp add: count_state_def)
qed

text \<open>
  The statistics partition the tasks: the queued, running, completed, cancelled and
  failed counts add up to the total.
\<close>

theorem stats_partition_tasks:
  assumes "sched_reachable limit opts s"
  shows "stats_total_task_count (Scheduler_stats s) =
    unat (stats_queued_task_count (Scheduler_stats s)) + stats_running_task_count (Scheduler_stats s) +
    stats_completed_task_count (Scheduler_stats s) + stats_cancelled_task_count (Scheduler_stats s) +
    stats_failed_task_count (Scheduler_stats s)"
proof -
  note inv = reachable_inv [OF assms]
  have "unat (queued_task_count s) = count_state TaskState_kQueued s"
    using sched_invD(4) [OF inv] by (simp add: inv_accounts_def count_state_sum queued_one_def [abs_def])
  moreover have "length (tasks s) = count_state TaskState_kQueued s + count_state TaskState_kRunning s +
      count_state TaskState_kCompleted s + count_state TaskState_kCancelled s + count_state TaskState_kFailed s"
    unfolding count_state_sum umap_sum_add umap_sum_const [symmetric]
  proof (rule umap_sum_cong)
    fix k and t :: TaskRecord
    show "1 = (if task_st t = TaskState_kQueued then 1 else 0) + (if task_st t = TaskState_kRunning then 1 else 0) +
      (if task_st t = TaskState_kCompleted then 1 else 0) + (if task_st t = TaskState_kCancelled then 1 else 0) +
      (if task_st t = TaskState_kFailed then 1 else 0 :: nat)" by (cases "task_st t") auto
  qed
  ultimately show ?thesis by (simp add: Scheduler_stats_def running_count [OF inv])
qed

theorem stats_partition_tasks_witness:
  "3 = unat (stats_queued_task_count (Scheduler_stats (demo kFifo))) +
     stats_running_task_count (Scheduler_stats (demo kFifo)) +
     stats_completed_task_count (Scheduler_stats (demo kFifo)) +
     stats_cancelled_task_count (Scheduler_stats (demo kFifo)) +
     stats_failed_task_count (Scheduler_stats (demo kFifo))"
proof -
  have "stats_total_task_count (Scheduler_stats (demo kFifo)) = 3" by code_simp
  with stats_partition_tasks [OF demo_reachable, of kFifo] show ?thesis by simp
qed

end
