(* ===== verification/SchedulerFairness.thy ===== *)
theory SchedulerFairness
  imports SchedulerOutcomes
begin

text \<open>
  The share that weighted round robin gives to each tenant: while every tenant has enough
  work, one round of dispatches serves the tenants in order, each as often as its weight.
\<close>

section \<open>One dispatch\<close>

fun dispatch_n :: "nat \<Rightarrow> time_ns \<Rightarrow> Scheduler \<Rightarrow> TaskId option list \<times> Scheduler" where
  "dispatch_n 0 now s = ([], s)"
| "dispatch_n (Suc n) now s =
     (case Scheduler_dispatch_next None now s of
        (r, s1) \<Rightarrow> (case dispatch_n n now s1 of (rs, s2) \<Rightarrow> (map_option snap_task_id r # rs, s2)))"

lemma dispatch_n_add:
  "dispatch_n (m + n) now s =
     (case dispatch_n m now s of (rs, s1) \<Rightarrow> (case dispatch_n n now s1 of (rs', s2) \<Rightarrow> (rs @ rs', s2)))"
  by (induction m arbitrary: s) (auto split: prod.splits)

lemma dispatch_selected_round:
  assumes "dispatch_selected_task_locked f now i s = (r, s')"
  shows "tenant_cursor s' = tenant_cursor s" and "tenant_budget s' = tenant_budget s"
    and "q_ids s' = q_ids s"
  using assms
  by (auto simp: dispatch_selected_task_locked_def dispatch_abort_def dispatch_commit_def Let_def q_ids_eta
      split: option.splits if_splits prod.splits)

definition tenant_at :: "Scheduler \<Rightarrow> TenantId" where
  "tenant_at s = tenant_order s ! tenant_cursor s"

definition budget_left :: "Scheduler \<Rightarrow> nat" where
  "budget_left s =
     (if tenant_budget s = 0 then unat (the (q_weight s (tenant_at s))) else unat (tenant_budget s))"

lemma wrr_dispatch:
  assumes inv: "sched_inv s" and pol: "scheduling_policy s = kWeightedRoundRobin"
    and ne: "tenant_order s \<noteq> []" and head: "q_ids s (tenant_at s) = i # rest"
    and room: "length (running_task_ids s) < unat (max_running_tasks s)"
  obtains sn s' where "Scheduler_dispatch_next None now s = (Some sn, s')" and "snap_task_id sn = i"
    and "sched_inv s'" and "sched_static s' = sched_static s" and "tenant_order s' = tenant_order s"
    and "q_weight s' = q_weight s" and "length (running_task_ids s') = Suc (length (running_task_ids s))"
    and "q_ids s' = (q_ids s)(tenant_at s := rest)"
    and "if budget_left s = 1 \<or> rest = []
         then tenant_cursor s' = (tenant_cursor s + 1) mod length (tenant_order s) \<and> tenant_budget s' = 0
         else tenant_cursor s' = tenant_cursor s \<and> tenant_budget s' \<noteq> 0 \<and>
              unat (tenant_budget s') = budget_left s - 1"
proof -
  note ok = sched_invD(1) [OF inv]
  note c = cursor_in_range [OF ok ne]
  let ?tn = "tenant_at s"
  obtain q where q: "map_of (tenant_queues s) ?tn = Some q"
    using tenant_queue_at [OF ok c] by (auto simp: tenant_at_def)
  have ids: "tq_task_ids q = i # rest" using head q by simp
  have iq: "task_queued (tasks s) i" using queue_all_queued [OF ok q] ids by simp
  define b where "b = (if tenant_budget s = 0 then tq_weight q else tenant_budget s)"
  have b0: "b \<noteq> 0"
  proof -
    have "q_weight s ?tn = Some (tq_weight q)" using q by (simp add: q_weight_def)
    then show ?thesis using sched_invD(2) [OF inv] by (simp add: inv_tasks_def b_def)
  qed
  have bl: "budget_left s = unat b" using q by (simp add: budget_left_def q_weight_def b_def)
  have b1: "b - 1 = 0 \<longleftrightarrow> budget_left s = 1" "unat (b - 1) = budget_left s - 1"
  proof -
    have "0 < unat b" using b0 by (simp add: unat_gt_0)
    then show "b - 1 = 0 \<longleftrightarrow> budget_left s = 1" "unat (b - 1) = budget_left s - 1"
      unfolding bl word_unat_eq_iff [of "b - 1" 0] unat_pred [OF b0] by auto
  qed
  let ?adv = "b - 1 = 0 \<or> rest = []"
  let ?s1 = "s\<lparr>tenant_queues := AList.update ?tn (q\<lparr>tq_task_ids := rest\<rparr>) (tenant_queues s),
      tenant_cursor := (if ?adv then (tenant_cursor s + 1) mod length (tenant_order s) else tenant_cursor s),
      tenant_budget := (if ?adv then 0 else b - 1),
      queued_task_count := queued_task_count s - 1\<rparr>"
  obtain a where a: "length (tenant_order s) = Suc a" using ne by (cases "length (tenant_order s)") auto
  have "select_wrr_loop (Suc a) s = (Some i, ?s1)"
    using c q ids iq ne by (simp add: Let_def set_queue_def advance_conv tenant_at_def b_def)
  then have sel: "select_next_task_locked s = (Some i, ?s1)"
    using ne pol a by (simp add: select_next_task_locked_def select_weighted_round_robin_task_locked_def)
  note deq = sel.select_Some [OF ok sel]
  obtain t where t: "map_of (tasks s) i = Some t" "task_st t = TaskState_kQueued"
    using iq by (auto simp: task_queued_def split: option.splits)
  obtain s' where d: "dispatch_selected_task_locked None now i ?s1 =
      (Some ((snapshot_locked i t)\<lparr>snap_state := TaskState_kRunning,
             snap_dispatch_sequence := next_dispatch_sequence s\<rparr>), s')"
    and tr: "task_transition i t (dispatched_record now s t) s s'"
    by (rule dispatch_selected_ok [OF inv deq t(1) room])
  note rd = dispatch_selected_round [OF d]
  have "Scheduler_dispatch_next None now s =
      (Some ((snapshot_locked i t)\<lparr>snap_state := TaskState_kRunning,
             snap_dispatch_sequence := next_dispatch_sequence s\<rparr>), s')"
    using room pol sel d
    by (simp add: Scheduler_dispatch_next_def priority_reservation_blocks_low_dispatch_locked_def)
  then show thesis
  proof (rule that)
    show "sched_inv s'" by (rule task_transition_inv [OF inv t(1) tr])
    show "sched_static s' = sched_static s" by (rule static_transition [OF tr])
    show "tenant_order s' = tenant_order s" "q_weight s' = q_weight s"
      using tr by (simp_all add: task_transition_def frame_config_def)
    have "i \<notin> set (running_task_ids s)" using running_member [OF inv t(1)] t(2) by simp
    moreover have "distinct (running_task_ids s')"
      "set (running_task_ids s') = insert i (set (running_task_ids s))"
      using tr by (simp_all add: task_transition_def dispatched_record_def)
    moreover have "distinct (running_task_ids s)" using sched_invD(3) [OF inv] by (simp add: inv_running_def)
    ultimately show "length (running_task_ids s') = Suc (length (running_task_ids s))"
      by (metis List.finite_set card_insert_disjoint distinct_card)
    show "q_ids s' = (q_ids s)(?tn := rest)"
      unfolding rd(3) by (auto simp: q_ids_eta fun_eq_iff)
    show "if budget_left s = 1 \<or> rest = []
         then tenant_cursor s' = (tenant_cursor s + 1) mod length (tenant_order s) \<and> tenant_budget s' = 0
         else tenant_cursor s' = tenant_cursor s \<and> tenant_budget s' \<noteq> 0 \<and>
              unat (tenant_budget s') = budget_left s - 1"
      using b1 rd(1,2) by simp
  qed (simp add: snapshot_locked_def)
qed

section \<open>One tenant, one round\<close>

text \<open>The tenant under the cursor is served until its budget is used up.\<close>

lemma wrr_serve_tenant:
  assumes "sched_inv s" and "scheduling_policy s = kWeightedRoundRobin" and "tenant_order s \<noteq> []"
    and "budget_left s = Suc r" and "Suc r \<le> length (q_ids s (tenant_at s))"
    and "length (running_task_ids s) + Suc r \<le> unat (max_running_tasks s)"
  shows "\<exists>s'. dispatch_n (Suc r) now s = (map Some (take (Suc r) (q_ids s (tenant_at s))), s') \<and>
    sched_inv s' \<and> sched_static s' = sched_static s \<and> tenant_order s' = tenant_order s \<and>
    q_weight s' = q_weight s \<and> length (running_task_ids s') = length (running_task_ids s) + Suc r \<and>
    (\<forall>tn. tn \<noteq> tenant_at s \<longrightarrow> q_ids s' tn = q_ids s tn) \<and> tenant_budget s' = 0 \<and>
    tenant_cursor s' = (tenant_cursor s + 1) mod length (tenant_order s)"
  using assms
proof (induction r arbitrary: s)
  case (0 s)
  then obtain i rest where head: "q_ids s (tenant_at s) = i # rest"
    by (cases "q_ids s (tenant_at s)") auto
  have room: "length (running_task_ids s) < unat (max_running_tasks s)" using 0 by simp
  show ?case
    by (rule wrr_dispatch [OF 0(1-3) head room, of now]) (use 0(4) head in auto)
next
  case (Suc r s)
  then obtain i rest where head: "q_ids s (tenant_at s) = i # rest"
    by (cases "q_ids s (tenant_at s)") auto
  have room: "length (running_task_ids s) < unat (max_running_tasks s)" using Suc.prems by simp
  have rest: "rest \<noteq> []" using Suc.prems(5) head by auto
  obtain sn s1 where d: "Scheduler_dispatch_next None now s = (Some sn, s1)" "snap_task_id sn = i"
    and inv1: "sched_inv s1" and st: "sched_static s1 = sched_static s" "tenant_order s1 = tenant_order s"
      "q_weight s1 = q_weight s" "length (running_task_ids s1) = Suc (length (running_task_ids s))"
      "q_ids s1 = (q_ids s)(tenant_at s := rest)"
    and bud: "if budget_left s = 1 \<or> rest = []
         then tenant_cursor s1 = (tenant_cursor s + 1) mod length (tenant_order s) \<and> tenant_budget s1 = 0
         else tenant_cursor s1 = tenant_cursor s \<and> tenant_budget s1 \<noteq> 0 \<and>
              unat (tenant_budget s1) = budget_left s - 1"
    by (rule wrr_dispatch [OF Suc.prems(1-3) head room])
  have cur: "tenant_cursor s1 = tenant_cursor s" "budget_left s1 = Suc r"
    using bud rest Suc.prems(4) by (auto simp: budget_left_def)
  have at: "tenant_at s1 = tenant_at s" using cur st by (simp add: tenant_at_def)
  have cfg: "scheduling_policy s1 = scheduling_policy s" "max_running_tasks s1 = max_running_tasks s"
    using st(1) by (simp_all add: sched_static_def)
  have "\<exists>s'. dispatch_n (Suc r) now s1 = (map Some (take (Suc r) (q_ids s1 (tenant_at s1))), s') \<and>
    sched_inv s' \<and> sched_static s' = sched_static s1 \<and> tenant_order s' = tenant_order s1 \<and>
    q_weight s' = q_weight s1 \<and> length (running_task_ids s') = length (running_task_ids s1) + Suc r \<and>
    (\<forall>tn. tn \<noteq> tenant_at s1 \<longrightarrow> q_ids s' tn = q_ids s1 tn) \<and> tenant_budget s' = 0 \<and>
    tenant_cursor s' = (tenant_cursor s1 + 1) mod length (tenant_order s1)"
    by (rule Suc.IH [OF inv1 _ _ cur(2)]) (use Suc.prems st cfg at head in auto)
  then show ?case using d st cur at head by (auto simp del: dispatch_n.simps(2) simp: dispatch_n.simps(2) [of "Suc r"])
qed

definition weight_of :: "Scheduler \<Rightarrow> TenantId \<Rightarrow> nat" where
  "weight_of s tn = unat (the (q_weight s tn))"

lemma wrr_serve_prefix:
  assumes inv: "sched_inv s" and pol: "scheduling_policy s = kWeightedRoundRobin"
    and start: "tenant_cursor s = 0" "tenant_budget s = 0"
    and backlog: "\<forall>tn \<in> set (tenant_order s). weight_of s tn \<le> length (q_ids s tn)"
    and room: "length (running_task_ids s) + sum_list (map (weight_of s) (tenant_order s)) \<le> unat (max_running_tasks s)"
    and k: "k \<le> length (tenant_order s)"
  shows "\<exists>s'. dispatch_n (sum_list (map (weight_of s) (take k (tenant_order s)))) now s =
      (map Some (concat (map (\<lambda>tn. take (weight_of s tn) (q_ids s tn)) (take k (tenant_order s)))), s') \<and>
    sched_inv s' \<and> sched_static s' = sched_static s \<and> tenant_order s' = tenant_order s \<and>
    q_weight s' = q_weight s \<and>
    length (running_task_ids s') =
      length (running_task_ids s) + sum_list (map (weight_of s) (take k (tenant_order s))) \<and>
    (\<forall>tn. tn \<notin> set (take k (tenant_order s)) \<longrightarrow> q_ids s' tn = q_ids s tn) \<and> tenant_budget s' = 0 \<and>
    tenant_cursor s' = k mod length (tenant_order s)"
  using k
proof (induction k)
  case 0
  then show ?case using inv start by simp
next
  case (Suc k)
  let ?o = "tenant_order s"
  let ?W = "\<lambda>k. sum_list (map (weight_of s) (take k ?o))"
  have lt: "k < length ?o" using Suc.prems by simp
  obtain s1 where d1: "dispatch_n (?W k) now s =
      (map Some (concat (map (\<lambda>tn. take (weight_of s tn) (q_ids s tn)) (take k ?o))), s1)"
    and inv1: "sched_inv s1" and st: "sched_static s1 = sched_static s" "tenant_order s1 = ?o"
      "q_weight s1 = q_weight s" "length (running_task_ids s1) = length (running_task_ids s) + ?W k"
      "\<forall>tn. tn \<notin> set (take k ?o) \<longrightarrow> q_ids s1 tn = q_ids s tn" "tenant_budget s1 = 0"
      "tenant_cursor s1 = k"
    using Suc.IH lt by auto
  let ?tn = "?o ! k"
  have at: "tenant_at s1 = ?tn" using st by (simp add: tenant_at_def)
  have mem: "?tn \<in> set ?o" using lt by simp
  have new: "?tn \<notin> set (take k ?o)"
    using queues_okD(2) [OF sched_invD(1) [OF inv]] lt by (simp add: distinct_conv_nth in_set_conv_nth)
  have q1: "q_ids s1 ?tn = q_ids s ?tn" using st new by simp
  obtain r where r: "weight_of s ?tn = Suc r"
  proof -
    obtain q where "map_of (tenant_queues s) ?tn = Some q"
      by (rule tenant_queue_at [OF sched_invD(1) [OF inv] lt])
    then obtain w where w: "q_weight s ?tn = Some w" by (simp add: q_weight_def)
    then have "w \<noteq> 0" using sched_invD(2) [OF inv] by (simp add: inv_tasks_def)
    then have "0 < unat w" by (simp add: unat_gt_0)
    with w that show thesis by (cases "unat w") (auto simp: weight_of_def)
  qed
  have bl: "budget_left s1 = Suc r" using st r at by (simp add: budget_left_def weight_of_def)
  have cfg: "scheduling_policy s1 = scheduling_policy s" "max_running_tasks s1 = max_running_tasks s"
    using st(1) by (simp_all add: sched_static_def)
  have take: "take (Suc k) ?o = take k ?o @ [?tn]" by (rule take_Suc_conv_app_nth [OF lt])
  have "?W (Suc k) \<le> sum_list (map (weight_of s) ?o)"
    using append_take_drop_id [of "Suc k" ?o] by (metis le_add1 map_append sum_list_append)
  then have room1: "length (running_task_ids s1) + Suc r \<le> unat (max_running_tasks s1)"
    using room st cfg r by (simp add: take)
  have len: "Suc r \<le> length (q_ids s1 (tenant_at s1))" using backlog mem r q1 at by auto
  have ne: "tenant_order s1 \<noteq> []" using lt st by auto
  from wrr_serve_tenant [OF inv1 _ ne bl len room1, of now] pol cfg
  obtain s2 where d2: "dispatch_n (Suc r) now s1 = (map Some (take (Suc r) (q_ids s1 (tenant_at s1))), s2)"
    and s2: "sched_inv s2" "sched_static s2 = sched_static s1" "tenant_order s2 = tenant_order s1"
    "q_weight s2 = q_weight s1" "length (running_task_ids s2) = length (running_task_ids s1) + Suc r"
    "\<forall>tn. tn \<noteq> tenant_at s1 \<longrightarrow> q_ids s2 tn = q_ids s1 tn" "tenant_budget s2 = 0"
    "tenant_cursor s2 = (tenant_cursor s1 + 1) mod length (tenant_order s1)" by auto
  have "?W (Suc k) = ?W k + Suc r" by (simp add: take r)
  then have "dispatch_n (?W (Suc k)) now s =
      (map Some (concat (map (\<lambda>tn. take (weight_of s tn) (q_ids s tn)) (take (Suc k) ?o))), s2)"
    using d1 d2 at q1 by (simp only: dispatch_n_add prod.case) (simp add: take r)
  moreover have "length (running_task_ids s2) = length (running_task_ids s) + ?W (Suc k)"
    using s2(5) st(4) by (simp add: take r)
  moreover have "\<forall>tn. tn \<notin> set (take (Suc k) ?o) \<longrightarrow> q_ids s2 tn = q_ids s tn"
    using s2(6) st(5) at by (simp add: take)
  ultimately show ?case using s2 st by (intro exI [of _ s2]) simp
qed

text \<open>
  C10. Weighted round robin gives each tenant its weight: at the start of a round, when
  every tenant has at least as many queued tasks as its weight and there are slots for the
  round, as many dispatches as the sum of the weights serve the tenants in order, each with
  exactly its first \<open>weight\<close> queued tasks, and leave the cursor at the start of the next round.
\<close>

theorem wrr_round_shares:
  assumes "sched_reachable limit opts s" and "scheduling_policy s = kWeightedRoundRobin"
    and "tenant_cursor s = 0" and "tenant_budget s = 0"
    and "\<forall>tn \<in> set (tenant_order s). weight_of s tn \<le> length (q_ids s tn)"
    and "length (running_task_ids s) + sum_list (map (weight_of s) (tenant_order s)) \<le> unat (max_running_tasks s)"
  shows "\<exists>s'. dispatch_n (sum_list (map (weight_of s) (tenant_order s))) now s =
      (map Some (concat (map (\<lambda>tn. take (weight_of s tn) (q_ids s tn)) (tenant_order s))), s') \<and>
    tenant_cursor s' = 0 \<and> tenant_budget s' = 0"
  using wrr_serve_prefix [OF reachable_inv [OF assms(1)] assms(2-6), of "length (tenant_order s)" now]
  by auto

definition wrr_demo :: Scheduler where
  "wrr_demo = fold run_op
     [Op_submit None 0 (demo_spec ''a'' 1 2 1 1), Op_submit None 0 (demo_spec ''b'' 1 1 1 1),
      Op_submit None 0 (demo_spec ''a'' 1 2 1 1), Op_submit None 0 (demo_spec ''a'' 1 2 1 1)]
     (Scheduler_new 100 ((demo_opts kWeightedRoundRobin)\<lparr>opt_max_running_tasks := 3\<rparr>))"

theorem wrr_round_shares_witness:
  "fst (dispatch_n 3 7 wrr_demo) = [Some 1, Some 3, Some 2]"
proof -
  have r: "sched_reachable 100 ((demo_opts kWeightedRoundRobin)\<lparr>opt_max_running_tasks := 3\<rparr>) wrr_demo"
    unfolding wrr_demo_def by (rule reachable_fold)
  have v: "tenant_order wrr_demo = [''a'', ''b'']" "q_ids wrr_demo ''a'' = [1, 3, 4]"
    "q_ids wrr_demo ''b'' = [2]" "weight_of wrr_demo ''a'' = 2" "weight_of wrr_demo ''b'' = 1"
    "unat (max_running_tasks wrr_demo) = 3" "running_task_ids wrr_demo = []"
    "scheduling_policy wrr_demo = kWeightedRoundRobin" "tenant_cursor wrr_demo = 0"
    "tenant_budget wrr_demo = 0"
    by code_simp+
  from wrr_round_shares [OF r v(8-10), of 7] v(1-7)
  show ?thesis by (auto simp: numeral_3_eq_3 numeral_2_eq_2 simp del: dispatch_n.simps)
qed

end
