(* ===== verification/AdaptiveSlo.thy ===== *)
theory AdaptiveSlo
  imports Prelude
begin

text \<open>
  The feedback controller for the priority reservation, \<^verbatim>\<open>src/src/core/adaptive_slo.cc\<close>,
  and the scheduler mode switch, \<^verbatim>\<open>src/src/core/scheduler_mode.cc\<close>. The controller counts
  observations of urgent tasks; at the end of each window it raises or lowers the number of
  reserved slots. All counters are 64-bit words.
\<close>

section \<open>The controller\<close>

record AdaptiveSloOptions =
  slo_initial_reserved_slots :: size_t
  slo_min_reserved_slots :: size_t
  slo_max_reserved_slots :: size_t
  slo_priority_threshold :: u32
  slo_target_queue_wait_microseconds :: u64
  slo_observation_window :: size_t
  slo_violation_ratio_percent :: u32
  slo_increase_step :: size_t
  slo_decrease_step :: size_t

record AdaptiveSloObservation =
  obs_priority :: u32
  obs_queue_wait_microseconds :: u64

record AdaptiveSloController =
  slo_options :: AdaptiveSloOptions
  slo_reserved_slots :: size_t
  slo_window_samples :: size_t
  slo_window_violations :: size_t

definition k_maximum_observation_window :: size_t where
  "k_maximum_observation_window = 1000000"

definition clamp :: "'a::linorder \<Rightarrow> 'a \<Rightarrow> 'a \<Rightarrow> 'a" where
  "clamp v lo hi = (if v < lo then lo else if hi < v then hi else v)"

definition AdaptiveSloController_new :: "AdaptiveSloOptions \<Rightarrow> AdaptiveSloController" where
  "AdaptiveSloController_new opts =
     (let mx = max (slo_max_reserved_slots opts) (slo_min_reserved_slots opts);
          init = clamp (slo_initial_reserved_slots opts) (slo_min_reserved_slots opts) mx;
          options = opts\<lparr>slo_max_reserved_slots := mx,
            slo_initial_reserved_slots := init,
            slo_observation_window :=
              clamp (slo_observation_window opts) 1 k_maximum_observation_window,
            slo_violation_ratio_percent := clamp (slo_violation_ratio_percent opts) 1 100,
            slo_increase_step := max (slo_increase_step opts) 1,
            slo_decrease_step := max (slo_decrease_step opts) 1\<rparr>
      in \<lparr>slo_options = options, slo_reserved_slots = init,
          slo_window_samples = 0, slo_window_violations = 0\<rparr>)"

definition required_violations :: "AdaptiveSloOptions \<Rightarrow> size_t" where
  "required_violations opts =
     (slo_observation_window opts div 100) * ucast (slo_violation_ratio_percent opts) +
     ((slo_observation_window opts mod 100) * ucast (slo_violation_ratio_percent opts) + 99) div 100"

definition adjusted_slots :: "AdaptiveSloOptions \<Rightarrow> bool \<Rightarrow> size_t \<Rightarrow> size_t" where
  "adjusted_slots opts violated r =
     (if violated then r + min (slo_increase_step opts) (slo_max_reserved_slots opts - r)
      else if r > slo_min_reserved_slots opts
      then r - min (slo_decrease_step opts) (r - slo_min_reserved_slots opts)
      else r)"

definition slo_observe ::
  "AdaptiveSloObservation \<Rightarrow> AdaptiveSloController \<Rightarrow> size_t option \<times> AdaptiveSloController" where
  "slo_observe obs c =
     (let opts = slo_options c in
      if slo_target_queue_wait_microseconds opts = 0 \<or> obs_priority obs < slo_priority_threshold opts
      then (None, c)
      else
        let samples = slo_window_samples c + 1;
            violations = (if obs_queue_wait_microseconds obs > slo_target_queue_wait_microseconds opts
                          then slo_window_violations c + 1 else slo_window_violations c)
        in if samples < slo_observation_window opts
           then (None, c\<lparr>slo_window_samples := samples, slo_window_violations := violations\<rparr>)
           else
             let violated = violations \<ge> required_violations opts;
                 r = slo_reserved_slots c;
                 r' = adjusted_slots opts violated r
             in (if r' = r then None else Some r',
                 c\<lparr>slo_window_samples := 0, slo_window_violations := 0, slo_reserved_slots := r'\<rparr>))"

section \<open>Windows\<close>

definition slo_ok :: "AdaptiveSloController \<Rightarrow> bool" where
  "slo_ok c \<longleftrightarrow>
     (let opts = slo_options c in
      slo_min_reserved_slots opts \<le> slo_reserved_slots c \<and>
      slo_reserved_slots c \<le> slo_max_reserved_slots opts \<and>
      1 \<le> unat (slo_observation_window opts) \<and> unat (slo_observation_window opts) \<le> 1000000 \<and>
      1 \<le> unat (slo_violation_ratio_percent opts) \<and> unat (slo_violation_ratio_percent opts) \<le> 100 \<and>
      1 \<le> slo_increase_step opts \<and> 1 \<le> slo_decrease_step opts \<and>
      slo_window_samples c < slo_observation_window opts \<and>
      slo_window_violations c \<le> slo_window_samples c)"

lemma clamp_bounds: "lo \<le> hi \<Longrightarrow> lo \<le> clamp v lo hi \<and> clamp v lo hi \<le> hi"
  by (auto simp: clamp_def)

lemma new_ok: "slo_ok (AdaptiveSloController_new opts)"
proof -
  have w: "1 \<le> clamp (slo_observation_window opts) 1 k_maximum_observation_window"
    "clamp (slo_observation_window opts) 1 k_maximum_observation_window \<le> k_maximum_observation_window"
    using clamp_bounds [of 1 k_maximum_observation_window "slo_observation_window opts"]
    by (simp_all add: k_maximum_observation_window_def)
  have p: "1 \<le> clamp (slo_violation_ratio_percent opts) 1 100"
    "clamp (slo_violation_ratio_percent opts) 1 100 \<le> 100"
    using clamp_bounds [of 1 100 "slo_violation_ratio_percent opts"] by simp_all
  have r: "slo_min_reserved_slots opts \<le>
      clamp (slo_initial_reserved_slots opts) (slo_min_reserved_slots opts)
        (max (slo_max_reserved_slots opts) (slo_min_reserved_slots opts))"
    "clamp (slo_initial_reserved_slots opts) (slo_min_reserved_slots opts)
        (max (slo_max_reserved_slots opts) (slo_min_reserved_slots opts)) \<le>
      max (slo_max_reserved_slots opts) (slo_min_reserved_slots opts)"
    using clamp_bounds [of "slo_min_reserved_slots opts"
        "max (slo_max_reserved_slots opts) (slo_min_reserved_slots opts)" "slo_initial_reserved_slots opts"]
    by simp_all
  have nz: "0 < clamp (slo_observation_window opts) 1 k_maximum_observation_window"
    using w(1) by (simp add: word_less_nat_alt word_le_nat_alt)
  from w p r nz show ?thesis
    by (simp add: slo_ok_def AdaptiveSloController_new_def Let_def word_le_nat_alt
        k_maximum_observation_window_def unat_max max_def)
qed

text \<open>The 64-bit formula of the source is the exact ceiling of \<open>window * ratio / 100\<close>.\<close>

lemma required_violations_exact:
  assumes "unat (slo_observation_window opts) \<le> 1000000"
    and "unat (slo_violation_ratio_percent opts) \<le> 100"
  shows "unat (required_violations opts) =
    (unat (slo_observation_window opts) * unat (slo_violation_ratio_percent opts) + 99) div 100"
proof -
  let ?w = "unat (slo_observation_window opts)" and ?p = "unat (slo_violation_ratio_percent opts)"
  have a: "(?w div 100) * ?p \<le> 10000 * 100" using assms by (intro mult_mono) auto
  have b: "(?w mod 100) * ?p \<le> 100 * 100" using assms by (intro mult_mono) (auto intro: less_imp_le)
  have "unat (slo_observation_window opts div 100 * ucast (slo_violation_ratio_percent opts)) = (?w div 100) * ?p"
    using a by (subst unat_mult_lem [THEN iffD1]) (simp_all add: unat_div)
  moreover have m: "unat (slo_observation_window opts mod 100 * ucast (slo_violation_ratio_percent opts)) = (?w mod 100) * ?p"
    using b by (subst unat_mult_lem [THEN iffD1]) (simp_all add: unat_mod)
  moreover have "unat (slo_observation_window opts mod 100 * ucast (slo_violation_ratio_percent opts) + 99) =
      (?w mod 100) * ?p + 99"
    using b m by (subst unat_add_no_wrap) simp_all
  ultimately have "unat (required_violations opts) = (?w div 100) * ?p + ((?w mod 100) * ?p + 99) div 100"
    unfolding required_violations_def using a b
    by (subst unat_add_no_wrap) (simp_all add: unat_div)
  also have "\<dots> = (?w * ?p + 99) div 100"
  proof -
    have "?w * ?p = 100 * (?w div 100) * ?p + (?w mod 100) * ?p"
      by (metis add_mult_distrib mult_div_mod_eq)
    then show ?thesis by (simp add: mult.assoc)
  qed
  finally show ?thesis .
qed

lemma ceiling_reached: "(n + 99) div 100 \<le> v \<longleftrightarrow> n \<le> 100 * (v::nat)"
  by linarith

text \<open>The adjustment saturates at the configured bounds and never wraps.\<close>

lemma unat_adjusted_slots:
  assumes "slo_min_reserved_slots opts \<le> r" and "r \<le> slo_max_reserved_slots opts"
  shows "unat (adjusted_slots opts violated r) =
    (if violated then min (unat r + unat (slo_increase_step opts)) (unat (slo_max_reserved_slots opts))
     else max (unat r - unat (slo_decrease_step opts)) (unat (slo_min_reserved_slots opts)))"
proof (cases violated)
  case True
  let ?m = "min (slo_increase_step opts) (slo_max_reserved_slots opts - r)"
  have m: "unat ?m = min (unat (slo_increase_step opts)) (unat (slo_max_reserved_slots opts) - unat r)"
    using assms(2) by (simp add: unat_min unat_sub_no_wrap)
  have le: "unat r \<le> unat (slo_max_reserved_slots opts)" using assms(2) by (simp add: word_le_nat_alt)
  have "unat r + unat ?m < 2 ^ LENGTH(64)"
    using m le unat_less_u64 [of "slo_max_reserved_slots opts"] by (simp del: unat_less_u64)
  then have "unat (r + ?m) = unat r + unat ?m" by (rule unat_add_no_wrap)
  with True m le show ?thesis by (simp add: adjusted_slots_def)
next
  case False
  let ?m = "min (slo_decrease_step opts) (r - slo_min_reserved_slots opts)"
  have m: "unat ?m = min (unat (slo_decrease_step opts)) (unat r - unat (slo_min_reserved_slots opts))"
    using assms(1) by (simp add: unat_min unat_sub_no_wrap)
  have le: "unat (slo_min_reserved_slots opts) \<le> unat r" using assms(1) by (simp add: word_le_nat_alt)
  have "unat ?m \<le> unat r" using m by simp
  then have "unat (r - ?m) = unat r - unat ?m" by (intro unat_sub_no_wrap) (simp add: word_le_nat_alt)
  then have "unat (r - ?m) = max (unat r - unat (slo_decrease_step opts)) (unat (slo_min_reserved_slots opts))"
    unfolding m using le by linarith
  with False le show ?thesis
    by (cases "unat (slo_min_reserved_slots opts) < unat r")
      (simp_all add: adjusted_slots_def word_less_nat_alt)
qed

lemma adjusted_in_bounds:
  assumes "slo_min_reserved_slots opts \<le> r" and "r \<le> slo_max_reserved_slots opts"
  shows "slo_min_reserved_slots opts \<le> adjusted_slots opts violated r"
    and "adjusted_slots opts violated r \<le> slo_max_reserved_slots opts"
  using assms unat_adjusted_slots [OF assms, of violated] by (auto simp: word_le_nat_alt)


lemma observe_ok:
  assumes "slo_ok c"
  shows "slo_ok (snd (slo_observe obs c))"
proof -
  have w: "slo_window_samples c < slo_observation_window (slo_options c)"
    "slo_window_violations c \<le> slo_window_samples c"
    "unat (slo_observation_window (slo_options c)) \<le> 1000000"
    using assms by (simp_all add: slo_ok_def Let_def)
  have "slo_window_samples c \<noteq> u64_max" "slo_window_violations c \<noteq> u64_max"
    using w by (auto simp: word_less_nat_alt word_le_nat_alt)
  then have n: "unat (slo_window_samples c + 1) = Suc (unat (slo_window_samples c))"
    "unat (slo_window_violations c + 1) = Suc (unat (slo_window_violations c))"
    by (simp_all add: unat_Suc_no_wrap)
  have "1 \<le> unat (slo_observation_window (slo_options c))" using assms by (simp add: slo_ok_def Let_def)
  then have "0 < slo_observation_window (slo_options c)" by (simp add: word_less_nat_alt)
  with assms n w(2) adjusted_in_bounds [of "slo_options c" "slo_reserved_slots c"] show ?thesis
    unfolding slo_observe_def Let_def slo_ok_def
    by (simp add: word_le_nat_alt [of "slo_window_violations c"] word_le_nat_alt [of "slo_window_violations c + 1"])
qed

section \<open>Runs of observations\<close>

fun slo_run :: "AdaptiveSloObservation list \<Rightarrow> AdaptiveSloController \<Rightarrow> size_t option list \<times> AdaptiveSloController" where
  "slo_run [] c = ([], c)"
| "slo_run (ob # obs) c =
     (case slo_observe ob c of (r, c1) \<Rightarrow> (case slo_run obs c1 of (rs, c2) \<Rightarrow> (r # rs, c2)))"



definition urgent :: "AdaptiveSloOptions \<Rightarrow> AdaptiveSloObservation \<Rightarrow> bool" where
  "urgent opts ob \<longleftrightarrow>
     slo_target_queue_wait_microseconds opts \<noteq> 0 \<and> slo_priority_threshold opts \<le> obs_priority ob"

definition late :: "AdaptiveSloOptions \<Rightarrow> AdaptiveSloObservation \<Rightarrow> bool" where
  "late opts ob \<longleftrightarrow> obs_queue_wait_microseconds ob > slo_target_queue_wait_microseconds opts"

lemma slo_run_window:
  assumes "slo_ok c" and "\<forall>ob \<in> set obs. urgent (slo_options c) ob" and "obs \<noteq> []"
    and "unat (slo_window_samples c) + length obs = unat (slo_observation_window (slo_options c))"
  shows "snd (slo_run obs c) = c\<lparr>slo_window_samples := 0, slo_window_violations := 0,
    slo_reserved_slots := adjusted_slots (slo_options c)
      (unat (slo_observation_window (slo_options c)) * unat (slo_violation_ratio_percent (slo_options c)) \<le>
       100 * (unat (slo_window_violations c) + length (filter (late (slo_options c)) obs)))
      (slo_reserved_slots c)\<rparr>"
  using assms
proof (induction obs arbitrary: c)
  case (Cons ob obs)
  let ?o = "slo_options c"
  let ?v = "if late ?o ob then slo_window_violations c + 1 else slo_window_violations c"
  have w: "slo_window_samples c < slo_observation_window ?o"
    "slo_window_violations c \<le> slo_window_samples c" "unat (slo_observation_window ?o) \<le> 1000000"
    "unat (slo_violation_ratio_percent ?o) \<le> 100"
    using Cons.prems(1) by (simp_all add: slo_ok_def Let_def)
  have "slo_window_samples c \<noteq> u64_max" "slo_window_violations c \<noteq> u64_max"
    using w by (auto simp: word_less_nat_alt word_le_nat_alt)
  then have n: "unat (slo_window_samples c + 1) = Suc (unat (slo_window_samples c))"
    "unat ?v = unat (slo_window_violations c) + (if late ?o ob then 1 else 0)"
    by (simp_all add: unat_Suc_no_wrap)
  have u: "urgent ?o ob" using Cons.prems(2) by simp
  show ?case
  proof (cases "obs = []")
    case True
    then have full: "\<not> slo_window_samples c + 1 < slo_observation_window ?o"
      using Cons.prems(4) n(1) by (simp add: word_less_nat_alt)
    have "required_violations ?o \<le> ?v \<longleftrightarrow>
        unat (slo_observation_window ?o) * unat (slo_violation_ratio_percent ?o) \<le>
        100 * (unat (slo_window_violations c) + length (filter (late ?o) [ob]))"
      unfolding word_le_nat_alt required_violations_exact [OF w(3,4)] ceiling_reached n(2) by simp
    with True u full show ?thesis
      by (auto simp: slo_observe_def Let_def urgent_def late_def [abs_def] not_le not_less)
  next
    case False
    let ?c = "c\<lparr>slo_window_samples := slo_window_samples c + 1, slo_window_violations := ?v\<rparr>"
    have "slo_window_samples c + 1 < slo_observation_window ?o"
      using Cons.prems(4) n(1) False by (cases obs) (simp_all add: word_less_nat_alt)
    then have ob: "slo_observe ob c = (None, ?c)"
      using u by (auto simp: slo_observe_def Let_def urgent_def late_def not_le not_less)
    have ok: "slo_ok ?c" using observe_ok [OF Cons.prems(1), of ob] ob by simp
    have "snd (slo_run obs ?c) = ?c\<lparr>slo_window_samples := 0, slo_window_violations := 0,
      slo_reserved_slots := adjusted_slots ?o
        (unat (slo_observation_window ?o) * unat (slo_violation_ratio_percent ?o) \<le>
         100 * (unat ?v + length (filter (late ?o) obs))) (slo_reserved_slots c)\<rparr>"
      using Cons.IH [OF ok _ False] Cons.prems n(1) by simp
    with ob n(2) show ?thesis by (auto split: prod.splits simp: add.assoc)
  qed
qed simp

text \<open>
  One complete window of urgent observations moves the reservation exactly as
  documented: with late observations in at least \<open>violation_ratio_percent\<close> percent of the
  window it grows by the increase step up to the maximum, otherwise it shrinks by the
  decrease step down to the minimum. The percentage test is exact, not rounded.
\<close>

theorem slo_window_decision:
  assumes "slo_ok c" and "slo_window_samples c = 0"
    and "\<forall>ob \<in> set obs. urgent (slo_options c) ob"
    and "length obs = unat (slo_observation_window (slo_options c))"
  shows "unat (slo_reserved_slots (snd (slo_run obs c))) =
    (if unat (slo_violation_ratio_percent (slo_options c)) * length obs \<le>
        100 * length (filter (late (slo_options c)) obs)
     then min (unat (slo_reserved_slots c) + unat (slo_increase_step (slo_options c)))
            (unat (slo_max_reserved_slots (slo_options c)))
     else max (unat (slo_reserved_slots c) - unat (slo_decrease_step (slo_options c)))
            (unat (slo_min_reserved_slots (slo_options c))))"
proof -
  let ?o = "slo_options c"
  have ok: "slo_min_reserved_slots ?o \<le> slo_reserved_slots c" "slo_reserved_slots c \<le> slo_max_reserved_slots ?o"
    "1 \<le> unat (slo_observation_window ?o)" "slo_window_violations c \<le> 0"
    using assms(1,2) by (simp_all add: slo_ok_def Let_def)
  then have "obs \<noteq> []" "unat (slo_window_violations c) = 0"
    using assms(4) by (auto simp: word_le_nat_alt)
  moreover have "unat (slo_window_samples c) + length obs = unat (slo_observation_window ?o)"
    using assms(2,4) by simp
  ultimately have "slo_reserved_slots (snd (slo_run obs c)) =
      adjusted_slots ?o (unat (slo_violation_ratio_percent ?o) * length obs \<le>
        100 * length (filter (late ?o) obs)) (slo_reserved_slots c)"
    using slo_run_window [OF assms(1,3)] assms(4) by (simp add: mult.commute)
  then show ?thesis by (simp only: unat_adjusted_slots [OF ok(1,2)])
qed

definition slo_demo :: AdaptiveSloController where
  "slo_demo = AdaptiveSloController_new
     \<lparr>slo_initial_reserved_slots = 1, slo_min_reserved_slots = 0, slo_max_reserved_slots = 3,
      slo_priority_threshold = 5, slo_target_queue_wait_microseconds = 100, slo_observation_window = 3,
      slo_violation_ratio_percent = 34, slo_increase_step = 1, slo_decrease_step = 1\<rparr>"

definition slo_sample :: "u64 \<Rightarrow> AdaptiveSloObservation" where
  "slo_sample wait = \<lparr>obs_priority = 7, obs_queue_wait_microseconds = wait\<rparr>"

theorem slo_window_decision_witness:
  "unat (slo_reserved_slots (snd (slo_run (map slo_sample [200, 300, 1]) slo_demo))) = 2 \<and>
   unat (slo_reserved_slots (snd (slo_run (map slo_sample [200, 3, 1]) slo_demo))) = 0"
proof -
  have v: "slo_window_samples slo_demo = 0" "unat (slo_observation_window (slo_options slo_demo)) = 3"
    "unat (slo_violation_ratio_percent (slo_options slo_demo)) = 34" "unat (slo_reserved_slots slo_demo) = 1"
    "unat (slo_increase_step (slo_options slo_demo)) = 1" "unat (slo_decrease_step (slo_options slo_demo)) = 1"
    "unat (slo_max_reserved_slots (slo_options slo_demo)) = 3"
    "unat (slo_min_reserved_slots (slo_options slo_demo)) = 0"
    "slo_priority_threshold (slo_options slo_demo) = 5"
    "slo_target_queue_wait_microseconds (slo_options slo_demo) = 100"
    by code_simp+
  have ok: "slo_ok slo_demo" unfolding slo_demo_def by (rule new_ok)
  show ?thesis
    using slo_window_decision [OF ok v(1), of "map slo_sample [200, 300, 1]"]
      slo_window_decision [OF ok v(1), of "map slo_sample [200, 3, 1]"] v
    by (simp add: urgent_def late_def slo_sample_def)
qed

section \<open>The scheduler mode\<close>

text \<open>The last constructor stands for an enum value outside the three listed ones.\<close>

datatype SchedulerMode = Mode_kOff | Mode_kObserve | Mode_kEnforce | Mode_unlisted

definition parse_scheduler_mode :: "string \<Rightarrow> SchedulerMode option" where
  "parse_scheduler_mode v =
     (if v = ''off'' then Some Mode_kOff
      else if v = ''observe'' then Some Mode_kObserve
      else if v = ''enforce'' then Some Mode_kEnforce
      else None)"

fun scheduler_mode_name :: "SchedulerMode \<Rightarrow> string" where
  "scheduler_mode_name Mode_kOff = ''off''"
| "scheduler_mode_name Mode_kObserve = ''observe''"
| "scheduler_mode_name Mode_kEnforce = ''enforce''"
| "scheduler_mode_name Mode_unlisted = ''invalid''"

lemma scheduler_mode_roundtrip:
  "parse_scheduler_mode v = Some m \<longleftrightarrow> m \<noteq> Mode_unlisted \<and> v = scheduler_mode_name m"
  by (cases m) (auto simp: parse_scheduler_mode_def)

end
