(* ===== verification/ExecutionPriority.thy ===== *)
theory ExecutionPriority
  imports Prelude
begin

text \<open>
  The pure execution policy of \<^verbatim>\<open>src/src/core/execution_priority.cc\<close>: from a snapshot of peers
  it computes one decision per peer, and narrows that plan for pairs, rebalancing and the
  idle window. The fixed array of 64 decisions and its size are the list of the first
  \<open>size\<close> decisions; an invalid plan is the empty one.
\<close>

section \<open>Data\<close>

definition kMaxExecutionPriorityPeers :: nat where
  "kMaxExecutionPriorityPeers = 64"

text \<open>The last constructor stands for an enum value outside the listed ones.\<close>

datatype ExecutionSchedulingMode =
    Exec_kPriority
  | Exec_kNaive
  | Exec_kProfile
  | Exec_kWorkloadAgnostic
  | Exec_kWorkloadAware
  | Exec_kPrioritySpaceShare
  | Exec_unlisted

definition is_priority_execution_mode :: "ExecutionSchedulingMode \<Rightarrow> bool" where
  "is_priority_execution_mode mode \<longleftrightarrow> mode = Exec_kPriority \<or> mode = Exec_kWorkloadAware"

record ExecutionPriorityProgress =
  prog_reservation :: u64
  prog_generation :: u64
  prog_cutoff :: u64

record ExecutionPriorityCommand =
  cmd_sequence :: u64
  cmd_acceptance_order :: u64
  cmd_physical_generation :: u64
  cmd_geometry_epoch :: u64
  cmd_command_epoch :: u64
  cmd_control_epoch :: u64
  cmd_member_generation :: u64
  cmd_configuration_epoch :: u64
  cmd_physical_configuration_epoch :: u64
  cmd_is_resume :: bool

record ExecutionPairContext =
  ctx_execution_domain :: u64
  ctx_catalog_generation :: u64
  ctx_workers :: u32
  ctx_is_configuration_materialized :: bool

record ExecutionPriorityPhysical =
  phys_sequence :: u64
  phys_generation :: u64

record ExecutionPriorityPeer =
  peer_session :: u64
  peer_priority :: u32
  has_ready_work :: bool
  has_physical_work :: bool
  has_paused_work :: bool
  has_unknown_state :: bool
  peer_progress :: "ExecutionPriorityProgress option"
  peer_reservation_generation :: u64
  peer_command :: "ExecutionPriorityCommand option"
  peer_pair_context :: "ExecutionPairContext option"
  peer_physical :: "ExecutionPriorityPhysical option"

datatype ExecutionPriorityAction =
    Act_kIdle
  | Act_kWait
  | Act_kRequestRetreat
  | Act_kExecute
  | Act_kQuarantined
  | Act_kExecuteProgress

record ExecutionPriorityDecision =
  dec_session :: u64
  dec_action :: ExecutionPriorityAction
  dec_progress :: "ExecutionPriorityProgress option"
  dec_command :: "ExecutionPriorityCommand option"

record ExecutionPriorityPlan =
  plan_decisions :: "ExecutionPriorityDecision list"
  plan_selected_priority :: "u32 option"
  plan_is_valid :: bool

definition empty_plan :: ExecutionPriorityPlan where
  "empty_plan = \<lparr>plan_decisions = [], plan_selected_priority = None, plan_is_valid = False\<rparr>"

fun find_peer :: "u64 \<Rightarrow> ExecutionPriorityPeer list \<Rightarrow> (nat \<times> ExecutionPriorityPeer) option" where
  "find_peer k [] = None"
| "find_peer k (p # ps) =
     (if peer_session p = k then Some (0, p)
      else map_option (\<lambda>(i, q). (Suc i, q)) (find_peer k ps))"

section \<open>The ordinary plan\<close>

definition has_work :: "ExecutionPriorityPeer \<Rightarrow> bool" where
  "has_work p \<longleftrightarrow> has_ready_work p \<or> has_physical_work p \<or> has_paused_work p"

definition physical_rejected :: "ExecutionPriorityPeer \<Rightarrow> bool" where
  "physical_rejected p =
     (case peer_physical p of
        None \<Rightarrow> False
      | Some ph \<Rightarrow>
          (\<not> has_physical_work p \<and> \<not> has_unknown_state p) \<or> phys_sequence ph = 0 \<or>
          phys_generation ph = 0 \<or> peer_reservation_generation p \<noteq> 0)"

definition command_rejected :: "ExecutionPriorityPeer \<Rightarrow> bool" where
  "command_rejected p =
     (case peer_command p of
        None \<Rightarrow> False
      | Some c \<Rightarrow>
          cmd_sequence c = 0 \<or> cmd_acceptance_order c = 0 \<or> cmd_geometry_epoch c = 0 \<or>
          cmd_command_epoch c = 0 \<or> cmd_control_epoch c = 0 \<or>
          (if cmd_is_resume c then cmd_physical_generation c = 0 \<or> \<not> has_paused_work p
           else cmd_physical_generation c \<noteq> 0 \<or> \<not> has_ready_work p) \<or>
          ((cmd_member_generation c \<noteq> 0 \<or> cmd_configuration_epoch c \<noteq> 0 \<or>
            cmd_physical_configuration_epoch c \<noteq> 0) \<and>
           (cmd_member_generation c = 0 \<or> cmd_configuration_epoch c = 0 \<or>
            cmd_physical_configuration_epoch c = 0)))"

text \<open>The first loop: rejects the snapshot, or yields the unknown flag and the priority.\<close>

fun scan_peers ::
  "ExecutionSchedulingMode \<Rightarrow> ExecutionPriorityPeer list \<Rightarrow> ExecutionPriorityPeer list \<Rightarrow>
   bool \<Rightarrow> u32 option \<Rightarrow> (bool \<times> u32 option) option" where
  "scan_peers mode earlier [] unknown sel = Some (unknown, sel)"
| "scan_peers mode earlier (p # ps) unknown sel =
     (if peer_session p = 0 \<or> list_ex (\<lambda>e. peer_session e = peer_session p) earlier then None
      else if physical_rejected p then None
      else if command_rejected p then None
      else scan_peers mode (earlier @ [p]) ps (unknown \<or> has_unknown_state p)
             (if mode = Exec_kPrioritySpaceShare \<or> (is_priority_execution_mode mode \<and> has_work p)
              then Some (case sel of None \<Rightarrow> peer_priority p | Some m \<Rightarrow> max m (peer_priority p))
              else sel))"

definition progress_rejected :: "ExecutionPriorityPeer list \<Rightarrow> ExecutionPriorityPeer \<Rightarrow> bool" where
  "progress_rejected peers p =
     (case peer_progress p of
        None \<Rightarrow> False
      | Some g \<Rightarrow>
          prog_reservation g = 0 \<or> prog_generation g = 0 \<or> prog_cutoff g = 0 \<or>
          (\<not> has_ready_work p \<and> \<not> has_paused_work p \<and> \<not> has_physical_work p) \<or>
          (case find_peer (prog_reservation g) peers of
             None \<Rightarrow> True
           | Some (_, owner) \<Rightarrow>
               peer_reservation_generation owner \<noteq> prog_generation g \<or>
               (\<not> has_physical_work owner \<and> \<not> has_unknown_state owner)))"

definition profile_peer_of :: "ExecutionSchedulingMode \<Rightarrow> ExecutionPriorityPeer list \<Rightarrow> u64 option" where
  "profile_peer_of mode peers =
     (if mode = Exec_kProfile \<and> \<not> list_ex has_physical_work peers
      then map_option peer_session
             (case find has_paused_work peers of
                Some p \<Rightarrow> Some p
              | None \<Rightarrow> find has_ready_work peers)
      else None)"

definition policy_action ::
  "ExecutionSchedulingMode \<Rightarrow> bool \<Rightarrow> u32 option \<Rightarrow> bool \<Rightarrow> u64 option \<Rightarrow>
   ExecutionPriorityPeer \<Rightarrow> ExecutionPriorityAction" where
  "policy_action mode unknown sel lower_physical profile p =
     (if unknown then Act_kQuarantined
      else if mode = Exec_kProfile
      then if profile = Some (peer_session p) then Act_kExecute
           else if has_work p then Act_kWait else Act_kIdle
      else if mode = Exec_kNaive \<or> mode = Exec_kWorkloadAgnostic \<or> mode = Exec_kPrioritySpaceShare
      then if has_ready_work p \<or> has_paused_work p then Act_kExecute
           else if has_physical_work p then Act_kWait else Act_kIdle
      else (case sel of
          None \<Rightarrow> Act_kIdle
        | Some m \<Rightarrow>
            if peer_priority p < m \<and> has_physical_work p then Act_kRequestRetreat
            else if peer_priority p = m \<and> (has_ready_work p \<or> has_paused_work p) \<and> \<not> lower_physical
            then Act_kExecute
            else if has_work p then Act_kWait else Act_kIdle))"

definition decide ::
  "ExecutionSchedulingMode \<Rightarrow> bool \<Rightarrow> u32 option \<Rightarrow> bool \<Rightarrow> u64 option \<Rightarrow>
   ExecutionPriorityPeer \<Rightarrow> ExecutionPriorityDecision" where
  "decide mode unknown sel lower_physical profile p =
     (let a = policy_action mode unknown sel lower_physical profile p;
          progressing = (\<not> unknown \<and> peer_progress p \<noteq> None \<and> a \<noteq> Act_kExecute);
          a' = (if progressing then Act_kExecuteProgress else a)
      in \<lparr>dec_session = peer_session p, dec_action = a',
          dec_progress = (if progressing then peer_progress p else None),
          dec_command = (if a' = Act_kExecute then peer_command p else None)\<rparr>)"

definition plan_execution_priority_mode ::
  "ExecutionPriorityPeer list \<Rightarrow> ExecutionSchedulingMode \<Rightarrow> ExecutionPriorityPlan" where
  "plan_execution_priority_mode peers mode =
     (if length peers > kMaxExecutionPriorityPeers \<or> mode = Exec_unlisted then empty_plan
      else (case scan_peers mode [] peers False None of
          None \<Rightarrow> empty_plan
        | Some (unknown, sel) \<Rightarrow>
            if list_ex (progress_rejected peers) peers then empty_plan
            else
              let lower_physical = (case sel of
                    None \<Rightarrow> False
                  | Some m \<Rightarrow> list_ex (\<lambda>p. peer_priority p < m \<and> has_physical_work p) peers);
                  profile = profile_peer_of mode peers
              in \<lparr>plan_decisions = map (decide mode unknown sel lower_physical profile) peers,
                  plan_selected_priority = sel, plan_is_valid = True\<rparr>))"

definition plan_execution_priority :: "ExecutionPriorityPeer list \<Rightarrow> ExecutionPriorityPlan" where
  "plan_execution_priority peers = plan_execution_priority_mode peers Exec_kPriority"

section \<open>Pairs\<close>

record ExecutionPairLeg =
  leg_session :: u64
  leg_command :: ExecutionPriorityCommand
  leg_catalog_generation :: u64
  leg_workers :: u32

record ExecutionPairProposal =
  pair_legs :: "ExecutionPairLeg \<times> ExecutionPairLeg"
  prop_is_shared :: bool
  pair_first_serial :: size_t

record ExecutionPairPlan =
  pair_priority :: ExecutionPriorityPlan
  pair_grants :: "ExecutionPairLeg list"
  pair_is_valid :: bool
  pair_is_shared :: bool

definition empty_pair_plan :: ExecutionPairPlan where
  "empty_pair_plan =
     \<lparr>pair_priority = empty_plan, pair_grants = [], pair_is_valid = False, pair_is_shared = False\<rparr>"

text \<open>The check of one leg; the result is the index and the peer it names.\<close>

definition pair_leg_peer ::
  "ExecutionPriorityPeer list \<Rightarrow> bool \<Rightarrow> ExecutionPairLeg \<Rightarrow>
   (nat \<times> ExecutionPriorityPeer \<times> ExecutionPairContext) option" where
  "pair_leg_peer peers shared leg =
     (case find_peer (leg_session leg) peers of
        None \<Rightarrow> None
      | Some (i, p) \<Rightarrow>
          if peer_command p \<noteq> Some (leg_command leg) then None
          else (case peer_pair_context p of
            None \<Rightarrow> None
          | Some ctx \<Rightarrow>
              if leg_catalog_generation leg = 0 \<or>
                 leg_catalog_generation leg \<noteq> ctx_catalog_generation ctx \<or>
                 leg_workers leg \<noteq> ctx_workers ctx \<or> leg_workers leg > 2147483647 \<or>
                 (cmd_is_resume (leg_command leg) \<and> leg_workers leg = 0) \<or>
                 (shared \<and> leg_workers leg = 0)
              then None else Some (i, p, ctx)))"

definition shared_rejected ::
  "ExecutionPairContext \<Rightarrow> ExecutionPairContext \<Rightarrow> ExecutionPriorityCommand \<Rightarrow> ExecutionPriorityCommand \<Rightarrow> bool" where
  "shared_rejected x y c d \<longleftrightarrow>
     ctx_execution_domain x = 0 \<or> ctx_execution_domain x \<noteq> ctx_execution_domain y \<or>
     cmd_member_generation c = 0 \<or> cmd_member_generation d = 0 \<or>
     cmd_member_generation c = cmd_member_generation d \<or>
     cmd_physical_configuration_epoch c \<noteq> cmd_physical_configuration_epoch d"

definition withhold :: "ExecutionPriorityDecision \<Rightarrow> ExecutionPriorityDecision" where
  "withhold d =
     d\<lparr>dec_action := (if dec_action d = Act_kExecute then Act_kWait else dec_action d),
       dec_command := None\<rparr>"

definition grant_leg :: "nat \<Rightarrow> ExecutionPairLeg \<Rightarrow> ExecutionPriorityDecision list \<Rightarrow> ExecutionPriorityDecision list" where
  "grant_leg i leg ds =
     ds[i := (ds ! i)\<lparr>dec_action := Act_kExecute, dec_command := Some (leg_command leg)\<rparr>]"

definition plan_execution_pair ::
  "ExecutionPriorityPeer list \<Rightarrow> ExecutionPairProposal \<Rightarrow> ExecutionSchedulingMode \<Rightarrow> ExecutionPairPlan" where
  "plan_execution_pair peers proposal mode =
     (let leg0 = fst (pair_legs proposal); leg1 = snd (pair_legs proposal);
          shared = prop_is_shared proposal; first = pair_first_serial proposal in
      if mode = Exec_kProfile \<or> mode = Exec_kPrioritySpaceShare \<or> first > 1 \<or> (shared \<and> first \<noteq> 0) \<or>
         leg_session leg0 = 0 \<or> leg_session leg0 = leg_session leg1
      then empty_pair_plan
      else let ordinary = plan_execution_priority_mode peers mode in
        if \<not> plan_is_valid ordinary then empty_pair_plan
        else (case pair_leg_peer peers shared leg0 of
          None \<Rightarrow> empty_pair_plan
        | Some (i0, p0, x0) \<Rightarrow>
            (case pair_leg_peer peers shared leg1 of
               None \<Rightarrow> empty_pair_plan
             | Some (i1, p1, x1) \<Rightarrow>
                 if shared \<and> shared_rejected x0 x1 (leg_command leg0) (leg_command leg1)
                 then empty_pair_plan
                 else
                   let held = map withhold (plan_decisions ordinary);
                       result = \<lparr>pair_priority = ordinary\<lparr>plan_decisions := held\<rparr>, pair_grants = [],
                                 pair_is_valid = True, pair_is_shared = False\<rparr>;
                       can_grant = (\<lambda>i x. dec_action (plan_decisions ordinary ! i) = Act_kExecute \<and>
                                          ctx_is_configuration_materialized x)
                   in if list_ex (\<lambda>p. has_physical_work p \<or> has_unknown_state p) peers then result
                      else if shared
                      then if \<not> can_grant i0 x0 \<or> \<not> can_grant i1 x1 then result
                           else result\<lparr>pair_priority := ordinary\<lparr>plan_decisions :=
                                           grant_leg i1 leg1 (grant_leg i0 leg0 held)\<rparr>,
                                       pair_grants := [leg0, leg1], pair_is_shared := True\<rparr>
                      else if first = 0
                      then if \<not> can_grant i0 x0 then result
                           else result\<lparr>pair_priority := ordinary\<lparr>plan_decisions := grant_leg i0 leg0 held\<rparr>,
                                       pair_grants := [leg0]\<rparr>
                      else if \<not> can_grant i1 x1 then result
                           else result\<lparr>pair_priority := ordinary\<lparr>plan_decisions := grant_leg i1 leg1 held\<rparr>,
                                       pair_grants := [leg1]\<rparr>)))"

section \<open>Rebalancing\<close>

record ExecutionRebalanceTrigger =
  trig_session :: u64
  trig_command :: ExecutionPriorityCommand

record ExecutionRebalanceLeg =
  rleg_session :: u64
  rleg_physical :: ExecutionPriorityPhysical

record ExecutionRebalanceProposal =
  reb_trigger :: "ExecutionRebalanceTrigger option"
  reb_legs :: "ExecutionRebalanceLeg \<times> ExecutionRebalanceLeg"
  reb_size :: nat

definition reb_leg_list :: "ExecutionRebalanceProposal \<Rightarrow> ExecutionRebalanceLeg list" where
  "reb_leg_list proposal = take (reb_size proposal) [fst (reb_legs proposal), snd (reb_legs proposal)]"

text \<open>
  The loop over the legs. \<open>first\<close> is the session of leg 0 once it has been passed; the
  result is the list of peer indices and the common priority.
\<close>

fun rebalance_legs ::
  "ExecutionPriorityPeer list \<Rightarrow> u64 option \<Rightarrow> ExecutionRebalanceLeg list \<Rightarrow> u32 option \<Rightarrow>
   (nat list \<times> u32 option) option" where
  "rebalance_legs peers first [] prio = Some ([], prio)"
| "rebalance_legs peers first (target # legs) prio =
     (case find_peer (rleg_session target) peers of
        None \<Rightarrow> None
      | Some (i, p) \<Rightarrow>
          if rleg_session target = 0 \<or> \<not> has_physical_work p \<or>
             peer_physical p \<noteq> Some (rleg_physical target) \<or>
             phys_sequence (rleg_physical target) = 0 \<or> phys_generation (rleg_physical target) = 0 \<or>
             peer_reservation_generation p \<noteq> 0 \<or> peer_progress p \<noteq> None \<or>
             (prio \<noteq> None \<and> prio \<noteq> Some (peer_priority p)) \<or> first = Some (rleg_session target)
          then None
          else map_option (\<lambda>(is, pr). (i # is, pr))
                 (rebalance_legs peers (case first of None \<Rightarrow> Some (rleg_session target) | Some f \<Rightarrow> Some f)
                    legs (Some (peer_priority p))))"

definition trigger_rejected ::
  "ExecutionPriorityPeer list \<Rightarrow> ExecutionRebalanceLeg list \<Rightarrow> u32 option \<Rightarrow> ExecutionRebalanceTrigger \<Rightarrow> bool" where
  "trigger_rejected peers legs prio trigger =
     (case find_peer (trig_session trigger) peers of
        None \<Rightarrow> True
      | Some (_, p) \<Rightarrow>
          trig_session trigger = 0 \<or> \<not> has_ready_work p \<or> has_physical_work p \<or> has_paused_work p \<or>
          prio \<noteq> Some (peer_priority p) \<or> peer_command p \<noteq> Some (trig_command trigger) \<or>
          cmd_is_resume (trig_command trigger) \<or> cmd_physical_generation (trig_command trigger) \<noteq> 0 \<or>
          cmd_command_epoch (trig_command trigger) \<noteq> 1 \<or>
          list_ex (\<lambda>leg. rleg_session leg = trig_session trigger) legs)"

text \<open>An ordinary grant is withheld; a dependency cut of the peer stays usable.\<close>

definition hold_for_checkpoint ::
  "ExecutionPriorityPeer \<Rightarrow> ExecutionPriorityDecision \<Rightarrow> ExecutionPriorityDecision" where
  "hold_for_checkpoint p d =
     (if dec_action d \<noteq> Act_kExecute then d
      else if peer_progress p \<noteq> None
      then d\<lparr>dec_command := None, dec_action := Act_kExecuteProgress, dec_progress := peer_progress p\<rparr>
      else d\<lparr>dec_command := None, dec_action := Act_kWait\<rparr>)"

definition request_retreat :: "nat \<Rightarrow> ExecutionPriorityDecision list \<Rightarrow> ExecutionPriorityDecision list" where
  "request_retreat i ds = ds[i := (ds ! i)\<lparr>dec_action := Act_kRequestRetreat, dec_command := None\<rparr>]"

definition plan_execution_rebalance ::
  "ExecutionPriorityPeer list \<Rightarrow> ExecutionRebalanceProposal \<Rightarrow> ExecutionPriorityPlan" where
  "plan_execution_rebalance peers proposal =
     (if reb_size proposal = 0 \<or> reb_size proposal > 2 then empty_plan
      else let plan = plan_execution_priority peers; legs = reb_leg_list proposal in
        if \<not> plan_is_valid plan then empty_plan
        else (case rebalance_legs peers None legs None of
          None \<Rightarrow> empty_plan
        | Some (indices, prio) \<Rightarrow>
            if (case reb_trigger proposal of
                  None \<Rightarrow> False | Some trigger \<Rightarrow> trigger_rejected peers legs prio trigger)
            then empty_plan
            else if plan_selected_priority plan \<noteq> prio \<or> list_ex has_unknown_state peers then plan
            else plan\<lparr>plan_decisions :=
                   fold request_retreat indices (map2 hold_for_checkpoint peers (plan_decisions plan))\<rparr>))"

section \<open>The idle window\<close>

record ExecutionPriorityIdleConfig =
  idle_priority :: u32
  idle_duration_ns :: u64

record ExecutionPriorityIdleWindow =
  iw_config :: ExecutionPriorityIdleConfig
  iw_idle_since_ns :: "u64 option"
  iw_last_now_ns :: "u64 option"
  iw_has_activity :: bool

definition IdleWindow_new :: "ExecutionPriorityIdleConfig \<Rightarrow> ExecutionPriorityIdleWindow" where
  "IdleWindow_new config =
     \<lparr>iw_config = config, iw_idle_since_ns = None, iw_last_now_ns = None, iw_has_activity = False\<rparr>"

definition iw_enabled :: "ExecutionPriorityIdleWindow \<Rightarrow> bool" where
  "iw_enabled w \<longleftrightarrow> idle_priority (iw_config w) \<noteq> 0 \<and> idle_duration_ns (iw_config w) \<noteq> 0"

definition note_issue :: "u32 \<Rightarrow> ExecutionPriorityIdleWindow \<Rightarrow> ExecutionPriorityIdleWindow" where
  "note_issue priority w =
     (if \<not> iw_enabled w \<or> priority < idle_priority (iw_config w) then w
      else w\<lparr>iw_has_activity := True, iw_idle_since_ns := None\<rparr>)"

definition remaining_ns :: "ExecutionPriorityIdleWindow \<Rightarrow> u64 \<Rightarrow> u64" where
  "remaining_ns w now =
     (case iw_idle_since_ns w of
        None \<Rightarrow> 0
      | Some since \<Rightarrow>
          if now < since then idle_duration_ns (iw_config w)
          else if now - since < idle_duration_ns (iw_config w)
          then idle_duration_ns (iw_config w) - (now - since) else 0)"

definition has_idle_window :: "ExecutionPriorityIdleWindow \<Rightarrow> bool" where
  "has_idle_window w \<longleftrightarrow> iw_idle_since_ns w \<noteq> None"

definition idle_scan_step ::
  "ExecutionPriorityPeer \<Rightarrow> ExecutionPriorityIdleWindow \<times> bool \<Rightarrow> ExecutionPriorityIdleWindow \<times> bool" where
  "idle_scan_step p acc =
     (case acc of (w, high) \<Rightarrow>
        if peer_priority p < idle_priority (iw_config w) then (w, high)
        else (if has_physical_work p then note_issue (peer_priority p) w else w, high \<or> has_work p))"

definition idle_narrow ::
  "u32 \<Rightarrow> ExecutionPriorityPeer \<Rightarrow> ExecutionPriorityDecision \<Rightarrow> ExecutionPriorityDecision" where
  "idle_narrow prio p d =
     (if peer_priority p \<ge> prio \<or> dec_action d \<noteq> Act_kExecute then d
      else d\<lparr>dec_command := None,
             dec_action := (if peer_progress p \<noteq> None then Act_kExecuteProgress else Act_kWait),
             dec_progress := peer_progress p\<rparr>)"

definition idle_window_apply ::
  "ExecutionPriorityPeer list \<Rightarrow> ExecutionSchedulingMode \<Rightarrow> u64 \<Rightarrow> ExecutionPriorityPlan \<Rightarrow>
   ExecutionPriorityIdleWindow \<Rightarrow> ExecutionPriorityPlan \<times> ExecutionPriorityIdleWindow" where
  "idle_window_apply peers mode now plan w =
     (if \<not> iw_enabled w \<or> \<not> is_priority_execution_mode mode then (plan, w)
      else if \<not> plan_is_valid plan then (plan, w)
      else if length (plan_decisions plan) \<noteq> length peers \<or> length peers > kMaxExecutionPriorityPeers \<or>
              (case iw_last_now_ns w of None \<Rightarrow> False | Some t \<Rightarrow> now < t)
      then (empty_plan, w)
      else if list_ex (\<lambda>(d, p). dec_session d \<noteq> peer_session p) (zip (plan_decisions plan) peers)
      then (empty_plan, w)
      else let w1 = w\<lparr>iw_last_now_ns := Some now\<rparr> in
        if list_ex has_unknown_state peers then (plan, w1\<lparr>iw_idle_since_ns := None\<rparr>)
        else (case fold idle_scan_step peers (w1, False) of
          (w2, high) \<Rightarrow>
            if high then (plan, w2\<lparr>iw_idle_since_ns := None\<rparr>)
            else if \<not> iw_has_activity w2 then (plan, w2)
            else let w3 = (if iw_idle_since_ns w2 = None then w2\<lparr>iw_idle_since_ns := Some now\<rparr> else w2) in
              if remaining_ns w3 now = 0
              then (plan, w3\<lparr>iw_has_activity := False, iw_idle_since_ns := None\<rparr>)
              else (plan\<lparr>plan_decisions :=
                       map2 (idle_narrow (idle_priority (iw_config w))) peers (plan_decisions plan)\<rparr>, w3)))"

end
