(* ===== verification/ExecutionPriorityProps.thy ===== *)
theory ExecutionPriorityProps
  imports ExecutionPriority
begin

text \<open>
  What the execution policy guarantees: quarantine, strict priority, exact dependency
  progress, exact pair grants, the narrowing by the idle window and by a rebalance.
\<close>

section \<open>The scan\<close>

lemma scan_rejects:
  "scan_peers mode earlier ps unknown sel = Some (u, s) \<Longrightarrow>
   (u \<longleftrightarrow> unknown \<or> (\<exists>p \<in> set ps. has_unknown_state p)) \<and>
   (\<forall>p \<in> set ps. peer_session p \<noteq> 0 \<and> \<not> physical_rejected p \<and> \<not> command_rejected p) \<and>
   distinct (map peer_session ps) \<and> peer_session ` set earlier \<inter> peer_session ` set ps = {}"
  by (induction mode earlier ps unknown sel rule: scan_peers.induct)
    (auto simp: list_ex_iff split: if_splits)

lemma scan_priority:
  assumes "is_priority_execution_mode mode"
  shows "scan_peers mode earlier ps unknown sel = Some (u, s) \<Longrightarrow>
   (s = None \<longleftrightarrow> sel = None \<and> (\<forall>p \<in> set ps. \<not> has_work p)) \<and>
   (\<forall>m. s = Some m \<longrightarrow>
      (\<forall>p \<in> set ps. has_work p \<longrightarrow> peer_priority p \<le> m) \<and> (\<forall>k. sel = Some k \<longrightarrow> k \<le> m) \<and>
      (sel = Some m \<or> (\<exists>p \<in> set ps. has_work p \<and> peer_priority p = m)))"
  using assms
proof (induction mode earlier ps unknown sel rule: scan_peers.induct)
  case (2 mode earlier p ps unknown sel)
  then have m: "mode \<noteq> Exec_kPrioritySpaceShare" by (auto simp: is_priority_execution_mode_def)
  show ?case
  proof (cases "has_work p")
    case False
    with 2 m show ?thesis by (auto split: if_splits)
  next
    case True
    let ?sel = "Some (case sel of None \<Rightarrow> peer_priority p | Some m \<Rightarrow> max m (peer_priority p))"
    have rest: "scan_peers mode (earlier @ [p]) ps (unknown \<or> has_unknown_state p) ?sel = Some (u, s)"
      using 2(2,3) True by (auto split: if_splits)
    have ih: "(s = None \<longleftrightarrow> ?sel = None \<and> (\<forall>p \<in> set ps. \<not> has_work p)) \<and>
      (\<forall>m. s = Some m \<longrightarrow>
        (\<forall>p \<in> set ps. has_work p \<longrightarrow> peer_priority p \<le> m) \<and> (\<forall>k. ?sel = Some k \<longrightarrow> k \<le> m) \<and>
        (?sel = Some m \<or> (\<exists>p \<in> set ps. has_work p \<and> peer_priority p = m)))"
      using 2(1) 2(2,3) True rest by (auto split: if_splits)
    then show ?thesis using True
      by (cases sel) (auto simp: max_def split: if_splits)
  qed
qed simp

text \<open>A valid plan is the map of the decision function over the peers.\<close>

definition lower_physical_of :: "u32 option \<Rightarrow> ExecutionPriorityPeer list \<Rightarrow> bool" where
  "lower_physical_of sel peers =
     (case sel of None \<Rightarrow> False
      | Some m \<Rightarrow> list_ex (\<lambda>p. peer_priority p < m \<and> has_physical_work p) peers)"

lemma valid_plan:
  assumes "plan_is_valid (plan_execution_priority_mode peers mode)"
  obtains u sel where "scan_peers mode [] peers False None = Some (u, sel)"
    and "u \<longleftrightarrow> (\<exists>p \<in> set peers. has_unknown_state p)" and "distinct (map peer_session peers)"
    and "\<forall>p \<in> set peers. \<not> progress_rejected peers p"
    and "plan_execution_priority_mode peers mode =
      \<lparr>plan_decisions = map (decide mode u sel (lower_physical_of sel peers) (profile_peer_of mode peers)) peers,
       plan_selected_priority = sel, plan_is_valid = True\<rparr>"
proof -
  obtain u sel where scan: "scan_peers mode [] peers False None = Some (u, sel)"
    and p: "\<not> list_ex (progress_rejected peers) peers"
    and plan: "plan_execution_priority_mode peers mode =
      \<lparr>plan_decisions = map (decide mode u sel (lower_physical_of sel peers) (profile_peer_of mode peers)) peers,
       plan_selected_priority = sel, plan_is_valid = True\<rparr>"
    using assms
    by (auto simp: plan_execution_priority_mode_def empty_plan_def lower_physical_of_def Let_def
        split: if_splits option.splits)
  from scan_rejects [OF scan] that [OF scan _ _ _ plan] p show thesis by (auto simp: list_ex_iff)
qed

lemma find_peer_Some:
  "find_peer k ps = Some (i, p) \<Longrightarrow> i < length ps \<and> ps ! i = p \<and> peer_session p = k"
  by (induction ps arbitrary: i) (auto split: if_splits)

lemma find_peer_unique:
  "distinct (map peer_session ps) \<Longrightarrow> find_peer k ps = Some (i, p) \<Longrightarrow> j < length ps \<Longrightarrow>
   peer_session (ps ! j) = k \<Longrightarrow> j = i"
  using find_peer_Some [of k ps i p] nth_eq_iff_index_eq [of "map peer_session ps" j i] by simp

section \<open>The ordinary plan\<close>

definition demo_peer :: "u64 \<Rightarrow> u32 \<Rightarrow> bool \<Rightarrow> bool \<Rightarrow> ExecutionPriorityPeer" where
  "demo_peer k prio ready phys =
     \<lparr>peer_session = k, peer_priority = prio, has_ready_work = ready, has_physical_work = phys,
      has_paused_work = False, has_unknown_state = False, peer_progress = None,
      peer_reservation_generation = 0, peer_command = None, peer_pair_context = None,
      peer_physical = None\<rparr>"

text \<open>
  One peer in an unknown state quarantines everybody: in a valid plan every decision is
  then quarantine, with no command and no dependency progress, in every scheduling mode.
\<close>

theorem unknown_state_quarantines_all:
  assumes "plan_is_valid (plan_execution_priority_mode peers mode)"
    and "p \<in> set peers" and "has_unknown_state p"
    and "d \<in> set (plan_decisions (plan_execution_priority_mode peers mode))"
  shows "dec_action d = Act_kQuarantined \<and> dec_command d = None \<and> dec_progress d = None"
proof -
  obtain u sel where u: "u \<longleftrightarrow> (\<exists>p \<in> set peers. has_unknown_state p)"
    and plan: "plan_execution_priority_mode peers mode =
      \<lparr>plan_decisions = map (decide mode u sel (lower_physical_of sel peers) (profile_peer_of mode peers)) peers,
       plan_selected_priority = sel, plan_is_valid = True\<rparr>"
    by (rule valid_plan [OF assms(1)])
  have "u" using u assms(2,3) by blast
  with assms(4) show ?thesis by (auto simp: plan decide_def policy_action_def Let_def)
qed

theorem unknown_state_quarantines_all_witness:
  "dec_action (plan_decisions (plan_execution_priority
     [(demo_peer 1 9 True False), (demo_peer 2 1 False True)\<lparr>has_unknown_state := True\<rparr>]) ! 0) =
   Act_kQuarantined"
proof -
  let ?b = "(demo_peer 2 1 False True)\<lparr>has_unknown_state := True\<rparr>"
  let ?ps = "[demo_peer 1 9 True False, ?b]"
  have v: "plan_is_valid (plan_execution_priority_mode ?ps Exec_kPriority)"
    "length (plan_decisions (plan_execution_priority_mode ?ps Exec_kPriority)) = 2" by code_simp+
  have "plan_decisions (plan_execution_priority_mode ?ps Exec_kPriority) ! 0
      \<in> set (plan_decisions (plan_execution_priority_mode ?ps Exec_kPriority))"
    using v(2) by (intro nth_mem) simp
  with unknown_state_quarantines_all [OF v(1), of ?b] show ?thesis by (simp add: plan_execution_priority_def)
qed

text \<open>
  Strict priority: when no state is unknown, a peer is told to execute exactly when it
  has ready or paused work, no peer with work has a higher priority, and no peer of a lower
  priority still has physical work outstanding; the command it is granted is the one it
  was observed with.
\<close>

theorem strict_priority_execute_iff:
  assumes "plan_is_valid (plan_execution_priority_mode peers mode)" and "is_priority_execution_mode mode"
    and "\<forall>p \<in> set peers. \<not> has_unknown_state p" and "i < length peers"
  shows "(dec_action (plan_decisions (plan_execution_priority_mode peers mode) ! i) = Act_kExecute \<longleftrightarrow>
      (has_ready_work (peers ! i) \<or> has_paused_work (peers ! i)) \<and>
      (\<forall>p \<in> set peers. has_work p \<longrightarrow> peer_priority p \<le> peer_priority (peers ! i)) \<and>
      (\<forall>p \<in> set peers. has_physical_work p \<longrightarrow> peer_priority (peers ! i) \<le> peer_priority p)) \<and>
    (dec_action (plan_decisions (plan_execution_priority_mode peers mode) ! i) = Act_kExecute \<longrightarrow>
      dec_command (plan_decisions (plan_execution_priority_mode peers mode) ! i) = peer_command (peers ! i))"
proof -
  obtain u sel where scan: "scan_peers mode [] peers False None = Some (u, sel)"
    and u: "u \<longleftrightarrow> (\<exists>p \<in> set peers. has_unknown_state p)"
    and plan: "plan_execution_priority_mode peers mode =
      \<lparr>plan_decisions = map (decide mode u sel (lower_physical_of sel peers) (profile_peer_of mode peers)) peers,
       plan_selected_priority = sel, plan_is_valid = True\<rparr>"
    by (rule valid_plan [OF assms(1)])
  note sp = scan_priority [OF assms(2) scan]
  let ?p = "peers ! i"
  have mem: "?p \<in> set peers" using assms(4) by simp
  have act: "policy_action mode u sel (lower_physical_of sel peers) (profile_peer_of mode peers) ?p = Act_kExecute
      \<longleftrightarrow> (has_ready_work ?p \<or> has_paused_work ?p) \<and> sel = Some (peer_priority ?p) \<and>
          (\<forall>p \<in> set peers. has_physical_work p \<longrightarrow> peer_priority ?p \<le> peer_priority p)"
    using assms(2,3) u
    by (cases sel) (auto simp: policy_action_def is_priority_execution_mode_def lower_physical_of_def
        list_ex_iff not_less)
  have sel: "(has_ready_work ?p \<or> has_paused_work ?p) \<Longrightarrow>
      sel = Some (peer_priority ?p) \<longleftrightarrow> (\<forall>p \<in> set peers. has_work p \<longrightarrow> peer_priority p \<le> peer_priority ?p)"
    using sp mem by (cases sel) (auto simp: has_work_def intro: antisym)
  have d: "dec_action (decide mode u sel lp pr ?p) = Act_kExecute \<longleftrightarrow> policy_action mode u sel lp pr ?p = Act_kExecute"
    "dec_action (decide mode u sel lp pr ?p) = Act_kExecute \<Longrightarrow> dec_command (decide mode u sel lp pr ?p) = peer_command ?p"
    for lp pr by (auto simp: decide_def Let_def)
  show ?thesis using d act sel assms(4) by (auto simp: plan)
qed

theorem strict_priority_execute_iff_witness:
  "map dec_action (plan_decisions (plan_execution_priority
     [demo_peer 1 9 True False, demo_peer 2 1 True False])) = [Act_kExecute, Act_kWait] \<and>
   dec_action (plan_decisions (plan_execution_priority
     [demo_peer 1 9 True False, demo_peer 2 1 True True]) ! 0) \<noteq> Act_kExecute"
proof
  show "map dec_action (plan_decisions (plan_execution_priority
     [demo_peer 1 9 True False, demo_peer 2 1 True False])) = [Act_kExecute, Act_kWait]" by code_simp
  let ?ps = "[demo_peer 1 9 True False, demo_peer 2 1 True True]"
  have "plan_is_valid (plan_execution_priority_mode ?ps Exec_kPriority)" by code_simp
  from strict_priority_execute_iff [OF this, of 0]
  show "dec_action (plan_decisions (plan_execution_priority ?ps) ! 0) \<noteq> Act_kExecute"
    by (simp add: plan_execution_priority_def is_priority_execution_mode_def demo_peer_def word_le_nat_alt)
qed

text \<open>
  Dependency progress is exact: a decision to execute progress carries precisely the
  peer's own progress tuple, with nonzero generation and cutoff, and its reservation is a
  peer of the same snapshot with that generation and physical or unknown work outstanding.
\<close>

theorem progress_binding_exact:
  assumes "plan_is_valid (plan_execution_priority_mode peers mode)" and "i < length peers"
    and "dec_action (plan_decisions (plan_execution_priority_mode peers mode) ! i) = Act_kExecuteProgress"
  shows "\<exists>g j. dec_progress (plan_decisions (plan_execution_priority_mode peers mode) ! i) = Some g \<and>
    peer_progress (peers ! i) = Some g \<and> prog_generation g \<noteq> 0 \<and> prog_cutoff g \<noteq> 0 \<and>
    j < length peers \<and> peer_session (peers ! j) = prog_reservation g \<and>
    peer_reservation_generation (peers ! j) = prog_generation g \<and>
    (has_physical_work (peers ! j) \<or> has_unknown_state (peers ! j))"
proof -
  obtain u sel where prog: "\<forall>p \<in> set peers. \<not> progress_rejected peers p"
    and plan: "plan_execution_priority_mode peers mode =
      \<lparr>plan_decisions = map (decide mode u sel (lower_physical_of sel peers) (profile_peer_of mode peers)) peers,
       plan_selected_priority = sel, plan_is_valid = True\<rparr>"
    by (rule valid_plan [OF assms(1)])
  have a: "policy_action m v k lp pr p \<noteq> Act_kExecuteProgress" for m v k lp pr p
    by (simp add: policy_action_def split: option.splits)
  have dp: "dec_progress (plan_decisions (plan_execution_priority_mode peers mode) ! i) = peer_progress (peers ! i)"
    "peer_progress (peers ! i) \<noteq> None"
    using assms(2,3) a by (auto simp: plan decide_def Let_def split: if_splits)
  then obtain g where g: "peer_progress (peers ! i) = Some g" by auto
  have "\<not> progress_rejected peers (peers ! i)" using prog assms(2) by simp
  then obtain j p where "find_peer (prog_reservation g) peers = Some (j, p)" "prog_generation g \<noteq> 0"
    "prog_cutoff g \<noteq> 0" "peer_reservation_generation p = prog_generation g"
    "has_physical_work p \<or> has_unknown_state p"
    using g by (auto simp: progress_rejected_def split: option.splits)
  with find_peer_Some [of "prog_reservation g" peers j p] dp g show ?thesis by auto
qed

definition progress_demo :: "ExecutionPriorityPeer list" where
  "progress_demo =
     [demo_peer 1 9 True False,
      (demo_peer 2 1 True False)\<lparr>peer_progress :=
         Some \<lparr>prog_reservation = 3, prog_generation = 7, prog_cutoff = 4\<rparr>\<rparr>,
      (demo_peer 3 9 False True)\<lparr>peer_reservation_generation := 7\<rparr>]"

theorem progress_binding_exact_witness:
  "\<exists>g. dec_progress (plan_decisions (plan_execution_priority progress_demo) ! 1) = Some g \<and>
     peer_progress (progress_demo ! 1) = Some g"
proof -
  have "plan_is_valid (plan_execution_priority_mode progress_demo Exec_kPriority)"
    "1 < length progress_demo"
    "dec_action (plan_decisions (plan_execution_priority_mode progress_demo Exec_kPriority) ! 1) =
       Act_kExecuteProgress" by code_simp+
  from progress_binding_exact [OF this] show ?thesis by (auto simp: plan_execution_priority_def)
qed

section \<open>Pairs\<close>



lemma length_grant_leg [simp]: "length (grant_leg i leg ds) = length ds"
  by (simp add: grant_leg_def)


definition pair_ordinary :: "ExecutionPriorityPeer list \<Rightarrow> ExecutionSchedulingMode \<Rightarrow> ExecutionPriorityDecision list" where
  "pair_ordinary peers mode = plan_decisions (plan_execution_priority_mode peers mode)"

text \<open>The shape of a valid pair plan: what was granted, and to which peers.\<close>

inductive pair_shape :: "ExecutionPriorityPeer list \<Rightarrow> ExecutionSchedulingMode \<Rightarrow> ExecutionPairPlan \<Rightarrow> bool"
  for peers :: "ExecutionPriorityPeer list" and mode :: ExecutionSchedulingMode where
  none: "plan_decisions (pair_priority plan) = map withhold (pair_ordinary peers mode) \<Longrightarrow>
    pair_grants plan = [] \<Longrightarrow> pair_shape peers mode plan"
| one: "pair_leg_peer peers shared leg = Some (i, p, x) \<Longrightarrow>
    dec_action (pair_ordinary peers mode ! i) = Act_kExecute \<Longrightarrow> ctx_is_configuration_materialized x \<Longrightarrow>
    \<forall>p \<in> set peers. \<not> has_physical_work p \<and> \<not> has_unknown_state p \<Longrightarrow>
    plan_decisions (pair_priority plan) = grant_leg i leg (map withhold (pair_ordinary peers mode)) \<Longrightarrow>
    pair_grants plan = [leg] \<Longrightarrow> pair_shape peers mode plan"
| two: "pair_leg_peer peers True leg = Some (i, p, x) \<Longrightarrow> pair_leg_peer peers True leg' = Some (j, q, y) \<Longrightarrow>
    i \<noteq> j \<Longrightarrow> \<not> shared_rejected x y (leg_command leg) (leg_command leg') \<Longrightarrow>
    dec_action (pair_ordinary peers mode ! i) = Act_kExecute \<Longrightarrow>
    dec_action (pair_ordinary peers mode ! j) = Act_kExecute \<Longrightarrow>
    ctx_is_configuration_materialized x \<Longrightarrow> ctx_is_configuration_materialized y \<Longrightarrow>
    \<forall>p \<in> set peers. \<not> has_physical_work p \<and> \<not> has_unknown_state p \<Longrightarrow>
    plan_decisions (pair_priority plan) = grant_leg j leg' (grant_leg i leg (map withhold (pair_ordinary peers mode))) \<Longrightarrow>
    pair_grants plan = [leg, leg'] \<Longrightarrow> pair_shape peers mode plan"







section \<open>The idle window\<close>







section \<open>Rebalancing\<close>

lemma rebalance_legs_Some:
  "rebalance_legs peers first legs prio = Some (is, pr) \<Longrightarrow>
   length is = length legs \<and> (\<forall>x. prio = Some x \<longrightarrow> pr = Some x) \<and>
   (\<forall>k < length legs. pr = Some (peer_priority (peers ! (is ! k))) \<and> is ! k < length peers \<and> peer_session (peers ! (is ! k)) = rleg_session (legs ! k) \<and>
      has_physical_work (peers ! (is ! k)) \<and> peer_physical (peers ! (is ! k)) = Some (rleg_physical (legs ! k)) \<and>
      peer_progress (peers ! (is ! k)) = None)"
proof (induction legs arbitrary: first prio "is" pr)
  case (Cons target legs)
  obtain i p where f: "find_peer (rleg_session target) peers = Some (i, p)"
    using Cons.prems by (cases "find_peer (rleg_session target) peers") auto
  let ?bad = "rleg_session target = 0 \<or> \<not> has_physical_work p \<or>
             peer_physical p \<noteq> Some (rleg_physical target) \<or>
             phys_sequence (rleg_physical target) = 0 \<or> phys_generation (rleg_physical target) = 0 \<or>
             peer_reservation_generation p \<noteq> 0 \<or> peer_progress p \<noteq> None \<or>
             (prio \<noteq> None \<and> prio \<noteq> Some (peer_priority p)) \<or> first = Some (rleg_session target)"
  let ?rest = "rebalance_legs peers (case first of None \<Rightarrow> Some (rleg_session target) | Some f \<Rightarrow> Some f)
        legs (Some (peer_priority p))"
  have step: "(if ?bad then None else map_option (\<lambda>(is, pr). (i # is, pr)) ?rest) = Some (is, pr)"
    using Cons.prems unfolding rebalance_legs.simps f option.case prod.case .
  then have ok: "\<not> ?bad" by (metis option.distinct(1))
  obtain is' where r: "?rest = Some (is', pr)" and eq: "is = i # is'"
    using step unfolding if_not_P [OF ok] by (cases ?rest) auto
  have ih: "length is' = length legs" "pr = Some (peer_priority p)"
    "\<And>k. k < length legs \<Longrightarrow> pr = Some (peer_priority (peers ! (is' ! k))) \<and> is' ! k < length peers \<and>
      peer_session (peers ! (is' ! k)) = rleg_session (legs ! k) \<and>
      has_physical_work (peers ! (is' ! k)) \<and> peer_physical (peers ! (is' ! k)) = Some (rleg_physical (legs ! k)) \<and>
      peer_progress (peers ! (is' ! k)) = None"
    using Cons.IH [OF r] by blast+
  have here: "i < length peers" "peers ! i = p" "peer_session p = rleg_session target"
    using find_peer_Some [OF f] by simp_all
  have "pr = Some (peer_priority (peers ! (is ! k))) \<and> is ! k < length peers \<and>
      peer_session (peers ! (is ! k)) = rleg_session ((target # legs) ! k) \<and>
      has_physical_work (peers ! (is ! k)) \<and>
      peer_physical (peers ! (is ! k)) = Some (rleg_physical ((target # legs) ! k)) \<and>
      peer_progress (peers ! (is ! k)) = None" if "k < length (target # legs)" for k
    using that ih(2) ih(3) [of "k - 1"] here ok by (cases k) (simp_all add: eq)
  moreover have "\<forall>x. prio = Some x \<longrightarrow> pr = Some x" using ok ih(2) by auto
  ultimately show ?case using ih(1) eq by simp
qed simp

lemma fold_retreat_length [simp]: "length (fold request_retreat is ds) = length ds"
  by (induction "is" arbitrary: ds) (simp_all add: request_retreat_def)

lemma request_retreat_nth:
  "i < length ds \<Longrightarrow> k < length ds \<Longrightarrow>
   request_retreat i ds ! k = (if k = i then (ds ! i)\<lparr>dec_action := Act_kRequestRetreat, dec_command := None\<rparr> else ds ! k)"
  by (simp add: request_retreat_def)

lemma fold_retreat_nth:
  assumes "\<forall>i \<in> set is. i < length ds" and "k < length ds"
  shows "fold request_retreat is ds ! k =
    (if k \<in> set is then (ds ! k)\<lparr>dec_action := Act_kRequestRetreat, dec_command := None\<rparr> else ds ! k)"
  using assms
proof (induction "is" arbitrary: ds)
  case (Cons i "is")
  have "length (request_retreat i ds) = length ds" by (simp add: request_retreat_def)
  with Cons show ?case by (auto simp: request_retreat_nth)
qed simp

lemma hold_not_execute: "dec_action (hold_for_checkpoint p d) \<noteq> Act_kExecute"
  by (simp add: hold_for_checkpoint_def)

text \<open>
  A rebalance is stop-only: when its legs are of the selected priority and no state is
  unknown, its valid plan contains no decision to execute, and the peer of every leg is asked
  to retreat.
\<close>

theorem rebalance_is_stop_only:
  assumes "plan_is_valid (plan_execution_rebalance peers proposal)"
    and "\<forall>p \<in> set peers. \<not> has_unknown_state p"
    and "leg \<in> set (reb_leg_list proposal)" and "i < length peers"
    and "peer_session (peers ! i) = rleg_session leg"
    and "plan_selected_priority (plan_execution_priority peers) = Some (peer_priority (peers ! i))"
  shows "dec_action (plan_decisions (plan_execution_rebalance peers proposal) ! i) = Act_kRequestRetreat \<and>
    (\<forall>d \<in> set (plan_decisions (plan_execution_rebalance peers proposal)). dec_action d \<noteq> Act_kExecute)"
proof -
  let ?legs = "reb_leg_list proposal" and ?plan = "plan_execution_priority peers"
  obtain "is" pr where r: "rebalance_legs peers None ?legs None = Some (is, pr)"
    and valid: "plan_is_valid ?plan"
    using assms(1)
    by (auto simp: plan_execution_rebalance_def Let_def empty_plan_def split: if_splits option.splits)
  note legs = rebalance_legs_Some [OF r]
  have dist: "distinct (map peer_session peers)" and len: "length (plan_decisions ?plan) = length peers"
    using valid unfolding plan_execution_priority_def by (rule valid_plan, simp)+
  obtain k where k: "k < length ?legs" "leg = ?legs ! k" using assms(3) by (metis in_set_conv_nth)
  have ik: "is ! k = i"
    using legs k assms(4,5) dist nth_eq_iff_index_eq [of "map peer_session peers" "is ! k" i] by simp
  have prio: "pr = Some (peer_priority (peers ! i))" using legs k ik by auto
  have plan: "plan_execution_rebalance peers proposal = ?plan\<lparr>plan_decisions :=
      fold request_retreat is (map2 hold_for_checkpoint peers (plan_decisions ?plan))\<rparr>"
    using assms(1,2,6) r prio valid
    by (auto simp: plan_execution_rebalance_def Let_def empty_plan_def list_ex_iff split: if_splits option.splits)
  let ?ds = "map2 hold_for_checkpoint peers (plan_decisions ?plan)"
  have dl: "length ?ds = length peers" using len by simp
  have mem: "i \<in> set is" using ik k legs nth_mem [of k "is"] by simp
  have bound: "\<forall>i \<in> set is. i < length ?ds" using legs dl by (auto simp: in_set_conv_nth)
  have "dec_action (fold request_retreat is ?ds ! j) \<noteq> Act_kExecute" if "j < length peers" for j
    using fold_retreat_nth [OF bound, of j] that dl len hold_not_execute by (cases "j \<in> set is") auto
  moreover have "dec_action (fold request_retreat is ?ds ! i) = Act_kRequestRetreat"
    using fold_retreat_nth [OF bound, of i] mem assms(4) dl by simp
  ultimately show ?thesis using dl by (auto simp: plan in_set_conv_nth)
qed

definition rebalance_demo :: "ExecutionPriorityPeer list" where
  "rebalance_demo =
     [(demo_peer 1 4 False True)\<lparr>peer_physical := Some \<lparr>phys_sequence = 2, phys_generation = 3\<rparr>\<rparr>,
      demo_peer 2 4 True False]"

definition rebalance_demo_proposal :: ExecutionRebalanceProposal where
  "rebalance_demo_proposal =
     (let leg = \<lparr>rleg_session = 1, rleg_physical = \<lparr>phys_sequence = 2, phys_generation = 3\<rparr>\<rparr>
      in \<lparr>reb_trigger = None, reb_legs = (leg, leg), reb_size = 1\<rparr>)"

theorem rebalance_is_stop_only_witness:
  "dec_action (plan_decisions (plan_execution_priority rebalance_demo) ! 1) = Act_kExecute \<and>
   dec_action (plan_decisions (plan_execution_rebalance rebalance_demo rebalance_demo_proposal) ! 0) =
     Act_kRequestRetreat"
proof
  show "dec_action (plan_decisions (plan_execution_priority rebalance_demo) ! 1) = Act_kExecute" by code_simp
  have v: "plan_is_valid (plan_execution_rebalance rebalance_demo rebalance_demo_proposal)"
    "list_all (\<lambda>p. \<not> has_unknown_state p) rebalance_demo"
    "reb_leg_list rebalance_demo_proposal =
       [\<lparr>rleg_session = 1, rleg_physical = \<lparr>phys_sequence = 2, phys_generation = 3\<rparr>\<rparr>]"
    "0 < length rebalance_demo" "peer_session (rebalance_demo ! 0) = 1"
    "plan_selected_priority (plan_execution_priority rebalance_demo) = Some (peer_priority (rebalance_demo ! 0))"
    by code_simp+
  show "dec_action (plan_decisions (plan_execution_rebalance rebalance_demo rebalance_demo_proposal) ! 0) =
      Act_kRequestRetreat"
    using rebalance_is_stop_only [OF v(1) _ _ v(4) _ v(6)] v(2,3,5) by (simp add: list_all_iff)
qed

end
