(* ===== verification/QuotaStores.thy ===== *)
theory QuotaStores
  imports QuotaLedger
begin

text \<open>
  The quota stores of the interceptor: the store interface of \<^verbatim>\<open>quota_store.h\<close>, the process
  ledger of \<^verbatim>\<open>process_memory_quota.cc\<close>, the per-device capacity bound of
  \<^verbatim>\<open>device_capacity_quota.cc\<close> and their composition in \<^verbatim>\<open>composite_quota.cc\<close>. The virtual
  interface is a record of operations over a store state \<open>'s\<close>, a reservation state \<open>'r\<close> and a
  call context \<open>'f\<close>. The context of a call holds what it reads from outside: whether an
  allocation it makes fails, and what the capacity resolver answers.
\<close>

section \<open>The interface\<close>

text \<open>Device ids are 32-bit signed integers: words read with \<open>sint\<close>.\<close>

type_synonym DeviceId = "32 word"

record MemoryInfo =
  total_bytes :: MemoryBytes
  free_bytes :: MemoryBytes

definition no_memory_info :: MemoryInfo where
  "no_memory_info = \<lparr>total_bytes = 0, free_bytes = 0\<rparr>"

definition no_usage :: QuotaUsage where
  "no_usage = \<lparr>limit_bytes = 0, reserved_bytes = 0, allocated_bytes = 0\<rparr>"

definition device_valid :: "DeviceId \<Rightarrow> bool" where
  "device_valid d \<longleftrightarrow> 0 \<le> sint d"

record ('s, 'r, 'f) QuotaStore =
  qs_try_reserve :: "'f \<Rightarrow> DeviceId \<Rightarrow> MemoryBytes \<Rightarrow> 's \<Rightarrow> 'r option \<times> 's"
  qs_release :: "DeviceId \<Rightarrow> MemoryBytes \<Rightarrow> 's \<Rightarrow> bool \<times> 's"
  qs_get_memory_info :: "'f \<Rightarrow> DeviceId \<Rightarrow> MemoryBytes \<Rightarrow> MemoryBytes \<Rightarrow> 's \<Rightarrow> MemoryInfo \<times> 's"
  qs_usage :: "'f \<Rightarrow> DeviceId \<Rightarrow> 's \<Rightarrow> QuotaUsage \<times> 's"
  qs_is_healthy :: "'s \<Rightarrow> bool"
  qs_commit :: "'r \<Rightarrow> 's \<Rightarrow> bool \<times> 'r \<times> 's"
  qs_cancel :: "'r \<Rightarrow> 's \<Rightarrow> 'r \<times> 's"
  qs_abandon :: "'r \<Rightarrow> 's \<Rightarrow> 'r \<times> 's"
  qs_is_active :: "'r \<Rightarrow> bool"
  qs_memory_bytes :: "'r \<Rightarrow> MemoryBytes"

text \<open>
  The handle \<open>MemoryReservation\<close>: an owned reservation state, or null after a move or an
  abandonment.
\<close>

type_synonym 'r MemoryReservation = "'r option"

definition mr_commit ::
  "('s, 'r, 'f) QuotaStore \<Rightarrow> 'r MemoryReservation \<Rightarrow> 's \<Rightarrow> bool \<times> 'r MemoryReservation \<times> 's" where
  "mr_commit ops h s =
     (case h of
        None \<Rightarrow> (False, None, s)
      | Some r \<Rightarrow> (case qs_commit ops r s of (ok, r', s') \<Rightarrow> (ok, Some r', s')))"

definition mr_cancel ::
  "('s, 'r, 'f) QuotaStore \<Rightarrow> 'r MemoryReservation \<Rightarrow> 's \<Rightarrow> 'r MemoryReservation \<times> 's" where
  "mr_cancel ops h s =
     (case h of
        None \<Rightarrow> (None, s)
      | Some r \<Rightarrow> (case qs_cancel ops r s of (r', s') \<Rightarrow> (Some r', s')))"

definition mr_abandon ::
  "('s, 'r, 'f) QuotaStore \<Rightarrow> 'r MemoryReservation \<Rightarrow> 's \<Rightarrow> 'r MemoryReservation \<times> 's" where
  "mr_abandon ops h s =
     (case h of
        None \<Rightarrow> (None, s)
      | Some r \<Rightarrow> (None, snd (qs_abandon ops r s)))"

definition mr_destroy :: "('s, 'r, 'f) QuotaStore \<Rightarrow> 'r MemoryReservation \<Rightarrow> 's \<Rightarrow> 's" where
  "mr_destroy ops h s = snd (mr_cancel ops h s)"

definition mr_move_assign ::
  "('s, 'r, 'f) QuotaStore \<Rightarrow> 'r MemoryReservation \<Rightarrow> 'r MemoryReservation \<Rightarrow> 's \<Rightarrow>
   'r MemoryReservation \<times> 'r MemoryReservation \<times> 's" where
  "mr_move_assign ops self other s = (other, None, snd (mr_cancel ops self s))"

definition mr_is_active :: "('s, 'r, 'f) QuotaStore \<Rightarrow> 'r MemoryReservation \<Rightarrow> bool" where
  "mr_is_active ops h = (case h of None \<Rightarrow> False | Some r \<Rightarrow> qs_is_active ops r)"

definition mr_memory_bytes :: "('s, 'r, 'f) QuotaStore \<Rightarrow> 'r MemoryReservation \<Rightarrow> MemoryBytes" where
  "mr_memory_bytes ops h = (case h of None \<Rightarrow> 0 | Some r \<Rightarrow> qs_memory_bytes ops r)"

section \<open>The process quota\<close>

text \<open>The flag says that the allocation of the reservation state fails.\<close>

definition process_try_reserve ::
  "bool \<Rightarrow> DeviceId \<Rightarrow> MemoryBytes \<Rightarrow> QuotaLedgerState \<Rightarrow> QuotaReservation option \<times> QuotaLedgerState" where
  "process_try_reserve alloc_fails d b l =
     (if \<not> device_valid d then (None, l)
      else (case ledger_try_reserve l b of
        (None, l') \<Rightarrow> (None, l')
      | (Some r, l') \<Rightarrow>
          if alloc_fails then (None, reservation_destroy l' r) else (Some r, l')))"

definition process_release :: "DeviceId \<Rightarrow> MemoryBytes \<Rightarrow> QuotaLedgerState \<Rightarrow> bool \<times> QuotaLedgerState" where
  "process_release d b l = (if \<not> device_valid d then (False, l) else ledger_release l b)"

definition process_get_memory_info ::
  "DeviceId \<Rightarrow> MemoryBytes \<Rightarrow> MemoryBytes \<Rightarrow> QuotaLedgerState \<Rightarrow> MemoryInfo" where
  "process_get_memory_info d physical_total physical_free l =
     (if \<not> device_valid d then no_memory_info
      else
        let u = ledger_usage l;
            visible_total = min (limit_bytes u) physical_total;
            quota_free = (if visible_total > used_bytes u then visible_total - used_bytes u else 0);
            visible_free = min quota_free physical_free
        in \<lparr>total_bytes = visible_total, free_bytes = min visible_total visible_free\<rparr>)"

definition process_usage :: "DeviceId \<Rightarrow> QuotaLedgerState \<Rightarrow> QuotaUsage" where
  "process_usage d l = (if \<not> device_valid d then no_usage else ledger_usage l)"

definition process_store :: "(QuotaLedgerState, QuotaReservation, bool) QuotaStore" where
  "process_store =
     \<lparr>qs_try_reserve = process_try_reserve, qs_release = process_release,
      qs_get_memory_info = (\<lambda>_ d t f l. (process_get_memory_info d t f l, l)),
      qs_usage = (\<lambda>_ d l. (process_usage d l, l)), qs_is_healthy = (\<lambda>_. True),
      qs_commit = (\<lambda>r l. reservation_commit l r), qs_cancel = (\<lambda>r l. reservation_cancel l r),
      qs_abandon = (\<lambda>r l. (reservation_abandon r, l)), qs_is_active = res_active,
      qs_memory_bytes = res_bytes\<rparr>"

section \<open>The device capacity quota\<close>

record DeviceMemoryCapacity =
  cap_total_bytes :: MemoryBytes
  cap_free_bytes :: MemoryBytes

record DeviceCapacityQuota =
  dq_has_resolver :: bool
  dq_device_quotas :: "(DeviceId \<times> QuotaLedgerState) list"
  dq_effective_limits :: "(DeviceId \<times> MemoryBytes) list"
  dq_healthy :: bool

text \<open>
  The context of a call: the answer of the resolver callback, which is supplied by the
  interceptor, and the allocation that fails, if any: inserting the device quota, inserting
  its limit, or creating the reservation state.
\<close>

datatype device_fault = Fault_quota_insert | Fault_limit_insert | Fault_reservation_state

record device_context =
  dc_resolved :: "DeviceMemoryCapacity option"
  dc_fault :: "device_fault option"

definition DeviceCapacityQuota_new :: "bool \<Rightarrow> DeviceCapacityQuota" where
  "DeviceCapacityQuota_new has_resolver =
     \<lparr>dq_has_resolver = has_resolver, dq_device_quotas = [], dq_effective_limits = [],
      dq_healthy = has_resolver\<rparr>"

definition device_unhealthy :: "DeviceCapacityQuota \<Rightarrow> DeviceCapacityQuota" where
  "device_unhealthy q = q\<lparr>dq_healthy := False\<rparr>"

definition device_resolve ::
  "device_context \<Rightarrow> DeviceId \<Rightarrow> DeviceCapacityQuota \<Rightarrow> DeviceMemoryCapacity option \<times> DeviceCapacityQuota" where
  "device_resolve c d q =
     (if \<not> device_valid d \<or> \<not> dq_has_resolver q then (None, device_unhealthy q)
      else (case dc_resolved c of
        None \<Rightarrow> (None, device_unhealthy q)
      | Some cap \<Rightarrow>
          if cap_total_bytes cap = 0 then (None, device_unhealthy q)
          else (Some (cap\<lparr>cap_free_bytes := min (cap_free_bytes cap) (cap_total_bytes cap)\<rparr>), q)))"

text \<open>\<open>None\<close> is the exception of a failed insertion; the quota may then be there without a limit.\<close>

definition ensure_device_quota_locked ::
  "device_fault option \<Rightarrow> DeviceId \<Rightarrow> MemoryBytes \<Rightarrow> DeviceCapacityQuota \<Rightarrow>
   QuotaLedgerState option \<times> DeviceCapacityQuota" where
  "ensure_device_quota_locked fault d phys_total q =
     (case map_of (dq_device_quotas q) d of
        Some l \<Rightarrow> (Some l, q)
      | None \<Rightarrow>
          if fault = Some Fault_quota_insert then (None, q)
          else
            let l = QuotaLedger_new phys_total;
                q1 = q\<lparr>dq_device_quotas := AList.update d l (dq_device_quotas q)\<rparr>
            in if fault = Some Fault_limit_insert then (None, q1)
               else (Some l, q1\<lparr>dq_effective_limits :=
                                  snd (umap_emplace d phys_total (dq_effective_limits q1))\<rparr>))"

definition set_device_quota :: "DeviceId \<Rightarrow> QuotaLedgerState \<Rightarrow> DeviceCapacityQuota \<Rightarrow> DeviceCapacityQuota" where
  "set_device_quota d l q = q\<lparr>dq_device_quotas := AList.update d l (dq_device_quotas q)\<rparr>"

definition set_effective_limit :: "DeviceId \<Rightarrow> MemoryBytes \<Rightarrow> DeviceCapacityQuota \<Rightarrow> DeviceCapacityQuota" where
  "set_effective_limit d m q = q\<lparr>dq_effective_limits := AList.update d m (dq_effective_limits q)\<rparr>"

definition device_try_reserve ::
  "device_context \<Rightarrow> DeviceId \<Rightarrow> MemoryBytes \<Rightarrow> DeviceCapacityQuota \<Rightarrow>
   (DeviceId \<times> QuotaReservation) option \<times> DeviceCapacityQuota" where
  "device_try_reserve c d b q =
     (case device_resolve c d q of
        (None, q1) \<Rightarrow> (None, q1)
      | (Some cap, q1) \<Rightarrow>
          (case ensure_device_quota_locked (dc_fault c) d (cap_total_bytes cap) q1 of
             (None, q2) \<Rightarrow> (None, device_unhealthy q2)
           | (Some l, q2) \<Rightarrow>
               (case map_of (dq_effective_limits q2) d of
                  None \<Rightarrow> (None, device_unhealthy q2)
                | Some m \<Rightarrow>
                    let m' = min m (cap_total_bytes cap);
                        q3 = set_effective_limit d m' q2;
                        u = process_usage d l;
                        physical_available = (if m' > used_bytes u then m' - used_bytes u else 0)
                    in if b > cap_free_bytes cap \<or> b > physical_available \<or> b > available_bytes u
                       then (None, q3)
                       else (case process_try_reserve (dc_fault c = Some Fault_reservation_state) d b l of
                         (r, l') \<Rightarrow> (map_option (Pair d) r, set_device_quota d l' q3)))))"

definition device_release ::
  "DeviceId \<Rightarrow> MemoryBytes \<Rightarrow> DeviceCapacityQuota \<Rightarrow> bool \<times> DeviceCapacityQuota" where
  "device_release d b q =
     (if \<not> device_valid d then (False, q)
      else (case map_of (dq_device_quotas q) d of
        None \<Rightarrow> (False, q)
      | Some l \<Rightarrow> (case process_release d b l of (ok, l') \<Rightarrow> (ok, set_device_quota d l' q))))"

text \<open>The locked part of \<open>get_memory_info\<close>, after the physical figures are known.\<close>

definition device_visible_info ::
  "device_context \<Rightarrow> DeviceId \<Rightarrow> MemoryBytes \<Rightarrow> MemoryBytes \<Rightarrow> DeviceCapacityQuota \<Rightarrow> MemoryInfo \<times> DeviceCapacityQuota" where
  "device_visible_info c d phys_total phys_free q =
     (case ensure_device_quota_locked (dc_fault c) d phys_total q of
        (None, q2) \<Rightarrow> (no_memory_info, device_unhealthy q2)
      | (Some l, q2) \<Rightarrow>
          (case map_of (dq_effective_limits q2) d of
             None \<Rightarrow> (no_memory_info, device_unhealthy q2)
           | Some m \<Rightarrow>
               let m' = min m phys_total
               in (process_get_memory_info d m' (min phys_free m') l, set_effective_limit d m' q2)))"

definition device_get_memory_info ::
  "device_context \<Rightarrow> DeviceId \<Rightarrow> MemoryBytes \<Rightarrow> MemoryBytes \<Rightarrow> DeviceCapacityQuota \<Rightarrow> MemoryInfo \<times> DeviceCapacityQuota" where
  "device_get_memory_info c d phys_total phys_free q =
     (if \<not> device_valid d \<or> \<not> dq_healthy q then (no_memory_info, q)
      else if phys_total = 0
      then (case device_resolve c d q of
          (None, q1) \<Rightarrow> (no_memory_info, q1)
        | (Some cap, q1) \<Rightarrow> device_visible_info c d (cap_total_bytes cap) (cap_free_bytes cap) q1)
      else device_visible_info c d phys_total phys_free q)"

definition device_usage ::
  "device_context \<Rightarrow> DeviceId \<Rightarrow> DeviceCapacityQuota \<Rightarrow> QuotaUsage \<times> DeviceCapacityQuota" where
  "device_usage c d q =
     (case device_resolve c d q of
        (None, q1) \<Rightarrow> (no_usage, q1)
      | (Some cap, q1) \<Rightarrow>
          (case ensure_device_quota_locked (dc_fault c) d (cap_total_bytes cap) q1 of
             (None, q2) \<Rightarrow> (no_usage, device_unhealthy q2)
           | (Some l, q2) \<Rightarrow>
               (case map_of (dq_effective_limits q2) d of
                  None \<Rightarrow> (no_usage, device_unhealthy q2)
                | Some m \<Rightarrow>
                    let m' = min m (cap_total_bytes cap)
                    in ((process_usage d l)\<lparr>limit_bytes := m'\<rparr>, set_effective_limit d m' q2))))"

text \<open>A reservation of a device refers to the ledger of that device.\<close>

definition device_ledger :: "DeviceId \<Rightarrow> DeviceCapacityQuota \<Rightarrow> QuotaLedgerState" where
  "device_ledger d q =
     (case map_of (dq_device_quotas q) d of None \<Rightarrow> QuotaLedger_new 0 | Some l \<Rightarrow> l)"

definition device_commit ::
  "DeviceId \<times> QuotaReservation \<Rightarrow> DeviceCapacityQuota \<Rightarrow> bool \<times> (DeviceId \<times> QuotaReservation) \<times> DeviceCapacityQuota" where
  "device_commit dr q =
     (case dr of (d, r) \<Rightarrow>
        (case reservation_commit (device_ledger d q) r of
           (ok, r', l) \<Rightarrow> (ok, (d, r'), set_device_quota d l q)))"

definition device_cancel ::
  "DeviceId \<times> QuotaReservation \<Rightarrow> DeviceCapacityQuota \<Rightarrow> (DeviceId \<times> QuotaReservation) \<times> DeviceCapacityQuota" where
  "device_cancel dr q =
     (case dr of (d, r) \<Rightarrow>
        (case reservation_cancel (device_ledger d q) r of
           (r', l) \<Rightarrow> ((d, r'), set_device_quota d l q)))"

definition device_store :: "(DeviceCapacityQuota, DeviceId \<times> QuotaReservation, device_context) QuotaStore" where
  "device_store =
     \<lparr>qs_try_reserve = device_try_reserve, qs_release = device_release,
      qs_get_memory_info = device_get_memory_info, qs_usage = device_usage, qs_is_healthy = dq_healthy,
      qs_commit = device_commit, qs_cancel = device_cancel,
      qs_abandon = (\<lambda>(d, r) q. ((d, reservation_abandon r), q)),
      qs_is_active = (\<lambda>(d, r). res_active r), qs_memory_bytes = (\<lambda>(d, r). res_bytes r)\<rparr>"

section \<open>The composition\<close>

record ('a, 't) CompositeQuota =
  cq_aggregate :: "'a option"
  cq_task :: "'t option"
  cq_healthy :: bool

record ('ra, 'rt) CompositeReservation =
  cr_device :: DeviceId
  cr_memory_bytes :: MemoryBytes
  cr_aggregate :: "'ra MemoryReservation option"
  cr_task :: "'rt MemoryReservation option"

definition composite_is_healthy ::
  "('a, 'ra, 'fa) QuotaStore \<Rightarrow> ('t, 'rt, 'ft) QuotaStore \<Rightarrow> ('a, 't) CompositeQuota \<Rightarrow> bool" where
  "composite_is_healthy A T s \<longleftrightarrow>
     cq_healthy s \<and> (case cq_aggregate s of None \<Rightarrow> False | Some a \<Rightarrow> qs_is_healthy A a) \<and>
     (case cq_task s of None \<Rightarrow> True | Some t \<Rightarrow> qs_is_healthy T t)"

text \<open>
  The flag of the context says that one of the allocations after both members have reserved
  fails: the holders and the composite state are all built at the end, and every reservation
  made so far is then destroyed.
\<close>

definition composite_try_reserve ::
  "('a, 'ra, 'fa) QuotaStore \<Rightarrow> ('t, 'rt, 'ft) QuotaStore \<Rightarrow> 'fa \<times> 'ft \<times> bool \<Rightarrow> DeviceId \<Rightarrow> MemoryBytes \<Rightarrow>
   ('a, 't) CompositeQuota \<Rightarrow> ('ra, 'rt) CompositeReservation option \<times> ('a, 't) CompositeQuota" where
  "composite_try_reserve A T c d b s =
     (case c of (fa, ft, alloc_fails) \<Rightarrow>
        if \<not> composite_is_healthy A T s then (None, s)
        else (case cq_aggregate s of
          None \<Rightarrow> (None, s)
        | Some a \<Rightarrow>
            (case qs_try_reserve A fa d b a of
               (None, a1) \<Rightarrow> (None, s\<lparr>cq_aggregate := Some a1\<rparr>)
             | (Some ra, a1) \<Rightarrow>
                 (case cq_task s of
                    None \<Rightarrow>
                      if alloc_fails then (None, s\<lparr>cq_aggregate := Some (mr_destroy A (Some ra) a1)\<rparr>)
                      else (Some \<lparr>cr_device = d, cr_memory_bytes = b, cr_aggregate = Some (Some ra),
                                  cr_task = None\<rparr>, s\<lparr>cq_aggregate := Some a1\<rparr>)
                  | Some t \<Rightarrow>
                      (case qs_try_reserve T ft d b t of
                         (None, t1) \<Rightarrow>
                           (None, s\<lparr>cq_aggregate := Some (mr_destroy A (Some ra) a1), cq_task := Some t1\<rparr>)
                       | (Some rt, t1) \<Rightarrow>
                           if alloc_fails
                           then (None, s\<lparr>cq_aggregate := Some (mr_destroy A (Some ra) a1),
                                         cq_task := Some (mr_destroy T (Some rt) t1)\<rparr>)
                           else (Some \<lparr>cr_device = d, cr_memory_bytes = b, cr_aggregate = Some (Some ra),
                                       cr_task = Some (Some rt)\<rparr>,
                                 s\<lparr>cq_aggregate := Some a1, cq_task := Some t1\<rparr>))))))"

definition composite_release ::
  "('a, 'ra, 'fa) QuotaStore \<Rightarrow> ('t, 'rt, 'ft) QuotaStore \<Rightarrow> DeviceId \<Rightarrow> MemoryBytes \<Rightarrow>
   ('a, 't) CompositeQuota \<Rightarrow> bool \<times> ('a, 't) CompositeQuota" where
  "composite_release A T d b s =
     (if \<not> cq_healthy s then (False, s\<lparr>cq_healthy := False\<rparr>)
      else (case cq_aggregate s of
        None \<Rightarrow> (False, s\<lparr>cq_healthy := False\<rparr>)
      | Some a \<Rightarrow>
          (case qs_release A d b a of
             (False, a1) \<Rightarrow> (False, s\<lparr>cq_aggregate := Some a1, cq_healthy := False\<rparr>)
           | (True, a1) \<Rightarrow>
               (case cq_task s of
                  None \<Rightarrow> (True, s\<lparr>cq_aggregate := Some a1\<rparr>)
                | Some t \<Rightarrow>
                    (case qs_release T d b t of
                       (False, t1) \<Rightarrow>
                         (False, s\<lparr>cq_aggregate := Some a1, cq_task := Some t1, cq_healthy := False\<rparr>)
                     | (True, t1) \<Rightarrow> (True, s\<lparr>cq_aggregate := Some a1, cq_task := Some t1\<rparr>))))))"

definition composite_get_memory_info ::
  "('a, 'ra, 'fa) QuotaStore \<Rightarrow> ('t, 'rt, 'ft) QuotaStore \<Rightarrow> 'fa \<times> 'ft \<times> bool \<Rightarrow> DeviceId \<Rightarrow> MemoryBytes \<Rightarrow>
   MemoryBytes \<Rightarrow> ('a, 't) CompositeQuota \<Rightarrow> MemoryInfo \<times> ('a, 't) CompositeQuota" where
  "composite_get_memory_info A T c d phys_total phys_free s =
     (case c of (fa, ft, _) \<Rightarrow>
        if \<not> composite_is_healthy A T s then (no_memory_info, s)
        else (case cq_aggregate s of
          None \<Rightarrow> (no_memory_info, s)
        | Some a \<Rightarrow>
            (case qs_get_memory_info A fa d phys_total phys_free a of
               (ia, a1) \<Rightarrow>
                 (case cq_task s of
                    None \<Rightarrow> (ia, s\<lparr>cq_aggregate := Some a1\<rparr>)
                  | Some t \<Rightarrow>
                      (case qs_get_memory_info T ft d phys_total phys_free t of
                         (it, t1) \<Rightarrow>
                           (\<lparr>total_bytes = min (total_bytes ia) (total_bytes it),
                             free_bytes = min (free_bytes ia) (free_bytes it)\<rparr>,
                            s\<lparr>cq_aggregate := Some a1, cq_task := Some t1\<rparr>))))))"

definition composite_usage ::
  "('a, 'ra, 'fa) QuotaStore \<Rightarrow> ('t, 'rt, 'ft) QuotaStore \<Rightarrow> 'fa \<times> 'ft \<times> bool \<Rightarrow> DeviceId \<Rightarrow>
   ('a, 't) CompositeQuota \<Rightarrow> QuotaUsage \<times> ('a, 't) CompositeQuota" where
  "composite_usage A T c d s =
     (case c of (fa, ft, _) \<Rightarrow>
        if \<not> composite_is_healthy A T s then (no_usage, s)
        else (case cq_aggregate s of
          None \<Rightarrow> (no_usage, s)
        | Some a \<Rightarrow>
            (case qs_usage A fa d a of
               (ua, a1) \<Rightarrow>
                 (case cq_task s of
                    None \<Rightarrow> (ua, s\<lparr>cq_aggregate := Some a1\<rparr>)
                  | Some t \<Rightarrow>
                      (case qs_usage T ft d t of
                         (ut, t1) \<Rightarrow>
                           (\<lparr>limit_bytes = min (limit_bytes ua) (limit_bytes ut),
                             reserved_bytes = min (reserved_bytes ua) (reserved_bytes ut),
                             allocated_bytes = min (allocated_bytes ua) (allocated_bytes ut)\<rparr>,
                            s\<lparr>cq_aggregate := Some a1, cq_task := Some t1\<rparr>))))))"

text \<open>
  Committing a member that the reservation does not hold counts as success. When the
  aggregate has been committed and the task refuses, the aggregate gives the bytes back.
\<close>

definition commit_member ::
  "('s, 'r, 'f) QuotaStore \<Rightarrow> 'r MemoryReservation option \<Rightarrow> 's option \<Rightarrow>
   bool \<times> 'r MemoryReservation option \<times> 's option" where
  "commit_member ops h s =
     (case (h, s) of
        (Some m, Some st) \<Rightarrow> (case mr_commit ops m st of (ok, m', st') \<Rightarrow> (ok, Some m', Some st'))
      | _ \<Rightarrow> (True, h, s))"

definition composite_commit ::
  "('a, 'ra, 'fa) QuotaStore \<Rightarrow> ('t, 'rt, 'ft) QuotaStore \<Rightarrow> ('ra, 'rt) CompositeReservation \<Rightarrow>
   ('a, 't) CompositeQuota \<Rightarrow> bool \<times> ('ra, 'rt) CompositeReservation \<times> ('a, 't) CompositeQuota" where
  "composite_commit A T r s =
     (case commit_member A (cr_aggregate r) (cq_aggregate s) of
        (False, ra, a1) \<Rightarrow> (False, r\<lparr>cr_aggregate := ra\<rparr>, s\<lparr>cq_aggregate := a1\<rparr>)
      | (True, ra, a1) \<Rightarrow>
          (case commit_member T (cr_task r) (cq_task s) of
             (True, rt, t1) \<Rightarrow>
               (True, r\<lparr>cr_aggregate := ra, cr_task := rt\<rparr>, s\<lparr>cq_aggregate := a1, cq_task := t1\<rparr>)
           | (False, rt, t1) \<Rightarrow>
               let r' = r\<lparr>cr_aggregate := ra, cr_task := rt\<rparr>;
                   s' = s\<lparr>cq_aggregate := a1, cq_task := t1\<rparr>
               in (case (cr_aggregate r, a1) of
                     (Some _, Some a) \<Rightarrow>
                       (case qs_release A (cr_device r) (cr_memory_bytes r) a of
                          (True, a2) \<Rightarrow> (False, r', s'\<lparr>cq_aggregate := Some a2\<rparr>)
                        | (False, a2) \<Rightarrow> (False, r', s'\<lparr>cq_aggregate := Some a2, cq_healthy := False\<rparr>))
                   | _ \<Rightarrow> (False, r', s'\<lparr>cq_healthy := False\<rparr>))))"

definition cancel_member ::
  "('s, 'r, 'f) QuotaStore \<Rightarrow> 'r MemoryReservation option \<Rightarrow> 's option \<Rightarrow> 'r MemoryReservation option \<times> 's option" where
  "cancel_member ops h s =
     (case (h, s) of
        (Some m, Some st) \<Rightarrow> (case mr_cancel ops m st of (m', st') \<Rightarrow> (Some m', Some st'))
      | _ \<Rightarrow> (h, s))"

definition composite_cancel ::
  "('a, 'ra, 'fa) QuotaStore \<Rightarrow> ('t, 'rt, 'ft) QuotaStore \<Rightarrow> ('ra, 'rt) CompositeReservation \<Rightarrow>
   ('a, 't) CompositeQuota \<Rightarrow> ('ra, 'rt) CompositeReservation \<times> ('a, 't) CompositeQuota" where
  "composite_cancel A T r s =
     (case cancel_member A (cr_aggregate r) (cq_aggregate s) of
        (ra, a1) \<Rightarrow> (case cancel_member T (cr_task r) (cq_task s) of
          (rt, t1) \<Rightarrow> (r\<lparr>cr_aggregate := ra, cr_task := rt\<rparr>, s\<lparr>cq_aggregate := a1, cq_task := t1\<rparr>)))"

definition abandon_member ::
  "('s, 'r, 'f) QuotaStore \<Rightarrow> 'r MemoryReservation option \<Rightarrow> 's option \<Rightarrow> 'r MemoryReservation option \<times> 's option" where
  "abandon_member ops h s =
     (case (h, s) of
        (Some m, Some st) \<Rightarrow> (case mr_abandon ops m st of (m', st') \<Rightarrow> (Some m', Some st'))
      | _ \<Rightarrow> (h, s))"

definition composite_abandon ::
  "('a, 'ra, 'fa) QuotaStore \<Rightarrow> ('t, 'rt, 'ft) QuotaStore \<Rightarrow> ('ra, 'rt) CompositeReservation \<Rightarrow>
   ('a, 't) CompositeQuota \<Rightarrow> ('ra, 'rt) CompositeReservation \<times> ('a, 't) CompositeQuota" where
  "composite_abandon A T r s =
     (case abandon_member A (cr_aggregate r) (cq_aggregate s) of
        (ra, a1) \<Rightarrow> (case abandon_member T (cr_task r) (cq_task s) of
          (rt, t1) \<Rightarrow> (r\<lparr>cr_aggregate := ra, cr_task := rt\<rparr>, s\<lparr>cq_aggregate := a1, cq_task := t1\<rparr>)))"

definition composite_is_active ::
  "('a, 'ra, 'fa) QuotaStore \<Rightarrow> ('t, 'rt, 'ft) QuotaStore \<Rightarrow> ('ra, 'rt) CompositeReservation \<Rightarrow> bool" where
  "composite_is_active A T r \<longleftrightarrow>
     (case cr_aggregate r of None \<Rightarrow> False | Some m \<Rightarrow> mr_is_active A m) \<or>
     (case cr_task r of None \<Rightarrow> False | Some m \<Rightarrow> mr_is_active T m)"

definition CompositeQuota_new :: "'a option \<Rightarrow> 't option \<Rightarrow> ('a, 't) CompositeQuota" where
  "CompositeQuota_new a t = \<lparr>cq_aggregate = a, cq_task = t, cq_healthy = True\<rparr>"

definition composite_store ::
  "('a, 'ra, 'fa) QuotaStore \<Rightarrow> ('t, 'rt, 'ft) QuotaStore \<Rightarrow>
   (('a, 't) CompositeQuota, ('ra, 'rt) CompositeReservation, 'fa \<times> 'ft \<times> bool) QuotaStore" where
  "composite_store A T =
     \<lparr>qs_try_reserve = composite_try_reserve A T, qs_release = composite_release A T,
      qs_get_memory_info = composite_get_memory_info A T, qs_usage = composite_usage A T,
      qs_is_healthy = composite_is_healthy A T, qs_commit = composite_commit A T,
      qs_cancel = composite_cancel A T, qs_abandon = composite_abandon A T,
      qs_is_active = composite_is_active A T, qs_memory_bytes = cr_memory_bytes\<rparr>"

end
