(* ===== verification/QuotaStoreProps.thy ===== *)
theory QuotaStoreProps
  imports QuotaStores
begin

text \<open>
  The contract of a quota store as a locale, the process and the device store as instances,
  and the composition of two stores as a third: whatever two stores keep the contract, their
  composition does.
\<close>

section \<open>The contract\<close>

text \<open>
  \<open>charges s d\<close> lists the reserved and allocated bytes of every account that bounds device
  \<open>d\<close>; \<open>holds s d b r\<close> says that \<open>r\<close> is an active reservation of \<open>b\<close> bytes; \<open>within s d\<close> says
  that no account of the device is above its bound.
\<close>

type_synonym account = "nat \<times> nat"

definition acc_reserve :: "MemoryBytes \<Rightarrow> account \<Rightarrow> account" where
  "acc_reserve b = (\<lambda>(x, y). (x + unat b, y))"

definition acc_commit :: "MemoryBytes \<Rightarrow> account \<Rightarrow> account" where
  "acc_commit b = (\<lambda>(x, y). (x - unat b, y + unat b))"

definition acc_cancel :: "MemoryBytes \<Rightarrow> account \<Rightarrow> account" where
  "acc_cancel b = (\<lambda>(x, y). (x - unat b, y))"

definition acc_release :: "MemoryBytes \<Rightarrow> account \<Rightarrow> account" where
  "acc_release b = (\<lambda>(x, y). (x, y - unat b))"

definition acc_covers :: "MemoryBytes \<Rightarrow> account \<Rightarrow> bool" where
  "acc_covers b = (\<lambda>(x, y). unat b \<le> y)"

lemma acc_round_trips [simp]:
  "acc_cancel b (acc_reserve b a) = a"
  "acc_release b (acc_commit b (acc_reserve b a)) = a"
  "acc_covers b (acc_commit b a)"
  by (cases a; simp add: acc_cancel_def acc_reserve_def acc_release_def acc_commit_def acc_covers_def)+

locale quota_store =
  fixes ops :: "('s, 'r, 'f) QuotaStore"
    and inv :: "'s \<Rightarrow> bool"
    and charges :: "'s \<Rightarrow> DeviceId \<Rightarrow> account list"
    and within :: "'s \<Rightarrow> DeviceId \<Rightarrow> bool"
    and holds :: "'s \<Rightarrow> DeviceId \<Rightarrow> MemoryBytes \<Rightarrow> 'r \<Rightarrow> bool"
  assumes reserve_Some: "inv s \<Longrightarrow> qs_try_reserve ops f d b s = (Some r, s') \<Longrightarrow>
      inv s' \<and> holds s' d b r \<and> (b \<noteq> 0 \<longrightarrow> within s' d) \<and> charges s' d = map (acc_reserve b) (charges s d) \<and>
      (qs_is_healthy ops s \<longrightarrow> qs_is_healthy ops s')"
    and reserve_None: "inv s \<Longrightarrow> qs_try_reserve ops f d b s = (None, s') \<Longrightarrow>
      inv s' \<and> charges s' d = charges s d"
    and commit_held: "inv s \<Longrightarrow> holds s d b r \<Longrightarrow> \<exists>r' s'. qs_commit ops r s = (True, r', s') \<and>
      inv s' \<and> charges s' d = map (acc_commit b) (charges s d) \<and> \<not> qs_is_active ops r' \<and>
      (qs_is_healthy ops s \<longrightarrow> qs_is_healthy ops s')"
    and cancel_held: "inv s \<Longrightarrow> holds s d b r \<Longrightarrow> \<exists>r' s'. qs_cancel ops r s = (r', s') \<and>
      inv s' \<and> charges s' d = map (acc_cancel b) (charges s d) \<and> \<not> qs_is_active ops r'"
    and release_covered: "inv s \<Longrightarrow> b \<noteq> 0 \<Longrightarrow> device_valid d \<Longrightarrow> qs_is_healthy ops s \<Longrightarrow>
      list_all (acc_covers b) (charges s d) \<Longrightarrow> \<exists>s'. qs_release ops d b s = (True, s') \<and>
      inv s' \<and> charges s' d = map (acc_release b) (charges s d)"
    and reserve_device: "inv s \<Longrightarrow> qs_try_reserve ops f d b s = (Some r, s') \<Longrightarrow> device_valid d"
begin

text \<open>A reservation that is cancelled, or committed and released, leaves no trace.\<close>

lemma reserve_cancel:
  assumes "inv s" and "qs_try_reserve ops f d b s = (Some r, s1)"
  shows "\<exists>r' s2. qs_cancel ops r s1 = (r', s2) \<and> inv s2 \<and> charges s2 d = charges s d \<and> \<not> qs_is_active ops r'"
proof -
  from reserve_Some [OF assms] have s1: "inv s1" "holds s1 d b r"
    "charges s1 d = map (acc_reserve b) (charges s d)" by auto
  with cancel_held [OF s1(1,2)] show ?thesis by (auto simp: comp_def)
qed

lemma reserve_commit_release:
  assumes "inv s" and "qs_try_reserve ops f d b s = (Some r, s1)" and "qs_is_healthy ops s"
    and "b \<noteq> 0"
  shows "\<exists>r' s2 s3. qs_commit ops r s1 = (True, r', s2) \<and> qs_release ops d b s2 = (True, s3) \<and>
    inv s3 \<and> charges s3 d = charges s d"
proof -
  from reserve_Some [OF assms(1,2)] have s1: "inv s1" "holds s1 d b r"
    "charges s1 d = map (acc_reserve b) (charges s d)" by auto
  have dev: "device_valid d" "qs_is_healthy ops s1"
    using reserve_device [OF assms(1,2)] reserve_Some [OF assms(1,2)] assms(3) by auto
  obtain r' s2 where c: "qs_commit ops r s1 = (True, r', s2)" "inv s2"
    "charges s2 d = map (acc_commit b) (charges s1 d)" "qs_is_healthy ops s2"
    using commit_held [OF s1(1,2)] dev by blast
  have "list_all (acc_covers b) (charges s2 d)" by (simp add: c(3) s1(3) list_all_iff)
  from release_covered [OF c(2) assms(4) dev(1) c(4) this] obtain s3 where
    "qs_release ops d b s2 = (True, s3)" "inv s3" "charges s3 d = map (acc_release b) (charges s2 d)" by blast
  with c s1(3) show ?thesis by (auto simp: comp_def)
qed

end

section \<open>The process store\<close>

definition ledger_charges :: "QuotaLedgerState \<Rightarrow> account list" where
  "ledger_charges l = [(unat (ledger_reserved l), unat (ledger_allocated l))]"

definition ledger_holds :: "QuotaLedgerState \<Rightarrow> MemoryBytes \<Rightarrow> QuotaReservation \<Rightarrow> bool" where
  "ledger_holds l b r \<longleftrightarrow>
     r = \<lparr>res_active = True, res_bytes = b\<rparr> \<and> unat b \<le> unat (ledger_reserved l)"

lemma ledger_reserve_charges:
  assumes "ledger_ok l" and "ledger_try_reserve l b = (Some r, l')"
  shows "ledger_ok l'" and "ledger_holds l' b r" and "ledger_charges l' = map (acc_reserve b) (ledger_charges l)"
  using ledger_try_reserve_Some [OF assms]
  by (simp_all add: ledger_holds_def ledger_charges_def acc_reserve_def)

lemma ledger_commit_charges:
  assumes "ledger_ok l" and "ledger_holds l b r"
  obtains l' where "reservation_commit l r = (True, inactive_reservation, l')" and "ledger_ok l'"
    and "ledger_charges l' = map (acc_commit b) (ledger_charges l)" and "ledger_limit l' = ledger_limit l"
proof -
  obtain l' where "commit_reservation l b = (True, l')" "ledger_limit l' = ledger_limit l"
    "unat (ledger_reserved l') = unat (ledger_reserved l) - unat b"
    "unat (ledger_allocated l') = unat (ledger_allocated l) + unat b" "ledger_ok l'"
    by (rule commit_reservation_ok [OF assms(1)]) (use assms(2) in \<open>auto simp: ledger_holds_def\<close>)
  then show thesis
    using assms(2) by (intro that [of l'])
      (simp_all add: reservation_commit_def ledger_holds_def ledger_charges_def acc_commit_def)
qed

lemma ledger_cancel_charges:
  assumes "ledger_ok l" and "ledger_holds l b r"
  obtains l' where "reservation_cancel l r = (inactive_reservation, l')" and "ledger_ok l'"
    and "ledger_charges l' = map (acc_cancel b) (ledger_charges l)" and "ledger_limit l' = ledger_limit l"
proof -
  obtain l' where "cancel_reservation l b = (True, l')" "ledger_limit l' = ledger_limit l"
    "ledger_allocated l' = ledger_allocated l"
    "unat (ledger_reserved l') = unat (ledger_reserved l) - unat b" "ledger_ok l'"
    by (rule cancel_reservation_ok [OF assms(1)]) (use assms(2) in \<open>auto simp: ledger_holds_def\<close>)
  then show thesis
    using assms(2) by (intro that [of l'])
      (simp_all add: reservation_cancel_def ledger_holds_def ledger_charges_def acc_cancel_def)
qed

lemma ledger_release_charges:
  assumes "ledger_ok l" and "list_all (acc_covers b) (ledger_charges l)"
  obtains l' where "ledger_release l b = (True, l')" and "ledger_ok l'"
    and "ledger_charges l' = map (acc_release b) (ledger_charges l)"
proof -
  obtain l' where "ledger_release l b = (True, l')" "ledger_limit l' = ledger_limit l"
    "ledger_reserved l' = ledger_reserved l"
    "unat (ledger_allocated l') = unat (ledger_allocated l) - unat b" "ledger_ok l'"
    by (rule ledger_release_ok [OF assms(1)])
      (use assms(2) in \<open>auto simp: ledger_charges_def acc_covers_def\<close>)
  then show thesis by (intro that [of l']) (simp_all add: ledger_charges_def acc_release_def)
qed

lemma process_reserve_cases:
  assumes ok: "ledger_ok l" and res: "process_try_reserve f d b l = (ro, l')"
  shows "case ro of
      None \<Rightarrow> l' = l
    | Some r \<Rightarrow> device_valid d \<and> ledger_try_reserve l b = (Some r, l')"
proof (cases "device_valid d")
  case False
  with res show ?thesis by (auto simp: process_try_reserve_def)
next
  case True
  obtain r1 l1 where t: "ledger_try_reserve l b = (r1, l1)" by (cases "ledger_try_reserve l b")
  show ?thesis
  proof (cases r1)
    case None
    with t have "l1 = l" by (simp add: ledger_try_reserve_None)
    with None t True res show ?thesis by (auto simp: process_try_reserve_def)
  next
    case (Some r)
    with t have "reservation_destroy l1 r = l" using reserve_destroy [OF ok, of b r l1] by simp
    with Some t True res show ?thesis by (auto simp: process_try_reserve_def split: if_splits)
  qed
qed

interpretation proc: quota_store process_store ledger_ok "\<lambda>l _. ledger_charges l" "\<lambda>l _. ledger_ok l"
    "\<lambda>l _. ledger_holds l"
proof
  fix s f d b r s'
  assume inv: "ledger_ok s" and res: "qs_try_reserve process_store f d b s = (Some r, s')"
  then have r: "device_valid d" "ledger_try_reserve s b = (Some r, s')"
    using process_reserve_cases [of s f d b "Some r" s'] by (auto simp: process_store_def)
  from ledger_reserve_charges [OF inv r(2)]
  show "ledger_ok s' \<and> ledger_holds s' b r \<and> (b \<noteq> 0 \<longrightarrow> ledger_ok s') \<and>
      ledger_charges s' = map (acc_reserve b) (ledger_charges s) \<and>
      (qs_is_healthy process_store s \<longrightarrow> qs_is_healthy process_store s')"
    by (simp add: process_store_def)
  show "device_valid d" by (rule r(1))
next
  fix s f d b s'
  assume "ledger_ok s" "qs_try_reserve process_store f d b s = (None, s')"
  then show "ledger_ok s' \<and> ledger_charges s' = ledger_charges s"
    using process_reserve_cases [of s f d b None s'] by (simp add: process_store_def)
next
  fix s b r assume "ledger_ok s" "ledger_holds s b r"
  then show "\<exists>r' s'. qs_commit process_store r s = (True, r', s') \<and> ledger_ok s' \<and>
      ledger_charges s' = map (acc_commit b) (ledger_charges s) \<and> \<not> qs_is_active process_store r' \<and>
      (qs_is_healthy process_store s \<longrightarrow> qs_is_healthy process_store s')"
    by (rule ledger_commit_charges) (auto simp: process_store_def inactive_reservation_def)
next
  fix s b r assume "ledger_ok s" "ledger_holds s b r"
  then show "\<exists>r' s'. qs_cancel process_store r s = (r', s') \<and> ledger_ok s' \<and>
      ledger_charges s' = map (acc_cancel b) (ledger_charges s) \<and> \<not> qs_is_active process_store r'"
    by (rule ledger_cancel_charges) (auto simp: process_store_def inactive_reservation_def)
next
  fix s d and b :: MemoryBytes assume "ledger_ok s" "device_valid d" "list_all (acc_covers b) (ledger_charges s)"
  then show "\<exists>s'. qs_release process_store d b s = (True, s') \<and> ledger_ok s' \<and>
      ledger_charges s' = map (acc_release b) (ledger_charges s)"
    by (elim ledger_release_charges [rotated 1]) (auto simp: process_store_def process_release_def)
qed

section \<open>The device store\<close>

definition device_ok :: "DeviceCapacityQuota \<Rightarrow> bool" where
  "device_ok q \<longleftrightarrow> (\<forall>d l. map_of (dq_device_quotas q) d = Some l \<longrightarrow> ledger_ok l)"

definition device_charges :: "DeviceCapacityQuota \<Rightarrow> DeviceId \<Rightarrow> account list" where
  "device_charges q d = ledger_charges (device_ledger d q)"

definition device_within :: "DeviceCapacityQuota \<Rightarrow> DeviceId \<Rightarrow> bool" where
  "device_within q d \<longleftrightarrow>
     (\<exists>m. map_of (dq_effective_limits q) d = Some m \<and> ledger_used (device_ledger d q) \<le> unat m)"

definition device_holds :: "DeviceCapacityQuota \<Rightarrow> DeviceId \<Rightarrow> MemoryBytes \<Rightarrow> DeviceId \<times> QuotaReservation \<Rightarrow> bool" where
  "device_holds q d b dr \<longleftrightarrow>
     fst dr = d \<and> ledger_holds (device_ledger d q) b (snd dr) \<and> map_of (dq_device_quotas q) d \<noteq> None"

lemma device_ok_ledger: "device_ok q \<Longrightarrow> ledger_ok (device_ledger d q)"
  by (auto simp: device_ok_def device_ledger_def split: option.splits)

lemma set_device_quota_simps [simp]:
  "device_ledger d (set_device_quota d l q) = l"
  "dq_effective_limits (set_device_quota d l q) = dq_effective_limits q"
  "dq_healthy (set_device_quota d l q) = dq_healthy q"
  "map_of (dq_device_quotas (set_device_quota d l q)) d = Some l"
  "device_ok q \<Longrightarrow> ledger_ok l \<Longrightarrow> device_ok (set_device_quota d l q)"
  by (auto simp: set_device_quota_def device_ledger_def device_ok_def split: if_splits)

lemma set_effective_limit_simps [simp]:
  "dq_device_quotas (set_effective_limit d m q) = dq_device_quotas q"
  "device_ledger d' (set_effective_limit d m q) = device_ledger d' q"
  "device_ok (set_effective_limit d m q) = device_ok q"
  "dq_healthy (set_effective_limit d m q) = dq_healthy q"
  "map_of (dq_effective_limits (set_effective_limit d m q)) d = Some m"
  by (simp_all add: set_effective_limit_def device_ledger_def device_ok_def)

lemma device_unhealthy_simps [simp]:
  "device_ledger d (device_unhealthy q) = device_ledger d q"
  "device_ok (device_unhealthy q) = device_ok q"
  by (simp_all add: device_unhealthy_def device_ledger_def device_ok_def)

lemma new_ledger_charges: "ledger_charges (QuotaLedger_new a) = ledger_charges (QuotaLedger_new b)"
  by (simp add: ledger_charges_def QuotaLedger_new_def)

lemma ensure_device_quota:
  assumes "ensure_device_quota_locked f d tot q = (lo, q')" and "device_ok q"
  shows "device_ok q'" and "device_charges q' d' = device_charges q d'" and "dq_healthy q' = dq_healthy q"
    and "lo = Some l \<Longrightarrow> map_of (dq_device_quotas q') d = Some l"
proof -
  let ?q1 = "q\<lparr>dq_device_quotas := AList.update d (QuotaLedger_new tot) (dq_device_quotas q)\<rparr>"
  have old: "q' = q \<and> lo = Some k" if "map_of (dq_device_quotas q) d = Some k" for k
    using assms(1) that by (simp add: ensure_device_quota_locked_def)
  have new: "dq_device_quotas q' = dq_device_quotas q \<or>
      dq_device_quotas q' = AList.update d (QuotaLedger_new tot) (dq_device_quotas q)"
    "dq_healthy q' = dq_healthy q"
    "lo = Some l \<Longrightarrow> l = QuotaLedger_new tot \<and> dq_device_quotas q' = AList.update d l (dq_device_quotas q)"
    if "map_of (dq_device_quotas q) d = None"
    using assms(1) that by (auto simp: ensure_device_quota_locked_def Let_def split: if_splits)
  show "device_ok q'"
    using assms(2) old new by (cases "map_of (dq_device_quotas q) d") (auto simp: device_ok_def split: if_splits)
  show "device_charges q' d' = device_charges q d'"
    using old new new_ledger_charges
    by (cases "map_of (dq_device_quotas q) d") (auto simp: device_charges_def device_ledger_def)
  show "dq_healthy q' = dq_healthy q" using old new by (cases "map_of (dq_device_quotas q) d") auto
  show "map_of (dq_device_quotas q') d = Some l" if "lo = Some l"
    using old new that by (cases "map_of (dq_device_quotas q) d") auto
qed

lemma device_resolve_cases:
  "device_resolve c d q = (None, q') \<Longrightarrow> q' = device_unhealthy q"
  "device_resolve c d q = (Some cap, q') \<Longrightarrow> q' = q \<and> device_valid d"
  by (auto simp: device_resolve_def split: if_splits option.splits)

lemma device_reserve_steps:
  assumes "device_try_reserve c d b q = (Some dr, q')"
  obtains cap :: DeviceMemoryCapacity and l q2 m r l' where "device_valid d"
    and "ensure_device_quota_locked (dc_fault c) d (cap_total_bytes cap) q = (Some l, q2)"
    and "map_of (dq_effective_limits q2) d = Some m"
    and "b \<le> (if min m (cap_total_bytes cap) > used_bytes (process_usage d l)
             then min m (cap_total_bytes cap) - used_bytes (process_usage d l) else 0)"
    and "process_try_reserve (dc_fault c = Some Fault_reservation_state) d b l = (Some r, l')"
    and "dr = (d, r)"
    and "q' = set_device_quota d l' (set_effective_limit d (min m (cap_total_bytes cap)) q2)"
proof -
  obtain co q1 where r: "device_resolve c d q = (co, q1)" by (cases "device_resolve c d q")
  then obtain cap where co: "co = Some cap" using assms by (cases co) (simp_all add: device_try_reserve_def)
  have q1: "q1 = q" "device_valid d" using device_resolve_cases(2) r co by auto
  obtain lo q2 where e: "ensure_device_quota_locked (dc_fault c) d (cap_total_bytes cap) q = (lo, q2)"
    by (cases "ensure_device_quota_locked (dc_fault c) d (cap_total_bytes cap) q")
  then obtain l where lo: "lo = Some l" using assms r co q1 by (cases lo) (simp_all add: device_try_reserve_def)
  obtain m where m: "map_of (dq_effective_limits q2) d = Some m"
    using assms r co q1 e lo by (cases "map_of (dq_effective_limits q2) d") (simp_all add: device_try_reserve_def)
  let ?m = "min m (cap_total_bytes cap)"
  let ?pa = "if ?m > used_bytes (process_usage d l) then ?m - used_bytes (process_usage d l) else 0"
  obtain ro l' where p: "process_try_reserve (dc_fault c = Some Fault_reservation_state) d b l = (ro, l')"
    by (cases "process_try_reserve (dc_fault c = Some Fault_reservation_state) d b l")
  have step: "(if b > cap_free_bytes cap \<or> b > ?pa \<or> b > available_bytes (process_usage d l)
      then (None, set_effective_limit d ?m q2)
      else (map_option (Pair d) ro, set_device_quota d l' (set_effective_limit d ?m q2))) = (Some dr, q')"
    using assms unfolding device_try_reserve_def r co prod.case option.case q1 e lo m Let_def p .
  then have ok: "\<not> (b > cap_free_bytes cap \<or> b > ?pa \<or> b > available_bytes (process_usage d l))"
    by (metis option.distinct(1) prod.inject)
  with step have "map_option (Pair d) ro = Some dr"
    "q' = set_device_quota d l' (set_effective_limit d ?m q2)" by (simp_all only: if_False prod.inject)
  then show thesis
    using that [OF q1(2) e [unfolded lo] m] ok p by (auto simp: not_less)
qed

lemma device_reserve_Some:
  assumes ok: "device_ok q" and res: "device_try_reserve c d b q = (Some dr, q')"
  shows "device_ok q' \<and> device_holds q' d b dr \<and> (b \<noteq> 0 \<longrightarrow> device_within q' d) \<and>
    device_charges q' d = map (acc_reserve b) (device_charges q d) \<and> dq_healthy q' = dq_healthy q \<and> device_valid d"
proof -
  obtain cap :: DeviceMemoryCapacity and l q2 m r l' where dv: "device_valid d"
    and e: "ensure_device_quota_locked (dc_fault c) d (cap_total_bytes cap) q = (Some l, q2)"
    and fits: "b \<le> (if min m (cap_total_bytes cap) > used_bytes (process_usage d l)
             then min m (cap_total_bytes cap) - used_bytes (process_usage d l) else 0)"
    and p: "process_try_reserve (dc_fault c = Some Fault_reservation_state) d b l = (Some r, l')"
    and dr: "dr = (d, r)"
    and q': "q' = set_device_quota d l' (set_effective_limit d (min m (cap_total_bytes cap)) q2)"
    by (rule device_reserve_steps [OF res])
  let ?m = "min m (cap_total_bytes cap)" and ?u = "process_usage d l"
  note en = ensure_device_quota [OF e ok]
  have l: "device_ledger d q2 = l" using en(4) by (simp add: device_ledger_def)
  have lok: "ledger_ok l" using device_ok_ledger [OF en(1), of d] l by simp
  have t: "ledger_try_reserve l b = (Some r, l')" using process_reserve_cases [OF lok p] by simp
  note ch = ledger_reserve_charges [OF lok t] and sp = ledger_try_reserve_Some [OF lok t]
  have u: "unat (used_bytes ?u) = ledger_used l"
    using lok dv unat_le_u64_max [of "ledger_limit l"]
    by (simp add: process_usage_def unat_used_bytes ledger_usage_def ledger_ok_def ledger_used_def
        del: unat_le_u64_max)
  have "ledger_used l' \<le> unat ?m" if b: "b \<noteq> 0"
  proof -
    have gt: "?m > used_bytes ?u" using fits b by (auto split: if_splits)
    then have "unat b \<le> unat (?m - used_bytes ?u)" using fits by (simp add: word_le_nat_alt)
    then have "ledger_used l + unat b \<le> unat ?m"
      using gt u unat_sub_no_wrap [OF less_imp_le [OF gt]] by (simp add: word_less_nat_alt)
    then show ?thesis using sp by (simp add: ledger_used_def)
  qed
  moreover have "device_charges q2 d = ledger_charges l" by (simp add: device_charges_def l)
  ultimately show ?thesis
    using en(1-3) ch dv by (auto simp: q' dr device_holds_def device_within_def device_charges_def)
qed

lemma device_reserve_None:
  assumes ok: "device_ok q" and res: "device_try_reserve c d b q = (None, q')"
  shows "device_ok q' \<and> device_charges q' d = device_charges q d"
proof -
  obtain co q1 where r: "device_resolve c d q = (co, q1)" by (cases "device_resolve c d q")
  show ?thesis
  proof (cases co)
    case None
    with r res device_resolve_cases(1) have "q' = device_unhealthy q" by (simp add: device_try_reserve_def)
    with ok show ?thesis by (simp add: device_charges_def)
  next
    case (Some cap)
    have q1: "q1 = q" using device_resolve_cases(2) r Some by auto
    obtain lo q2 where e: "ensure_device_quota_locked (dc_fault c) d (cap_total_bytes cap) q = (lo, q2)"
      by (cases "ensure_device_quota_locked (dc_fault c) d (cap_total_bytes cap) q")
    note en = ensure_device_quota [OF e ok]
    show ?thesis
    proof (cases "\<exists>l m. lo = Some l \<and> map_of (dq_effective_limits q2) d = Some m")
      case False
      with r res Some q1 e have "q' = device_unhealthy q2"
        by (auto simp: device_try_reserve_def split: option.splits)
      with en show ?thesis by (simp add: device_charges_def)
    next
      case True
      then obtain l m where lo: "lo = Some l" and m: "map_of (dq_effective_limits q2) d = Some m" by blast
      have l: "device_ledger d q2 = l" using en(4) [OF lo] by (simp add: device_ledger_def)
      have lok: "ledger_ok l" using device_ok_ledger [OF en(1), of d] l by simp
      obtain ro l' where p: "process_try_reserve (dc_fault c = Some Fault_reservation_state) d b l = (ro, l')"
        by (cases "process_try_reserve (dc_fault c = Some Fault_reservation_state) d b l")
      have "ro = None \<Longrightarrow> l' = l" using process_reserve_cases [OF lok p] by simp
      then have "q' = set_effective_limit d (min m (cap_total_bytes cap)) q2 \<or>
          q' = set_device_quota d l (set_effective_limit d (min m (cap_total_bytes cap)) q2)"
        using res r Some q1 e lo m p by (auto simp: device_try_reserve_def Let_def split: if_splits)
      with en l lok show ?thesis by (auto simp: device_charges_def)
    qed
  qed
qed

interpretation dev: quota_store device_store device_ok device_charges device_within device_holds
proof
  fix s f d b r s'
  assume "device_ok s" "qs_try_reserve device_store f d b s = (Some r, s')"
  with device_reserve_Some [of s f d b r s']
  show "device_ok s' \<and> device_holds s' d b r \<and> (b \<noteq> 0 \<longrightarrow> device_within s' d) \<and>
      device_charges s' d = map (acc_reserve b) (device_charges s d) \<and>
      (qs_is_healthy device_store s \<longrightarrow> qs_is_healthy device_store s')" and "device_valid d"
    by (simp_all add: device_store_def)
next
  fix s f d b s'
  assume "device_ok s" "qs_try_reserve device_store f d b s = (None, s')"
  with device_reserve_None [of s f d b s'] show "device_ok s' \<and> device_charges s' d = device_charges s d"
    by (simp add: device_store_def)
next
  fix s d b dr assume ok: "device_ok s" and h: "device_holds s d b dr"
  then obtain r where dr: "dr = (d, r)" and lh: "ledger_holds (device_ledger d s) b r"
    by (cases dr) (auto simp: device_holds_def)
  obtain l where "reservation_commit (device_ledger d s) r = (True, inactive_reservation, l)" "ledger_ok l"
    "ledger_charges l = map (acc_commit b) (ledger_charges (device_ledger d s))"
    by (rule ledger_commit_charges [OF device_ok_ledger [OF ok] lh])
  then show "\<exists>r' s'. qs_commit device_store dr s = (True, r', s') \<and> device_ok s' \<and>
      device_charges s' d = map (acc_commit b) (device_charges s d) \<and> \<not> qs_is_active device_store r' \<and>
      (qs_is_healthy device_store s \<longrightarrow> qs_is_healthy device_store s')"
    using ok by (simp add: device_store_def device_commit_def dr device_charges_def inactive_reservation_def)
next
  fix s d b dr assume ok: "device_ok s" and h: "device_holds s d b dr"
  then obtain r where dr: "dr = (d, r)" and lh: "ledger_holds (device_ledger d s) b r"
    by (cases dr) (auto simp: device_holds_def)
  obtain l where "reservation_cancel (device_ledger d s) r = (inactive_reservation, l)" "ledger_ok l"
    "ledger_charges l = map (acc_cancel b) (ledger_charges (device_ledger d s))"
    by (rule ledger_cancel_charges [OF device_ok_ledger [OF ok] lh])
  then show "\<exists>r' s'. qs_cancel device_store dr s = (r', s') \<and> device_ok s' \<and>
      device_charges s' d = map (acc_cancel b) (device_charges s d) \<and> \<not> qs_is_active device_store r'"
    using ok by (simp add: device_store_def device_cancel_def dr device_charges_def inactive_reservation_def)
next
  fix s d and b :: MemoryBytes assume ok: "device_ok s" and b: "b \<noteq> 0" and dv: "device_valid d"
    and cov: "list_all (acc_covers b) (device_charges s d)"
  have "0 < unat b" using b by (simp add: unat_gt_0)
  then obtain l where l: "map_of (dq_device_quotas s) d = Some l"
    using cov by (cases "map_of (dq_device_quotas s) d")
      (auto simp: device_charges_def device_ledger_def ledger_charges_def acc_covers_def QuotaLedger_new_def)
  then have dl: "device_ledger d s = l" by (simp add: device_ledger_def)
  obtain l' where "ledger_release l b = (True, l')" "ledger_ok l'"
    "ledger_charges l' = map (acc_release b) (ledger_charges l)"
    by (rule ledger_release_charges [of l b])
      (use device_ok_ledger [OF ok, of d] cov dl in \<open>simp_all add: device_charges_def\<close>)
  then  show "\<exists>s'. qs_release device_store d b s = (True, s') \<and> device_ok s' \<and>
      device_charges s' d = map (acc_release b) (device_charges s d)"
    using ok dv l dl by (simp add: device_store_def device_release_def process_release_def device_charges_def)
qed

section \<open>The composition of two stores\<close>

definition comp_inv :: "('a \<Rightarrow> bool) \<Rightarrow> ('t \<Rightarrow> bool) \<Rightarrow> ('a, 't) CompositeQuota \<Rightarrow> bool" where
  "comp_inv I J s \<longleftrightarrow>
     (\<forall>a. cq_aggregate s = Some a \<longrightarrow> I a) \<and> (\<forall>t. cq_task s = Some t \<longrightarrow> J t)"

definition comp_charges ::
  "('a \<Rightarrow> DeviceId \<Rightarrow> account list) \<Rightarrow> ('t \<Rightarrow> DeviceId \<Rightarrow> account list) \<Rightarrow>
   ('a, 't) CompositeQuota \<Rightarrow> DeviceId \<Rightarrow> account list" where
  "comp_charges C D s d =
     (case cq_aggregate s of None \<Rightarrow> [] | Some a \<Rightarrow> C a d) @ (case cq_task s of None \<Rightarrow> [] | Some t \<Rightarrow> D t d)"

definition comp_within ::
  "('a \<Rightarrow> DeviceId \<Rightarrow> bool) \<Rightarrow> ('t \<Rightarrow> DeviceId \<Rightarrow> bool) \<Rightarrow> ('a, 't) CompositeQuota \<Rightarrow> DeviceId \<Rightarrow> bool" where
  "comp_within V W s d \<longleftrightarrow>
     (\<forall>a. cq_aggregate s = Some a \<longrightarrow> V a d) \<and> (\<forall>t. cq_task s = Some t \<longrightarrow> W t d)"

definition comp_holds ::
  "('a \<Rightarrow> DeviceId \<Rightarrow> MemoryBytes \<Rightarrow> 'ra \<Rightarrow> bool) \<Rightarrow> ('t \<Rightarrow> DeviceId \<Rightarrow> MemoryBytes \<Rightarrow> 'rt \<Rightarrow> bool) \<Rightarrow>
   ('a, 't) CompositeQuota \<Rightarrow> DeviceId \<Rightarrow> MemoryBytes \<Rightarrow> ('ra, 'rt) CompositeReservation \<Rightarrow> bool" where
  "comp_holds H K s d b r \<longleftrightarrow>
     cr_device r = d \<and> cr_memory_bytes r = b \<and>
     (\<exists>a ra. cq_aggregate s = Some a \<and> cr_aggregate r = Some (Some ra) \<and> H a d b ra) \<and>
     (case cq_task s of
        None \<Rightarrow> cr_task r = None
      | Some t \<Rightarrow> \<exists>rt. cr_task r = Some (Some rt) \<and> K t d b rt)"

locale composite_quota =
  agg: quota_store A I C V H + task: quota_store T J D W K
  for A :: "('a, 'ra, 'fa) QuotaStore" and I C V H
    and T :: "('t, 'rt, 'ft) QuotaStore" and J D W K
begin

lemma agg_destroy:
  assumes "I a" and "qs_try_reserve A f d b a = (Some ra, a1)"
  shows "I (mr_destroy A (Some ra) a1) \<and> C (mr_destroy A (Some ra) a1) d = C a d"
  using agg.reserve_cancel [OF assms] by (auto simp: mr_destroy_def mr_cancel_def)

lemma task_destroy:
  assumes "J t" and "qs_try_reserve T f d b t = (Some rt, t1)"
  shows "J (mr_destroy T (Some rt) t1) \<and> D (mr_destroy T (Some rt) t1) d = D t d"
  using task.reserve_cancel [OF assms] by (auto simp: mr_destroy_def mr_cancel_def)

lemma composite_reserve_Some:
  assumes inv: "comp_inv I J s" and res: "composite_try_reserve A T c d b s = (Some r, s')"
  shows "comp_inv I J s' \<and> comp_holds H K s' d b r \<and> (b \<noteq> 0 \<longrightarrow> comp_within V W s' d) \<and>
    comp_charges C D s' d = map (acc_reserve b) (comp_charges C D s d) \<and>
    composite_is_healthy A T s' \<and> device_valid d"
proof -
  obtain fa ft af where c: "c = (fa, ft, af)" by (cases c)
  have healthy: "composite_is_healthy A T s"
    using res by (auto simp: composite_try_reserve_def c split: if_splits)
  then obtain a where a: "cq_aggregate s = Some a" and ha: "qs_is_healthy A a"
    by (auto simp: composite_is_healthy_def split: option.splits)
  have ia: "I a" using inv a by (simp add: comp_inv_def)
  obtain ro a1 where ra0: "qs_try_reserve A fa d b a = (ro, a1)" by (cases "qs_try_reserve A fa d b a")
  obtain ra where ro: "ro = Some ra"
    using res healthy a ra0 by (cases ro) (auto simp: composite_try_reserve_def c)
  note ra = ra0 [unfolded ro]
  note A = agg.reserve_Some [OF ia ra] and dv = agg.reserve_device [OF ia ra]
  show ?thesis
  proof (cases "cq_task s")
    case None
    with res healthy a ra have "r = \<lparr>cr_device = d, cr_memory_bytes = b, cr_aggregate = Some (Some ra), cr_task = None\<rparr>"
      "s' = s\<lparr>cq_aggregate := Some a1\<rparr>"
      by (auto simp: composite_try_reserve_def c split: if_splits)
    with None a A ha dv healthy show ?thesis
      by (simp add: comp_inv_def comp_holds_def comp_within_def comp_charges_def composite_is_healthy_def)
  next
    case (Some t)
    have jt: "J t" using inv Some by (simp add: comp_inv_def)
    obtain to t1 where rt0: "qs_try_reserve T ft d b t = (to, t1)" by (cases "qs_try_reserve T ft d b t")
    obtain rt where to: "to = Some rt"
      using res healthy a ra Some rt0 by (cases to) (auto simp: composite_try_reserve_def c)
    note rt = rt0 [unfolded to]
    from res healthy a ra Some rt
    have "r = \<lparr>cr_device = d, cr_memory_bytes = b, cr_aggregate = Some (Some ra), cr_task = Some (Some rt)\<rparr>"
      "s' = s\<lparr>cq_aggregate := Some a1, cq_task := Some t1\<rparr>"
      by (auto simp: composite_try_reserve_def c split: if_splits)
    with Some a A ha dv healthy task.reserve_Some [OF jt rt] show ?thesis
      by (simp add: comp_inv_def comp_holds_def comp_within_def comp_charges_def composite_is_healthy_def)
  qed
qed

lemma composite_reserve_None:
  assumes inv: "comp_inv I J s" and res: "composite_try_reserve A T c d b s = (None, s')"
  shows "comp_inv I J s' \<and> comp_charges C D s' d = comp_charges C D s d"
proof -
  obtain fa ft af where c: "c = (fa, ft, af)" by (cases c)
  show ?thesis
  proof (cases "composite_is_healthy A T s \<and> cq_aggregate s \<noteq> None")
    case False
    with res inv show ?thesis by (auto simp: composite_try_reserve_def c split: if_splits)
  next
    case True
    then obtain a where a: "cq_aggregate s = Some a" by auto
    have ia: "I a" using inv a by (simp add: comp_inv_def)
    obtain ro a1 where ra: "qs_try_reserve A fa d b a = (ro, a1)" by (cases "qs_try_reserve A fa d b a")
    show ?thesis
    proof (cases ro)
      case None
      with ra agg.reserve_None [OF ia] have "I a1 \<and> C a1 d = C a d" by simp
      moreover have "s' = s\<lparr>cq_aggregate := Some a1\<rparr>"
        using res True a ra None by (simp add: composite_try_reserve_def c)
      ultimately show ?thesis using inv a by (simp add: comp_inv_def comp_charges_def)
    next
      case (Some r)
      note undone = agg_destroy [OF ia ra [unfolded Some]]
      let ?a = "mr_destroy A (Some r) a1"
      show ?thesis
      proof (cases "cq_task s")
        case None
        with res True a ra Some have "s' = s\<lparr>cq_aggregate := Some ?a\<rparr>"
          by (auto simp: composite_try_reserve_def c split: if_splits)
        with undone inv a None show ?thesis by (simp add: comp_inv_def comp_charges_def)
      next
        case (Some t)
        have jt: "J t" using inv Some by (simp add: comp_inv_def)
        obtain to t1 where rt: "qs_try_reserve T ft d b t = (to, t1)" by (cases "qs_try_reserve T ft d b t")
        obtain t2 where s': "s' = s\<lparr>cq_aggregate := Some ?a, cq_task := Some t2\<rparr>" and "J t2" "D t2 d = D t d"
        proof (cases to)
          case None
          with task.reserve_None [OF jt, of ft d b t1] rt res True a ra \<open>ro = Some r\<close> Some show thesis
            by (intro that [of t1]) (auto simp: composite_try_reserve_def c)
        next
          case (Some x)
          with task_destroy [OF jt, of ft d b x t1] rt res True a ra \<open>ro = Some r\<close> \<open>cq_task s = Some t\<close> show thesis
            by (intro that [of "mr_destroy T (Some x) t1"]) (auto simp: composite_try_reserve_def c split: if_splits)
        qed
        with undone inv a Some show ?thesis by (simp add: comp_inv_def comp_charges_def)
      qed
    qed
  qed
qed

lemma composite_commit_held:
  assumes inv: "comp_inv I J s" and h: "comp_holds H K s d b r"
  shows "\<exists>r' s'. composite_commit A T r s = (True, r', s') \<and> comp_inv I J s' \<and>
    comp_charges C D s' d = map (acc_commit b) (comp_charges C D s d) \<and> \<not> composite_is_active A T r' \<and>
    (composite_is_healthy A T s \<longrightarrow> composite_is_healthy A T s')"
proof -
  obtain a ra where a: "cq_aggregate s = Some a" "cr_aggregate r = Some (Some ra)" "H a d b ra" "I a"
    using h inv by (auto simp: comp_holds_def comp_inv_def)
  obtain ra' a1 where ca: "qs_commit A ra a = (True, ra', a1)" "I a1" "C a1 d = map (acc_commit b) (C a d)"
    "\<not> qs_is_active A ra'" "qs_is_healthy A a \<longrightarrow> qs_is_healthy A a1"
    using agg.commit_held [OF a(4,3)] by blast
  show ?thesis
  proof (cases "cq_task s")
    case None
    then have "cr_task r = None" using h by (simp add: comp_holds_def)
    with None a ca inv show ?thesis
      by (auto simp: composite_commit_def commit_member_def mr_commit_def comp_inv_def comp_charges_def
          composite_is_active_def mr_is_active_def composite_is_healthy_def)
  next
    case (Some t)
    then obtain rt where t: "cr_task r = Some (Some rt)" "K t d b rt" "J t"
      using h inv by (auto simp: comp_holds_def comp_inv_def)
    obtain rt' t1 where ct: "qs_commit T rt t = (True, rt', t1)" "J t1" "D t1 d = map (acc_commit b) (D t d)"
      "\<not> qs_is_active T rt'" "qs_is_healthy T t \<longrightarrow> qs_is_healthy T t1"
      using task.commit_held [OF t(3,2)] by blast
    with Some a ca t inv show ?thesis
      by (auto simp: composite_commit_def commit_member_def mr_commit_def comp_inv_def comp_charges_def
          composite_is_active_def mr_is_active_def composite_is_healthy_def)
  qed
qed

lemma composite_cancel_held:
  assumes inv: "comp_inv I J s" and h: "comp_holds H K s d b r"
  shows "\<exists>r' s'. composite_cancel A T r s = (r', s') \<and> comp_inv I J s' \<and>
    comp_charges C D s' d = map (acc_cancel b) (comp_charges C D s d) \<and> \<not> composite_is_active A T r'"
proof -
  obtain a ra where a: "cq_aggregate s = Some a" "cr_aggregate r = Some (Some ra)" "H a d b ra" "I a"
    using h inv by (auto simp: comp_holds_def comp_inv_def)
  obtain ra' a1 where ca: "qs_cancel A ra a = (ra', a1)" "I a1" "C a1 d = map (acc_cancel b) (C a d)"
    "\<not> qs_is_active A ra'"
    using agg.cancel_held [OF a(4,3)] by blast
  show ?thesis
  proof (cases "cq_task s")
    case None
    then have "cr_task r = None" using h by (simp add: comp_holds_def)
    with None a ca inv show ?thesis
      by (auto simp: composite_cancel_def cancel_member_def mr_cancel_def comp_inv_def comp_charges_def
          composite_is_active_def mr_is_active_def)
  next
    case (Some t)
    then obtain rt where t: "cr_task r = Some (Some rt)" "K t d b rt" "J t"
      using h inv by (auto simp: comp_holds_def comp_inv_def)
    obtain rt' t1 where ct: "qs_cancel T rt t = (rt', t1)" "J t1" "D t1 d = map (acc_cancel b) (D t d)"
      "\<not> qs_is_active T rt'"
      using task.cancel_held [OF t(3,2)] by blast
    with Some a ca t inv show ?thesis
      by (auto simp: composite_cancel_def cancel_member_def mr_cancel_def comp_inv_def comp_charges_def
          composite_is_active_def mr_is_active_def)
  qed
qed

lemma composite_release_covered:
  assumes inv: "comp_inv I J s" and b: "b \<noteq> 0" and dv: "device_valid d"
    and healthy: "composite_is_healthy A T s" and cov: "list_all (acc_covers b) (comp_charges C D s d)"
  shows "\<exists>s'. composite_release A T d b s = (True, s') \<and> comp_inv I J s' \<and>
    comp_charges C D s' d = map (acc_release b) (comp_charges C D s d)"
proof -
  obtain a where a: "cq_aggregate s = Some a" "qs_is_healthy A a" "I a" "cq_healthy s"
    using healthy inv by (auto simp: composite_is_healthy_def comp_inv_def split: option.splits)
  have "list_all (acc_covers b) (C a d)" using cov a by (simp add: comp_charges_def)
  then obtain a1 where ra: "qs_release A d b a = (True, a1)" "I a1" "C a1 d = map (acc_release b) (C a d)"
    using agg.release_covered [OF a(3) b dv a(2)] by blast
  show ?thesis
  proof (cases "cq_task s")
    case None
    with a ra inv show ?thesis by (auto simp: composite_release_def comp_inv_def comp_charges_def)
  next
    case (Some t)
    then have t: "J t" "qs_is_healthy T t" "list_all (acc_covers b) (D t d)"
      using inv healthy cov by (auto simp: comp_inv_def composite_is_healthy_def comp_charges_def)
    then obtain t1 where rt: "qs_release T d b t = (True, t1)" "J t1" "D t1 d = map (acc_release b) (D t d)"
      using task.release_covered [OF t(1) b dv t(2)] by blast
    with Some a ra inv show ?thesis by (auto simp: composite_release_def comp_inv_def comp_charges_def)
  qed
qed

end

sublocale composite_quota \<subseteq> comp: quota_store "composite_store A T" "comp_inv I J" "comp_charges C D"
    "comp_within V W" "comp_holds H K"
proof (unfold_locales, unfold composite_store_def QuotaStore.select_convs, goal_cases)
  case 1 then show ?case using composite_reserve_Some by metis
next
  case 2 then show ?case using composite_reserve_None by metis
next
  case 3 then show ?case by (rule composite_commit_held)
next
  case 4 then show ?case by (rule composite_cancel_held)
next
  case 5 then show ?case by (rule composite_release_covered)
next
  case 6 then show ?case using composite_reserve_Some by metis
qed

text \<open>The store the interceptor builds: the process quota bounded by the device capacity.\<close>

interpretation pd: composite_quota process_store ledger_ok "\<lambda>l _. ledger_charges l" "\<lambda>l _. ledger_ok l"
    "\<lambda>l _. ledger_holds l" device_store device_ok device_charges device_within device_holds
  by unfold_locales

type_synonym pd_quota = "(QuotaLedgerState, DeviceCapacityQuota) CompositeQuota"

abbreviation pd_inv :: "pd_quota \<Rightarrow> bool" where
  "pd_inv \<equiv> comp_inv ledger_ok device_ok"

abbreviation pd_charges :: "pd_quota \<Rightarrow> DeviceId \<Rightarrow> account list" where
  "pd_charges \<equiv> comp_charges (\<lambda>l _. ledger_charges l) device_charges"

section \<open>Reported memory can be reserved\<close>

lemma unat_used_ledger: "ledger_ok l \<Longrightarrow> unat (used_bytes (ledger_usage l)) = ledger_used l"
  using unat_le_u64_max [of "ledger_limit l"]
  by (simp add: unat_used_bytes ledger_usage_def ledger_used_def ledger_ok_def min_def del: unat_le_u64_max)

lemma process_info_bounds:
  assumes "ledger_ok l" and "device_valid d"
  shows "let i = process_get_memory_info d pt pf l in
    free_bytes i \<le> total_bytes i \<and> total_bytes i \<le> ledger_limit l \<and> total_bytes i \<le> pt \<and> free_bytes i \<le> pf \<and>
    unat (free_bytes i) \<le> unat pt - ledger_used l \<and> unat (free_bytes i) \<le> unat (ledger_limit l) - ledger_used l"
proof -
  have u: "unat (used_bytes (ledger_usage l)) = ledger_used l" by (rule unat_used_ledger [OF assms(1)])
  have m: "min (ledger_limit l) pt \<le> ledger_limit l" "min (ledger_limit l) pt \<le> pt" by simp_all
  have "unat (if min (ledger_limit l) pt > used_bytes (ledger_usage l)
      then min (ledger_limit l) pt - used_bytes (ledger_usage l) else 0) =
      unat (min (ledger_limit l) pt) - ledger_used l"
    by (auto simp: unat_sub_if' word_less_nat_alt u)
  moreover have "unat (min (ledger_limit l) pt) \<le> unat (ledger_limit l)" "unat (min (ledger_limit l) pt) \<le> unat pt"
    using m by (simp_all add: word_le_nat_alt)
  ultimately show ?thesis
    using assms(2) by (auto simp: process_get_memory_info_def Let_def word_le_nat_alt ledger_usage_def min_def)
qed

lemma process_reserve_fits:
  assumes "device_valid d" and "unat b \<le> unat (ledger_limit l) - ledger_used l"
  shows "\<exists>r l'. process_try_reserve False d b l = (Some r, l')"
proof (cases "ledger_try_reserve l b")
  case (Pair ro l')
  with assms show ?thesis
    by (cases ro) (auto simp: process_try_reserve_def ledger_try_reserve_None [of l b l'])
qed

lemma device_reported_reservable:
  assumes ok: "device_ok q" and d: "device_valid d" and pt: "pt \<noteq> 0"
    and info: "device_get_memory_info c d pt pf q = (i, q1)" and h: "dq_healthy q1"
    and b: "unat b \<le> unat (free_bytes i)"
    and c': "dc_resolved c' = Some \<lparr>cap_total_bytes = pt, cap_free_bytes = pf\<rparr>" "dc_fault c' = None"
    and res: "dq_has_resolver q"
  shows "\<exists>r q2. device_try_reserve c' d b q1 = (Some r, q2)"
proof -
  have hq: "dq_healthy q" using info h d by (auto simp: device_get_memory_info_def split: if_splits)
  with info d pt have vis: "device_visible_info c d pt pf q = (i, q1)"
    by (simp add: device_get_memory_info_def)
  obtain lo q2 where e0: "ensure_device_quota_locked (dc_fault c) d pt q = (lo, q2)"
    by (cases "ensure_device_quota_locked (dc_fault c) d pt q")
  have "lo \<noteq> None"
    using vis h e0 by (cases lo) (auto simp: device_visible_info_def device_unhealthy_def)
  then obtain l where e: "ensure_device_quota_locked (dc_fault c) d pt q = (Some l, q2)" using e0 by auto
  have "map_of (dq_effective_limits q2) d \<noteq> None"
    using vis h e by (auto simp: device_visible_info_def device_unhealthy_def split: option.splits)
  then obtain m where m: "map_of (dq_effective_limits q2) d = Some m" by auto
  have l: "map_of (dq_device_quotas q2) d = Some l" "ledger_ok l" "dq_has_resolver q2"
    using e ok res by (auto simp: ensure_device_quota_locked_def Let_def device_ok_def update_conv
        split: option.splits if_splits)
  let ?m = "min m pt"
  have q1: "q1 = set_effective_limit d ?m q2" and i: "i = process_get_memory_info d ?m (min pf ?m) l"
    using vis e m by (auto simp: device_visible_info_def Let_def)
  note B = process_info_bounds [OF l(2) d, of ?m "min pf ?m", folded i, unfolded Let_def]
  from B b have bb: "unat b \<le> unat ?m - ledger_used l" "unat b \<le> unat (ledger_limit l) - ledger_used l"
    "b \<le> min pf ?m" by (auto simp: word_le_nat_alt)
  have "b \<le> min pf pt" using bb(3) by auto
  moreover have "b \<le> (if ?m > used_bytes (ledger_usage l) then ?m - used_bytes (ledger_usage l) else 0)"
    using bb(1) by (auto simp: word_le_nat_alt word_less_nat_alt unat_sub_if' unat_used_ledger [OF l(2)])
  moreover have "b \<le> available_bytes (ledger_usage l)"
    using bb(2) by (simp add: word_le_nat_alt unat_available_bytes ledger_usage_def ledger_used_def)
  moreover obtain r l' where "process_try_reserve False d b l = (Some r, l')"
    using process_reserve_fits [OF d bb(2)] by blast
  ultimately show ?thesis
    using d pt c' l m
    by (simp add: q1 device_try_reserve_def device_resolve_def ensure_device_quota_locked_def
        set_effective_limit_def process_usage_def update_conv Let_def not_less min.absorb2)
qed

section \<open>Properties of the quota stores\<close>

text \<open>
  C14. Reserving from the composed process and device quota is all or nothing. When the
  reservation is granted, both accounts of the device are charged with exactly the requested
  bytes and, if the request is not empty, neither is above its bound. When it is refused, for
  whatever reason, an allocation that fails half way included, both accounts are as before.
\<close>

theorem composite_reserve_all_or_nothing:
  assumes "pd_inv s" and "composite_try_reserve process_store device_store c d b s = (r, s')"
  shows "pd_inv s' \<and>
    (case r of
       None \<Rightarrow> pd_charges s' d = pd_charges s d
     | Some h \<Rightarrow> pd_charges s' d = map (acc_reserve b) (pd_charges s d) \<and>
         (b \<noteq> 0 \<longrightarrow> comp_within (\<lambda>l _. ledger_ok l) device_within s' d))"
proof (cases r)
  case None
  with assms show ?thesis using pd.comp.reserve_None [of s c d b s'] by (simp add: composite_store_def)
next
  case (Some h)
  with assms show ?thesis using pd.comp.reserve_Some [of s c d b h s'] by (simp add: composite_store_def)
qed

text \<open>A process limited to 100 bytes on a device of 80 bytes of which 60 are free.\<close>

definition ex_quota :: pd_quota where
  "ex_quota = CompositeQuota_new (Some (QuotaLedger_new 100)) (Some (DeviceCapacityQuota_new True))"

definition ex_context :: device_context where
  "ex_context = \<lparr>dc_resolved = Some \<lparr>cap_total_bytes = 80, cap_free_bytes = 60\<rparr>, dc_fault = None\<rparr>"

definition ex_reserve :: "MemoryBytes \<Rightarrow> (QuotaReservation, DeviceId \<times> QuotaReservation) CompositeReservation option \<times> pd_quota" where
  "ex_reserve b = composite_try_reserve process_store device_store (False, ex_context, False) 0 b ex_quota"

lemma ex_quota_inv: "pd_inv ex_quota"
  by (simp add: ex_quota_def CompositeQuota_new_def comp_inv_def device_ok_def DeviceCapacityQuota_new_def)

theorem composite_reserve_all_or_nothing_witness:
  "pd_inv (snd (ex_reserve 40)) \<and> fst (ex_reserve 40) \<noteq> None \<and>
   pd_charges (snd (ex_reserve 40)) 0 = map (acc_reserve 40) (pd_charges ex_quota 0) \<and>
   fst (ex_reserve 70) = None \<and> pd_charges (snd (ex_reserve 70)) 0 = pd_charges ex_quota 0"
proof -
  have g: "fst (ex_reserve 40) \<noteq> None" "fst (ex_reserve 70) = None" by code_simp+
  show ?thesis
    using composite_reserve_all_or_nothing [OF ex_quota_inv, of "(False, ex_context, False)" 0 40
        "fst (ex_reserve 40)" "snd (ex_reserve 40)"]
      composite_reserve_all_or_nothing [OF ex_quota_inv, of "(False, ex_context, False)" 0 70
        "fst (ex_reserve 70)" "snd (ex_reserve 70)"] g
    by (auto simp: ex_reserve_def)
qed

text \<open>
  A granted reservation of the composed quota leaves no trace once it is undone. Cancelling
  it gives back what both accounts had before. Committing it succeeds, releasing the bytes later
  succeeds, and then both accounts are again as before.
\<close>

theorem composite_reservation_round_trips:
  assumes "pd_inv s" and "composite_try_reserve process_store device_store c d b s = (Some r, s1)"
    and "b \<noteq> 0"
  shows "(\<exists>r' s2. composite_cancel process_store device_store r s1 = (r', s2) \<and> pd_charges s2 d = pd_charges s d) \<and>
    (\<exists>r' s2 s3. composite_commit process_store device_store r s1 = (True, r', s2) \<and>
       composite_release process_store device_store d b s2 = (True, s3) \<and> pd_charges s3 d = pd_charges s d)"
proof -
  have "composite_is_healthy process_store device_store s"
    using assms(2) by (auto simp: composite_try_reserve_def split: prod.splits if_splits)
  with assms show ?thesis
    using pd.comp.reserve_cancel [of s c d b r s1] pd.comp.reserve_commit_release [of s c d b r s1]
    by (simp add: composite_store_def) metis
qed

theorem composite_reservation_round_trips_witness:
  "\<exists>r s1. ex_reserve 40 = (Some r, s1) \<and>
    (\<exists>r' s2. composite_cancel process_store device_store r s1 = (r', s2) \<and> pd_charges s2 0 = pd_charges ex_quota 0) \<and>
    (\<exists>r' s2 s3. composite_commit process_store device_store r s1 = (True, r', s2) \<and>
       composite_release process_store device_store 0 40 s2 = (True, s3) \<and> pd_charges s3 0 = pd_charges ex_quota 0)"
proof -
  have "fst (ex_reserve 40) \<noteq> None" by code_simp
  then obtain r s1 where r: "ex_reserve 40 = (Some r, s1)" by (cases "ex_reserve 40") auto
  with composite_reservation_round_trips [OF ex_quota_inv r [unfolded ex_reserve_def]] show ?thesis by simp
qed

text \<open>
  The memory the composed quota reports as free can be had. If it answers a memory query
  about a device and stays healthy, then any request of at most the reported free bytes is
  granted, as long as the device reports the same physical figures and no allocation fails. The
  reported total is at most the process limit and at most the physical memory.
\<close>

theorem reported_free_is_reservable:
  assumes inv: "pd_inv s" and d: "device_valid d" and pt: "pt \<noteq> 0"
    and info: "composite_get_memory_info process_store device_store c d pt pf s = (i, s1)"
    and h: "composite_is_healthy process_store device_store s1"
    and l: "cq_aggregate s = Some l" and q: "cq_task s = Some q" and res: "dq_has_resolver q"
    and b: "b \<le> free_bytes i"
    and c': "dc_resolved c' = Some \<lparr>cap_total_bytes = pt, cap_free_bytes = pf\<rparr>" "dc_fault c' = None"
  shows "(\<exists>r s2. composite_try_reserve process_store device_store (False, c', False) d b s1 = (Some r, s2)) \<and>
    total_bytes i \<le> ledger_limit l \<and> total_bytes i \<le> pt"
proof -
  have lq: "ledger_ok l" "device_ok q" using inv l q by (simp_all add: comp_inv_def)
  obtain fa ft af where c: "c = (fa, ft, af)" by (cases c)
  obtain j q1 where j: "device_get_memory_info ft d pt pf q = (j, q1)" by (cases "device_get_memory_info ft d pt pf q")
  let ?k = "process_get_memory_info d pt pf l"
  have "composite_is_healthy process_store device_store s"
    using info h by (auto simp: composite_get_memory_info_def c split: if_splits)
  with info l q j have i: "i = \<lparr>total_bytes = min (total_bytes ?k) (total_bytes j),
      free_bytes = min (free_bytes ?k) (free_bytes j)\<rparr>" and s1: "s1 = s\<lparr>cq_aggregate := Some l, cq_task := Some q1\<rparr>"
    by (auto simp: composite_get_memory_info_def c process_store_def device_store_def)
  note B = process_info_bounds [OF lq(1) d, of pt pf, unfolded Let_def]
  have bk: "unat b \<le> unat (free_bytes ?k)" "unat b \<le> unat (free_bytes j)"
    using b by (simp_all add: i word_le_nat_alt [symmetric])
  from bk(1) B have "unat b \<le> unat (ledger_limit l) - ledger_used l" by auto
  from process_reserve_fits [OF d this] obtain r l' where r: "process_try_reserve False d b l = (Some r, l')" by blast
  have "dq_healthy q1" using h by (simp add: s1 composite_is_healthy_def device_store_def)
  from device_reported_reservable [OF lq(2) d pt j this bk(2) c' res]
  obtain r2 q2 where r2: "device_try_reserve c' d b q1 = (Some r2, q2)" by blast
  have "\<exists>r s2. composite_try_reserve process_store device_store (False, c', False) d b s1 = (Some r, s2)"
    using h r r2 by (simp add: composite_try_reserve_def s1 process_store_def [THEN arg_cong, of qs_try_reserve]
        device_store_def [THEN arg_cong, of qs_try_reserve])
  moreover have "total_bytes i \<le> ledger_limit l \<and> total_bytes i \<le> pt"
    using B by (auto simp: i min_le_iff_disj)
  ultimately show ?thesis by blast
qed

definition ex_info :: "MemoryInfo \<times> pd_quota" where
  "ex_info = composite_get_memory_info process_store device_store (False, ex_context, False) 0 80 60 ex_quota"

theorem reported_free_is_reservable_witness:
  "free_bytes (fst ex_info) = 60 \<and>
   (\<exists>r s2. composite_try_reserve process_store device_store (False, ex_context, False) 0 60 (snd ex_info) = (Some r, s2))"
proof -
  have h: "composite_is_healthy process_store device_store (snd ex_info)" and f: "free_bytes (fst ex_info) = 60"
    and d: "device_valid 0" by code_simp+
  have e: "composite_get_memory_info process_store device_store (False, ex_context, False) 0 80 60 ex_quota =
    (fst ex_info, snd ex_info)" by (simp add: ex_info_def)
  have "(\<exists>r s2. composite_try_reserve process_store device_store (False, ex_context, False) 0 60 (snd ex_info) = (Some r, s2)) \<and>
    total_bytes (fst ex_info) \<le> ledger_limit (QuotaLedger_new 100) \<and> total_bytes (fst ex_info) \<le> 80"
    by (rule reported_free_is_reservable [OF ex_quota_inv d _ e h, of "QuotaLedger_new 100" "DeviceCapacityQuota_new True"])
      (simp_all add: f ex_quota_def ex_context_def CompositeQuota_new_def DeviceCapacityQuota_new_def)
  with f show ?thesis by simp
qed

end
