(* ===== verification/SchedulerSteps.thy ===== *)
theory SchedulerSteps
  imports SchedulerContract
begin

text \<open>
  What each scheduler operation does to the states of the tasks, as one lemma per operation,
  for the components that drive a scheduler: the executor and the admission service.
\<close>

lemma reachable_run: "sched_reachable limit opts s \<Longrightarrow> s' = run_op op s \<Longrightarrow> sched_reachable limit opts s'"
  by (simp add: sched_reachable.stepped)

lemma running_iff_state:
  "sched_inv s \<Longrightarrow> i \<in> set (running_task_ids s) \<longleftrightarrow> Scheduler_task_state i s = Some TaskState_kRunning"
  using sched_invD(3) by (auto simp: inv_running_def Scheduler_task_state_def)

lemma find_state: "map_option snap_state (Scheduler_find i s) = Scheduler_task_state i s"
  by (simp add: Scheduler_find_def Scheduler_task_state_def snapshot_locked_def option.map_comp comp_def)

lemma transition_state:
  "task_transition i t t' s s' \<Longrightarrow>
   Scheduler_task_state j s' = (if j = i then Some (task_st t') else Scheduler_task_state j s)"
  by (simp add: task_transition_def Scheduler_task_state_def)

lemma finish_step:
  assumes inv: "sched_inv s" and tm: "terminal \<noteq> TaskState_kQueued" "terminal \<noteq> TaskState_kRunning"
  shows "if Scheduler_task_state i s = Some TaskState_kRunning
    then fst (finish_running_task_locked now i terminal s) \<and>
      (\<forall>j. Scheduler_task_state j (snd (finish_running_task_locked now i terminal s)) =
         (if j = i then Some terminal else Scheduler_task_state j s))
    else finish_running_task_locked now i terminal s = (False, s)"
proof (cases "Scheduler_task_state i s = Some TaskState_kRunning")
  case True
  then obtain t where t: "map_of (tasks s) i = Some t" "task_st t = TaskState_kRunning"
    by (auto simp: Scheduler_task_state_def)
  obtain s' where "finish_running_task_locked now i terminal s = (True, s')"
    and "task_transition i t (t\<lparr>task_st := terminal\<rparr>) s s'"
    by (rule finish_running_ok [OF inv t tm])
  with True show ?thesis by (simp add: transition_state)
next
  case False
  then show ?thesis
    by (auto simp: finish_running_task_locked_def Scheduler_task_state_def split: option.splits)
qed

lemmas complete_step = finish_step [where terminal = TaskState_kCompleted, folded Scheduler_complete_def, simplified]
lemmas fail_step = finish_step [where terminal = TaskState_kFailed, folded Scheduler_fail_def, simplified]

lemma cancel_queued_step:
  assumes inv: "sched_inv s"
  shows "if Scheduler_task_state i s = Some TaskState_kQueued
    then fst (Scheduler_cancel_queued i s) \<and>
      (\<forall>j. Scheduler_task_state j (snd (Scheduler_cancel_queued i s)) =
         (if j = i then Some TaskState_kCancelled else Scheduler_task_state j s))
    else Scheduler_cancel_queued i s = (False, s)"
proof (cases "Scheduler_task_state i s = Some TaskState_kQueued")
  case True
  then obtain t where t: "map_of (tasks s) i = Some t" "task_st t = TaskState_kQueued"
    by (auto simp: Scheduler_task_state_def)
  obtain s' where "cancel_queued_task_locked i t s = (True, s')"
    and "task_transition i t (cancelled_record t) s s'"
    by (rule cancel_queued_ok [OF inv t])
  with True t show ?thesis by (simp add: transition_state Scheduler_cancel_queued_def cancelled_record_def)
next
  case False
  then show ?thesis
    by (auto simp: Scheduler_cancel_queued_def Scheduler_task_state_def split: option.splits)
qed

lemma cancel_step:
  assumes inv: "sched_inv s"
  shows "if Scheduler_task_state i s \<in> {Some TaskState_kQueued, Some TaskState_kRunning}
    then fst (Scheduler_cancel now i s) \<and>
      (\<forall>j. Scheduler_task_state j (snd (Scheduler_cancel now i s)) =
         (if j = i then Some TaskState_kCancelled else Scheduler_task_state j s))
    else Scheduler_cancel now i s = (False, s)"
proof (cases "map_of (tasks s) i")
  case None
  then show ?thesis by (simp add: Scheduler_cancel_def Scheduler_task_state_def)
next
  case (Some t)
  then show ?thesis
    using cancel_queued_step [OF inv, of i] finish_step [OF inv, of TaskState_kCancelled i now]
    by (cases "task_st t") (simp_all add: Scheduler_cancel_def Scheduler_cancel_queued_def Scheduler_task_state_def)
qed

text \<open>A dispatch that returns nothing may fail a queued task, and leaves every other state alone.\<close>

definition idle_states :: "Scheduler \<Rightarrow> Scheduler \<Rightarrow> bool" where
  "idle_states s s' \<longleftrightarrow>
     (\<forall>j. Scheduler_task_state j s' = Scheduler_task_state j s \<or>
        Scheduler_task_state j s = Some TaskState_kQueued \<and> Scheduler_task_state j s' = Some TaskState_kFailed)"

definition dispatched_states :: "TaskSnapshot \<Rightarrow> Scheduler \<Rightarrow> Scheduler \<Rightarrow> bool" where
  "dispatched_states sn s s' \<longleftrightarrow>
     snap_state sn = TaskState_kRunning \<and> Scheduler_find (snap_task_id sn) s' = Some sn \<and>
     Scheduler_task_state (snap_task_id sn) s = Some TaskState_kQueued \<and> snap_work_units sn \<noteq> 0 \<and>
     (\<forall>j. Scheduler_task_state j s' =
        (if j = snap_task_id sn then Some TaskState_kRunning else Scheduler_task_state j s))"

lemma idle_statesI: "map_of (tasks s') = map_of (tasks s) \<Longrightarrow> idle_states s s'"
  by (simp add: idle_states_def Scheduler_task_state_def)

lemma dispatch_next_step:
  assumes inv: "sched_inv s" and d: "Scheduler_dispatch_next f now s = (r, s')"
  shows "case r of None \<Rightarrow> idle_states s s' | Some sn \<Rightarrow> dispatched_states sn s s'"
proof (cases r)
  case (Some sn)
  obtain t where t: "map_of (tasks s) (snap_task_id sn) = Some t" "task_st t = TaskState_kQueued"
    and tr: "task_transition (snap_task_id sn) t (dispatched_record now s t) s s'"
    and sn: "sn = (snapshot_locked (snap_task_id sn) t)\<lparr>snap_state := TaskState_kRunning,
               snap_dispatch_sequence := next_dispatch_sequence s\<rparr>"
    using dispatch_next_SomeD [OF inv d [unfolded Some]] by metis
  have "snap_state sn = TaskState_kRunning" "snap_work_units sn = spec_work_units (task_spec t)"
    using arg_cong [OF sn, of snap_state] arg_cong [OF sn, of snap_work_units]
    by (simp_all add: snapshot_locked_def)
  moreover have "spec_work_units (task_spec t) \<noteq> 0"
    using task_okD [OF inv t(1)] by (simp add: task_ok_def spec_valid_def)
  moreover have "Scheduler_find (snap_task_id sn) s' = Some sn"
    using tr by (subst (2) sn) (simp add: Scheduler_find_def task_transition_def snapshot_locked_def dispatched_record_def)
  ultimately show ?thesis
    using Some t by (simp add: dispatched_states_def transition_state [OF tr] dispatched_record_def Scheduler_task_state_def [of _ s])
next
  case None
  note ok = sched_invD(1) [OF inv]
  show ?thesis
  proof (cases "length (running_task_ids s) \<ge> unat (max_running_tasks s) \<or>
      priority_reservation_blocks_low_dispatch_locked s")
    case True
    with d None show ?thesis by (auto simp: Scheduler_dispatch_next_def idle_statesI split: if_splits)
  next
    case False
    obtain sel s1 where sel: "select_next_task_locked s = (sel, s1)" by (cases "select_next_task_locked s")
    show ?thesis
    proof (cases sel)
      case None
      with d False sel have "s' = s1" by (simp add: Scheduler_dispatch_next_def)
      moreover have "tasks s1 = tasks s"
        using sel.select_None [OF ok] sel None by (auto simp: idle_round_def dest: rr_frameD)
      ultimately show ?thesis using \<open>r = None\<close> by (simp add: idle_statesI)
    next
      case (Some i)
      with sel have deq: "dequeued i s s1" using sel.select_Some [OF ok] by simp
      then obtain t where t: "map_of (tasks s) i = Some t" "task_st t = TaskState_kQueued"
        by (auto simp: dequeued_def task_queued_def split: option.splits)
      from d False sel Some have sl: "dispatch_selected_task_locked f now i s1 = (r, s')"
        by (auto simp: Scheduler_dispatch_next_def)
      show ?thesis
      proof (cases f)
        case None
        with sl dispatch_selected_ok [OF inv deq t(1), of now] False \<open>r = None\<close> show ?thesis
          by (metis not_le option.distinct(1) prod.inject)
      next
        case (Some fault)
        with sl dispatch_selected_fault [OF inv deq t(1), of fault now]
        have "task_transition i t (failed_record t) s s'" by (metis prod.inject)
        then show ?thesis
          using t \<open>r = None\<close>
          by (auto simp: idle_states_def transition_state failed_record_def Scheduler_task_state_def [of _ s])
      qed
    qed
  qed
qed

lemma dispatch_task_step:
  assumes inv: "sched_inv s" and d: "Scheduler_dispatch_task f now i s = (r, s')"
  shows "case r of None \<Rightarrow> idle_states s s' | Some sn \<Rightarrow> snap_task_id sn = i \<and> dispatched_states sn s s'"
proof (cases "peek_next_task_locked s = Some i")
  case True
  note ok = sched_invD(1) [OF inv]
  have q: "task_queued (tasks s) i" using sel.peek_queued [OF ok True] .
  then have "i \<noteq> 0" by (auto elim!: queued_taskE [OF inv] simp: task_ok_def)
  moreover obtain s1 where "select_next_task_locked s = (Some i, s1)"
    using sel.peek_select [OF ok] True by (cases "select_next_task_locked s") auto
  ultimately have "Scheduler_dispatch_task f now i s = Scheduler_dispatch_next f now s"
    using q True by (simp add: Scheduler_dispatch_task_def Scheduler_dispatch_next_def)
  with d have n: "Scheduler_dispatch_next f now s = (r, s')" by simp
  show ?thesis
  proof (cases r)
    case (Some sn)
    have "peek_next_task_locked s = Some (snap_task_id sn)"
      using dispatch_next_SomeD [OF inv n [unfolded Some]] by metis
    then show ?thesis using True dispatch_next_step [OF inv n] Some by simp
  qed (use dispatch_next_step [OF inv n] in simp)
next
  case False
  have "tasks (snd (select_deficit_round_robin_task_locked s)) = tasks s"
    if "peek_next_task_locked s = None" "scheduling_policy s = kDeficitRoundRobin"
    using drr.peek_None_idle [OF sched_invD(1) [OF inv]] that
    by (auto simp: peek_next_task_locked_def idle_round_def dest: rr_frameD)
  with False d show ?thesis
    by (auto simp: Scheduler_dispatch_task_def idle_statesI split: if_splits option.splits)
qed

lemma submit_step:
  assumes inv: "sched_inv s" and sub: "Scheduler_submit f now spec s = (res, s')"
  shows "if accepted res
    then sr_task_id res = next_task_id s \<and> sr_task_id res \<noteq> 0 \<and> map_of (tasks s) (sr_task_id res) = None \<and>
      next_task_id s' = next_task_id s + 1 \<and> next_task_id s \<noteq> u64_max \<and>
      (\<forall>j. Scheduler_task_state j s' =
         (if j = sr_task_id res then Some TaskState_kQueued else Scheduler_task_state j s))
    else s' = s"
proof (cases "accepted res")
  case True
  then have st: "sr_status res = SubmitStatus_kAccepted" by (simp add: accepted_def)
  note A = submit_accepted [OF inv sub st]
  have "next_task_id s \<noteq> 0" using sched_invD(2) [OF inv] by (simp add: inv_tasks_def)
  with A True fresh_task_id [OF inv] show ?thesis
    by (simp add: submit_transition_def Scheduler_task_state_def submitted_record_def)
next
  case False
  with submit_rejected [OF inv sub] show ?thesis by (simp add: accepted_def)
qed

end
