(* ===== verification/TaskBackend.thy ===== *)
theory TaskBackend
  imports SchedulerSteps
begin

text \<open>
  The task backend interface of \<^verbatim>\<open>src/include/glimmer/backend/task_backend.h\<close>, the simulated
  backend and the single-threaded executor that drives a scheduler and a backend. A backend is
  a record of operations over its own state \<open>'b\<close>; \<open>None\<close> is an exception of the backend. The
  context \<open>'c\<close> of a submission says what fails inside it.
\<close>

section \<open>The interface\<close>

text \<open>The last constructor stands for an enum value outside the five listed ones.\<close>

datatype TaskStatus =
    TaskStatus_kUnknown
  | TaskStatus_kPending
  | TaskStatus_kCompleted
  | TaskStatus_kFailed
  | TaskStatus_kCancelled
  | TaskStatus_unlisted

record TaskSubmission =
  sub_task_id :: TaskId
  sub_work_units :: u32

record ('b, 'c) TaskBackend =
  tb_submit :: "'c \<Rightarrow> TaskSubmission \<Rightarrow> 'b \<Rightarrow> bool option \<times> 'b"
  tb_poll :: "TaskId \<Rightarrow> 'b \<Rightarrow> TaskStatus option"
  tb_cancel :: "TaskId \<Rightarrow> 'b \<Rightarrow> bool \<times> 'b"

datatype ExecutorStepStatus =
    Step_kIdle
  | Step_kSubmitted
  | Step_kPending
  | Step_kCompleted
  | Step_kFailed
  | Step_kCancelled
  | Step_kBackendError

record ExecutorStepResult =
  step_status :: ExecutorStepStatus
  step_task_id :: "TaskId option"

record 'b TaskExecutor =
  ex_scheduler :: Scheduler
  ex_backend :: 'b
  active_task_id :: "TaskId option"

section \<open>The executor\<close>

definition TaskExecutor_new :: "Scheduler \<Rightarrow> 'b \<Rightarrow> 'b TaskExecutor" where
  "TaskExecutor_new s b = \<lparr>ex_scheduler = s, ex_backend = b, active_task_id = None\<rparr>"

definition step_result :: "ExecutorStepStatus \<Rightarrow> TaskId option \<Rightarrow> ExecutorStepResult" where
  "step_result st i = \<lparr>step_status = st, step_task_id = i\<rparr>"

text \<open>The part of \<open>step\<close> without an active task.\<close>

definition executor_submit ::
  "('b, 'c) TaskBackend \<Rightarrow> 'c \<Rightarrow> dispatch_fault option \<Rightarrow> time_ns \<Rightarrow> 'b TaskExecutor \<Rightarrow>
   ExecutorStepResult \<times> 'b TaskExecutor" where
  "executor_submit B c f now e =
     (case Scheduler_dispatch_next f now (ex_scheduler e) of
        (None, s) \<Rightarrow> (step_result Step_kIdle None, e\<lparr>ex_scheduler := s\<rparr>)
      | (Some sn, s) \<Rightarrow>
          let i = snap_task_id sn;
              (answer, b) = tb_submit B c \<lparr>sub_task_id = i, sub_work_units = snap_work_units sn\<rparr> (ex_backend e);
              e1 = e\<lparr>ex_scheduler := s, ex_backend := b\<rparr>;
              submitted = (case answer of None \<Rightarrow> False | Some ok \<Rightarrow> ok)
          in if \<not> submitted
             then (case Scheduler_fail now i s of
               (failed, s') \<Rightarrow>
                 (step_result Step_kBackendError (Some i),
                  e1\<lparr>ex_scheduler := s', active_task_id := (if failed then active_task_id e1 else Some i)\<rparr>))
             else (step_result Step_kSubmitted (Some i), e1\<lparr>active_task_id := Some i\<rparr>))"

text \<open>A terminal report: the scheduler transition has to succeed before the task is dropped.\<close>

definition executor_finish ::
  "bool \<times> Scheduler \<Rightarrow> ExecutorStepStatus \<Rightarrow> TaskId \<Rightarrow> 'b TaskExecutor \<Rightarrow> ExecutorStepResult \<times> 'b TaskExecutor" where
  "executor_finish r st i e =
     (case r of (ok, s) \<Rightarrow>
        if \<not> ok then (step_result Step_kBackendError (Some i), e\<lparr>ex_scheduler := s\<rparr>)
        else (step_result st (Some i), e\<lparr>ex_scheduler := s, active_task_id := None\<rparr>))"

definition executor_poll ::
  "('b, 'c) TaskBackend \<Rightarrow> time_ns \<Rightarrow> TaskId \<Rightarrow> 'b TaskExecutor \<Rightarrow> ExecutorStepResult \<times> 'b TaskExecutor" where
  "executor_poll B now i e =
     (case (case tb_poll B i (ex_backend e) of None \<Rightarrow> TaskStatus_kUnknown | Some st \<Rightarrow> st) of
        TaskStatus_kPending \<Rightarrow> (step_result Step_kPending (Some i), e)
      | TaskStatus_kCompleted \<Rightarrow> executor_finish (Scheduler_complete now i (ex_scheduler e)) Step_kCompleted i e
      | TaskStatus_kFailed \<Rightarrow> executor_finish (Scheduler_fail now i (ex_scheduler e)) Step_kFailed i e
      | TaskStatus_kCancelled \<Rightarrow> executor_finish (Scheduler_cancel now i (ex_scheduler e)) Step_kCancelled i e
      | TaskStatus_kUnknown \<Rightarrow> executor_finish (Scheduler_fail now i (ex_scheduler e)) Step_kBackendError i e
      | TaskStatus_unlisted \<Rightarrow> (step_result Step_kBackendError (Some i), e))"

definition executor_step ::
  "('b, 'c) TaskBackend \<Rightarrow> 'c \<Rightarrow> dispatch_fault option \<Rightarrow> time_ns \<Rightarrow> 'b TaskExecutor \<Rightarrow>
   ExecutorStepResult \<times> 'b TaskExecutor" where
  "executor_step B c f now e =
     (case active_task_id e of
        None \<Rightarrow> executor_submit B c f now e
      | Some i \<Rightarrow> executor_poll B now i e)"

definition active_task :: "'b TaskExecutor \<Rightarrow> TaskId option" where
  "active_task e = active_task_id e"

section \<open>The simulated backend\<close>

record SimTaskRecord =
  sim_status :: TaskStatus
  remaining_steps :: u32

record SimulatedBackend =
  completion_steps :: u32
  sim_tasks :: "(TaskId \<times> SimTaskRecord) list"

definition SimulatedBackend_new :: "u32 \<Rightarrow> SimulatedBackend" where
  "SimulatedBackend_new n = \<lparr>completion_steps = (if n = 0 then 1 else n), sim_tasks = []\<rparr>"

text \<open>The context of a submission says whether the insertion runs out of memory.\<close>

definition sim_submit :: "bool \<Rightarrow> TaskSubmission \<Rightarrow> SimulatedBackend \<Rightarrow> bool option \<times> SimulatedBackend" where
  "sim_submit alloc_fails sub b =
     (if sub_task_id sub = 0 \<or> sub_work_units sub = 0 \<or> map_of (sim_tasks b) (sub_task_id sub) \<noteq> None
      then (Some False, b)
      else if alloc_fails then (Some False, b)
      else (Some True,
            b\<lparr>sim_tasks := snd (umap_emplace (sub_task_id sub)
                 \<lparr>sim_status = TaskStatus_kPending, remaining_steps = completion_steps b\<rparr> (sim_tasks b))\<rparr>))"

definition sim_poll :: "TaskId \<Rightarrow> SimulatedBackend \<Rightarrow> TaskStatus option" where
  "sim_poll i b =
     (case map_of (sim_tasks b) i of None \<Rightarrow> Some TaskStatus_kUnknown | Some t \<Rightarrow> Some (sim_status t))"

definition sim_cancel :: "TaskId \<Rightarrow> SimulatedBackend \<Rightarrow> bool \<times> SimulatedBackend" where
  "sim_cancel i b =
     (case map_of (sim_tasks b) i of
        None \<Rightarrow> (False, b)
      | Some t \<Rightarrow>
          if sim_status t \<noteq> TaskStatus_kPending then (False, b)
          else (True, b\<lparr>sim_tasks := AList.update i (t\<lparr>sim_status := TaskStatus_kCancelled\<rparr>) (sim_tasks b)\<rparr>))"

definition sim_advance_task :: "SimTaskRecord \<Rightarrow> SimTaskRecord" where
  "sim_advance_task t =
     (if sim_status t \<noteq> TaskStatus_kPending then t
      else let t1 = t\<lparr>remaining_steps := remaining_steps t - 1\<rparr>
           in if remaining_steps t1 = 0 then t1\<lparr>sim_status := TaskStatus_kCompleted\<rparr> else t1)"

definition sim_advance :: "SimulatedBackend \<Rightarrow> SimulatedBackend" where
  "sim_advance b = b\<lparr>sim_tasks := map (\<lambda>(i, t). (i, sim_advance_task t)) (sim_tasks b)\<rparr>"

definition active_task_count :: "SimulatedBackend \<Rightarrow> nat" where
  "active_task_count b = length (filter (\<lambda>(_, t). sim_status t = TaskStatus_kPending) (sim_tasks b))"

definition simulated_backend :: "(SimulatedBackend, bool) TaskBackend" where
  "simulated_backend = \<lparr>tb_submit = sim_submit, tb_poll = sim_poll, tb_cancel = sim_cancel\<rparr>"

section \<open>The contract of a backend\<close>

text \<open>
  An accepted submission is pending, a refused one leaves the backend alone, polling always
  answers, and cancelling is possible exactly while the task is pending.
\<close>

locale task_backend =
  fixes B :: "('b, 'c) TaskBackend"
  assumes submit_accepted_pending: "tb_submit B c sub b = (Some True, b') \<Longrightarrow>
      tb_poll B (sub_task_id sub) b' = Some TaskStatus_kPending"
    and submit_frame: "tb_submit B c sub b = (r, b') \<Longrightarrow> i \<noteq> sub_task_id sub \<Longrightarrow> tb_poll B i b' = tb_poll B i b"
    and submit_refused: "tb_submit B c sub b = (r, b') \<Longrightarrow> r \<noteq> Some True \<Longrightarrow> b' = b"
    and cancel_pending: "fst (tb_cancel B i b) \<longleftrightarrow> tb_poll B i b = Some TaskStatus_kPending"
    and cancel_reported: "tb_cancel B i b = (True, b') \<Longrightarrow> tb_poll B i b' = Some TaskStatus_kCancelled"
begin

lemma submitted_then_pending:
  assumes "executor_step B c f now e = (r, e')" and "step_status r = Step_kSubmitted"
  shows "\<exists>i. step_task_id r = Some i \<and> active_task_id e' = Some i \<and> tb_poll B i (ex_backend e') = Some TaskStatus_kPending \<and>
    executor_step B c' f' now' e' = (step_result Step_kPending (Some i), e')"
proof -
  have n: "active_task_id e = None"
    using assms by (auto simp: executor_step_def executor_poll_def executor_finish_def step_result_def
        split: option.splits TaskStatus.splits prod.splits if_splits)
  obtain ro s where d: "Scheduler_dispatch_next f now (ex_scheduler e) = (ro, s)"
    by (cases "Scheduler_dispatch_next f now (ex_scheduler e)")
  obtain sn where ro: "ro = Some sn"
    using assms n d by (cases ro) (auto simp: executor_step_def executor_submit_def step_result_def)
  let ?sub = "\<lparr>sub_task_id = snap_task_id sn, sub_work_units = snap_work_units sn\<rparr>"
  obtain ans b where s: "tb_submit B c ?sub (ex_backend e) = (ans, b)"
    by (cases "tb_submit B c ?sub (ex_backend e)")
  have ans: "ans = Some True"
    using assms n d ro s
    by (auto simp: executor_step_def executor_submit_def step_result_def Let_def split: option.splits if_splits prod.splits)
  have poll: "tb_poll B (snap_task_id sn) b = Some TaskStatus_kPending"
    using submit_accepted_pending [OF s [unfolded ans]] by simp
  have "e' = e\<lparr>ex_scheduler := s, ex_backend := b, active_task_id := Some (snap_task_id sn)\<rparr>"
    "r = step_result Step_kSubmitted (Some (snap_task_id sn))"
    using assms n d ro s ans by (simp_all add: executor_step_def executor_submit_def Let_def)
  with poll show ?thesis by (simp add: executor_step_def executor_poll_def step_result_def)
qed

end

lemma sim_submit_True:
  "sim_submit f sub b = (Some True, b') \<Longrightarrow>
   map_of (sim_tasks b') = (map_of (sim_tasks b))(sub_task_id sub \<mapsto>
     \<lparr>sim_status = TaskStatus_kPending, remaining_steps = completion_steps b\<rparr>) \<and> completion_steps b' = completion_steps b"
  by (auto simp: sim_submit_def umap_emplace_def umap_contains_def split: if_splits option.splits)

lemma sim_submit_frame: "sim_submit f sub b = (r, b') \<Longrightarrow> i \<noteq> sub_task_id sub \<Longrightarrow> sim_poll i b' = sim_poll i b"
  using sim_submit_True [of f sub b b']
  by (cases "r = Some True") (auto simp: sim_submit_def sim_poll_def split: if_splits)

interpretation sim: task_backend simulated_backend
proof (unfold_locales, goal_cases)
  case (1 c sub b b')
  then show ?case using sim_submit_True [of c sub b b'] by (simp add: simulated_backend_def sim_poll_def)
next
  case (2 c sub b r b' i)
  then show ?case using sim_submit_frame [of c sub b r b' i] by (simp add: simulated_backend_def)
qed (auto simp: simulated_backend_def sim_submit_def sim_cancel_def sim_poll_def split: if_splits option.splits)

section \<open>The executor and its scheduler\<close>

text \<open>
  Runs of an executor over any backend: executor steps with whatever the backend answers, other
  components submitting, cancelling queued work, forgetting finished tasks or changing the
  reservation, and the backend changing by itself.
\<close>

fun outside_op :: "sched_op \<Rightarrow> bool" where
  "outside_op (Op_submit f now spec) = True"
| "outside_op (Op_cancel_queued i) = True"
| "outside_op (Op_forget i) = True"
| "outside_op (Op_set_reserved_slots n) = True"
| "outside_op _ = False"

inductive exec_reachable :: "('b, 'c) TaskBackend \<Rightarrow> MemoryBytes \<Rightarrow> SchedulerOptions \<Rightarrow> 'b TaskExecutor \<Rightarrow> bool"
  for B :: "('b, 'c) TaskBackend" and limit :: MemoryBytes and opts :: SchedulerOptions where
  started: "exec_reachable B limit opts (TaskExecutor_new (Scheduler_new limit opts) b)"
| worked: "exec_reachable B limit opts e \<Longrightarrow> exec_reachable B limit opts (snd (executor_step B c f now e))"
| outside: "exec_reachable B limit opts e \<Longrightarrow> outside_op op \<Longrightarrow>
    exec_reachable B limit opts (e\<lparr>ex_scheduler := run_op op (ex_scheduler e)\<rparr>)"
| backend: "exec_reachable B limit opts e \<Longrightarrow> exec_reachable B limit opts (e\<lparr>ex_backend := b\<rparr>)"

definition owns_running :: "'b TaskExecutor \<Rightarrow> bool" where
  "owns_running e \<longleftrightarrow>
     (\<forall>i. Scheduler_task_state i (ex_scheduler e) = Some TaskState_kRunning \<longleftrightarrow> active_task_id e = Some i)"

lemma outside_running:
  assumes inv: "sched_inv s" and "outside_op op"
  shows "Scheduler_task_state i (run_op op s) = Some TaskState_kRunning \<longleftrightarrow>
    Scheduler_task_state i s = Some TaskState_kRunning"
proof (cases op)
  case (Op_submit f now spec)
  obtain res s' where "Scheduler_submit f now spec s = (res, s')" by (cases "Scheduler_submit f now spec s")
  with submit_step [OF inv this] Op_submit show ?thesis by (cases "accepted res") (auto simp: Scheduler_task_state_def)
next
  case (Op_cancel_queued j)
  with cancel_queued_step [OF inv, of j] show ?thesis by (auto split: if_splits)
next
  case (Op_forget j)
  have "tasks (snd (Scheduler_forget j s)) = tasks s \<or>
      Scheduler_task_state j s \<noteq> Some TaskState_kRunning \<and> tasks (snd (Scheduler_forget j s)) = AList.delete j (tasks s)"
    by (auto simp: Scheduler_forget_def Scheduler_task_state_def Let_def split: option.splits if_splits)
  with Op_forget show ?thesis by (auto simp: Scheduler_task_state_def delete_conv split: if_splits)
next
  case (Op_set_reserved_slots n)
  then show ?thesis by (simp add: Scheduler_set_priority_reserved_slots_def Scheduler_task_state_def)
qed (use assms in simp_all)

lemma finish_owns:
  assumes own: "owns_running e" "active_task_id e = Some i"
    and r: "fst r" "\<forall>j. Scheduler_task_state j (snd r) = (if j = i then Some terminal else Scheduler_task_state j (ex_scheduler e))"
    and tm: "terminal \<noteq> TaskState_kRunning"
  shows "owns_running (snd (executor_finish r st i e))"
  proof (cases r)
  case (Pair ok s)
  have "Scheduler_task_state j s \<noteq> Some TaskState_kRunning" for j
    using own r(2) tm Pair by (cases "j = i") (auto simp: owns_running_def)
  with r(1) Pair show ?thesis by (simp add: owns_running_def executor_finish_def)
qed

lemma executor_step_owns:
  assumes inv: "sched_inv (ex_scheduler e)" and own: "owns_running e"
  shows "owns_running (snd (executor_step B c f now e))"
proof (cases "active_task_id e")
  case (Some i)
  have run: "Scheduler_task_state i (ex_scheduler e) = Some TaskState_kRunning"
    using own Some by (simp add: owns_running_def)
  note fin = finish_owns [OF own Some]
  have "owns_running (snd (executor_finish (Scheduler_complete now i (ex_scheduler e)) st i e))" for st
    by (rule fin [where terminal = TaskState_kCompleted]) (use complete_step [OF inv, of i now] run in simp_all)
  moreover have "owns_running (snd (executor_finish (Scheduler_fail now i (ex_scheduler e)) st i e))" for st
    by (rule fin [where terminal = TaskState_kFailed]) (use fail_step [OF inv, of i now] run in simp_all)
  moreover have "owns_running (snd (executor_finish (Scheduler_cancel now i (ex_scheduler e)) st i e))" for st
    by (rule fin [where terminal = TaskState_kCancelled]) (use cancel_step [OF inv, of i now] run in simp_all)
  ultimately show ?thesis
    using own Some by (simp add: executor_step_def executor_poll_def split: option.splits TaskStatus.splits)
next
  case None
  then have none: "Scheduler_task_state i (ex_scheduler e) \<noteq> Some TaskState_kRunning" for i
    using own by (simp add: owns_running_def)
  obtain ro s where d: "Scheduler_dispatch_next f now (ex_scheduler e) = (ro, s)"
    by (cases "Scheduler_dispatch_next f now (ex_scheduler e)")
  have invs: "sched_inv s"
    using lifecycle_inv [OF dispatch_next_effect [OF inv d] inv] .
  show ?thesis
  proof (cases ro)
    case None
    with dispatch_next_step [OF inv d] have "idle_states (ex_scheduler e) s" by simp
    then have "Scheduler_task_state i s \<noteq> Some TaskState_kRunning" for i
      using none [of i] by (auto simp: idle_states_def dest: spec [of _ i])
    with None \<open>active_task_id e = None\<close> d show ?thesis
      by (simp add: executor_step_def executor_submit_def owns_running_def)
  next
    case (Some sn)
    let ?i = "snap_task_id sn"
    have st: "Scheduler_task_state j s =
        (if j = ?i then Some TaskState_kRunning else Scheduler_task_state j (ex_scheduler e))" for j
      using dispatch_next_step [OF inv d] Some by (simp add: dispatched_states_def)
    have fl: "fst (Scheduler_fail now ?i s)"
      "Scheduler_task_state j (snd (Scheduler_fail now ?i s)) \<noteq> Some TaskState_kRunning" for j
      using fail_step [OF invs, of ?i now] st none by simp_all
    show ?thesis
      using Some \<open>active_task_id e = None\<close> d st none fl
      by (auto simp: executor_step_def executor_submit_def owns_running_def Let_def split: prod.splits)
  qed
qed

lemma executor_finish_scheduler [simp]: "ex_scheduler (snd (executor_finish r st i e)) = snd r"
  by (simp add: executor_finish_def case_prod_beta)

lemma executor_step_reachable:
  assumes r: "sched_reachable limit opts (ex_scheduler e)"
  shows "sched_reachable limit opts (ex_scheduler (snd (executor_step B c f now e)))"
proof (cases "active_task_id e")
  case (Some i)
  have "sched_reachable limit opts (snd (Scheduler_complete now i (ex_scheduler e)))"
    "sched_reachable limit opts (snd (Scheduler_fail now i (ex_scheduler e)))"
    "sched_reachable limit opts (snd (Scheduler_cancel now i (ex_scheduler e)))"
    using sched_reachable.stepped [OF r, of "Op_complete now i"] sched_reachable.stepped [OF r, of "Op_fail now i"]
      sched_reachable.stepped [OF r, of "Op_cancel now i"] by simp_all
  with r Some show ?thesis
    by (simp add: executor_step_def executor_poll_def split: option.split TaskStatus.split)
next
  case None
  obtain ro s where d: "Scheduler_dispatch_next f now (ex_scheduler e) = (ro, s)"
    by (cases "Scheduler_dispatch_next f now (ex_scheduler e)")
  then have s: "sched_reachable limit opts s"
    using sched_reachable.stepped [OF r, of "Op_dispatch_next f now"] by simp
  then have "sched_reachable limit opts (snd (Scheduler_fail now i s))" for i
    using sched_reachable.stepped [OF s, of "Op_fail now i"] by simp
  with s None d show ?thesis
    by (cases ro) (simp_all add: executor_step_def executor_submit_def Let_def case_prod_beta)
qed

lemma exec_reachable_owns:
  "exec_reachable B limit opts e \<Longrightarrow> sched_reachable limit opts (ex_scheduler e) \<and> owns_running e"
proof (induction rule: exec_reachable.induct)
  case (started b)
  have "Scheduler_task_state i (Scheduler_new limit opts) = None" for i
    by (simp add: Scheduler_new_def Scheduler_task_state_def)
  then show ?case by (simp add: TaskExecutor_new_def owns_running_def sched_reachable.created)
next
  case (worked e c f now)
  then have r: "sched_reachable limit opts (ex_scheduler e)" "owns_running e" by simp_all
  show ?case by (intro conjI executor_step_reachable [OF r(1)] executor_step_owns [OF reachable_inv [OF r(1)] r(2)])
next
  case (outside e op)
  then have "sched_inv (ex_scheduler e)" using reachable_inv by blast
  with outside show ?case by (simp add: owns_running_def outside_running sched_reachable.stepped)
qed (simp add: owns_running_def)

lemma sim_advance_lookup:
  "map_of (sim_tasks (sim_advance b)) i = map_option sim_advance_task (map_of (sim_tasks b) i)"
  by (simp add: sim_advance_def map_of_map)

lemma sim_advance_pending:
  assumes "map_of (sim_tasks b) i = Some \<lparr>sim_status = TaskStatus_kPending, remaining_steps = n\<rparr>" and "n \<noteq> 0"
  shows "sim_poll i ((sim_advance ^^ k) b) = Some (if k < unat n then TaskStatus_kPending else TaskStatus_kCompleted)"
proof -
  have "map_of (sim_tasks ((sim_advance ^^ k) b)) i =
      Some (if k < unat n then \<lparr>sim_status = TaskStatus_kPending, remaining_steps = n - of_nat k\<rparr>
            else \<lparr>sim_status = TaskStatus_kCompleted, remaining_steps = 0\<rparr>)"
  proof (induction k)
    case 0
    then show ?case using assms by (simp add: unat_gt_0)
  next
    case (Suc k)
    show ?case
    proof (cases "k < unat n")
      case True
      have z: "n - of_nat k - 1 = 0 \<longleftrightarrow> Suc k = unat n"
      proof -
        have "Suc k < 2 ^ LENGTH(32)" using True unsigned_less [where ?'a = nat, of n] by simp
        then have u: "unat (of_nat (Suc k) :: u32) = Suc k" by (simp only: unat_of_nat mod_less)
        have "n - of_nat k - 1 = n - of_nat (Suc k)" by (simp add: algebra_simps)
        then have "n - of_nat k - 1 = 0 \<longleftrightarrow> n = of_nat (Suc k)" by (simp only: right_minus_eq)
        also have "\<dots> \<longleftrightarrow> unat n = Suc k" by (simp only: word_unat_eq_iff u)
        finally show ?thesis by auto
      qed
      with True Suc show ?thesis
        by (auto simp: sim_advance_lookup sim_advance_task_def Let_def algebra_simps)
    next
      case False
      with Suc show ?thesis by (simp add: sim_advance_lookup sim_advance_task_def)
    qed
  qed
  then show ?thesis by (simp add: sim_poll_def)
qed

lemma submitted_record_sim:
  assumes "executor_step simulated_backend c f now e = (r, e1)" and "step_status r = Step_kSubmitted"
    and "step_task_id r = Some i"
  shows "map_of (sim_tasks (ex_backend e1)) i =
    Some \<lparr>sim_status = TaskStatus_kPending, remaining_steps = completion_steps (ex_backend e)\<rparr>"
proof -
  have n: "active_task_id e = None"
    using assms(1,2) by (auto simp: executor_step_def executor_poll_def executor_finish_def step_result_def
        split: option.splits TaskStatus.splits prod.splits if_splits)
  obtain sn s where d: "Scheduler_dispatch_next f now (ex_scheduler e) = (Some sn, s)"
    using assms(1,2) n by (auto simp: executor_step_def executor_submit_def step_result_def split: prod.splits option.splits)
  let ?sub = "\<lparr>sub_task_id = snap_task_id sn, sub_work_units = snap_work_units sn\<rparr>"
  obtain ans b where sb: "sim_submit c ?sub (ex_backend e) = (ans, b)" by (cases "sim_submit c ?sub (ex_backend e)")
  have "ans = Some True"
    using assms(1,2) n d sb by (auto simp: executor_step_def executor_submit_def simulated_backend_def step_result_def Let_def
        split: option.splits if_splits prod.splits)
  moreover from this assms n d sb have "ex_backend e1 = b" "i = snap_task_id sn"
    by (auto simp: executor_step_def executor_submit_def simulated_backend_def step_result_def Let_def)
  ultimately show ?thesis using sim_submit_True [of c ?sub "ex_backend e" b] sb by simp
qed

section \<open>Properties of the executor\<close>

text \<open>
  C18. The executor never orphans a task. Over any backend, whatever it answers and whether or not
  it throws, the running tasks of the scheduler are exactly the active task of the executor: none
  without an active task, that one otherwise. The scheduler stays in a reachable state.
\<close>

theorem executor_owns_running:
  assumes "exec_reachable B limit opts e"
  shows "sched_reachable limit opts (ex_scheduler e) \<and>
    set (running_task_ids (ex_scheduler e)) = set_option (active_task e)"
proof -
  note r = exec_reachable_owns [OF assms]
  then have "sched_inv (ex_scheduler e)" using reachable_inv by blast
  then have "i \<in> set (running_task_ids (ex_scheduler e)) \<longleftrightarrow> active_task_id e = Some i" for i
    using r by (simp add: running_iff_state owns_running_def)
  then have "set (running_task_ids (ex_scheduler e)) = set_option (active_task e)"
    by (auto simp: active_task_def set_eq_iff elem_set)
  with r show ?thesis by simp
qed

text \<open>
  On the simulated backend a submitted task is completed after exactly the configured number of
  advances. Before that, a step reports the task as pending and changes nothing; from then on, a
  step reports it as completed, completes it in the scheduler and frees the executor.
\<close>

theorem executor_completes_simulated:
  assumes "exec_reachable simulated_backend limit opts e"
    and "executor_step simulated_backend c f now e = (r, e1)" and "step_status r = Step_kSubmitted"
    and "completion_steps (ex_backend e) \<noteq> 0"
  shows "\<exists>i. step_task_id r = Some i \<and>
    (\<forall>k c' f' now'. let e2 = e1\<lparr>ex_backend := (sim_advance ^^ k) (ex_backend e1)\<rparr>;
         (r', e3) = executor_step simulated_backend c' f' now' e2
       in if k < unat (completion_steps (ex_backend e)) then r' = step_result Step_kPending (Some i) \<and> e3 = e2
          else r' = step_result Step_kCompleted (Some i) \<and> active_task e3 = None \<and>
            Scheduler_task_state i (ex_scheduler e3) = Some TaskState_kCompleted)"
proof -
  obtain i where i: "step_task_id r = Some i" "active_task_id e1 = Some i"
    using sim.submitted_then_pending [OF assms(2,3)] by blast
  have rec: "map_of (sim_tasks (ex_backend e1)) i =
      Some \<lparr>sim_status = TaskStatus_kPending, remaining_steps = completion_steps (ex_backend e)\<rparr>"
    by (rule submitted_record_sim [OF assms(2,3) i(1)])
  have "exec_reachable simulated_backend limit opts e1"
    using exec_reachable.worked [OF assms(1), of c f now] assms(2) by simp
  note own = exec_reachable_owns [OF this]
  then have inv: "sched_inv (ex_scheduler e1)" using reachable_inv by blast
  have run: "Scheduler_task_state i (ex_scheduler e1) = Some TaskState_kRunning"
    using own i by (simp add: owns_running_def)
  have poll: "tb_poll simulated_backend i ((sim_advance ^^ k) (ex_backend e1)) =
      Some (if k < unat (completion_steps (ex_backend e)) then TaskStatus_kPending else TaskStatus_kCompleted)" for k
    using sim_advance_pending [OF rec assms(4)] by (simp add: simulated_backend_def)
  have fin: "fst (Scheduler_complete now' i (ex_scheduler e1))"
    "Scheduler_task_state i (snd (Scheduler_complete now' i (ex_scheduler e1))) = Some TaskState_kCompleted" for now'
    using complete_step [OF inv, of i now'] run by simp_all
  show ?thesis
    using i fin by (simp add: executor_step_def executor_poll_def poll executor_finish_def active_task_def Let_def
        case_prod_beta)
qed

definition exec_demo :: "SimulatedBackend TaskExecutor" where
  "exec_demo =
     (let e = TaskExecutor_new (Scheduler_new 100 (demo_opts kFifo)) (SimulatedBackend_new 2)
      in e\<lparr>ex_scheduler := run_op (Op_submit None 0 (demo_spec ''a'' 10 1 3 1)) (ex_scheduler e)\<rparr>)"

lemma exec_demo_reachable: "exec_reachable simulated_backend 100 (demo_opts kFifo) exec_demo"
  unfolding exec_demo_def Let_def
  by (rule exec_reachable.outside [OF exec_reachable.started]) simp

theorem executor_owns_running_witness:
  "set (running_task_ids (ex_scheduler (snd (executor_step simulated_backend False None 5 exec_demo)))) = {1}"
proof -
  have "active_task (snd (executor_step simulated_backend False None 5 exec_demo)) = Some 1" by code_simp
  with executor_owns_running [OF exec_reachable.worked [OF exec_demo_reachable, of False None 5]]
  show ?thesis by simp
qed

theorem executor_completes_simulated_witness:
  "\<exists>i e1. executor_step simulated_backend False None 5 exec_demo = (step_result Step_kSubmitted (Some i), e1) \<and>
    Scheduler_task_state i (ex_scheduler (snd (executor_step simulated_backend False None 9
       (e1\<lparr>ex_backend := (sim_advance ^^ 2) (ex_backend e1)\<rparr>)))) = Some TaskState_kCompleted"
proof -
  obtain r e1 where x: "executor_step simulated_backend False None 5 exec_demo = (r, e1)"
    by (cases "executor_step simulated_backend False None 5 exec_demo")
  have "fst (executor_step simulated_backend False None 5 exec_demo) = step_result Step_kSubmitted (Some 1)"
    "completion_steps (ex_backend exec_demo) = 2" by code_simp+
  then have r: "r = step_result Step_kSubmitted (Some 1)" "step_status r = Step_kSubmitted" "step_task_id r = Some 1"
    "completion_steps (ex_backend exec_demo) \<noteq> 0" "\<not> 2 < unat (completion_steps (ex_backend exec_demo))"
    using x by (simp_all add: step_result_def)
  note all = executor_completes_simulated [OF exec_demo_reachable x r(2,4), unfolded r(3) option.inject simp_thms,
      THEN spec [of _ 2], THEN spec [of _ False], THEN spec [of _ None], THEN spec [of _ 9]]
  then have "Scheduler_task_state 1 (ex_scheduler (snd (executor_step simulated_backend False None 9
       (e1\<lparr>ex_backend := (sim_advance ^^ 2) (ex_backend e1)\<rparr>)))) = Some TaskState_kCompleted"
    unfolding Let_def case_prod_beta using r(5) by simp
  with x r(1) show ?thesis by blast
qed

end
