(* ===== verification/TaskAdmission.thy ===== *)
theory TaskAdmission
  imports SchedulerSteps
begin

text \<open>
  The admission service of \<^verbatim>\<open>src/src/control/task_admission.cc\<close>: it submits tasks to a
  scheduler, binds them to the process that submitted them, hands out leases, and reclaims the
  leases that expire. Every method takes the admission mutex, so it is a function from the
  service state to its result and the new state. What a call reads from outside is in its
  environment: the clock readings in the order of the source, and the allocation failures the
  source catches. The calls of the two observers are recorded in order in \<open>observations\<close>.
  Time points are integers, so that the sum of a time point and a timeout is exact.
\<close>

section \<open>Data\<close>

record TaskAdmissionRequest =
  req_tenant_id :: TenantId
  req_memory_bytes :: MemoryBytes
  req_weight :: u32
  req_work_units :: u32
  req_priority :: u32

record TaskPeerIdentity =
  peer_pid :: u32
  peer_uid :: u32
  peer_start_time_ticks :: u64

record TaskDispatchObservation =
  dobs_task :: TaskSnapshot
  dobs_sequence :: u64
  dispatched_at_nanoseconds :: u64

record TaskCompletionObservation =
  cobs_task :: TaskSnapshot
  cobs_terminal_state :: TaskState
  queue_wait_microseconds :: u64
  service_time_microseconds :: u64

datatype observation =
    Dispatched TaskDispatchObservation
  | Completed TaskCompletionObservation

record LeaseRecord =
  lease_deadline :: time_ns
  lease_submitted_at :: time_ns
  lease_started_at :: time_ns
  lease_reaping :: bool
  lease_owner :: "TaskPeerIdentity option"

record TaskAdmissionService =
  ta_scheduler :: Scheduler
  lease_timeout :: int
  bind_leases_to_process :: bool
  dispatch_observer :: bool
  completion_observer :: bool
  state_generation :: u64
  active_leases :: "(TaskId \<times> LeaseRecord) list"
  pending_leases :: "(TaskId \<times> LeaseRecord) list"
  observations :: "observation list"

text \<open>
  The environment of a call. \<open>at_scheduler\<close>, \<open>at_lease\<close>, \<open>at_retry\<close> and \<open>at_observer\<close> are the
  clock readings of the scheduler, of the lease bookkeeping, of the second reading of
  \<open>reap_expired\<close> and of the observers.
\<close>

record adm_env =
  at_scheduler :: time_ns
  at_lease :: time_ns
  at_retry :: time_ns
  at_observer :: time_ns
  env_submit_fault :: "submit_fault option"
  env_dispatch_fault :: "dispatch_fault option"
  env_lease_fails :: bool
  env_observation_fails :: bool

section \<open>Helpers\<close>

definition time_point_max :: time_ns where
  "time_point_max = 9223372036854775807"

definition milliseconds :: "int \<Rightarrow> time_ns" where
  "milliseconds t = t * 1000000"

definition valid_peer_identity :: "TaskPeerIdentity option \<Rightarrow> bool" where
  "valid_peer_identity p =
     (case p of None \<Rightarrow> False | Some q \<Rightarrow> peer_pid q \<noteq> 0 \<and> peer_start_time_ticks q \<noteq> 0)"

definition elapsed_microseconds :: "time_ns \<Rightarrow> time_ns \<Rightarrow> u64" where
  "elapsed_microseconds start_at end_at =
     (if start_at = 0 \<or> end_at \<le> start_at then 0
      else let elapsed = (end_at - start_at) div 1000 in if elapsed \<le> 0 then 0 else word_of_int elapsed)"

definition TaskAdmissionService_new ::
  "Scheduler \<Rightarrow> int \<Rightarrow> bool \<Rightarrow> bool \<Rightarrow> bool \<Rightarrow> TaskAdmissionService" where
  "TaskAdmissionService_new s timeout bound dobs cobs =
     \<lparr>ta_scheduler = s, lease_timeout = (if timeout > 0 then timeout else 0),
      bind_leases_to_process = bound, dispatch_observer = dobs, completion_observer = cobs,
      state_generation = 0, active_leases = [], pending_leases = [], observations = []\<rparr>"

definition notify_state_change :: "TaskAdmissionService \<Rightarrow> TaskAdmissionService" where
  "notify_state_change svc =
     (if state_generation svc \<noteq> u64_max then svc\<lparr>state_generation := state_generation svc + 1\<rparr> else svc)"

definition notify_scheduler_change :: "TaskAdmissionService \<Rightarrow> TaskAdmissionService" where
  "notify_scheduler_change svc = notify_state_change svc"

definition owner_matches ::
  "TaskAdmissionService \<Rightarrow> LeaseRecord \<Rightarrow> TaskPeerIdentity option \<Rightarrow> bool" where
  "owner_matches svc l p =
     (if \<not> bind_leases_to_process svc then True
      else valid_peer_identity p \<and> valid_peer_identity (lease_owner l) \<and> p = lease_owner l)"

definition pending_owner_matches ::
  "TaskAdmissionService \<Rightarrow> TaskId \<Rightarrow> TaskPeerIdentity option \<Rightarrow> bool" where
  "pending_owner_matches svc i p =
     (if \<not> bind_leases_to_process svc then True
      else (case map_of (pending_leases svc) i of
        None \<Rightarrow> False
      | Some l \<Rightarrow> \<not> lease_reaping l \<and> owner_matches svc l p))"

definition tracks_leases :: "TaskAdmissionService \<Rightarrow> bool" where
  "tracks_leases svc \<longleftrightarrow> bind_leases_to_process svc \<or> lease_timeout svc \<noteq> 0 \<or> completion_observer svc"

definition unbound_without_timeout :: "TaskAdmissionService \<Rightarrow> bool" where
  "unbound_without_timeout svc \<longleftrightarrow> \<not> bind_leases_to_process svc \<and> lease_timeout svc = 0"

definition deadline_from :: "TaskAdmissionService \<Rightarrow> time_ns \<Rightarrow> time_ns" where
  "deadline_from svc t =
     (if lease_timeout svc = 0 then time_point_max else t + milliseconds (lease_timeout svc))"

definition scheduler_fail_ignored :: "time_ns \<Rightarrow> TaskId \<Rightarrow> TaskAdmissionService \<Rightarrow> TaskAdmissionService" where
  "scheduler_fail_ignored now i svc = svc\<lparr>ta_scheduler := snd (Scheduler_fail now i (ta_scheduler svc))\<rparr>"

definition scheduler_cancel_ignored :: "time_ns \<Rightarrow> TaskId \<Rightarrow> TaskAdmissionService \<Rightarrow> TaskAdmissionService" where
  "scheduler_cancel_ignored now i svc = svc\<lparr>ta_scheduler := snd (Scheduler_cancel now i (ta_scheduler svc))\<rparr>"

section \<open>Observers\<close>

definition observe_dispatch :: "adm_env \<Rightarrow> TaskSnapshot \<Rightarrow> TaskAdmissionService \<Rightarrow> TaskAdmissionService" where
  "observe_dispatch env sn svc =
     (if \<not> dispatch_observer svc \<or> env_observation_fails env then svc
      else svc\<lparr>observations := observations svc @
             [Dispatched \<lparr>dobs_task = sn, dobs_sequence = snap_dispatch_sequence sn,
                dispatched_at_nanoseconds =
                  (if at_observer env \<le> 0 then 0 else word_of_int (at_observer env))\<rparr>]\<rparr>)"

definition observe_completion ::
  "adm_env \<Rightarrow> TaskSnapshot \<Rightarrow> TaskState \<Rightarrow> LeaseRecord option \<Rightarrow> TaskAdmissionService \<Rightarrow> TaskAdmissionService" where
  "observe_completion env sn terminal lease svc =
     (if \<not> completion_observer svc \<or> env_observation_fails env then svc
      else svc\<lparr>observations := observations svc @
             [Completed \<lparr>cobs_task = sn, cobs_terminal_state = terminal,
                queue_wait_microseconds =
                  (case lease of None \<Rightarrow> 0 | Some l \<Rightarrow> elapsed_microseconds (lease_submitted_at l) (lease_started_at l)),
                service_time_microseconds =
                  (case lease of None \<Rightarrow> 0 | Some l \<Rightarrow> elapsed_microseconds (lease_started_at l) (at_observer env))\<rparr>]\<rparr>)"

section \<open>Submission and cancellation\<close>

text \<open>\<open>registrar\<close> is the callback of the caller: absent, or a function of the task id.\<close>

definition request_spec :: "TaskAdmissionRequest \<Rightarrow> TaskSpec" where
  "request_spec req =
     \<lparr>spec_tenant_id = req_tenant_id req, spec_memory_bytes = req_memory_bytes req,
      spec_weight = req_weight req, spec_work_units = req_work_units req, spec_priority = req_priority req\<rparr>"

definition submit_aborted ::
  "adm_env \<Rightarrow> TaskId \<Rightarrow> TaskAdmissionService \<Rightarrow> SubmitResult \<times> TaskAdmissionService" where
  "submit_aborted env i svc =
     (\<lparr>sr_status = SubmitStatus_kInternalError, sr_task_id = i\<rparr>,
      notify_state_change (scheduler_cancel_ignored (at_scheduler env) i svc))"

definition adm_submit ::
  "adm_env \<Rightarrow> (TaskId \<Rightarrow> bool) option \<Rightarrow> TaskAdmissionRequest \<Rightarrow> TaskPeerIdentity option \<Rightarrow> TaskAdmissionService \<Rightarrow>
   SubmitResult \<times> TaskAdmissionService" where
  "adm_submit env registrar req peer svc =
     (case registrar of
        None \<Rightarrow> (submit_failed SubmitStatus_kInternalError, svc)
      | Some register \<Rightarrow>
          if bind_leases_to_process svc \<and> \<not> valid_peer_identity peer
          then (submit_failed SubmitStatus_kInvalidTask, svc)
          else
            let tracks_pending_lease = tracks_leases svc;
                (admission, s) = Scheduler_submit (env_submit_fault env) (at_scheduler env) (request_spec req)
                                   (ta_scheduler svc);
                i = sr_task_id admission;
                svc1 = svc\<lparr>ta_scheduler := s\<rparr>
            in if \<not> accepted admission then (admission, svc1)
               else if register i
               then if tracks_pending_lease
                 then let submitted_at = at_lease env;
                          (recorded, leases) =
                            (if env_lease_fails env then (False, pending_leases svc1)
                             else umap_emplace i
                               \<lparr>lease_deadline = deadline_from svc1 submitted_at, lease_submitted_at = submitted_at,
                                lease_started_at = 0, lease_reaping = False, lease_owner = peer\<rparr>
                               (pending_leases svc1))
                      in if \<not> recorded then submit_aborted env i svc1
                         else (admission, svc1\<lparr>pending_leases := leases\<rparr>)
                 else (admission, svc1)
               else submit_aborted env i svc1)"

definition adm_cancel :: "adm_env \<Rightarrow> TaskId \<Rightarrow> TaskAdmissionService \<Rightarrow> bool \<times> TaskAdmissionService" where
  "adm_cancel env i svc =
     (case Scheduler_cancel (at_scheduler env) i (ta_scheduler svc) of
        (cancelled, s) \<Rightarrow>
          (cancelled,
           if cancelled
           then notify_state_change (svc\<lparr>ta_scheduler := s, active_leases := AList.delete i (active_leases svc),
                                        pending_leases := AList.delete i (pending_leases svc)\<rparr>)
           else svc\<lparr>ta_scheduler := s\<rparr>))"

definition adm_cancel_queued :: "TaskId \<Rightarrow> TaskAdmissionService \<Rightarrow> bool \<times> TaskAdmissionService" where
  "adm_cancel_queued i svc =
     (case Scheduler_cancel_queued i (ta_scheduler svc) of
        (cancelled, s) \<Rightarrow>
          (cancelled,
           if cancelled
           then notify_state_change (svc\<lparr>ta_scheduler := s, pending_leases := AList.delete i (pending_leases svc)\<rparr>)
           else svc\<lparr>ta_scheduler := s\<rparr>))"

section \<open>Claims\<close>

text \<open>A lease that cannot be recorded fails the task that was just dispatched.\<close>

definition lease_refused ::
  "adm_env \<Rightarrow> TaskId \<Rightarrow> TaskAdmissionService \<Rightarrow> TaskSnapshot option \<times> TaskAdmissionService" where
  "lease_refused env i svc = (None, notify_state_change (scheduler_fail_ignored (at_scheduler env) i svc))"

definition pending_lease_invalid ::
  "TaskAdmissionService \<Rightarrow> TaskId \<Rightarrow> TaskPeerIdentity option \<Rightarrow> bool" where
  "pending_lease_invalid svc i peer \<longleftrightarrow>
     bind_leases_to_process svc \<and>
     (case map_of (pending_leases svc) i of
        None \<Rightarrow> True
      | Some l \<Rightarrow> lease_reaping l \<or> \<not> owner_matches svc l peer)"

definition record_lease ::
  "adm_env \<Rightarrow> TaskSnapshot option \<Rightarrow> TaskPeerIdentity option \<Rightarrow> TaskAdmissionService \<Rightarrow>
   TaskSnapshot option \<times> TaskAdmissionService" where
  "record_lease env snapshot peer svc =
     (case snapshot of
        None \<Rightarrow> (None, svc)
      | Some sn \<Rightarrow>
          if \<not> tracks_leases svc then (Some sn, svc)
          else
            let i = snap_task_id sn;
                pending_owner_valid = (\<not> pending_lease_invalid svc i peer);
                submitted_at = (case map_of (pending_leases svc) i of None \<Rightarrow> 0 | Some l \<Rightarrow> lease_submitted_at l);
                svc1 = svc\<lparr>pending_leases := AList.delete i (pending_leases svc)\<rparr>
            in if \<not> pending_owner_valid then lease_refused env i svc1
               else if \<not> bind_leases_to_process svc1 \<and> map_of (active_leases svc1) i \<noteq> None then (Some sn, svc1)
               else if env_lease_fails env then lease_refused env i svc1
               else
                 let started_at = at_lease env;
                     (inserted, leases) =
                       umap_emplace i
                         \<lparr>lease_deadline = deadline_from svc1 started_at, lease_submitted_at = submitted_at,
                          lease_started_at = started_at, lease_reaping = False, lease_owner = peer\<rparr>
                         (active_leases svc1);
                     svc2 = svc1\<lparr>active_leases := leases\<rparr>
                 in if \<not> inserted \<and> \<not> bind_leases_to_process svc2 then (Some sn, svc2)
                    else if \<not> inserted then lease_refused env i svc2
                    else (Some sn, svc2))"

definition announce_dispatch ::
  "adm_env \<Rightarrow> TaskSnapshot option \<times> TaskAdmissionService \<Rightarrow> TaskSnapshot option \<times> TaskAdmissionService" where
  "announce_dispatch env r =
     (case r of
        (None, svc) \<Rightarrow> (None, svc)
      | (Some sn, svc) \<Rightarrow> (Some sn, notify_state_change (observe_dispatch env sn svc)))"

definition claim_next ::
  "adm_env \<Rightarrow> TaskPeerIdentity option \<Rightarrow> TaskAdmissionService \<Rightarrow> TaskSnapshot option \<times> TaskAdmissionService" where
  "claim_next env peer svc =
     (if bind_leases_to_process svc then (None, svc)
      else (case Scheduler_dispatch_next (env_dispatch_fault env) (at_scheduler env) (ta_scheduler svc) of
        (r, s) \<Rightarrow> announce_dispatch env (record_lease env r peer (svc\<lparr>ta_scheduler := s\<rparr>))))"

text \<open>The common end of \<open>claim\<close> and \<open>wait_claim\<close>: dispatch this task if it is next.\<close>

definition claim_dispatch ::
  "adm_env \<Rightarrow> TaskId \<Rightarrow> TaskPeerIdentity option \<Rightarrow> TaskAdmissionService \<Rightarrow>
   TaskSnapshot option \<times> TaskAdmissionService" where
  "claim_dispatch env i peer svc =
     (case Scheduler_dispatch_task (env_dispatch_fault env) (at_scheduler env) i (ta_scheduler svc) of
        (r, s) \<Rightarrow> announce_dispatch env (record_lease env r peer (svc\<lparr>ta_scheduler := s\<rparr>)))"

definition running_lease_visible ::
  "TaskAdmissionService \<Rightarrow> TaskId \<Rightarrow> TaskPeerIdentity option \<Rightarrow> bool" where
  "running_lease_visible svc i peer \<longleftrightarrow>
     (case map_of (active_leases svc) i of None \<Rightarrow> False | Some l \<Rightarrow> owner_matches svc l peer) \<or>
     unbound_without_timeout svc"

definition adm_claim ::
  "adm_env \<Rightarrow> TaskId \<Rightarrow> TaskPeerIdentity option \<Rightarrow> TaskAdmissionService \<Rightarrow>
   TaskSnapshot option \<times> TaskAdmissionService" where
  "adm_claim env i peer svc =
     (if i = 0 \<or> bind_leases_to_process svc \<and> \<not> valid_peer_identity peer then (None, svc)
      else
        let existing = Scheduler_find i (ta_scheduler svc)
        in if map_option snap_state existing = Some TaskState_kRunning
           then (if running_lease_visible svc i peer then existing else None, svc)
           else if \<not> pending_owner_matches svc i peer then (None, svc)
           else claim_dispatch env i peer svc)"

text \<open>
  One round of the loop of \<open>wait_claim\<close>, up to the point where it would wait: \<open>Some r\<close> is the
  value the loop returns, \<open>None\<close> means that it goes on to wait.
\<close>

definition wait_attempt ::
  "adm_env \<Rightarrow> TaskId \<Rightarrow> TaskPeerIdentity option \<Rightarrow> TaskAdmissionService \<Rightarrow>
   TaskSnapshot option option \<times> TaskAdmissionService" where
  "wait_attempt env i peer svc =
     (case Scheduler_find i (ta_scheduler svc) of
        None \<Rightarrow> (Some None, svc)
      | Some sn \<Rightarrow>
          if snap_state sn = TaskState_kRunning
          then (Some (if running_lease_visible svc i peer then Some sn else None), svc)
          else if snap_state sn \<noteq> TaskState_kQueued then (Some None, svc)
          else if \<not> pending_owner_matches svc i peer then (Some None, svc)
          else (case claim_dispatch env i peer svc of
            (None, svc1) \<Rightarrow> (None, svc1)
          | (Some sn1, svc1) \<Rightarrow> (Some (Some sn1), svc1)))"

text \<open>
  Between two rounds other threads run. A \<open>wait_round\<close> says what they do before the round takes
  the admission mutex and after it has released it, the environment of the round, and the clock
  reading after it. The loop returns \<open>None\<close> when the given rounds do not lead to a return: the
  thread is still waiting.
\<close>

record wait_round =
  before_attempt :: "TaskAdmissionService \<Rightarrow> TaskAdmissionService"
  round_env :: adm_env
  clock_after :: time_ns
  while_waiting :: "TaskAdmissionService \<Rightarrow> TaskAdmissionService"

fun wait_claim_loop ::
  "wait_round list \<Rightarrow> time_ns \<Rightarrow> TaskId \<Rightarrow> TaskPeerIdentity option \<Rightarrow> TaskAdmissionService \<Rightarrow>
   TaskSnapshot option option \<times> TaskAdmissionService" where
  "wait_claim_loop [] deadline i peer svc = (None, svc)"
| "wait_claim_loop (r # rs) deadline i peer svc =
     (let observed_generation = state_generation svc in
      case wait_attempt (round_env r) i peer (before_attempt r svc) of
        (Some result, svc1) \<Rightarrow> (Some result, svc1)
      | (None, svc1) \<Rightarrow>
          if deadline \<noteq> time_point_max \<and> clock_after r \<ge> deadline then (Some None, svc1)
          else
            let svc2 = while_waiting r svc1
            in if state_generation svc2 \<noteq> observed_generation then wait_claim_loop rs deadline i peer svc2
               else if deadline = time_point_max then (None, svc2)
               else (Some None, svc2))"

definition wait_claim ::
  "wait_round list \<Rightarrow> time_ns \<Rightarrow> TaskId \<Rightarrow> int \<Rightarrow> TaskPeerIdentity option \<Rightarrow> TaskAdmissionService \<Rightarrow>
   TaskSnapshot option option \<times> TaskAdmissionService" where
  "wait_claim rounds now i timeout peer svc =
     (if i = 0 \<or> timeout < 0 \<or> bind_leases_to_process svc \<and> \<not> valid_peer_identity peer then (Some None, svc)
      else wait_claim_loop rounds (if timeout = 0 then time_point_max else now + milliseconds timeout) i peer svc)"

section \<open>Heartbeats and terminal reports\<close>

definition adm_heartbeat ::
  "adm_env \<Rightarrow> TaskId \<Rightarrow> TaskPeerIdentity option \<Rightarrow> TaskAdmissionService \<Rightarrow> bool \<times> TaskAdmissionService" where
  "adm_heartbeat env i peer svc =
     (if map_option snap_state (Scheduler_find i (ta_scheduler svc)) \<noteq> Some TaskState_kRunning then (False, svc)
      else if unbound_without_timeout svc then (True, svc)
      else (case map_of (active_leases svc) i of
        None \<Rightarrow> (False, svc)
      | Some l \<Rightarrow>
          if lease_reaping l \<or> \<not> owner_matches svc l peer then (False, svc)
          else (True,
            if lease_timeout svc \<noteq> 0
            then svc\<lparr>active_leases := AList.update i
                     (l\<lparr>lease_deadline := at_lease env + milliseconds (lease_timeout svc)\<rparr>) (active_leases svc)\<rparr>
            else svc)))"

text \<open>\<open>complete\<close> and \<open>fail\<close> differ in the scheduler call and in the reported state.\<close>

definition active_owner_rejected ::
  "TaskAdmissionService \<Rightarrow> TaskId \<Rightarrow> TaskPeerIdentity option \<Rightarrow> bool" where
  "active_owner_rejected svc i peer \<longleftrightarrow>
     bind_leases_to_process svc \<and>
     (case map_of (active_leases svc) i of None \<Rightarrow> True | Some l \<Rightarrow> \<not> owner_matches svc l peer)"

definition report_terminal ::
  "adm_env \<Rightarrow> TaskId \<Rightarrow> TaskState \<Rightarrow> bool \<times> Scheduler \<Rightarrow> TaskAdmissionService \<Rightarrow> bool \<times> TaskAdmissionService" where
  "report_terminal env i terminal r svc =
     (let before = (if \<not> completion_observer svc then None else Scheduler_find i (ta_scheduler svc)) in
      case r of (done_, s) \<Rightarrow>
        (done_,
         if done_
         then
           let lease = map_of (active_leases svc) i;
               svc1 = svc\<lparr>ta_scheduler := s, active_leases := AList.delete i (active_leases svc)\<rparr>
           in notify_state_change
                (case before of None \<Rightarrow> svc1 | Some sn \<Rightarrow> observe_completion env sn terminal lease svc1)
         else svc\<lparr>ta_scheduler := s\<rparr>))"

definition adm_complete ::
  "adm_env \<Rightarrow> TaskId \<Rightarrow> TaskPeerIdentity option \<Rightarrow> TaskAdmissionService \<Rightarrow> bool \<times> TaskAdmissionService" where
  "adm_complete env i peer svc =
     (if active_owner_rejected svc i peer then (False, svc)
      else report_terminal env i TaskState_kCompleted (Scheduler_complete (at_scheduler env) i (ta_scheduler svc)) svc)"

definition adm_fail ::
  "adm_env \<Rightarrow> TaskId \<Rightarrow> TaskPeerIdentity option \<Rightarrow> TaskAdmissionService \<Rightarrow> bool \<times> TaskAdmissionService" where
  "adm_fail env i peer svc =
     (if active_owner_rejected svc i peer then (False, svc)
      else report_terminal env i TaskState_kFailed (Scheduler_fail (at_scheduler env) i (ta_scheduler svc)) svc)"

section \<open>Expiry\<close>

definition expired_at :: "time_ns \<Rightarrow> LeaseRecord \<Rightarrow> bool" where
  "expired_at now l \<longleftrightarrow> \<not> lease_reaping l \<and> now \<ge> lease_deadline l"

text \<open>The first expired lease in iteration order.\<close>

fun first_expired :: "time_ns \<Rightarrow> (TaskId \<times> LeaseRecord) list \<Rightarrow> (TaskId \<times> LeaseRecord) option" where
  "first_expired now [] = None"
| "first_expired now ((i, l) # m) = (if expired_at now l then Some (i, l) else first_expired now m)"

definition renewed_lease :: "adm_env \<Rightarrow> TaskAdmissionService \<Rightarrow> LeaseRecord \<Rightarrow> LeaseRecord" where
  "renewed_lease env svc l =
     l\<lparr>lease_reaping := False, lease_deadline := at_retry env + milliseconds (lease_timeout svc)\<rparr>"

definition reap_pending ::
  "adm_env \<Rightarrow> TaskId \<Rightarrow> LeaseRecord \<Rightarrow> TaskAdmissionService \<Rightarrow> bool \<times> TaskAdmissionService" where
  "reap_pending env i l svc =
     (let svc0 = svc\<lparr>pending_leases := AList.update i (l\<lparr>lease_reaping := True\<rparr>) (pending_leases svc)\<rparr> in
      case Scheduler_cancel_queued i (ta_scheduler svc0) of
        (cancelled, s) \<Rightarrow>
          let svc1 = svc0\<lparr>ta_scheduler := s\<rparr> in
          case map_of (pending_leases svc1) i of
            None \<Rightarrow> (cancelled, svc1)
          | Some l1 \<Rightarrow>
              if cancelled
              then (True, notify_state_change (svc1\<lparr>pending_leases := AList.delete i (pending_leases svc1)\<rparr>))
              else (False, svc1\<lparr>pending_leases := AList.update i (renewed_lease env svc1 l1) (pending_leases svc1)\<rparr>))"

definition reap_running ::
  "adm_env \<Rightarrow> TaskId \<Rightarrow> LeaseRecord \<Rightarrow> TaskAdmissionService \<Rightarrow> bool \<times> TaskAdmissionService" where
  "reap_running env i l svc =
     (let svc0 = svc\<lparr>active_leases := AList.update i (l\<lparr>lease_reaping := True\<rparr>) (active_leases svc)\<rparr>;
          before = (if \<not> completion_observer svc0 then None else Scheduler_find i (ta_scheduler svc0)) in
      case Scheduler_fail (at_scheduler env) i (ta_scheduler svc0) of
        (failed, s) \<Rightarrow>
          let svc1 = svc0\<lparr>ta_scheduler := s\<rparr>;
              snapshot = Scheduler_find i s
          in case map_of (active_leases svc1) i of
            None \<Rightarrow> (failed, svc1)
          | Some l1 \<Rightarrow>
              if failed \<or> map_option snap_state snapshot \<noteq> Some TaskState_kRunning
              then
                let svc2 = svc1\<lparr>active_leases := AList.delete i (active_leases svc1)\<rparr>
                in (failed, notify_state_change
                     (if failed
                      then (case before of None \<Rightarrow> svc2 | Some sn \<Rightarrow> observe_completion env sn TaskState_kFailed (Some l1) svc2)
                      else svc2))
              else (failed, svc1\<lparr>active_leases := AList.update i (renewed_lease env svc1 l1) (active_leases svc1)\<rparr>))"

definition reap_expired :: "adm_env \<Rightarrow> TaskAdmissionService \<Rightarrow> bool \<times> TaskAdmissionService" where
  "reap_expired env svc =
     (if lease_timeout svc = 0 then (False, svc)
      else (case first_expired (at_lease env) (pending_leases svc) of
        Some (i, l) \<Rightarrow> reap_pending env i l svc
      | None \<Rightarrow>
          (case first_expired (at_lease env) (active_leases svc) of
             None \<Rightarrow> (False, svc)
           | Some (i, l) \<Rightarrow> reap_running env i l svc)))"

section \<open>Queries and external transitions\<close>

definition adm_find :: "TaskId \<Rightarrow> TaskAdmissionService \<Rightarrow> TaskSnapshot option" where
  "adm_find i svc = Scheduler_find i (ta_scheduler svc)"

definition adm_stats :: "TaskAdmissionService \<Rightarrow> SchedulerStats" where
  "adm_stats svc = Scheduler_stats (ta_scheduler svc)"

definition observe_external_dispatch :: "adm_env \<Rightarrow> TaskId \<Rightarrow> TaskAdmissionService \<Rightarrow> TaskAdmissionService" where
  "observe_external_dispatch env i svc =
     (if i = 0 \<or> \<not> dispatch_observer svc \<and> \<not> completion_observer svc then svc
      else if map_of (active_leases svc) i \<noteq> None then svc
      else
        let snapshot = Scheduler_find i (ta_scheduler svc)
        in if map_option snap_state snapshot \<noteq> Some TaskState_kRunning then svc
           else if bind_leases_to_process svc
           then (case map_of (pending_leases svc) i of
               None \<Rightarrow> svc
             | Some l \<Rightarrow>
                 if lease_reaping l then svc
                 else snd (announce_dispatch env (record_lease env snapshot (lease_owner l) svc)))
           else snd (announce_dispatch env (record_lease env snapshot None svc)))"

definition observe_external_completion ::
  "adm_env \<Rightarrow> TaskId \<Rightarrow> TaskState \<Rightarrow> TaskAdmissionService \<Rightarrow> TaskAdmissionService" where
  "observe_external_completion env i terminal svc =
     (if i = 0 \<or> \<not> completion_observer svc \<or>
         terminal \<notin> {TaskState_kCompleted, TaskState_kFailed, TaskState_kCancelled} then svc
      else (case Scheduler_find i (ta_scheduler svc) of
        None \<Rightarrow> svc
      | Some sn \<Rightarrow>
          if snap_state sn \<noteq> terminal then svc
          else (case map_of (active_leases svc) i of
            None \<Rightarrow> svc
          | Some l \<Rightarrow>
              notify_state_change (observe_completion env sn terminal (Some l)
                (svc\<lparr>active_leases := AList.delete i (active_leases svc)\<rparr>)))))"

end
