(* ===== verification/TaskAdmissionProps.thy ===== *)
theory TaskAdmissionProps
  imports TaskAdmission SchedulerProps
begin

text \<open>
  Properties of the admission service: it drives its scheduler only through scheduler operations,
  its leases agree with the states of the tasks, only the process that submitted a task controls
  it, a refused submission leaves nothing behind, and expired leases are reclaimed.
\<close>

section \<open>Histories\<close>

datatype adm_op =
    Adm_submit adm_env "(TaskId \<Rightarrow> bool) option" TaskAdmissionRequest "TaskPeerIdentity option"
  | Adm_cancel adm_env TaskId
  | Adm_cancel_queued TaskId
  | Adm_claim_next adm_env "TaskPeerIdentity option"
  | Adm_claim adm_env TaskId "TaskPeerIdentity option"
  | Adm_wait_attempt adm_env TaskId "TaskPeerIdentity option"
  | Adm_heartbeat adm_env TaskId "TaskPeerIdentity option"
  | Adm_complete adm_env TaskId "TaskPeerIdentity option"
  | Adm_fail adm_env TaskId "TaskPeerIdentity option"
  | Adm_reap adm_env
  | Adm_notify
  | Adm_external_dispatch adm_env TaskId
  | Adm_external_completion adm_env TaskId TaskState
  | Adm_scheduler sched_op

fun run_adm :: "adm_op \<Rightarrow> TaskAdmissionService \<Rightarrow> TaskAdmissionService" where
  "run_adm (Adm_submit env reg req peer) svc = snd (adm_submit env reg req peer svc)"
| "run_adm (Adm_cancel env i) svc = snd (adm_cancel env i svc)"
| "run_adm (Adm_cancel_queued i) svc = snd (adm_cancel_queued i svc)"
| "run_adm (Adm_claim_next env peer) svc = snd (claim_next env peer svc)"
| "run_adm (Adm_claim env i peer) svc = snd (adm_claim env i peer svc)"
| "run_adm (Adm_wait_attempt env i peer) svc = snd (wait_attempt env i peer svc)"
| "run_adm (Adm_heartbeat env i peer) svc = snd (adm_heartbeat env i peer svc)"
| "run_adm (Adm_complete env i peer) svc = snd (adm_complete env i peer svc)"
| "run_adm (Adm_fail env i peer) svc = snd (adm_fail env i peer svc)"
| "run_adm (Adm_reap env) svc = snd (reap_expired env svc)"
| "run_adm Adm_notify svc = notify_scheduler_change svc"
| "run_adm (Adm_external_dispatch env i) svc = observe_external_dispatch env i svc"
| "run_adm (Adm_external_completion env i st) svc = observe_external_completion env i st svc"
| "run_adm (Adm_scheduler op) svc = svc\<lparr>ta_scheduler := run_op op (ta_scheduler svc)\<rparr>"

text \<open>Operations of the service itself: the scheduler is not advanced behind its back.\<close>

fun service_op :: "adm_op \<Rightarrow> bool" where
  "service_op (Adm_scheduler op) = False"
| "service_op _ = True"

section \<open>Frame lemmas\<close>

lemma notify_frame [simp]:
  "ta_scheduler (notify_state_change svc) = ta_scheduler svc"
  "lease_timeout (notify_state_change svc) = lease_timeout svc"
  "bind_leases_to_process (notify_state_change svc) = bind_leases_to_process svc"
  "completion_observer (notify_state_change svc) = completion_observer svc"
  "dispatch_observer (notify_state_change svc) = dispatch_observer svc"
  "active_leases (notify_state_change svc) = active_leases svc"
  "pending_leases (notify_state_change svc) = pending_leases svc"
  by (simp_all add: notify_state_change_def)

lemma observe_dispatch_frame [simp]:
  "ta_scheduler (observe_dispatch env sn svc) = ta_scheduler svc"
  "lease_timeout (observe_dispatch env sn svc) = lease_timeout svc"
  "bind_leases_to_process (observe_dispatch env sn svc) = bind_leases_to_process svc"
  "completion_observer (observe_dispatch env sn svc) = completion_observer svc"
  "dispatch_observer (observe_dispatch env sn svc) = dispatch_observer svc"
  "active_leases (observe_dispatch env sn svc) = active_leases svc"
  "pending_leases (observe_dispatch env sn svc) = pending_leases svc"
  by (simp_all add: observe_dispatch_def)

lemma observe_completion_frame [simp]:
  "ta_scheduler (observe_completion env sn st l svc) = ta_scheduler svc"
  "lease_timeout (observe_completion env sn st l svc) = lease_timeout svc"
  "bind_leases_to_process (observe_completion env sn st l svc) = bind_leases_to_process svc"
  "completion_observer (observe_completion env sn st l svc) = completion_observer svc"
  "dispatch_observer (observe_completion env sn st l svc) = dispatch_observer svc"
  "active_leases (observe_completion env sn st l svc) = active_leases svc"
  "pending_leases (observe_completion env sn st l svc) = pending_leases svc"
  by (simp_all add: observe_completion_def)

lemma ignored_frame [simp]:
  "ta_scheduler (scheduler_fail_ignored now i svc) = snd (Scheduler_fail now i (ta_scheduler svc))"
  "ta_scheduler (scheduler_cancel_ignored now i svc) = snd (Scheduler_cancel now i (ta_scheduler svc))"
  "lease_timeout (scheduler_fail_ignored now i svc) = lease_timeout svc"
  "lease_timeout (scheduler_cancel_ignored now i svc) = lease_timeout svc"
  "bind_leases_to_process (scheduler_fail_ignored now i svc) = bind_leases_to_process svc"
  "bind_leases_to_process (scheduler_cancel_ignored now i svc) = bind_leases_to_process svc"
  "completion_observer (scheduler_fail_ignored now i svc) = completion_observer svc"
  "completion_observer (scheduler_cancel_ignored now i svc) = completion_observer svc"
  "active_leases (scheduler_fail_ignored now i svc) = active_leases svc"
  "active_leases (scheduler_cancel_ignored now i svc) = active_leases svc"
  "pending_leases (scheduler_fail_ignored now i svc) = pending_leases svc"
  "pending_leases (scheduler_cancel_ignored now i svc) = pending_leases svc"
  by (simp_all add: scheduler_fail_ignored_def scheduler_cancel_ignored_def)

text \<open>The configuration that never changes.\<close>

definition adm_config :: "TaskAdmissionService \<Rightarrow> int \<times> bool \<times> bool" where
  "adm_config svc = (lease_timeout svc, bind_leases_to_process svc, completion_observer svc)"

lemma adm_config_update [simp]:
  "adm_config (svc\<lparr>ta_scheduler := s\<rparr>) = adm_config svc"
  "adm_config (svc\<lparr>active_leases := m\<rparr>) = adm_config svc"
  "adm_config (svc\<lparr>pending_leases := m\<rparr>) = adm_config svc"
  "adm_config (notify_state_change svc) = adm_config svc"
  "adm_config (observe_dispatch env sn svc) = adm_config svc"
  "adm_config (observe_completion env sn t l svc) = adm_config svc"
  "adm_config (scheduler_fail_ignored now i svc) = adm_config svc"
  "adm_config (scheduler_cancel_ignored now i svc) = adm_config svc"
  by (simp_all add: adm_config_def)

text \<open>What recording a lease can do to a task that was just dispatched.\<close>

lemma announce_dispatch_simps [simp]:
  "fst (announce_dispatch env r) = fst r"
  "ta_scheduler (snd (announce_dispatch env r)) = ta_scheduler (snd r)"
  "active_leases (snd (announce_dispatch env r)) = active_leases (snd r)"
  "pending_leases (snd (announce_dispatch env r)) = pending_leases (snd r)"
  "adm_config (snd (announce_dispatch env r)) = adm_config (snd r)"
  by (cases r; cases "fst r"; simp add: announce_dispatch_def adm_config_def)+

lemma record_lease_config [simp]: "adm_config (snd (record_lease env r p svc)) = adm_config svc"
  by (cases r) (simp_all add: record_lease_def adm_config_def lease_refused_def Let_def case_prod_beta)

definition granted_lease ::
  "adm_env \<Rightarrow> TaskId \<Rightarrow> TaskPeerIdentity option \<Rightarrow> TaskAdmissionService \<Rightarrow> LeaseRecord" where
  "granted_lease env i peer svc =
     \<lparr>lease_deadline = deadline_from svc (at_lease env),
      lease_submitted_at = (case map_of (pending_leases svc) i of None \<Rightarrow> 0 | Some l \<Rightarrow> lease_submitted_at l),
      lease_started_at = at_lease env, lease_reaping = False, lease_owner = peer\<rparr>"

lemma granted_lease_simps [simp]:
  "\<not> lease_reaping (granted_lease env i peer svc)" "lease_owner (granted_lease env i peer svc) = peer"
  by (simp_all add: granted_lease_def)

lemma record_lease_cases:
  assumes "tracks_leases svc" and "map_of (active_leases svc) (snap_task_id sn) = None"
  obtains
    (granted) "\<not> pending_lease_invalid svc (snap_task_id sn) peer"
      and "record_lease env (Some sn) peer svc =
        (Some sn, svc\<lparr>pending_leases := AList.delete (snap_task_id sn) (pending_leases svc),
           active_leases := AList.update (snap_task_id sn) (granted_lease env (snap_task_id sn) peer svc) (active_leases svc)\<rparr>)"
  | (refused) "record_lease env (Some sn) peer svc = lease_refused env (snap_task_id sn)
        (svc\<lparr>pending_leases := AList.delete (snap_task_id sn) (pending_leases svc)\<rparr>)"
proof (cases "pending_lease_invalid svc (snap_task_id sn) peer \<or> env_lease_fails env")
  case True
  with assms have "record_lease env (Some sn) peer svc = lease_refused env (snap_task_id sn)
        (svc\<lparr>pending_leases := AList.delete (snap_task_id sn) (pending_leases svc)\<rparr>)"
    by (auto simp: record_lease_def Let_def)
  then show thesis by (rule refused)
next
  case False
  with assms have "record_lease env (Some sn) peer svc =
        (Some sn, svc\<lparr>pending_leases := AList.delete (snap_task_id sn) (pending_leases svc),
           active_leases := AList.update (snap_task_id sn) (granted_lease env (snap_task_id sn) peer svc) (active_leases svc)\<rparr>)"
    by (simp add: record_lease_def Let_def umap_emplace_def umap_contains_def granted_lease_def deadline_from_def)
  with False show thesis by (intro granted) auto
qed

section \<open>The scheduler behind the service\<close>

text \<open>
  The service changes its scheduler only through scheduler operations, and submits nothing but
  the task of its own request. So whatever these operations preserve, the service preserves.
\<close>

fun submits :: "adm_op \<Rightarrow> TaskSpec \<Rightarrow> bool" where
  "submits (Adm_submit env reg req peer) spec \<longleftrightarrow> spec = request_spec req"
| "submits (Adm_scheduler (Op_submit f now spec')) spec \<longleftrightarrow> spec = spec'"
| "submits _ spec \<longleftrightarrow> False"

fun allows :: "adm_op \<Rightarrow> sched_op \<Rightarrow> bool" where
  "allows op (Op_submit f now spec) \<longleftrightarrow> submits op spec"
| "allows op sop \<longleftrightarrow> True"

lemma run_adm_preserves:
  assumes P: "P (ta_scheduler svc)" and step: "\<And>sop s. P s \<Longrightarrow> allows op sop \<Longrightarrow> P (run_op sop s)"
  shows "P (ta_scheduler (run_adm op svc))"
proof -
  have ops: "P (snd (Scheduler_dispatch_next df now s))" "P (snd (Scheduler_dispatch_task df now i s))"
    "P (snd (Scheduler_complete now i s))" "P (snd (Scheduler_fail now i s))" "P (snd (Scheduler_cancel now i s))"
    "P (snd (Scheduler_cancel_queued i s))" if "P s" for df now i s
    using step [OF that, of "Op_dispatch_next df now"] step [OF that, of "Op_dispatch_task df now i"]
      step [OF that, of "Op_complete now i"] step [OF that, of "Op_fail now i"] step [OF that, of "Op_cancel now i"]
      step [OF that, of "Op_cancel_queued i"] by simp_all
  have rl: "P (ta_scheduler (snd (record_lease env r p svc1)))" if "P (ta_scheduler svc1)" for env r p svc1
    using that ops(4) [OF that] by (cases r) (simp_all add: record_lease_def lease_refused_def Let_def case_prod_beta)
  have dt: "P (ta_scheduler (snd (claim_dispatch env i peer svc)))" for env i peer
    using rl ops(2) [OF P] by (simp add: claim_dispatch_def case_prod_beta)
  have dn: "P (ta_scheduler (snd (claim_next env peer svc)))" for env peer
    using rl ops(1) [OF P] P by (simp add: claim_next_def case_prod_beta)
  show ?thesis
  proof (cases op)
    case (Adm_submit env reg req peer)
    then have "P (snd (Scheduler_submit f now (request_spec req) (ta_scheduler svc)))" for f now
      using step [OF P, of "Op_submit f now (request_spec req)"] by simp
    with Adm_submit P ops(5) show ?thesis
      by (simp add: adm_submit_def submit_aborted_def Let_def case_prod_beta split: option.split)
  next
    case (Adm_claim env i peer)
    then show ?thesis using dt P by (simp add: adm_claim_def Let_def)
  next
    case (Adm_wait_attempt env i peer)
    then show ?thesis using dt [of env i peer] P
      by (simp add: wait_attempt_def case_prod_beta split: option.split prod.split)
  next
    case (Adm_external_dispatch env i)
    then show ?thesis using rl [OF P] P
      by (simp add: observe_external_dispatch_def Let_def split: option.split)
  next
    case (Adm_scheduler sop)
    then show ?thesis using step [OF P, of sop] by (cases sop) simp_all
  qed (use ops [OF P] P dn in \<open>simp_all add: adm_cancel_def adm_cancel_queued_def adm_heartbeat_def adm_complete_def adm_fail_def
      report_terminal_def reap_expired_def reap_pending_def reap_running_def notify_scheduler_change_def
      observe_external_completion_def Let_def case_prod_beta split: option.split prod.split\<close>)
qed

lemma run_adm_reachable:
  "sched_reachable limit opts (ta_scheduler svc) \<Longrightarrow> sched_reachable limit opts (ta_scheduler (run_adm op svc))"
  by (erule run_adm_preserves) (rule sched_reachable.stepped)

section \<open>Leases and tasks\<close>

abbreviation st :: "TaskAdmissionService \<Rightarrow> TaskId \<Rightarrow> TaskState option" where
  "st svc i \<equiv> Scheduler_task_state i (ta_scheduler svc)"

definition leases_wf :: "TaskAdmissionService \<Rightarrow> bool" where
  "leases_wf svc \<longleftrightarrow>
     keys_distinct (active_leases svc) \<and> keys_distinct (pending_leases svc) \<and> 0 \<le> lease_timeout svc \<and>
     (\<forall>i l. map_of (active_leases svc) i = Some l \<longrightarrow> \<not> lease_reaping l) \<and>
     (\<forall>i l. map_of (pending_leases svc) i = Some l \<longrightarrow> \<not> lease_reaping l)"

text \<open>
  The running tasks are exactly those with an active lease, and every queued task has a pending
  one. (A pending lease may outlive its task: when an allocation failure during a dispatch fails
  the task, nobody erases it.)
\<close>

definition lease_views :: "TaskAdmissionService \<Rightarrow> bool" where
  "lease_views svc \<longleftrightarrow>
     (\<forall>i. (map_of (active_leases svc) i \<noteq> None) = (st svc i = Some TaskState_kRunning)) \<and>
     (\<forall>i. st svc i = Some TaskState_kQueued \<longrightarrow> map_of (pending_leases svc) i \<noteq> None)"

definition adm_inv :: "TaskAdmissionService \<Rightarrow> bool" where
  "adm_inv svc \<longleftrightarrow> sched_inv (ta_scheduler svc) \<and> tracks_leases svc \<and> leases_wf svc \<and> lease_views svc"

lemma adm_invD:
  assumes "adm_inv svc"
  shows "sched_inv (ta_scheduler svc)" "tracks_leases svc" "leases_wf svc" "lease_views svc"
  using assms by (simp_all add: adm_inv_def)

lemma lease_viewsD:
  assumes "lease_views svc"
  shows "st svc i = Some TaskState_kRunning \<longleftrightarrow> map_of (active_leases svc) i \<noteq> None"
    and "st svc i = Some TaskState_kQueued \<Longrightarrow> map_of (pending_leases svc) i \<noteq> None"
  using assms by (auto simp: lease_views_def)

lemma tracks_config: "adm_config svc' = adm_config svc \<Longrightarrow> tracks_leases svc' = tracks_leases svc"
  by (simp add: adm_config_def tracks_leases_def)

text \<open>A change of one task together with its leases.\<close>

lemma adm_inv_change:
  assumes inv: "adm_inv svc" and s: "sched_inv (ta_scheduler svc')" and cfg: "adm_config svc' = adm_config svc"
    and st: "\<And>j. st svc' j = (if j = i then new else st svc j)"
    and act: "map_of (active_leases svc') = (map_of (active_leases svc))(i := a)" "keys_distinct (active_leases svc')"
    and pend: "map_of (pending_leases svc') = (map_of (pending_leases svc))(i := p)" "keys_distinct (pending_leases svc')"
    and a: "a \<noteq> None \<longleftrightarrow> new = Some TaskState_kRunning" "\<And>l. a = Some l \<Longrightarrow> \<not> lease_reaping l"
    and p: "new = Some TaskState_kQueued \<Longrightarrow> p \<noteq> None" "\<And>l. p = Some l \<Longrightarrow> \<not> lease_reaping l"
  shows "adm_inv svc'"
proof -
  note I = adm_invD [OF inv]
  have "leases_wf svc'"
    using I(3) act pend a p cfg by (auto simp: leases_wf_def adm_config_def split: if_splits)
  moreover have "(map_of (active_leases svc') j \<noteq> None) = (st svc' j = Some TaskState_kRunning)"
    "st svc' j = Some TaskState_kQueued \<Longrightarrow> map_of (pending_leases svc') j \<noteq> None" for j
    using lease_viewsD [OF I(4), of j] a(1) p(1) by (cases "j = i"; simp add: st act(1) pend(1))+
  then have "lease_views svc'" unfolding lease_views_def by blast
  ultimately show ?thesis using s tracks_config [OF cfg] I(2) by (simp add: adm_inv_def)
qed

lemma adm_inv_cong:
  assumes "adm_inv svc" and "sched_inv (ta_scheduler svc')" and "adm_config svc' = adm_config svc"
    and "idle_states (ta_scheduler svc) (ta_scheduler svc')"
    and "active_leases svc' = active_leases svc" and "pending_leases svc' = pending_leases svc"
  shows "adm_inv svc'"
proof -
  have r: "st svc' i = Some TaskState_kRunning \<longleftrightarrow> st svc i = Some TaskState_kRunning"
    and q: "st svc' i = Some TaskState_kQueued \<Longrightarrow> st svc i = Some TaskState_kQueued" for i
    using assms(4) [unfolded idle_states_def, THEN spec [of _ i]] by auto
  note I = adm_invD [OF assms(1)]
  have "leases_wf svc'" using I(3) assms(3,5,6) by (simp add: leases_wf_def adm_config_def)
  moreover have "lease_views svc'"
    unfolding lease_views_def r assms(5,6) using lease_viewsD [OF I(4)] q by blast
  ultimately show ?thesis using assms(2) tracks_config [OF assms(3)] I(2) by (simp add: adm_inv_def)
qed

lemma grant_inv:
  assumes inv: "adm_inv svc" and s': "sched_inv s'"
    and d: "case r of None \<Rightarrow> idle_states (ta_scheduler svc) s' | Some sn \<Rightarrow> dispatched_states sn (ta_scheduler svc) s'"
  shows "adm_inv (snd (announce_dispatch env (record_lease env r peer (svc\<lparr>ta_scheduler := s'\<rparr>))))" (is "adm_inv (snd (announce_dispatch env ?r))")
proof (cases r)
  case None
  then show ?thesis
    using d s' by (intro adm_inv_cong [OF inv]) (simp_all add: record_lease_def adm_config_def announce_dispatch_def)
next
  case (Some sn)
  note I = adm_invD [OF inv]
  let ?i = "snap_task_id sn" and ?svc = "svc\<lparr>ta_scheduler := s'\<rparr>"
  have d: "dispatched_states sn (ta_scheduler svc) s'" using d Some by simp
  then have st': "Scheduler_task_state j s' = (if j = ?i then Some TaskState_kRunning else st svc j)" for j
    by (simp add: dispatched_states_def)
  have "map_of (active_leases svc) ?i = None"
    using d lease_viewsD(1) [OF I(4), of ?i] by (auto simp: dispatched_states_def)
  then have n: "map_of (active_leases ?svc) ?i = None" "tracks_leases ?svc"
    using I(2) by (simp_all add: tracks_leases_def)
  have kd: "keys_distinct (active_leases svc)" "keys_distinct (pending_leases svc)" using I(3) by (simp_all add: leases_wf_def)
  show ?thesis
  proof (rule record_lease_cases [OF n(2,1), of peer env], goal_cases)
    case 1
    then show ?thesis
      using Some s' st' kd
      by (intro adm_inv_change [OF inv, where i = ?i and new = "Some TaskState_kRunning" and p = None and
            a = "Some (granted_lease env ?i peer ?svc)"])
        auto
  next
    case 2
    have fl: "sched_inv (snd (Scheduler_fail (at_scheduler env) ?i s'))"
      using run_op_inv [OF s', of "Op_fail (at_scheduler env) ?i"] by simp
    have "Scheduler_task_state j (snd (Scheduler_fail (at_scheduler env) ?i s')) =
        (if j = ?i then Some TaskState_kFailed else st svc j)" for j
      using fail_step [OF s', of ?i "at_scheduler env"] st' by simp
    with 2 Some fl kd n(1) show ?thesis
      by (intro adm_inv_change [OF inv, where i = ?i and new = "Some TaskState_kFailed" and p = None and a = None])
        (simp_all add: lease_refused_def fun_upd_idem)
  qed
qed

lemma idle_states_refl [simp]: "idle_states s s"
  by (simp add: idle_states_def)

lemma leases_wfD:
  assumes "leases_wf svc"
  shows "keys_distinct (active_leases svc)" "keys_distinct (pending_leases svc)" "0 \<le> lease_timeout svc"
    "map_of (active_leases svc) i = Some l \<Longrightarrow> \<not> lease_reaping l"
    "map_of (pending_leases svc) i = Some l \<Longrightarrow> \<not> lease_reaping l"
  using assms by (auto simp: leases_wf_def)

lemma submit_adm_inv:
  assumes inv: "adm_inv svc"
  shows "adm_inv (snd (adm_submit env reg req peer svc))"
proof (cases "reg = None \<or> bind_leases_to_process svc \<and> \<not> valid_peer_identity peer")
  case True
  with inv show ?thesis by (auto simp: adm_submit_def split: option.split)
next
  case False
  then obtain register where reg: "reg = Some register" by auto
  note I = adm_invD [OF inv]
  obtain res s where sub: "Scheduler_submit (env_submit_fault env) (at_scheduler env) (request_spec req) (ta_scheduler svc) = (res, s)"
    by (cases "Scheduler_submit (env_submit_fault env) (at_scheduler env) (request_spec req) (ta_scheduler svc)")
  note S = submit_step [OF I(1) sub]
  have s: "sched_inv s" using submit_inv [OF I(1) sub] .
  let ?i = "sr_task_id res" and ?svc = "svc\<lparr>ta_scheduler := s\<rparr>"
  show ?thesis
  proof (cases "accepted res")
    case False
    then have "snd (adm_submit env reg req peer svc) = ?svc" "s = ta_scheduler svc"
      using S \<open>\<not> (reg = None \<or> _)\<close> reg sub by (simp_all add: adm_submit_def)
    then show ?thesis using inv by simp
  next
    case True
    then have q: "Scheduler_task_state j s = (if j = ?i then Some TaskState_kQueued else st svc j)" for j
      using S by simp
    have "map_of (tasks (ta_scheduler svc)) ?i = None" using S True by auto
    then have "st svc ?i = None" by (simp add: Scheduler_task_state_def)
    then have a: "map_of (active_leases svc) ?i = None" using lease_viewsD(1) [OF I(4), of ?i] by simp
    have ab: "adm_inv (snd (submit_aborted env ?i ?svc))"
    proof -
      have c: "sched_inv (snd (Scheduler_cancel (at_scheduler env) ?i s))"
        using run_op_inv [OF s, of "Op_cancel (at_scheduler env) ?i"] by simp
      have "Scheduler_task_state j (snd (Scheduler_cancel (at_scheduler env) ?i s)) =
          (if j = ?i then Some TaskState_kCancelled else st svc j)" for j
        using cancel_step [OF s, of ?i "at_scheduler env"] q by simp
      with c a show ?thesis
        using leases_wfD [OF I(3)]
        by (intro adm_inv_change [OF inv, where i = ?i and new = "Some TaskState_kCancelled" and a = None and
              p = "map_of (pending_leases svc) ?i"]) (simp_all add: submit_aborted_def fun_upd_idem)
    qed
    let ?l = "\<lparr>lease_deadline = deadline_from ?svc (at_lease env), lease_submitted_at = at_lease env,
        lease_started_at = 0, lease_reaping = False, lease_owner = peer\<rparr>"
    have ok: "adm_inv (?svc\<lparr>pending_leases := AList.update ?i ?l (pending_leases svc)\<rparr>)"
      using s q a leases_wfD [OF I(3)]
      by (intro adm_inv_change [OF inv, where i = ?i and new = "Some TaskState_kQueued" and a = None and p = "Some ?l"])
        (auto simp: fun_upd_idem)
    show ?thesis
      using \<open>\<not> (reg = None \<or> _)\<close> reg sub True ab ok I(2) inv
      by (cases "env_lease_fails env"; cases "umap_contains (pending_leases svc) ?i"; cases "register ?i")
        (simp_all add: adm_submit_def Let_def case_prod_beta umap_emplace_def)
  qed
qed

lemma cancel_adm_inv:
  assumes inv: "adm_inv svc"
  shows "adm_inv (snd (adm_cancel env i svc))" and "adm_inv (snd (adm_cancel_queued i svc))"
proof -
  note I = adm_invD [OF inv]
  have s: "sched_inv (snd (Scheduler_cancel (at_scheduler env) i (ta_scheduler svc)))"
    "sched_inv (snd (Scheduler_cancel_queued i (ta_scheduler svc)))"
    using run_op_inv [OF I(1), of "Op_cancel (at_scheduler env) i"] run_op_inv [OF I(1), of "Op_cancel_queued i"] by simp_all
  show "adm_inv (snd (adm_cancel env i svc))"
  proof (cases "st svc i \<in> {Some TaskState_kQueued, Some TaskState_kRunning}")
    case True
    with cancel_step [OF I(1), of i "at_scheduler env"] show ?thesis
      using s(1) leases_wfD [OF I(3)]
      by (intro adm_inv_change [OF inv, where i = i and new = "Some TaskState_kCancelled" and a = None and p = None])
        (simp_all add: adm_cancel_def case_prod_beta)
  next
    case False
    with cancel_step [OF I(1), of i "at_scheduler env"] inv show ?thesis by (simp add: adm_cancel_def)
  qed
  show "adm_inv (snd (adm_cancel_queued i svc))"
  proof (cases "st svc i = Some TaskState_kQueued")
    case True
    then have "map_of (active_leases svc) i = None" using lease_viewsD(1) [OF I(4), of i] by simp
    with True cancel_queued_step [OF I(1), of i] show ?thesis
      using s(2) leases_wfD [OF I(3)]
      by (intro adm_inv_change [OF inv, where i = i and new = "Some TaskState_kCancelled" and a = None and p = None])
        (simp_all add: adm_cancel_queued_def case_prod_beta fun_upd_idem)
  next
    case False
    with cancel_queued_step [OF I(1), of i] inv show ?thesis by (simp add: adm_cancel_queued_def)
  qed
qed

lemma report_adm_inv:
  assumes inv: "adm_inv svc" and s: "sched_inv (snd r)" and t: "terminal \<noteq> TaskState_kQueued" "terminal \<noteq> TaskState_kRunning"
    and r: "if st svc i = Some TaskState_kRunning
      then fst r \<and> (\<forall>j. Scheduler_task_state j (snd r) = (if j = i then Some terminal else st svc j))
      else r = (False, ta_scheduler svc)"
  shows "adm_inv (snd (report_terminal env i terminal r svc))"
proof (cases "st svc i = Some TaskState_kRunning")
  case True
  note I = adm_invD [OF inv]
  have "adm_config (snd (report_terminal env i terminal r svc)) = adm_config svc"
    by (simp add: report_terminal_def Let_def case_prod_beta split: option.split)
  with True r s t show ?thesis
    using leases_wfD [OF I(3)]
    by (intro adm_inv_change [OF inv, where i = i and new = "Some terminal" and a = None and
          p = "map_of (pending_leases svc) i"])
      (simp_all add: report_terminal_def Let_def case_prod_beta split: option.split)
next
  case False
  with r inv show ?thesis by (simp add: report_terminal_def)
qed

lemma heartbeat_adm_inv:
  assumes inv: "adm_inv svc"
  shows "adm_inv (snd (adm_heartbeat env i peer svc))"
proof (cases "\<exists>l. map_of (active_leases svc) i = Some l \<and>
    snd (adm_heartbeat env i peer svc) = svc\<lparr>active_leases := AList.update i
       (l\<lparr>lease_deadline := at_lease env + milliseconds (lease_timeout svc)\<rparr>) (active_leases svc)\<rparr>")
  case True
  then obtain l where l: "map_of (active_leases svc) i = Some l" and
    r: "snd (adm_heartbeat env i peer svc) = svc\<lparr>active_leases := AList.update i
       (l\<lparr>lease_deadline := at_lease env + milliseconds (lease_timeout svc)\<rparr>) (active_leases svc)\<rparr>" by blast
  note I = adm_invD [OF inv]
  show ?thesis
    unfolding r using I(1) leases_wfD [OF I(3)] l lease_viewsD [OF I(4), of i]
    by (intro adm_inv_change [OF inv, where i = i and new = "st svc i" and p = "map_of (pending_leases svc) i" and
          a = "Some (l\<lparr>lease_deadline := at_lease env + milliseconds (lease_timeout svc)\<rparr>)"]) auto
next
  case False
  then have "snd (adm_heartbeat env i peer svc) = svc"
    by (auto simp: adm_heartbeat_def split: option.splits if_splits)
  with inv show ?thesis by simp
qed

lemma first_expired_Some:
  "first_expired now m = Some (i, l) \<Longrightarrow> keys_distinct m \<Longrightarrow> map_of m i = Some l \<and> expired_at now l"
  by (induction m) (auto split: if_splits simp: rev_image_eqI dest!: map_of_SomeD)

text \<open>Both outcomes of reaping a pending lease, and the one of reaping a running one.\<close>

lemma reap_pending_eq:
  assumes inv: "adm_inv svc"
  shows "reap_pending env i l svc =
    (if st svc i = Some TaskState_kQueued
     then (True, notify_state_change (svc\<lparr>ta_scheduler := snd (Scheduler_cancel_queued i (ta_scheduler svc)),
             pending_leases := AList.delete i (AList.update i (l\<lparr>lease_reaping := True\<rparr>) (pending_leases svc))\<rparr>))
     else (False, svc\<lparr>pending_leases := AList.update i (renewed_lease env svc l)
             (AList.update i (l\<lparr>lease_reaping := True\<rparr>) (pending_leases svc))\<rparr>))"
  using cancel_queued_step [OF adm_invD(1) [OF inv], of i]
  by (simp add: reap_pending_def Let_def case_prod_beta renewed_lease_def)

lemma reap_running_eq:
  assumes inv: "adm_inv svc" and l: "map_of (active_leases svc) i = Some l"
  obtains svc' where "reap_running env i l svc = (True, svc')"
    and "ta_scheduler svc' = snd (Scheduler_fail (at_scheduler env) i (ta_scheduler svc))"
    and "active_leases svc' = AList.delete i (AList.update i (l\<lparr>lease_reaping := True\<rparr>) (active_leases svc))"
    and "pending_leases svc' = pending_leases svc" and "adm_config svc' = adm_config svc"
proof -
  note I = adm_invD [OF inv]
  have run: "st svc i = Some TaskState_kRunning" using lease_viewsD(1) [OF I(4), of i] l by simp
  have "fst (Scheduler_fail (at_scheduler env) i (ta_scheduler svc))"
    using fail_step [OF I(1), of i "at_scheduler env"] run by simp
  then show thesis
    by (intro that [of "snd (reap_running env i l svc)"])
      (simp_all add: reap_running_def Let_def case_prod_beta split: option.split)
qed

lemma delete_update_lookup:
  assumes "keys_distinct m"
  shows "map_of (AList.delete i (AList.update i l m)) = (map_of m)(i := None)"
    and "keys_distinct (AList.delete i (AList.update i l m))"
  using assms by simp_all

lemma reap_adm_inv:
  assumes inv: "adm_inv svc"
  shows "adm_inv (snd (reap_expired env svc))"
proof -
  note I = adm_invD [OF inv] and W = leases_wfD [OF adm_invD(3) [OF inv]]
  have P: "adm_inv (snd (reap_pending env i l svc))" if m: "map_of (pending_leases svc) i = Some l" for i l
  proof (cases "st svc i = Some TaskState_kQueued")
    case True
    then have "map_of (active_leases svc) i = None" using lease_viewsD(1) [OF I(4), of i] by simp
    with True cancel_queued_step [OF I(1), of i] run_op_inv [OF I(1), of "Op_cancel_queued i"] W show ?thesis
      by (intro adm_inv_change [OF inv, where i = i and new = "Some TaskState_kCancelled" and a = None and p = None])
        (simp_all add: reap_pending_eq [OF inv] fun_upd_idem)
  next
    case False
    with I(1) W lease_viewsD(1) [OF I(4), of i] m show ?thesis
      by (intro adm_inv_change [OF inv, where i = i and new = "st svc i" and a = "map_of (active_leases svc) i" and
            p = "Some (renewed_lease env svc l)"])
        (auto simp: reap_pending_eq [OF inv] renewed_lease_def)
  qed
  have R: "adm_inv (snd (reap_running env i l svc))" if m: "map_of (active_leases svc) i = Some l" for i l
  proof -
    obtain svc' where r: "reap_running env i l svc = (True, svc')"
      "ta_scheduler svc' = snd (Scheduler_fail (at_scheduler env) i (ta_scheduler svc))"
      "active_leases svc' = AList.delete i (AList.update i (l\<lparr>lease_reaping := True\<rparr>) (active_leases svc))"
      "pending_leases svc' = pending_leases svc" "adm_config svc' = adm_config svc"
      by (rule reap_running_eq [OF inv m])
    have run: "st svc i = Some TaskState_kRunning" using lease_viewsD(1) [OF I(4), of i] m by simp
    show ?thesis
      using fail_step [OF I(1), of i "at_scheduler env"] run run_op_inv [OF I(1), of "Op_fail (at_scheduler env) i"] W r
      by (intro adm_inv_change [OF inv, where i = i and new = "Some TaskState_kFailed" and a = None and
            p = "map_of (pending_leases svc) i"]) simp_all
  qed
  show ?thesis
    using inv P R first_expired_Some [OF _ W(1)] first_expired_Some [OF _ W(2)]
    by (auto simp: reap_expired_def split: option.split)
qed

lemma run_adm_inv:
  assumes inv: "adm_inv svc" and "service_op op"
  shows "adm_inv (run_adm op svc)"
proof -
  note I = adm_invD [OF inv]
  have cd: "adm_inv (snd (claim_dispatch env i peer svc))" for env i peer
  proof -
    obtain r s' where d: "Scheduler_dispatch_task (env_dispatch_fault env) (at_scheduler env) i (ta_scheduler svc) = (r, s')"
      by (cases "Scheduler_dispatch_task (env_dispatch_fault env) (at_scheduler env) i (ta_scheduler svc)")
    have "sched_inv s'" using lifecycle_inv [OF dispatch_task_effect [OF I(1) d] I(1)] .
    moreover have "case r of None \<Rightarrow> idle_states (ta_scheduler svc) s' | Some sn \<Rightarrow> dispatched_states sn (ta_scheduler svc) s'"
      using dispatch_task_step [OF I(1) d] by (auto split: option.splits)
    ultimately show ?thesis using grant_inv [OF inv] d by (simp add: claim_dispatch_def)
  qed
  have cn: "adm_inv (snd (claim_next env peer svc))" for env peer
  proof -
    obtain r s' where d: "Scheduler_dispatch_next (env_dispatch_fault env) (at_scheduler env) (ta_scheduler svc) = (r, s')"
      by (cases "Scheduler_dispatch_next (env_dispatch_fault env) (at_scheduler env) (ta_scheduler svc)")
    have "sched_inv s'" using lifecycle_inv [OF dispatch_next_effect [OF I(1) d] I(1)] .
    with grant_inv [OF inv _ dispatch_next_step [OF I(1) d]] d inv show ?thesis by (simp add: claim_next_def)
  qed
  have rep: "adm_inv (snd (adm_complete env i peer svc))" "adm_inv (snd (adm_fail env i peer svc))" for env i peer
    using inv report_adm_inv [OF inv _ _ _ complete_step [OF I(1)], of "at_scheduler env" i env]
      report_adm_inv [OF inv _ _ _ fail_step [OF I(1)], of "at_scheduler env" i env]
      run_op_inv [OF I(1), of "Op_complete (at_scheduler env) i"] run_op_inv [OF I(1), of "Op_fail (at_scheduler env) i"]
    by (simp_all add: adm_complete_def adm_fail_def)
  show ?thesis
  proof (cases op)
    case (Adm_claim env i peer)
    then show ?thesis using cd inv by (simp add: adm_claim_def Let_def)
  next
    case (Adm_wait_attempt env i peer)
    then show ?thesis using cd [of env i peer] inv
      by (simp add: wait_attempt_def case_prod_beta split: option.split prod.split)
  next
    case (Adm_external_dispatch env i)
    have "map_of (active_leases svc) i \<noteq> None \<or>
        map_option snap_state (Scheduler_find i (ta_scheduler svc)) \<noteq> Some TaskState_kRunning"
      using lease_viewsD(1) [OF I(4), of i] by (simp only: find_state) blast
    then have "observe_external_dispatch env i svc = svc"
      by (elim disjE) (simp_all add: observe_external_dispatch_def Let_def del: map_option_eq_Some)
    with Adm_external_dispatch inv show ?thesis by simp
  next
    case (Adm_external_completion env i terminal)
    then show ?thesis
      using inv lease_viewsD(1) [OF I(4), of i] find_state [of i "ta_scheduler svc"]
      by (auto simp: observe_external_completion_def split: option.split)
  next
    case Adm_notify
    have "adm_inv (notify_state_change svc)" using inv I(1) by (intro adm_inv_cong [OF inv]) simp_all
    with Adm_notify show ?thesis by (simp add: notify_scheduler_change_def)
  qed (use assms cn rep submit_adm_inv cancel_adm_inv heartbeat_adm_inv reap_adm_inv in simp_all)
qed

end
