(* ===== verification/TaskAdmissionContract.thy ===== *)
theory TaskAdmissionContract
  imports TaskAdmissionProps
begin

text \<open>
  The contract of the admission service over its histories: leases and tasks agree, only the
  submitting process controls a task, a refused submission leaves nothing behind, expired
  leases are reclaimed, and a heartbeat keeps a lease.
\<close>

section \<open>Leases and tasks agree\<close>

abbreviation new_service ::
  "MemoryBytes \<Rightarrow> SchedulerOptions \<Rightarrow> int \<Rightarrow> bool \<Rightarrow> bool \<Rightarrow> bool \<Rightarrow> TaskAdmissionService" where
  "new_service limit opts timeout bound dobs cobs \<equiv>
     TaskAdmissionService_new (Scheduler_new limit opts) timeout bound dobs cobs"

lemma new_service_inv:
  assumes "bound \<or> timeout > 0 \<or> cobs"
  shows "adm_inv (new_service limit opts timeout bound dobs cobs)"
proof -
  have "Scheduler_task_state i (Scheduler_new limit opts) = None" for i
    by (simp add: Scheduler_task_state_def Scheduler_new_def)
  with assms show ?thesis
    by (auto simp: adm_inv_def TaskAdmissionService_new_def tracks_leases_def leases_wf_def lease_views_def new_inv)
qed

lemma history_inv:
  assumes "adm_inv svc" and "list_all service_op ops"
  shows "adm_inv (fold run_adm ops svc)"
  using assms by (induction ops arbitrary: svc) (simp_all add: run_adm_inv)

lemma history_reachable:
  assumes "sched_reachable limit opts (ta_scheduler svc)"
  shows "sched_reachable limit opts (ta_scheduler (fold run_adm ops svc))"
  using assms by (induction ops arbitrary: svc) (simp_all add: run_adm_reachable)

lemma new_service_reachable:
  "sched_reachable limit opts (ta_scheduler (fold run_adm ops (new_service limit opts timeout bound dobs cobs)))"
  by (rule history_reachable) (simp add: TaskAdmissionService_new_def sched_reachable.created)


definition ex_env :: "time_ns \<Rightarrow> adm_env" where
  "ex_env t =
     \<lparr>at_scheduler = t, at_lease = t, at_retry = t, at_observer = t, env_submit_fault = None,
      env_dispatch_fault = None, env_lease_fails = False, env_observation_fails = False\<rparr>"

definition ex_peer :: "u32 \<Rightarrow> TaskPeerIdentity option" where
  "ex_peer n = Some \<lparr>peer_pid = n, peer_uid = 1000, peer_start_time_ticks = 77\<rparr>"

definition ex_request :: "MemoryBytes \<Rightarrow> TaskAdmissionRequest" where
  "ex_request b = \<lparr>req_tenant_id = ''a'', req_memory_bytes = b, req_weight = 1, req_work_units = 2, req_priority = 0\<rparr>"

definition ex_ops :: "adm_op list" where
  "ex_ops =
     [Adm_submit (ex_env 10) (Some (\<lambda>_. True)) (ex_request 30) (ex_peer 7),
      Adm_submit (ex_env 20) (Some (\<lambda>_. True)) (ex_request 40) (ex_peer 8),
      Adm_claim (ex_env 30) 1 (ex_peer 7)]"

definition ex_service :: TaskAdmissionService where
  "ex_service = fold run_adm ex_ops (new_service 100 (demo_opts kFifo) 5 True False True)"


section \<open>Only the submitting process controls a task\<close>

text \<open>The accepted submissions of a history, with the identity each was made under.\<close>

fun op_submission :: "adm_op \<Rightarrow> TaskAdmissionService \<Rightarrow> (TaskId \<times> TaskPeerIdentity option) list" where
  "op_submission (Adm_submit env reg req peer) svc =
     (let r = fst (adm_submit env reg req peer svc) in if accepted r then [(sr_task_id r, peer)] else [])"
| "op_submission _ svc = []"

fun submissions :: "adm_op list \<Rightarrow> TaskAdmissionService \<Rightarrow> (TaskId \<times> TaskPeerIdentity option) list" where
  "submissions [] svc = []"
| "submissions (op # ops) svc = op_submission op svc @ submissions ops (run_adm op svc)"

definition owners_ok :: "(TaskId \<times> TaskPeerIdentity option) set \<Rightarrow> TaskAdmissionService \<Rightarrow> bool" where
  "owners_ok S svc \<longleftrightarrow>
     (\<forall>i l. map_of (pending_leases svc) i = Some l \<longrightarrow> (i, lease_owner l) \<in> S) \<and>
     (\<forall>i l. map_of (active_leases svc) i = Some l \<longrightarrow> (i, lease_owner l) \<in> S)"

lemma owners_okI:
  assumes "owners_ok S svc" and "S \<subseteq> S'"
    and "\<And>i l. map_of (pending_leases svc') i = Some l \<Longrightarrow>
      (i, lease_owner l) \<in> S' \<or> (\<exists>l'. map_of (pending_leases svc) i = Some l' \<and> lease_owner l' = lease_owner l)"
    and "\<And>i l. map_of (active_leases svc') i = Some l \<Longrightarrow>
      (i, lease_owner l) \<in> S' \<or> (\<exists>l'. map_of (active_leases svc) i = Some l' \<and> lease_owner l' = lease_owner l)"
  shows "owners_ok S' svc'"
proof -
  have old: "(i, lease_owner l) \<in> S'"
    if "map_of (pending_leases svc) i = Some l' \<or> map_of (active_leases svc) i = Some l'" "lease_owner l' = lease_owner l" for i l l'
    using that(1) assms(1,2) unfolding owners_ok_def that(2) [symmetric] by blast
  have "(i, lease_owner l) \<in> S'" if "map_of (pending_leases svc') i = Some l" for i l
    using assms(3) [OF that] old by blast
  moreover have "(i, lease_owner l) \<in> S'" if "map_of (active_leases svc') i = Some l" for i l
    using assms(4) [OF that] old by blast
  ultimately show ?thesis by (simp add: owners_ok_def)
qed

lemma record_lease_owners:
  assumes ok: "owners_ok S svc" and b: "bind_leases_to_process svc"
  shows "owners_ok S (snd (record_lease env r peer svc))"
proof (cases r)
  case None
  with ok show ?thesis by (simp add: record_lease_def)
next
  case (Some sn)
  let ?i = "snap_task_id sn"
  have own: "(?i, peer) \<in> S" if "\<not> pending_lease_invalid svc ?i peer"
    using that ok b by (auto simp: pending_lease_invalid_def owner_matches_def owners_ok_def split: option.splits)
  show ?thesis
    by (rule owners_okI [OF ok])
      (use Some b own in \<open>auto simp: record_lease_def lease_refused_def Let_def case_prod_beta umap_emplace_def
        split: if_splits\<close>)
qed

lemma announce_owners [simp]: "owners_ok S (snd (announce_dispatch env r)) = owners_ok S (snd r)"
  by (simp add: owners_ok_def)

lemma owners_scheduler [simp]: "owners_ok S (svc\<lparr>ta_scheduler := s\<rparr>) = owners_ok S svc"
  by (simp add: owners_ok_def)

lemma owners_notify [simp]: "owners_ok S (notify_state_change svc) = owners_ok S svc"
  by (simp add: owners_ok_def)

lemma owners_delete:
  assumes "owners_ok S svc"
  shows "owners_ok S (svc\<lparr>active_leases := AList.delete i (active_leases svc)\<rparr>)"
    and "owners_ok S (svc\<lparr>pending_leases := AList.delete i (pending_leases svc)\<rparr>)"
  using assms by (auto simp: owners_ok_def)

lemma submit_owners:
  assumes ok: "owners_ok S svc"
  shows "owners_ok (S \<union> set (op_submission (Adm_submit env reg req peer) svc)) (snd (adm_submit env reg req peer svc))"
  by (rule owners_okI [OF ok])
    (auto simp: adm_submit_def submit_aborted_def Let_def case_prod_beta umap_emplace_def submit_failed_def
      split: option.splits if_splits)

lemma heartbeat_owners: "owners_ok S svc \<Longrightarrow> owners_ok S (snd (adm_heartbeat env i peer svc))"
  by (rule owners_okI) (auto simp: adm_heartbeat_def split: option.splits if_splits)

lemma report_owners: "owners_ok S svc \<Longrightarrow> owners_ok S (snd (report_terminal env i t r svc))"
  by (rule owners_okI) (auto simp: report_terminal_def Let_def case_prod_beta split: option.splits if_splits)

definition lease_keys :: "TaskAdmissionService \<Rightarrow> bool" where
  "lease_keys svc \<longleftrightarrow> keys_distinct (active_leases svc) \<and> keys_distinct (pending_leases svc)"

lemma record_lease_keys:
  "lease_keys svc \<Longrightarrow> lease_keys (snd (announce_dispatch env (record_lease env r p (svc\<lparr>ta_scheduler := s\<rparr>))))"
  "lease_keys svc \<Longrightarrow> lease_keys (snd (announce_dispatch env (record_lease env r p svc)))"
  by (cases r; simp add: lease_keys_def record_lease_def lease_refused_def Let_def case_prod_beta umap_emplace_def)+

lemma run_adm_keys:
  assumes k: "lease_keys svc"
  shows "lease_keys (run_adm op svc)"
proof -
  have cd: "lease_keys (snd (claim_dispatch env i peer svc))" for env i peer
    using record_lease_keys(1) [OF k] by (simp add: claim_dispatch_def case_prod_beta)
  show ?thesis
  proof (cases op)
    case (Adm_wait_attempt env i peer)
    then show ?thesis using cd [of env i peer] k
      by (simp add: wait_attempt_def case_prod_beta split: option.split prod.split)
  next
    case (Adm_external_dispatch env i)
    then show ?thesis using record_lease_keys(2) [OF k] k
      by (simp add: observe_external_dispatch_def Let_def split: option.split)
  next
    case (Adm_submit env reg req peer)
    then show ?thesis using k
      by (simp add: lease_keys_def adm_submit_def submit_aborted_def Let_def case_prod_beta umap_emplace_def split: option.split)
  qed (use k cd record_lease_keys(1) [OF k] in \<open>simp_all add: adm_claim_def claim_next_def Let_def case_prod_beta\<close>,
      use k in \<open>simp_all add: lease_keys_def adm_cancel_def adm_cancel_queued_def adm_heartbeat_def adm_complete_def
        adm_fail_def report_terminal_def reap_expired_def reap_pending_def reap_running_def notify_scheduler_change_def
        observe_external_completion_def Let_def case_prod_beta split: option.split prod.split\<close>)
qed

lemma reap_owners:
  assumes "owners_ok S svc" and "lease_keys svc"
  shows "owners_ok S (snd (reap_expired env svc))"
proof -
  have W: "keys_distinct (active_leases svc)" "keys_distinct (pending_leases svc)"
    using assms(2) by (simp_all add: lease_keys_def)
  have "owners_ok S (snd (reap_pending env i l svc))" if "map_of (pending_leases svc) i = Some l" for i l
    by (rule owners_okI [OF assms(1)])
      (use that in \<open>auto simp: reap_pending_def renewed_lease_def Let_def case_prod_beta split: option.splits if_splits\<close>)
  moreover have "owners_ok S (snd (reap_running env i l svc))" if "map_of (active_leases svc) i = Some l" for i l
    by (rule owners_okI [OF assms(1)])
      (use that in \<open>auto simp: reap_running_def renewed_lease_def Let_def case_prod_beta split: option.splits if_splits\<close>)
  ultimately show ?thesis
    using assms(1) first_expired_Some [OF _ W(1)] first_expired_Some [OF _ W(2)]
    by (auto simp: reap_expired_def split: option.split)
qed

lemma run_adm_config: "adm_config (run_adm op svc) = adm_config svc"
  by (cases op; simp add: adm_submit_def submit_aborted_def adm_cancel_def adm_cancel_queued_def adm_claim_def claim_next_def
      claim_dispatch_def wait_attempt_def adm_heartbeat_def adm_complete_def adm_fail_def report_terminal_def
      reap_expired_def reap_pending_def reap_running_def notify_scheduler_change_def observe_external_dispatch_def
      observe_external_completion_def Let_def case_prod_beta split: option.split prod.split)

lemma run_adm_bound: "bind_leases_to_process (run_adm op svc) = bind_leases_to_process svc"
  using run_adm_config [of op svc] by (simp add: adm_config_def)

lemma run_adm_owners:
  assumes ok: "owners_ok S svc" and b: "bind_leases_to_process svc" and k: "lease_keys svc"
  shows "owners_ok (S \<union> set (op_submission op svc)) (run_adm op svc)"
proof -
  have cd: "owners_ok S (snd (claim_dispatch env i peer svc))" for env i peer
    using record_lease_owners [of S "svc\<lparr>ta_scheduler := s\<rparr>" for s] ok b
    by (simp add: claim_dispatch_def case_prod_beta)
  show ?thesis
  proof (cases op)
    case (Adm_submit env reg req peer)
    then show ?thesis using submit_owners [OF ok] by (simp del: op_submission.simps)
  next
    case (Adm_cancel env i)
    then show ?thesis using ok by (auto simp: adm_cancel_def case_prod_beta owners_ok_def split: if_splits)
  next
    case (Adm_cancel_queued i)
    then show ?thesis using ok by (auto simp: adm_cancel_queued_def case_prod_beta owners_ok_def split: if_splits)
  next
    case (Adm_wait_attempt env i peer)
    then show ?thesis using cd [of env i peer] ok
      by (simp add: wait_attempt_def case_prod_beta split: option.split prod.split)
  next
    case (Adm_external_dispatch env i)
    then show ?thesis using record_lease_owners [OF ok b] ok
      by (simp add: observe_external_dispatch_def Let_def split: option.split)
  next
    case (Adm_external_completion env i t)
    then show ?thesis using ok by (auto simp: observe_external_completion_def owners_ok_def split: option.splits if_splits)
  qed (use ok b cd heartbeat_owners report_owners reap_owners k in
      \<open>simp_all add: adm_claim_def claim_next_def adm_complete_def adm_fail_def notify_scheduler_change_def Let_def\<close>)
qed

lemma history_owners:
  assumes "owners_ok S svc" and "bind_leases_to_process svc" and "lease_keys svc"
  shows "owners_ok (S \<union> set (submissions ops svc)) (fold run_adm ops svc) \<and> bind_leases_to_process (fold run_adm ops svc)"
  using assms
proof (induction ops arbitrary: S svc)
  case (Cons op ops)
  from Cons.IH [OF run_adm_owners [OF Cons.prems]] Cons.prems run_adm_bound run_adm_keys
  show ?case by (simp add: Un_assoc)
qed simp

text \<open>
  C16. In process-bound mode only the process that submitted a task controls it. Whatever has
  happened before, transitions of the scheduler behind the service's back included, a claim, a
  waiting claim, a heartbeat, a completion or a failure report of task \<open>i\<close> under identity \<open>peer\<close>
  succeeds only if \<open>i\<close> was accepted from exactly that identity; and a claim that names no task
  yields nothing.
\<close>

theorem only_submitter_controls:
  assumes "svc = fold run_adm ops (new_service limit opts timeout True dobs cobs)"
    and "fst (adm_claim env i peer svc) \<noteq> None \<or> (\<exists>sn. fst (wait_attempt env i peer svc) = Some (Some sn)) \<or>
      fst (adm_heartbeat env i peer svc) \<or> fst (adm_complete env i peer svc) \<or> fst (adm_fail env i peer svc)"
  shows "(i, peer) \<in> set (submissions ops (new_service limit opts timeout True dobs cobs)) \<and>
    fst (claim_next env peer svc) = None"
proof -
  let ?S = "set (submissions ops (new_service limit opts timeout True dobs cobs))"
  have new: "owners_ok {} (new_service limit opts timeout True dobs cobs)"
    "bind_leases_to_process (new_service limit opts timeout True dobs cobs)"
    "lease_keys (new_service limit opts timeout True dobs cobs)"
    by (simp_all add: owners_ok_def lease_keys_def TaskAdmissionService_new_def)
  have ok: "owners_ok ?S svc" and b: "bind_leases_to_process svc"
    using history_owners [OF new, of ops] assms(1) by simp_all
  have A: "(i, peer) \<in> ?S" if "map_of (active_leases svc) i = Some l" "owner_matches svc l peer" for l
    using that ok b by (auto simp: owners_ok_def owner_matches_def)
  have P: "(i, peer) \<in> ?S" if "pending_owner_matches svc i peer"
    using that ok b by (auto simp: owners_ok_def owner_matches_def pending_owner_matches_def split: option.splits)
  have R: "(i, peer) \<in> ?S" if "running_lease_visible svc i peer"
    using that A b by (auto simp: running_lease_visible_def unbound_without_timeout_def split: option.splits)
  have "(i, peer) \<in> ?S" if "fst (adm_claim env i peer svc) \<noteq> None"
    using that R P by (auto simp: adm_claim_def Let_def split: if_splits)
  moreover have "(i, peer) \<in> ?S" if "fst (wait_attempt env i peer svc) = Some (Some sn)" for sn
    using that R P by (auto simp: wait_attempt_def split: if_splits option.splits)
  moreover have "(i, peer) \<in> ?S" if "fst (adm_heartbeat env i peer svc)"
    using that A b by (auto simp: adm_heartbeat_def unbound_without_timeout_def split: if_splits option.splits)
  moreover have "(i, peer) \<in> ?S" if "fst (adm_complete env i peer svc) \<or> fst (adm_fail env i peer svc)"
    using that A b by (auto simp: adm_complete_def adm_fail_def active_owner_rejected_def split: if_splits option.splits)
  ultimately show ?thesis using assms(2) b by (auto simp: claim_next_def)
qed

theorem only_submitter_controls_witness:
  "fst (adm_complete (ex_env 40) 1 (ex_peer 7) ex_service) \<and> \<not> fst (adm_complete (ex_env 40) 1 (ex_peer 8) ex_service) \<and>
   (1, ex_peer 7) \<in> set (submissions ex_ops (new_service 100 (demo_opts kFifo) 5 True False True))"
proof -
  have "fst (adm_complete (ex_env 40) 1 (ex_peer 7) ex_service)" "\<not> fst (adm_complete (ex_env 40) 1 (ex_peer 8) ex_service)"
    by code_simp+
  then show ?thesis using only_submitter_controls [OF ex_service_def, of "ex_env 40" 1 "ex_peer 7"] by simp
qed

section \<open>A refused submission\<close>

lemma usage_eqI:
  assumes "sched_inv s" and "sched_inv s'" and "ledger_limit (quota_ledger s') = ledger_limit (quota_ledger s)"
    and "umap_sum reserved_of (tasks s') = umap_sum reserved_of (tasks s)"
    and "umap_sum allocated_of (tasks s') = umap_sum allocated_of (tasks s)"
  shows "Scheduler_usage s' = Scheduler_usage s"
  using assms sched_invD(4) [OF assms(1)] sched_invD(4) [OF assms(2)]
  by (simp add: Scheduler_usage_def ledger_usage_def inv_accounts_def word_unat_eq_iff)

text \<open>Cancelling the task that was just submitted restores the usage.\<close>

lemma submit_cancel_usage:
  assumes inv: "sched_inv s" and sub: "Scheduler_submit f now spec s = (res, s1)" and acc: "accepted res"
  shows "Scheduler_usage (snd (Scheduler_cancel now' (sr_task_id res) s1)) = Scheduler_usage s"
proof -
  let ?i = "sr_task_id res" and ?t = "submitted_record now spec"
  have A: "submit_transition now spec s s1" "?i = next_task_id s"
    using submit_accepted [OF inv sub] acc by (simp_all add: accepted_def)
  have inv1: "sched_inv s1" using submit_inv [OF inv sub] .
  have ts: "tasks s1 = AList.update ?i ?t (tasks s)" using A by (simp add: submit_transition_def)
  have t: "map_of (tasks s1) ?i = Some ?t" "task_st ?t = TaskState_kQueued"
    by (simp_all add: ts submitted_record_def)
  obtain s2 where can: "cancel_queued_task_locked ?i ?t s1 = (True, s2)" and tr: "task_transition ?i ?t (cancelled_record ?t) s1 s2"
    by (rule cancel_queued_ok [OF inv1 t])
  have inv2: "sched_inv s2" using task_transition_inv [OF inv1 t(1) tr] .
  have ts2: "tasks s2 = AList.update ?i (cancelled_record ?t) (tasks s1)" using tr by (simp add: task_transition_def)
  have sum: "umap_sum f (tasks s2) = umap_sum f (tasks s) + f (cancelled_record ?t)" for f
    unfolding ts2 umap_sum_update [OF t(1)] using fresh_task_id [OF inv] A(2)
    by (simp add: ts umap_sum_absent)
  have "sched_static s2 = sched_static s"
    using static_transition [OF tr] static_submit [OF A(1)] by simp
  then have "ledger_limit (quota_ledger s2) = ledger_limit (quota_ledger s)" by (simp add: sched_static_def)
  then have "Scheduler_usage s2 = Scheduler_usage s"
    by (intro usage_eqI [OF inv inv2])
      (simp_all add: sum, simp_all add: cancelled_record_def reserved_of_def allocated_of_def)
  then show ?thesis using t can by (simp add: Scheduler_cancel_def)
qed

text \<open>
  A refused submission leaves nothing behind. Whatever the reason (a missing registrar, an
  unidentified peer, a refusal of the scheduler, a registrar that declines, or a lease that cannot
  be recorded), the quota usage and both lease maps are as before; the only trace a refusal
  can leave is the record of a task that is already cancelled.
\<close>

theorem refused_submission_leaves_nothing:
  assumes "sched_reachable limit opts (ta_scheduler svc)"
    and "adm_submit env registrar req peer svc = (res, svc')" and "\<not> accepted res"
  shows "Scheduler_usage (ta_scheduler svc') = Scheduler_usage (ta_scheduler svc) \<and>
    active_leases svc' = active_leases svc \<and> pending_leases svc' = pending_leases svc \<and>
    (\<forall>j. Scheduler_task_state j (ta_scheduler svc') = Scheduler_task_state j (ta_scheduler svc) \<or>
       j = sr_task_id res \<and> Scheduler_task_state j (ta_scheduler svc) = None \<and>
       Scheduler_task_state j (ta_scheduler svc') = Some TaskState_kCancelled)"
proof -
  note inv = reachable_inv [OF assms(1)]
  obtain ad s where sub: "Scheduler_submit (env_submit_fault env) (at_scheduler env) (request_spec req) (ta_scheduler svc) = (ad, s)"
    by (cases "Scheduler_submit (env_submit_fault env) (at_scheduler env) (request_spec req) (ta_scheduler svc)")
  let ?i = "sr_task_id ad"
  have cases: "svc' = svc \<or> accepted ad \<and> res = fst (submit_aborted env ?i (svc\<lparr>ta_scheduler := s\<rparr>)) \<and>
      svc' = snd (submit_aborted env ?i (svc\<lparr>ta_scheduler := s\<rparr>))"
    using assms(2,3) sub submit_step [OF inv sub]
    by (auto simp: adm_submit_def Let_def case_prod_beta umap_emplace_def split: option.splits if_splits)
  show ?thesis
  proof (cases "svc' = svc")
    case False
    with cases have acc: "accepted ad" and r: "sr_task_id res = ?i"
      "ta_scheduler svc' = snd (Scheduler_cancel (at_scheduler env) ?i s)"
      "active_leases svc' = active_leases svc" "pending_leases svc' = pending_leases svc"
      by (auto simp: submit_aborted_def)
    have st: "Scheduler_task_state j s = (if j = ?i then Some TaskState_kQueued else st svc j)" "st svc ?i = None" for j
      using submit_step [OF inv sub] acc by (auto simp: Scheduler_task_state_def)
    have "Scheduler_task_state j (ta_scheduler svc') = (if j = ?i then Some TaskState_kCancelled else st svc j)" for j
      using cancel_step [OF submit_inv [OF inv sub], of ?i "at_scheduler env"] st by (simp add: r)
    with st r submit_cancel_usage [OF inv sub acc] show ?thesis by simp
  qed simp
qed

theorem refused_submission_leaves_nothing_witness:
  "\<not> accepted (fst (adm_submit (ex_env 50) (Some (\<lambda>_. False)) (ex_request 10) (ex_peer 9) ex_service)) \<and>
   Scheduler_usage (ta_scheduler (snd (adm_submit (ex_env 50) (Some (\<lambda>_. False)) (ex_request 10) (ex_peer 9) ex_service))) =
     Scheduler_usage (ta_scheduler ex_service)"
proof -
  have n: "\<not> accepted (fst (adm_submit (ex_env 50) (Some (\<lambda>_. False)) (ex_request 10) (ex_peer 9) ex_service))" by code_simp
  have r: "sched_reachable 100 (demo_opts kFifo) (ta_scheduler ex_service)"
    unfolding ex_service_def by (rule new_service_reachable)
  from refused_submission_leaves_nothing [OF r prod.collapse [symmetric] n] n show ?thesis by simp
qed

section \<open>Expired leases are reclaimed\<close>

definition due :: "time_ns \<Rightarrow> LeaseRecord \<Rightarrow> nat" where
  "due now l = (if lease_deadline l \<le> now then 1 else 0)"

definition due_count :: "time_ns \<Rightarrow> TaskAdmissionService \<Rightarrow> nat" where
  "due_count now svc = umap_sum (due now) (pending_leases svc) + umap_sum (due now) (active_leases svc)"

text \<open>Every live task is due at \<open>now\<close>; a lease that is not due was renewed after \<open>now\<close>.\<close>

definition fresh_or_due :: "time_ns \<Rightarrow> TaskAdmissionService \<Rightarrow> LeaseRecord \<Rightarrow> bool" where
  "fresh_or_due now svc l \<longleftrightarrow>
     lease_deadline l \<le> now \<or> now + milliseconds (lease_timeout svc) \<le> lease_deadline l"

definition all_due :: "time_ns \<Rightarrow> TaskAdmissionService \<Rightarrow> bool" where
  "all_due now svc \<longleftrightarrow>
     adm_inv svc \<and> lease_timeout svc > 0 \<and>
     (\<forall>i l. map_of (pending_leases svc) i = Some l \<longrightarrow> fresh_or_due now svc l) \<and>
     (\<forall>i l. map_of (active_leases svc) i = Some l \<longrightarrow> fresh_or_due now svc l) \<and>
     (\<forall>i l. st svc i = Some TaskState_kQueued \<longrightarrow> map_of (pending_leases svc) i = Some l \<longrightarrow> lease_deadline l \<le> now) \<and>
     (\<forall>i l. map_of (active_leases svc) i = Some l \<longrightarrow> lease_deadline l \<le> now)"

text \<open>The clock readings of a call that runs after \<open>now\<close> and before a renewed lease expires.\<close>

definition reads_within :: "time_ns \<Rightarrow> int \<Rightarrow> adm_env \<Rightarrow> bool" where
  "reads_within now timeout env \<longleftrightarrow>
     now \<le> at_lease env \<and> at_lease env < now + milliseconds timeout \<and> now \<le> at_retry env"

lemma first_expired_None: "first_expired now m = None \<longleftrightarrow> (\<forall>(i, l) \<in> set m. \<not> expired_at now l)"
  by (induction m) (auto split: if_splits)

lemma first_expired_due:
  assumes "first_expired (at_lease env) m = None" and "keys_distinct m" and "reads_within now t env"
    and "\<And>i l. map_of m i = Some l \<Longrightarrow> \<not> lease_reaping l"
  shows "umap_sum (due now) m = 0"
  unfolding umap_sum_zero_iff
proof (clarify)
  fix i l
  assume "(i, l) \<in> set m"
  moreover from this have "map_of m i = Some l" using assms(2) by simp
  ultimately show "due now l = 0"
    using assms by (force simp: first_expired_None expired_at_def due_def reads_within_def)
qed

lemma reap_step:
  assumes ad: "all_due now svc" and w: "reads_within now (lease_timeout svc) env"
  shows "all_due now (snd (reap_expired env svc)) \<and> due_count now (snd (reap_expired env svc)) = due_count now svc - 1 \<and>
    lease_timeout (snd (reap_expired env svc)) = lease_timeout svc"
proof -
  have inv: "adm_inv svc" and to: "lease_timeout svc > 0" using ad by (simp_all add: all_due_def)
  note I = adm_invD [OF inv] and W = leases_wfD [OF adm_invD(3) [OF inv]]
  have inv': "adm_inv (snd (reap_expired env svc))" by (rule reap_adm_inv [OF inv])
  have ms: "milliseconds (lease_timeout svc) > 0" using to by (simp add: milliseconds_def)
  show ?thesis
  proof (cases "first_expired (at_lease env) (pending_leases svc)")
    case (Some il)
    obtain i l where il: "il = (i, l)" by (cases il)
    have l: "map_of (pending_leases svc) i = Some l" "expired_at (at_lease env) l"
      using first_expired_Some [OF _ W(2)] Some il by auto
    have dl: "lease_deadline l \<le> now" "due now l = 1"
      using l w ad unfolding all_due_def fresh_or_due_def by (force simp: expired_at_def reads_within_def due_def)+
    have r: "reap_expired env svc = reap_pending env i l svc"
      using to Some il by (simp add: reap_expired_def)
    show ?thesis
    proof (cases "st svc i = Some TaskState_kQueued")
      case True
      have st': "Scheduler_task_state j (snd (Scheduler_cancel_queued i (ta_scheduler svc))) =
          (if j = i then Some TaskState_kCancelled else st svc j)" for j
        using cancel_queued_step [OF I(1), of i] True by simp
      have "umap_sum (due now) (AList.delete i (AList.update i (l\<lparr>lease_reaping := True\<rparr>) (pending_leases svc))) =
          umap_sum (due now) (pending_leases svc) - 1"
        using umap_sum_delete [of "AList.update i (l\<lparr>lease_reaping := True\<rparr>) (pending_leases svc)" i "l\<lparr>lease_reaping := True\<rparr>" "due now"]
          umap_sum_update [OF l(1), of "due now" "l\<lparr>lease_reaping := True\<rparr>"] W(2) dl(2) umap_sum_ge [OF l(1), of "due now"]
        by (simp add: due_def)
      with True ad inv' st' umap_sum_ge [OF l(1), of "due now"] dl(2) show ?thesis
        unfolding r by (auto simp: reap_pending_eq [OF inv] all_due_def due_count_def fresh_or_due_def split: if_splits)
    next
      case False
      let ?m = "AList.update i (renewed_lease env svc l) (AList.update i (l\<lparr>lease_reaping := True\<rparr>) (pending_leases svc))"
      have up: "AList.update i y (AList.update i x m) = AList.update i y m" for x y :: LeaseRecord and m
        by (induction m) auto
      have late: "now + milliseconds (lease_timeout svc) \<le> lease_deadline (renewed_lease env svc l)"
        using w by (simp add: renewed_lease_def reads_within_def)
      have "umap_sum (due now) ?m = umap_sum (due now) (pending_leases svc) - 1"
        unfolding up umap_sum_update [OF l(1)] using dl(2) late ms by (simp add: due_def)
      with False ad inv' late umap_sum_ge [OF l(1), of "due now"] dl(2) show ?thesis
        unfolding r by (auto simp: reap_pending_eq [OF inv] all_due_def due_count_def fresh_or_due_def)
    qed
  next
    case None
    have z: "umap_sum (due now) (pending_leases svc) = 0" by (rule first_expired_due [OF None W(2) w W(5)])
    show ?thesis
    proof (cases "first_expired (at_lease env) (active_leases svc)")
      case None
      have "umap_sum (due now) (active_leases svc) = 0" by (rule first_expired_due [OF None W(1) w W(4)])
      moreover have "reap_expired env svc = (False, svc)"
        using None \<open>first_expired (at_lease env) (pending_leases svc) = None\<close> by (simp add: reap_expired_def)
      ultimately show ?thesis using ad z by (simp add: due_count_def)
    next
      case (Some il)
      obtain i l where il: "il = (i, l)" by (cases il)
      have l: "map_of (active_leases svc) i = Some l" using first_expired_Some [OF _ W(1)] Some il by auto
      then have dl: "due now l = 1" using ad unfolding all_due_def due_def by auto
      obtain svc' where rr: "reap_running env i l svc = (True, svc')"
        "ta_scheduler svc' = snd (Scheduler_fail (at_scheduler env) i (ta_scheduler svc))"
        "active_leases svc' = AList.delete i (AList.update i (l\<lparr>lease_reaping := True\<rparr>) (active_leases svc))"
        "pending_leases svc' = pending_leases svc" "adm_config svc' = adm_config svc"
        by (rule reap_running_eq [OF inv l])
      have r: "reap_expired env svc = (True, svc')"
        using None to Some il rr(1) by (simp add: reap_expired_def)
      have st': "st svc' j = (if j = i then Some TaskState_kFailed else st svc j)" for j
        using fail_step [OF I(1), of i "at_scheduler env"] lease_viewsD(1) [OF I(4), of i] l rr(2) by simp
      have "umap_sum (due now) (active_leases svc') = umap_sum (due now) (active_leases svc) - 1"
        using umap_sum_delete [of "AList.update i (l\<lparr>lease_reaping := True\<rparr>) (active_leases svc)" i "l\<lparr>lease_reaping := True\<rparr>" "due now"]
          umap_sum_update [OF l, of "due now" "l\<lparr>lease_reaping := True\<rparr>"] W(1) dl umap_sum_ge [OF l, of "due now"]
        by (simp add: rr(3) due_def)
      with ad inv' st' z rr(3,4) rr(5) show ?thesis
        unfolding r by (auto simp: all_due_def due_count_def fresh_or_due_def adm_config_def split: if_splits)
    qed
  qed
qed

lemma reap_all:
  assumes "all_due now svc" and "list_all (reads_within now (lease_timeout svc)) envs"
  shows "all_due now (fold (\<lambda>env. snd \<circ> reap_expired env) envs svc) \<and>
    due_count now (fold (\<lambda>env. snd \<circ> reap_expired env) envs svc) = due_count now svc - length envs"
  using assms
proof (induction envs arbitrary: svc)
  case (Cons env envs)
  have w: "reads_within now (lease_timeout svc) env" using Cons.prems by simp
  note S = reap_step [OF Cons.prems(1) w]
  have "list_all (reads_within now (lease_timeout (snd (reap_expired env svc)))) envs" using S Cons.prems by simp
  from Cons.IH [OF _ this] S show ?case by simp
qed simp

lemma nothing_due_nothing_live:
  assumes "all_due now svc" and "due_count now svc = 0"
  shows "st svc i \<noteq> Some TaskState_kQueued" and "st svc i \<noteq> Some TaskState_kRunning"
proof -
  have inv: "adm_inv svc" using assms by (simp add: all_due_def)
  note I = adm_invD [OF inv] and W = leases_wfD [OF adm_invD(3) [OF inv]]
  have z: "umap_sum (due now) (pending_leases svc) = 0" "umap_sum (due now) (active_leases svc) = 0"
    using assms(2) by (simp_all add: due_count_def)
  show "st svc i \<noteq> Some TaskState_kQueued"
  proof
    assume q: "st svc i = Some TaskState_kQueued"
    then obtain l where l: "map_of (pending_leases svc) i = Some l" using lease_viewsD(2) [OF I(4)] by blast
    then have "due now l = 1" using assms(1) q unfolding all_due_def due_def by simp
    with umap_sum_ge [OF l, of "due now"] z(1) show False by simp
  qed
  show "st svc i \<noteq> Some TaskState_kRunning"
  proof
    assume "st svc i = Some TaskState_kRunning"
    then obtain l where l: "map_of (active_leases svc) i = Some l" using lease_viewsD(1) [OF I(4)] by blast
    then have "due now l = 1" using assms(1) unfolding all_due_def due_def by auto
    with umap_sum_ge [OF l, of "due now"] z(2) show False by simp
  qed
qed

lemma no_live_no_usage:
  assumes inv: "sched_inv s" and "\<And>i. Scheduler_task_state i s \<noteq> Some TaskState_kQueued"
    and "\<And>i. Scheduler_task_state i s \<noteq> Some TaskState_kRunning"
  shows "reserved_bytes (Scheduler_usage s) = 0 \<and> allocated_bytes (Scheduler_usage s) = 0"
proof -
  have dk: "keys_distinct (tasks s)" using sched_invD(2) [OF inv] by (simp add: inv_tasks_def)
  have "task_st t \<noteq> TaskState_kQueued" "task_st t \<noteq> TaskState_kRunning" if "(i, t) \<in> set (tasks s)" for i t
    using assms(2,3) [of i] that dk by (auto simp: Scheduler_task_state_def)
  then have "umap_sum reserved_of (tasks s) = 0" "umap_sum allocated_of (tasks s) = 0"
    unfolding umap_sum_zero_iff by (auto simp: reserved_of_def allocated_of_def)
  then show ?thesis
    using sched_invD(4) [OF inv] by (simp add: inv_accounts_def Scheduler_usage_def ledger_usage_def unat_eq_0)
qed

lemma due_le_one: "umap_sum (due now) m \<le> length m"
  unfolding umap_sum_const [symmetric] by (rule umap_sum_mono) (simp add: due_def)

lemma service_config: "lease_timeout (fold run_adm ops svc) = lease_timeout svc"
proof (induction ops arbitrary: svc)
  case (Cons op ops)
  then show ?case using run_adm_config [of op svc] by (simp add: adm_config_def)
qed simp

text \<open>
  C17. Abandoned work is reclaimed. If every lease of the service has expired, then calling
  \<open>reap_expired\<close> as many times as there are leases, before any lease it renews expires again,
  leaves no queued and no running task, and all the memory of the quota is free again.
\<close>

theorem expired_leases_reclaimed:
  assumes "list_all service_op ops" and "timeout > 0"
    and "svc = fold run_adm ops (new_service limit opts timeout bound dobs cobs)"
    and "list_all (\<lambda>(i, l). lease_deadline l \<le> now) (pending_leases svc @ active_leases svc)"
    and "list_all (reads_within now timeout) envs" and "length (pending_leases svc) + length (active_leases svc) \<le> length envs"
    and "svc' = fold (\<lambda>env. snd \<circ> reap_expired env) envs svc"
  shows "Scheduler_task_state i (ta_scheduler svc') \<notin> {Some TaskState_kQueued, Some TaskState_kRunning} \<and>
    reserved_bytes (Scheduler_usage (ta_scheduler svc')) = 0 \<and> allocated_bytes (Scheduler_usage (ta_scheduler svc')) = 0"
proof -
  have inv: "adm_inv svc" unfolding assms(3) using assms(1,2) by (intro history_inv new_service_inv) simp_all
  have to: "lease_timeout svc = timeout" using assms(2) by (simp add: assms(3) service_config TaskAdmissionService_new_def)
  have "lease_deadline l \<le> now" if "map_of (pending_leases svc) i = Some l \<or> map_of (active_leases svc) i = Some l" for i l
    using assms(4) that by (auto simp: list_all_iff dest!: map_of_SomeD)
  then have ad: "all_due now svc" using inv to assms(2) by (auto simp: all_due_def fresh_or_due_def)
  have R: "all_due now svc'" "due_count now svc' = due_count now svc - length envs"
    using reap_all [OF ad] assms(5,7) to by simp_all
  have "due_count now svc \<le> length envs"
    using due_le_one [of now "pending_leases svc"] due_le_one [of now "active_leases svc"] assms(6) by (simp add: due_count_def)
  then have z: "due_count now svc' = 0" using R(2) by simp
  have "sched_inv (ta_scheduler svc')" using R(1) by (simp add: all_due_def adm_inv_def)
  from no_live_no_usage [OF this nothing_due_nothing_live [OF R(1) z]] nothing_due_nothing_live [OF R(1) z, of i]
  show ?thesis by simp
qed

theorem expired_leases_reclaimed_witness:
  "allocated_bytes (Scheduler_usage (ta_scheduler ex_service)) = 30 \<and>
   allocated_bytes (Scheduler_usage (ta_scheduler
     (fold (\<lambda>env. snd \<circ> reap_expired env) [ex_env 9000000, ex_env 9000000] ex_service))) = 0"
proof -
  have "allocated_bytes (Scheduler_usage (ta_scheduler ex_service)) = 30"
    "list_all (\<lambda>(i, l). lease_deadline l \<le> 9000000) (pending_leases ex_service @ active_leases ex_service)"
    "list_all (reads_within 9000000 5) [ex_env 9000000, ex_env 9000000]"
    "length (pending_leases ex_service) + length (active_leases ex_service) = 2" "list_all service_op ex_ops" by code_simp+
  with expired_leases_reclaimed [OF _ _ ex_service_def _ _ _ refl, of 9000000 "[ex_env 9000000, ex_env 9000000]"]
  show ?thesis by simp
qed

text \<open>
  A heartbeat keeps a lease: after an accepted heartbeat, a reaper that runs before the timeout
  has passed again leaves the task running and its lease in place.
\<close>

theorem heartbeat_keeps_lease:
  assumes "list_all service_op ops" and "timeout > 0"
    and "svc = fold run_adm ops (new_service limit opts timeout bound dobs cobs)"
    and "adm_heartbeat env i peer svc = (True, svc1)" and "at_lease env' < at_lease env + milliseconds timeout"
  shows "Scheduler_task_state i (ta_scheduler (snd (reap_expired env' svc1))) = Some TaskState_kRunning \<and>
    map_of (active_leases (snd (reap_expired env' svc1))) i = map_of (active_leases svc1) i"
proof -
  have inv: "adm_inv svc" unfolding assms(3) using assms(1,2) by (intro history_inv new_service_inv) simp_all
  have to: "lease_timeout svc = timeout" using assms(2) by (simp add: assms(3) service_config TaskAdmissionService_new_def)
  have inv1: "adm_inv svc1" using heartbeat_adm_inv [OF inv, of env i peer] assms(4) by simp
  note I = adm_invD [OF inv1] and W = leases_wfD [OF adm_invD(3) [OF inv1]]
  have run: "st svc1 i = Some TaskState_kRunning"
    using assms(2,4) to by (auto simp: adm_heartbeat_def unbound_without_timeout_def find_state [symmetric]
        split: if_splits option.splits)
  obtain l where l: "map_of (active_leases svc1) i = Some l" "lease_deadline l = at_lease env + milliseconds timeout"
    using assms(2,4) to by (auto simp: adm_heartbeat_def unbound_without_timeout_def split: if_splits option.splits)
  have P: "st (snd (reap_pending env' j m svc1)) i = Some TaskState_kRunning \<and>
      active_leases (snd (reap_pending env' j m svc1)) = active_leases svc1" for j m
    using run cancel_queued_step [OF I(1), of j] by (auto simp: reap_pending_eq [OF inv1])
  have R: "st (snd (reap_running env' j m svc1)) i = Some TaskState_kRunning \<and>
      map_of (active_leases (snd (reap_running env' j m svc1))) i = Some l"
    if m: "map_of (active_leases svc1) j = Some m" "expired_at (at_lease env') m" for j m
  proof -
    have j: "j \<noteq> i" using m l assms(5) by (auto simp: expired_at_def)
    obtain svc' where "reap_running env' j m svc1 = (True, svc')"
      "ta_scheduler svc' = snd (Scheduler_fail (at_scheduler env') j (ta_scheduler svc1))"
      "active_leases svc' = AList.delete j (AList.update j (m\<lparr>lease_reaping := True\<rparr>) (active_leases svc1))"
      by (rule reap_running_eq [OF inv1 m(1)])
    moreover have "Scheduler_task_state i (snd (Scheduler_fail (at_scheduler env') j (ta_scheduler svc1))) = st svc1 i"
      using fail_step [OF I(1), of j "at_scheduler env'"] j by (auto split: if_splits)
    ultimately show ?thesis using run l j by simp
  qed
  show ?thesis
    using run l P R first_expired_Some [OF _ W(1)]
    by (auto simp: reap_expired_def split: option.split)
qed

theorem heartbeat_keeps_lease_witness:
  "fst (adm_heartbeat (ex_env 4000000) 1 (ex_peer 7) ex_service) \<and>
   Scheduler_task_state 1 (ta_scheduler (snd (reap_expired (ex_env 8000000)
     (snd (adm_heartbeat (ex_env 4000000) 1 (ex_peer 7) ex_service))))) = Some TaskState_kRunning"
proof -
  have h: "fst (adm_heartbeat (ex_env 4000000) 1 (ex_peer 7) ex_service)" "list_all service_op ex_ops"
    "at_lease (ex_env 8000000) < at_lease (ex_env 4000000) + milliseconds 5" by code_simp+
  then have e: "adm_heartbeat (ex_env 4000000) 1 (ex_peer 7) ex_service =
      (True, snd (adm_heartbeat (ex_env 4000000) 1 (ex_peer 7) ex_service))" by (simp add: prod_eq_iff)
  show ?thesis using heartbeat_keeps_lease [OF h(2) _ ex_service_def e h(3)] h(1) by simp
qed

section \<open>Pending leases that outlive their task\<close>

text \<open>
  The reaper removes a pending lease only together with its queued task. When an allocation
  failure during a dispatch has failed the task, the lease stays: each expiry renews it, and as
  the reaper looks at pending leases first, that call reclaims nothing else.
\<close>

lemma stale_pending_kept:
  assumes inv: "adm_inv svc" and p: "map_of (pending_leases svc) i = Some l" and "st svc i \<noteq> Some TaskState_kQueued"
  shows "map_of (pending_leases (snd (reap_expired env svc))) i \<noteq> None"
proof -
  note W = leases_wfD [OF adm_invD(3) [OF inv]]
  have pend: "map_of (pending_leases (snd (reap_pending env j m svc))) i \<noteq> None" for j m
    using p assms(3) by (cases "j = i") (auto simp: reap_pending_eq [OF inv])
  have run: "map_of (pending_leases (snd (reap_running env j m svc))) i \<noteq> None" for j m
    using p by (auto simp: reap_running_def Let_def case_prod_beta split: option.split)
  show ?thesis using p pend run by (auto simp: reap_expired_def split: option.split)
qed

lemma stale_pending_example:
  "let svc = snd (adm_claim (ex_env 40\<lparr>env_dispatch_fault := Some Fault_snapshot\<rparr>) 2 (ex_peer 8)
        (snd (adm_complete (ex_env 35) 1 (ex_peer 7) ex_service)))
   in st svc 2 = Some TaskState_kFailed \<and> map_of (pending_leases svc) 2 \<noteq> None"
  by code_simp

end
