(* ===== verification/TextTokens.thy ===== *)
theory TextTokens
  imports Prelude
begin

text \<open>
  The text layer of the task protocol: splitting a line into tokens, and the decimal
  numbers that \<open>std::to_string\<close> writes and \<open>std::from_chars\<close> reads. Lines are strings; the
  remaining input of a loop over an offset is the suffix of the line from that offset.
\<close>

section \<open>Tokens\<close>

definition kMaxTokens :: nat where
  "kMaxTokens = 24"

record TokenList =
  tok_values :: "string list"
  tok_overflow :: bool

abbreviation tok_count :: "TokenList \<Rightarrow> nat" where
  "tok_count t \<equiv> length (tok_values t)"

definition is_separator :: "char \<Rightarrow> bool" where
  "is_separator c \<longleftrightarrow> c = CHR '' '' \<or> c = CHR 0x09"

text \<open>The loop of \<open>split_tokens\<close> over the rest of the line.\<close>

function split_loop :: "string \<Rightarrow> TokenList \<Rightarrow> TokenList" where
  "split_loop line result =
     (let rest = dropWhile is_separator line in
      if rest = [] then result
      else
        let token = takeWhile (\<lambda>c. \<not> is_separator c) rest;
            rest' = dropWhile (\<lambda>c. \<not> is_separator c) rest
        in if tok_count result = kMaxTokens then split_loop rest' (result\<lparr>tok_overflow := True\<rparr>)
           else split_loop rest' (result\<lparr>tok_values := tok_values result @ [token]\<rparr>))"
  by pat_completeness auto

text \<open>Every round consumes at least one character.\<close>

lemma split_round_shorter:
  assumes "dropWhile is_separator line \<noteq> []"
  shows "length (dropWhile (\<lambda>c. \<not> is_separator c) (dropWhile is_separator line)) < length line"
proof -
  obtain c cs where d: "dropWhile is_separator line = c # cs" using assms by (cases "dropWhile is_separator line") auto
  then have "\<not> is_separator c" by (metis dropWhile_eq_Cons_conv)
  with d have "length (dropWhile (\<lambda>c. \<not> is_separator c) (dropWhile is_separator line)) \<le> length cs"
    by (simp add: length_dropWhile_le)
  also have "\<dots> < length (dropWhile is_separator line)" by (simp add: d)
  also have "\<dots> \<le> length line" by (rule length_dropWhile_le)
  finally show ?thesis .
qed

termination split_loop
  by (relation "measure (length \<circ> fst)") (auto simp: split_round_shorter)

declare split_loop.simps [simp del]

definition split_tokens :: "string \<Rightarrow> TokenList" where
  "split_tokens line = split_loop line \<lparr>tok_values = [], tok_overflow = False\<rparr>"

definition token_ok :: "string \<Rightarrow> bool" where
  "token_ok t \<longleftrightarrow> t \<noteq> [] \<and> list_all (\<lambda>c. \<not> is_separator c) t"

text \<open>What \<open>a + " " + b + ...\<close> builds, and that it is split into the same tokens again.\<close>

fun join_tokens :: "string list \<Rightarrow> string" where
  "join_tokens [] = []"
| "join_tokens [t] = t"
| "join_tokens (t # ts) = t @ '' '' @ join_tokens ts"

lemma separator_space [simp]: "is_separator CHR '' ''"
  by (simp add: is_separator_def)

lemma token_prefix:
  assumes "token_ok t" and "rest = [] \<or> is_separator (hd rest)"
  shows "dropWhile is_separator (t @ rest) = t @ rest"
    and "takeWhile (\<lambda>c. \<not> is_separator c) (t @ rest) = t"
    and "dropWhile (\<lambda>c. \<not> is_separator c) (t @ rest) = rest"
proof -
  show "dropWhile is_separator (t @ rest) = t @ rest"
    using assms(1) by (cases t) (simp_all add: token_ok_def)
  have t: "\<forall>c \<in> set t. \<not> is_separator c" using assms(1) by (simp add: token_ok_def list_all_iff)
  show "takeWhile (\<lambda>c. \<not> is_separator c) (t @ rest) = t"
    using t assms(2) by (cases rest) (simp_all add: takeWhile_append2)
  show "dropWhile (\<lambda>c. \<not> is_separator c) (t @ rest) = rest"
    using t assms(2) by (cases rest) (simp_all add: dropWhile_append2)
qed

lemma split_loop_token:
  assumes "token_ok t" and "rest = [] \<or> is_separator (hd rest)" and "tok_count r < kMaxTokens"
  shows "split_loop (t @ rest) r = split_loop rest (r\<lparr>tok_values := tok_values r @ [t]\<rparr>)"
  using assms(1,3) token_prefix [OF assms(1,2)]
  by (subst split_loop.simps) (simp add: Let_def token_ok_def)

lemma split_loop_space: "split_loop (CHR '' '' # line) r = split_loop line r"
  by (subst (1 2) split_loop.simps) simp

lemma split_loop_join:
  assumes "list_all token_ok ts" and "tok_count r + length ts \<le> kMaxTokens"
  shows "split_loop (join_tokens ts) r = r\<lparr>tok_values := tok_values r @ ts\<rparr>"
  using assms
proof (induction ts arbitrary: r rule: join_tokens.induct)
  case 1
  then show ?case by (subst split_loop.simps) simp
next
  case (2 t)
  with split_loop_token [of t "[]" r] show ?case by (simp add: split_loop.simps [of "[]"])
next
  case (3 t u ts)
  with split_loop_token [of t "'' '' @ join_tokens (u # ts)" r] show ?case
    by (simp add: split_loop_space)
qed

lemma split_join:
  assumes "list_all token_ok ts" and "length ts \<le> kMaxTokens"
  shows "split_tokens (join_tokens ts) = \<lparr>tok_values = ts, tok_overflow = False\<rparr>"
  using split_loop_join [OF assms(1), of "\<lparr>tok_values = [], tok_overflow = False\<rparr>"] assms(2)
  by (simp add: split_tokens_def)

section \<open>Decimal numbers\<close>

definition digit_char :: "nat \<Rightarrow> char" where
  "digit_char d = char_of (48 + d)"

definition is_digit :: "char \<Rightarrow> bool" where
  "is_digit c \<longleftrightarrow> 48 \<le> (of_char c :: nat) \<and> (of_char c :: nat) \<le> 57"

definition digit_value :: "char \<Rightarrow> int" where
  "digit_value c = int (of_char c) - 48"

fun to_decimal :: "nat \<Rightarrow> string" where
  "to_decimal n = (if n < 10 then [digit_char n] else to_decimal (n div 10) @ [digit_char (n mod 10)])"

declare to_decimal.simps [simp del]

definition to_string :: "'a::len word \<Rightarrow> string" where
  "to_string w = to_decimal (unat w)"

datatype from_chars_result =
    FC_invalid
  | FC_out_of_range
  | FC_ok int string

definition decimal_value :: "string \<Rightarrow> int" where
  "decimal_value ds = foldl (\<lambda>acc c. acc * 10 + digit_value c) 0 ds"

text \<open>\<open>std::from_chars\<close> on an unsigned type of \<open>bits\<close> bits, in base ten.\<close>

definition from_chars :: "nat \<Rightarrow> string \<Rightarrow> from_chars_result" where
  "from_chars bits s =
     (let ds = takeWhile is_digit s; rest = dropWhile is_digit s
      in if ds = [] then FC_invalid
         else if decimal_value ds \<ge> 2 ^ bits then FC_out_of_range
         else FC_ok (decimal_value ds) rest)"

definition parse_unsigned_integer :: "string \<Rightarrow> 'a::len word option" where
  "parse_unsigned_integer token =
     (if token = [] then None
      else (case from_chars LENGTH('a) token of
        FC_ok n rest \<Rightarrow> if rest \<noteq> [] then None else Some (word_of_int n)
      | _ \<Rightarrow> None))"

definition parse_positive_integer :: "string \<Rightarrow> 'a::len word option" where
  "parse_positive_integer token =
     (case parse_unsigned_integer token of
        None \<Rightarrow> None
      | Some v \<Rightarrow> if v \<noteq> 0 then Some v else None)"

lemma digit_char_props:
  assumes "d < 10"
  shows "is_digit (digit_char d)" and "digit_value (digit_char d) = int d" and "\<not> is_separator (digit_char d)"
proof -
  have "(of_char (digit_char d) :: nat) = 48 + d" using assms by (simp add: digit_char_def of_char_of)
  then show "is_digit (digit_char d)" "digit_value (digit_char d) = int d" "\<not> is_separator (digit_char d)"
    using assms by (auto simp: is_digit_def digit_value_def is_separator_def)
qed

lemma to_decimal_props:
  "to_decimal n \<noteq> [] \<and> list_all is_digit (to_decimal n) \<and> list_all (\<lambda>c. \<not> is_separator c) (to_decimal n) \<and>
   decimal_value (to_decimal n) = int n"
proof (induction n rule: to_decimal.induct)
  case (1 n)
  show ?case
  proof (cases "n < 10")
    case True
    then show ?thesis by (simp add: to_decimal.simps [of n] digit_char_props decimal_value_def)
  next
    case False
    have "int (n div 10) * 10 + int (n mod 10) = int n" by presburger
    with 1 False show ?thesis by (simp add: to_decimal.simps [of n] digit_char_props decimal_value_def)
  qed
qed

lemma to_decimal_length: "n < 10 ^ k \<Longrightarrow> 0 < k \<Longrightarrow> length (to_decimal n) \<le> k"
proof (induction k arbitrary: n)
  case (Suc k)
  show ?case
  proof (cases "n < 10")
    case True
    then show ?thesis by (simp add: to_decimal.simps [of n])
  next
    case False
    then have "k \<noteq> 0" using Suc.prems by (cases k) auto
    moreover have "n div 10 < 10 ^ k" using Suc.prems(1) by (simp add: less_mult_imp_div_less mult.commute)
    ultimately have "length (to_decimal (n div 10)) \<le> k" using Suc.IH by blast
    with False show ?thesis by (simp add: to_decimal.simps [of n])
  qed
qed simp

lemma to_string_token [simp]: "token_ok (to_string w)"
  using to_decimal_props [of "unat w"] by (simp add: to_string_def token_ok_def)

lemma from_chars_decimal:
  assumes "n < 2 ^ bits"
  shows "from_chars bits (to_decimal n) = FC_ok (int n) []"
proof -
  note P = to_decimal_props [of n]
  then have tw: "takeWhile is_digit (to_decimal n) = to_decimal n" and dw: "dropWhile is_digit (to_decimal n) = []"
    by (simp_all add: list_all_iff)
  show ?thesis unfolding from_chars_def Let_def tw dw using P assms by (simp add: of_nat_less_numeral_power_cancel_iff not_le)
qed

lemma parse_to_string [simp]:
  fixes w :: "'a::len word"
  shows "parse_unsigned_integer (to_string w) = Some w"
  using to_decimal_props [of "unat w"] from_chars_decimal [of "unat w" "LENGTH('a)"] unsigned_less [where ?'a = nat, of w]
  by (simp add: parse_unsigned_integer_def to_string_def)

lemma parse_positive_to_string [simp]: "w \<noteq> 0 \<Longrightarrow> parse_positive_integer (to_string w) = Some w"
  by (simp add: parse_positive_integer_def)

lemma to_string_length_u64: "length (to_string (w :: u64)) \<le> 20"
proof -
  have "unat w < 10 ^ 20" by (rule less_le_trans [OF unat_less_u64]) simp
  then show ?thesis unfolding to_string_def by (rule to_decimal_length) simp
qed

lemma to_string_length_u32: "length (to_string (w :: u32)) \<le> 10"
proof -
  have "unat w < 10 ^ 10" using unsigned_less [where ?'a = nat, of w] by simp
  then show ?thesis unfolding to_string_def by (rule to_decimal_length) simp
qed

end
