(* ===== verification/TaskProtocol.thy ===== *)
theory TaskProtocol
  imports TextTokens TaskAdmission
begin

text \<open>
  The line protocol between task clients and the task service,
  \<^verbatim>\<open>src/src/control/task_protocol.cc\<close>: parsing and formatting of requests and responses. A
  formatted line is its tokens separated by single spaces and ended by a newline. The only
  exception the parsers can catch is a failed string allocation, which is an argument.
\<close>

section \<open>Data\<close>

definition kTaskProtocolVersion :: string where
  "kTaskProtocolVersion = ''GLIMMER_TASK_V1''"

definition kTaskProtocolMaxLineBytes :: nat where
  "kTaskProtocolMaxLineBytes = 256"

definition kTaskProtocolMaxTenantIdBytes :: nat where
  "kTaskProtocolMaxTenantIdBytes = 96"

definition kMaxWaitTimeoutMs :: u32 where
  "kMaxWaitTimeoutMs = 60000"

text \<open>The last constructor of an enumeration stands for a value outside the listed ones.\<close>

datatype TaskProtocolOperation =
    POp_kSubmit
  | POp_kAcquire
  | POp_kCancel
  | POp_kQuery
  | POp_kClaim
  | POp_kWait
  | POp_kHeartbeat
  | POp_kComplete
  | POp_kFail
  | POp_kStats
  | POp_kMetrics
  | POp_unlisted

datatype TaskProtocolParseError =
    Parse_kNone
  | Parse_kEmpty
  | Parse_kLineTooLong
  | Parse_kUnsupportedVersion
  | Parse_kMalformed
  | Parse_kInvalidTenant
  | Parse_kInvalidValue
  | Parse_kInternalError

record TaskProtocolRequest =
  preq_operation :: TaskProtocolOperation
  preq_admission :: TaskAdmissionRequest
  preq_task_id :: TaskId
  preq_wait_timeout_ms :: u32

record TaskProtocolRequestParseResult =
  rp_error :: TaskProtocolParseError
  rp_request :: "TaskProtocolRequest option"

datatype TaskProtocolState =
    PState_kQueued
  | PState_kRunning
  | PState_kCompleted
  | PState_kCancelled
  | PState_kFailed
  | PState_unlisted

datatype TaskProtocolErrorCode =
    PError_kInvalidRequest
  | PError_kQuotaExceeded
  | PError_kQueueFull
  | PError_kUnknownTask
  | PError_kInternalError
  | PError_kUnsupportedVersion
  | PError_unlisted

datatype TaskProtocolResponseKind =
    PKind_kAccepted
  | PKind_kState
  | PKind_kError
  | PKind_kLease
  | PKind_kEmpty
  | PKind_kStats
  | PKind_kMetrics
  | PKind_unlisted

record TaskProtocolStats =
  ps_total_task_count :: u64
  ps_queued_task_count :: u64
  ps_running_task_count :: u64
  ps_completed_task_count :: u64
  ps_cancelled_task_count :: u64
  ps_failed_task_count :: u64
  ps_quota_limit_bytes :: u64
  ps_quota_reserved_bytes :: u64
  ps_quota_allocated_bytes :: u64
  ps_max_running_tasks :: u64
  ps_max_queued_tasks :: u64
  ps_total_queue_wait_microseconds :: u64
  ps_max_queue_wait_microseconds :: u64
  ps_total_service_time_microseconds :: u64
  ps_max_service_time_microseconds :: u64

record TaskProtocolResponse =
  pres_kind :: TaskProtocolResponseKind
  pres_task_id :: TaskId
  pres_state :: TaskProtocolState
  pres_error :: TaskProtocolErrorCode
  pres_tenant_id :: string
  pres_memory_bytes :: MemoryBytes
  pres_weight :: u32
  pres_work_units :: u32
  pres_stats :: TaskProtocolStats

record TaskProtocolResponseParseResult =
  sp_error :: TaskProtocolParseError
  sp_response :: "TaskProtocolResponse option"

definition default_admission :: TaskAdmissionRequest where
  "default_admission =
     \<lparr>req_tenant_id = [], req_memory_bytes = 0, req_weight = 1, req_work_units = 1, req_priority = 0\<rparr>"

definition default_request :: TaskProtocolRequest where
  "default_request =
     \<lparr>preq_operation = POp_kSubmit, preq_admission = default_admission, preq_task_id = 0, preq_wait_timeout_ms = 0\<rparr>"

definition default_stats :: TaskProtocolStats where
  "default_stats =
     \<lparr>ps_total_task_count = 0, ps_queued_task_count = 0, ps_running_task_count = 0, ps_completed_task_count = 0,
      ps_cancelled_task_count = 0, ps_failed_task_count = 0, ps_quota_limit_bytes = 0, ps_quota_reserved_bytes = 0,
      ps_quota_allocated_bytes = 0, ps_max_running_tasks = 0, ps_max_queued_tasks = 0,
      ps_total_queue_wait_microseconds = 0, ps_max_queue_wait_microseconds = 0,
      ps_total_service_time_microseconds = 0, ps_max_service_time_microseconds = 0\<rparr>"

definition default_response :: TaskProtocolResponse where
  "default_response =
     \<lparr>pres_kind = PKind_kError, pres_task_id = 0, pres_state = PState_kQueued, pres_error = PError_kInternalError,
      pres_tenant_id = [], pres_memory_bytes = 0, pres_weight = 0, pres_work_units = 0, pres_stats = default_stats\<rparr>"

section \<open>Helpers\<close>

definition request_error :: "TaskProtocolParseError \<Rightarrow> TaskProtocolRequestParseResult" where
  "request_error e = \<lparr>rp_error = e, rp_request = None\<rparr>"

definition request_parsed :: "TaskProtocolRequest \<Rightarrow> TaskProtocolRequestParseResult" where
  "request_parsed r = \<lparr>rp_error = Parse_kNone, rp_request = Some r\<rparr>"

definition response_error :: "TaskProtocolParseError \<Rightarrow> TaskProtocolResponseParseResult" where
  "response_error e = \<lparr>sp_error = e, sp_response = None\<rparr>"

definition response_parsed :: "TaskProtocolResponse \<Rightarrow> TaskProtocolResponseParseResult" where
  "response_parsed r = \<lparr>sp_error = Parse_kNone, sp_response = Some r\<rparr>"

definition is_ascii_alphanumeric :: "char \<Rightarrow> bool" where
  "is_ascii_alphanumeric c \<longleftrightarrow>
     (let n = (of_char c :: nat)
      in 97 \<le> n \<and> n \<le> 122 \<or> 65 \<le> n \<and> n \<le> 90 \<or> 48 \<le> n \<and> n \<le> 57)"

definition is_valid_tenant_id :: "string \<Rightarrow> bool" where
  "is_valid_tenant_id t \<longleftrightarrow>
     t \<noteq> [] \<and> length t \<le> kTaskProtocolMaxTenantIdBytes \<and>
     list_all (\<lambda>c. is_ascii_alphanumeric c \<or> c = CHR ''.'' \<or> c = CHR ''_'' \<or> c = CHR ''-'') t"

definition parse_state :: "string \<Rightarrow> TaskProtocolState option" where
  "parse_state t =
     (if t = ''QUEUED'' then Some PState_kQueued
      else if t = ''RUNNING'' then Some PState_kRunning
      else if t = ''COMPLETED'' then Some PState_kCompleted
      else if t = ''CANCELLED'' then Some PState_kCancelled
      else if t = ''FAILED'' then Some PState_kFailed
      else None)"

definition parse_error_code :: "string \<Rightarrow> TaskProtocolErrorCode option" where
  "parse_error_code t =
     (if t = ''INVALID_REQUEST'' then Some PError_kInvalidRequest
      else if t = ''QUOTA_EXCEEDED'' then Some PError_kQuotaExceeded
      else if t = ''QUEUE_FULL'' then Some PError_kQueueFull
      else if t = ''UNKNOWN_TASK'' then Some PError_kUnknownTask
      else if t = ''INTERNAL_ERROR'' then Some PError_kInternalError
      else if t = ''UNSUPPORTED_VERSION'' then Some PError_kUnsupportedVersion
      else None)"

fun state_token :: "TaskProtocolState \<Rightarrow> string option" where
  "state_token PState_kQueued = Some ''QUEUED''"
| "state_token PState_kRunning = Some ''RUNNING''"
| "state_token PState_kCompleted = Some ''COMPLETED''"
| "state_token PState_kCancelled = Some ''CANCELLED''"
| "state_token PState_kFailed = Some ''FAILED''"
| "state_token PState_unlisted = None"

fun error_token :: "TaskProtocolErrorCode \<Rightarrow> string option" where
  "error_token PError_kInvalidRequest = Some ''INVALID_REQUEST''"
| "error_token PError_kQuotaExceeded = Some ''QUOTA_EXCEEDED''"
| "error_token PError_kQueueFull = Some ''QUEUE_FULL''"
| "error_token PError_kUnknownTask = Some ''UNKNOWN_TASK''"
| "error_token PError_kInternalError = Some ''INTERNAL_ERROR''"
| "error_token PError_kUnsupportedVersion = Some ''UNSUPPORTED_VERSION''"
| "error_token PError_unlisted = None"

definition format_task_id :: "TaskId \<Rightarrow> string option" where
  "format_task_id i = (if i = 0 then None else Some (to_string i))"

definition strip_suffix :: "char \<Rightarrow> string \<Rightarrow> string" where
  "strip_suffix c line = (if line \<noteq> [] \<and> last line = c then butlast line else line)"

definition newline :: char where
  "newline = CHR 0x0A"

definition format_line :: "string list \<Rightarrow> string" where
  "format_line ts = join_tokens ts @ [newline]"

section \<open>Requests\<close>

text \<open>The branches of the parser after the version check, on the tokens after the version.\<close>

definition parse_admission_request :: "bool \<Rightarrow> TaskProtocolOperation \<Rightarrow> string list \<Rightarrow> TaskProtocolRequestParseResult" where
  "parse_admission_request alloc_fails op vs =
     (if length vs \<noteq> 6 \<and> length vs \<noteq> 7 then request_error Parse_kMalformed
      else if \<not> is_valid_tenant_id (vs ! 2) then request_error Parse_kInvalidTenant
      else if alloc_fails then request_error Parse_kInternalError
      else (case (parse_positive_integer (vs ! 3), parse_positive_integer (vs ! 4), parse_positive_integer (vs ! 5)) of
        (Some m, Some w, Some u) \<Rightarrow>
          (case (if length vs = 7 then parse_unsigned_integer (vs ! 6) else Some 0) of
             None \<Rightarrow> request_error Parse_kInvalidValue
           | Some p \<Rightarrow>
               request_parsed (default_request\<lparr>preq_operation := op,
                 preq_admission := \<lparr>req_tenant_id = vs ! 2, req_memory_bytes = m, req_weight = w,
                                    req_work_units = u, req_priority = p\<rparr>\<rparr>))
      | _ \<Rightarrow> request_error Parse_kInvalidValue))"

definition parse_claim_request :: "string list \<Rightarrow> TaskProtocolRequestParseResult" where
  "parse_claim_request vs =
     (if length vs \<noteq> 2 \<and> length vs \<noteq> 3 then request_error Parse_kMalformed
      else if length vs = 3
      then (case parse_unsigned_integer (vs ! 2) of
          None \<Rightarrow> request_error Parse_kMalformed
        | Some i \<Rightarrow>
            if i = 0 then request_error Parse_kInvalidValue
            else request_parsed (default_request\<lparr>preq_operation := POp_kClaim, preq_task_id := i\<rparr>))
      else request_parsed (default_request\<lparr>preq_operation := POp_kClaim\<rparr>))"

definition parse_wait_request :: "string list \<Rightarrow> TaskProtocolRequestParseResult" where
  "parse_wait_request vs =
     (if length vs \<noteq> 4 then request_error Parse_kMalformed
      else (case (parse_positive_integer (vs ! 2), parse_positive_integer (vs ! 3)) of
        (Some i, Some t) \<Rightarrow>
          if t > kMaxWaitTimeoutMs then request_error Parse_kInvalidValue
          else request_parsed (default_request\<lparr>preq_operation := POp_kWait, preq_task_id := i, preq_wait_timeout_ms := t\<rparr>)
      | _ \<Rightarrow> request_error Parse_kInvalidValue))"

definition parse_task_request :: "string list \<Rightarrow> TaskProtocolRequestParseResult" where
  "parse_task_request vs =
     (if length vs \<noteq> 3 then request_error Parse_kMalformed
      else (case parse_positive_integer (vs ! 2) of
        None \<Rightarrow> request_error Parse_kInvalidValue
      | Some i \<Rightarrow>
          let parsed = (\<lambda>op. request_parsed (default_request\<lparr>preq_operation := op, preq_task_id := i\<rparr>))
          in if vs ! 1 = ''CANCEL'' then parsed POp_kCancel
             else if vs ! 1 = ''QUERY'' then parsed POp_kQuery
             else if vs ! 1 = ''HEARTBEAT'' then parsed POp_kHeartbeat
             else if vs ! 1 = ''COMPLETE'' then parsed POp_kComplete
             else if vs ! 1 = ''FAIL'' then parsed POp_kFail
             else request_error Parse_kMalformed))"

definition parse_task_protocol_request :: "bool \<Rightarrow> string \<Rightarrow> TaskProtocolRequestParseResult" where
  "parse_task_protocol_request alloc_fails line =
     (if length line > kTaskProtocolMaxLineBytes then request_error Parse_kLineTooLong
      else
        let tokens = split_tokens (strip_suffix CHR 0x0D (strip_suffix newline line));
            vs = tok_values tokens
        in if tok_count tokens = 0 then request_error Parse_kEmpty
           else if tok_overflow tokens then request_error Parse_kMalformed
           else if vs ! 0 \<noteq> kTaskProtocolVersion then request_error Parse_kUnsupportedVersion
           else if tok_count tokens < 2 then request_error Parse_kMalformed
           else if vs ! 1 = ''SUBMIT'' then parse_admission_request alloc_fails POp_kSubmit vs
           else if vs ! 1 = ''ACQUIRE'' then parse_admission_request alloc_fails POp_kAcquire vs
           else if vs ! 1 = ''CLAIM'' then parse_claim_request vs
           else if vs ! 1 = ''WAIT'' then parse_wait_request vs
           else if vs ! 1 = ''STATS'' \<or> vs ! 1 = ''METRICS''
           then if tok_count tokens \<noteq> 2 then request_error Parse_kMalformed
                else request_parsed (default_request\<lparr>preq_operation :=
                       (if vs ! 1 = ''STATS'' then POp_kStats else POp_kMetrics)\<rparr>)
           else parse_task_request vs)"

fun task_operation_token :: "TaskProtocolOperation \<Rightarrow> string" where
  "task_operation_token POp_kCancel = ''CANCEL''"
| "task_operation_token POp_kQuery = ''QUERY''"
| "task_operation_token POp_kHeartbeat = ''HEARTBEAT''"
| "task_operation_token POp_kComplete = ''COMPLETE''"
| "task_operation_token POp_kFail = ''FAIL''"
| "task_operation_token _ = ''''"

definition format_request_line :: "TaskProtocolRequest \<Rightarrow> string option" where
  "format_request_line r =
     (let op = preq_operation r; a = preq_admission r in
      if op = POp_kSubmit \<or> op = POp_kAcquire
      then if \<not> is_valid_tenant_id (req_tenant_id a) \<or> req_memory_bytes a = 0 \<or> req_weight a = 0 \<or> req_work_units a = 0
           then None
           else Some (format_line
             ([kTaskProtocolVersion, if op = POp_kSubmit then ''SUBMIT'' else ''ACQUIRE'', req_tenant_id a,
               to_string (req_memory_bytes a), to_string (req_weight a), to_string (req_work_units a)] @
              (if req_priority a \<noteq> 0 then [to_string (req_priority a)] else [])))
      else if op = POp_kCancel \<or> op = POp_kQuery \<or> op = POp_kHeartbeat \<or> op = POp_kComplete \<or> op = POp_kFail
      then (case format_task_id (preq_task_id r) of
          None \<Rightarrow> None
        | Some i \<Rightarrow>
            if task_operation_token op = [] then None
            else Some (format_line [kTaskProtocolVersion, task_operation_token op, i]))
      else if op = POp_kClaim
      then Some (format_line ([kTaskProtocolVersion, ''CLAIM''] @
             (if preq_task_id r = 0 then [] else [to_string (preq_task_id r)])))
      else if op = POp_kWait
      then if preq_task_id r = 0 \<or> preq_wait_timeout_ms r = 0 \<or> preq_wait_timeout_ms r > kMaxWaitTimeoutMs then None
           else Some (format_line [kTaskProtocolVersion, ''WAIT'', to_string (preq_task_id r),
                        to_string (preq_wait_timeout_ms r)])
      else if op = POp_kStats \<or> op = POp_kMetrics
      then Some (format_line [kTaskProtocolVersion, if op = POp_kStats then ''STATS'' else ''METRICS''])
      else None)"

definition format_task_protocol_request :: "TaskProtocolRequest \<Rightarrow> string option" where
  "format_task_protocol_request r =
     (case format_request_line r of
        None \<Rightarrow> None
      | Some line \<Rightarrow> if length line > kTaskProtocolMaxLineBytes then None else Some line)"

section \<open>Responses\<close>

definition parse_stats_tokens :: "string list \<Rightarrow> TaskProtocolStats option" where
  "parse_stats_tokens vs =
     (case map parse_unsigned_integer (drop 2 vs) of
        [Some a, Some b, Some c, Some d, Some e, Some f, Some g, Some h, Some i, Some j, Some k] \<Rightarrow>
          Some (default_stats\<lparr>ps_total_task_count := a, ps_queued_task_count := b, ps_running_task_count := c,
            ps_completed_task_count := d, ps_cancelled_task_count := e, ps_failed_task_count := f,
            ps_quota_limit_bytes := g, ps_quota_reserved_bytes := h, ps_quota_allocated_bytes := i,
            ps_max_running_tasks := j, ps_max_queued_tasks := k\<rparr>)
      | [Some a, Some b, Some c, Some d, Some e, Some f, Some g, Some h, Some i, Some j, Some k,
         Some l, Some m, Some n, Some p] \<Rightarrow>
          Some \<lparr>ps_total_task_count = a, ps_queued_task_count = b, ps_running_task_count = c,
            ps_completed_task_count = d, ps_cancelled_task_count = e, ps_failed_task_count = f,
            ps_quota_limit_bytes = g, ps_quota_reserved_bytes = h, ps_quota_allocated_bytes = i,
            ps_max_running_tasks = j, ps_max_queued_tasks = k,
            ps_total_queue_wait_microseconds = l, ps_max_queue_wait_microseconds = m,
            ps_total_service_time_microseconds = n, ps_max_service_time_microseconds = p\<rparr>
      | _ \<Rightarrow> None)"

definition parse_response_tokens :: "bool \<Rightarrow> string list \<Rightarrow> TaskProtocolResponseParseResult" where
  "parse_response_tokens alloc_fails vs =
     (if length vs = 2 \<and> vs ! 1 = ''EMPTY'' then response_parsed (default_response\<lparr>pres_kind := PKind_kEmpty\<rparr>)
      else if (length vs = 13 \<or> length vs = 17) \<and> (vs ! 1 = ''STATS'' \<or> vs ! 1 = ''METRICS'') \<and>
              parse_stats_tokens vs \<noteq> None
      then response_parsed (default_response\<lparr>
             pres_kind := (if vs ! 1 = ''STATS'' then PKind_kStats else PKind_kMetrics),
             pres_stats := the (parse_stats_tokens vs)\<rparr>)
      else if length vs = 3 \<and> vs ! 1 = ''OK'' \<and> parse_positive_integer (vs ! 2) \<noteq> (None :: TaskId option)
      then response_parsed (default_response\<lparr>pres_kind := PKind_kAccepted,
             pres_task_id := the (parse_positive_integer (vs ! 2))\<rparr>)
      else if length vs = 4 \<and> vs ! 1 = ''STATE'' \<and> parse_positive_integer (vs ! 2) \<noteq> (None :: TaskId option) \<and>
              parse_state (vs ! 3) \<noteq> None
      then response_parsed (default_response\<lparr>pres_kind := PKind_kState,
             pres_task_id := the (parse_positive_integer (vs ! 2)), pres_state := the (parse_state (vs ! 3))\<rparr>)
      else if length vs = 3 \<and> vs ! 1 = ''ERROR'' \<and> parse_error_code (vs ! 2) \<noteq> None
      then response_parsed (default_response\<lparr>pres_kind := PKind_kError, pres_error := the (parse_error_code (vs ! 2))\<rparr>)
      else if length vs = 7 \<and> vs ! 1 = ''LEASE''
      then (case (parse_positive_integer (vs ! 2), parse_positive_integer (vs ! 4), parse_positive_integer (vs ! 5),
                  parse_positive_integer (vs ! 6)) of
          (Some i, Some m, Some w, Some u) \<Rightarrow>
            if \<not> is_valid_tenant_id (vs ! 3) then response_error Parse_kMalformed
            else if alloc_fails then response_error Parse_kInternalError
            else response_parsed (default_response\<lparr>pres_kind := PKind_kLease, pres_task_id := i, pres_tenant_id := vs ! 3,
                   pres_memory_bytes := m, pres_weight := w, pres_work_units := u\<rparr>)
        | _ \<Rightarrow> response_error Parse_kMalformed)
      else response_error Parse_kMalformed)"

definition parse_task_protocol_response :: "bool \<Rightarrow> string \<Rightarrow> TaskProtocolResponseParseResult" where
  "parse_task_protocol_response alloc_fails line =
     (if length line > kTaskProtocolMaxLineBytes then response_error Parse_kLineTooLong
      else
        let tokens = split_tokens (strip_suffix CHR 0x0D (strip_suffix newline line));
            vs = tok_values tokens
        in if tok_count tokens = 0 then response_error Parse_kEmpty
           else if tok_overflow tokens then response_error Parse_kMalformed
           else if vs ! 0 \<noteq> kTaskProtocolVersion then response_error Parse_kUnsupportedVersion
           else parse_response_tokens alloc_fails vs)"

definition stats_tokens :: "TaskProtocolStats \<Rightarrow> string list" where
  "stats_tokens s = map to_string
     [ps_total_task_count s, ps_queued_task_count s, ps_running_task_count s, ps_completed_task_count s,
      ps_cancelled_task_count s, ps_failed_task_count s, ps_quota_limit_bytes s, ps_quota_reserved_bytes s,
      ps_quota_allocated_bytes s, ps_max_running_tasks s, ps_max_queued_tasks s]"

definition timing_tokens :: "TaskProtocolStats \<Rightarrow> string list" where
  "timing_tokens s = map to_string
     [ps_total_queue_wait_microseconds s, ps_max_queue_wait_microseconds s,
      ps_total_service_time_microseconds s, ps_max_service_time_microseconds s]"

definition within_line_limit :: "string \<Rightarrow> string option" where
  "within_line_limit line = (if length line > kTaskProtocolMaxLineBytes then None else Some line)"

definition format_task_protocol_response :: "TaskProtocolResponse \<Rightarrow> string option" where
  "format_task_protocol_response r =
     (let kind = pres_kind r in
      if kind = PKind_kAccepted
      then (case format_task_id (pres_task_id r) of
          None \<Rightarrow> None
        | Some i \<Rightarrow> Some (format_line [kTaskProtocolVersion, ''OK'', i]))
      else if kind = PKind_kEmpty then Some (format_line [kTaskProtocolVersion, ''EMPTY''])
      else if kind = PKind_kLease
      then (case format_task_id (pres_task_id r) of
          None \<Rightarrow> None
        | Some i \<Rightarrow>
            if \<not> is_valid_tenant_id (pres_tenant_id r) \<or> pres_memory_bytes r = 0 \<or> pres_weight r = 0 \<or> pres_work_units r = 0
            then None
            else within_line_limit (format_line [kTaskProtocolVersion, ''LEASE'', i, pres_tenant_id r,
                   to_string (pres_memory_bytes r), to_string (pres_weight r), to_string (pres_work_units r)]))
      else if kind = PKind_kState
      then (case (format_task_id (pres_task_id r), state_token (pres_state r)) of
          (Some i, Some st) \<Rightarrow> Some (format_line [kTaskProtocolVersion, ''STATE'', i, st])
        | _ \<Rightarrow> None)
      else if kind = PKind_kStats \<or> kind = PKind_kMetrics
      then within_line_limit (format_line
             ([kTaskProtocolVersion, if kind = PKind_kStats then ''STATS'' else ''METRICS''] @ stats_tokens (pres_stats r) @
              (if kind = PKind_kMetrics then timing_tokens (pres_stats r) else [])))
      else (case error_token (pres_error r) of
          None \<Rightarrow> None
        | Some e \<Rightarrow> Some (format_line [kTaskProtocolVersion, ''ERROR'', e])))"

end
