(* ===== verification/TaskEndpoint.thy ===== *)
theory TaskEndpoint
  imports TaskProtocol TaskAdmission
begin

text \<open>
  The endpoint of the task service, \<^verbatim>\<open>src/src/control/task_endpoint.cc\<close>: one protocol line is
  parsed, carried out on the admission service and answered by one line.
\<close>

section \<open>Responses\<close>

definition error_response :: "TaskProtocolErrorCode \<Rightarrow> TaskProtocolResponse" where
  "error_response e =
     \<lparr>pres_kind = PKind_kError, pres_task_id = 0, pres_state = PState_kQueued, pres_error = e, pres_tenant_id = [],
      pres_memory_bytes = 0, pres_weight = 0, pres_work_units = 0, pres_stats = default_stats\<rparr>"

fun protocol_state :: "TaskState \<Rightarrow> TaskProtocolState" where
  "protocol_state TaskState_kQueued = PState_kQueued"
| "protocol_state TaskState_kRunning = PState_kRunning"
| "protocol_state TaskState_kCompleted = PState_kCompleted"
| "protocol_state TaskState_kCancelled = PState_kCancelled"
| "protocol_state TaskState_kFailed = PState_kFailed"

definition state_response :: "TaskId \<Rightarrow> TaskState \<Rightarrow> TaskProtocolResponse" where
  "state_response i st =
     \<lparr>pres_kind = PKind_kState, pres_task_id = i, pres_state = protocol_state st, pres_error = PError_kInternalError,
      pres_tenant_id = [], pres_memory_bytes = 0, pres_weight = 0, pres_work_units = 0, pres_stats = default_stats\<rparr>"

definition lease_response :: "TaskSnapshot \<Rightarrow> TaskProtocolResponse" where
  "lease_response sn =
     \<lparr>pres_kind = PKind_kLease, pres_task_id = snap_task_id sn, pres_state = PState_kRunning,
      pres_error = PError_kInternalError, pres_tenant_id = snap_tenant_id sn, pres_memory_bytes = snap_memory_bytes sn,
      pres_weight = snap_weight sn, pres_work_units = snap_work_units sn, pres_stats = default_stats\<rparr>"

definition accepted_response :: "TaskId \<Rightarrow> TaskProtocolResponse" where
  "accepted_response i =
     \<lparr>pres_kind = PKind_kAccepted, pres_task_id = i, pres_state = PState_kQueued, pres_error = PError_kInternalError,
      pres_tenant_id = [], pres_memory_bytes = 0, pres_weight = 0, pres_work_units = 0, pres_stats = default_stats\<rparr>"

definition empty_response :: TaskProtocolResponse where
  "empty_response =
     \<lparr>pres_kind = PKind_kEmpty, pres_task_id = 0, pres_state = PState_kQueued, pres_error = PError_kInternalError,
      pres_tenant_id = [], pres_memory_bytes = 0, pres_weight = 0, pres_work_units = 0, pres_stats = default_stats\<rparr>"

definition stats_response :: "SchedulerStats \<Rightarrow> bool \<Rightarrow> TaskProtocolResponse" where
  "stats_response st include_metrics =
     \<lparr>pres_kind = (if include_metrics then PKind_kMetrics else PKind_kStats), pres_task_id = 0,
      pres_state = PState_kQueued, pres_error = PError_kInternalError, pres_tenant_id = [], pres_memory_bytes = 0,
      pres_weight = 0, pres_work_units = 0,
      pres_stats =
        \<lparr>ps_total_task_count = of_nat (stats_total_task_count st),
         ps_queued_task_count = stats_queued_task_count st,
         ps_running_task_count = of_nat (stats_running_task_count st),
         ps_completed_task_count = of_nat (stats_completed_task_count st),
         ps_cancelled_task_count = of_nat (stats_cancelled_task_count st),
         ps_failed_task_count = of_nat (stats_failed_task_count st),
         ps_quota_limit_bytes = limit_bytes (stats_quota st),
         ps_quota_reserved_bytes = reserved_bytes (stats_quota st),
         ps_quota_allocated_bytes = allocated_bytes (stats_quota st),
         ps_max_running_tasks = stats_max_running_tasks st,
         ps_max_queued_tasks = stats_max_queued_tasks st,
         ps_total_queue_wait_microseconds = stats_total_queue_wait_microseconds st,
         ps_max_queue_wait_microseconds = stats_max_queue_wait_microseconds st,
         ps_total_service_time_microseconds = stats_total_service_time_microseconds st,
         ps_max_service_time_microseconds = stats_max_service_time_microseconds st\<rparr>\<rparr>"

fun admission_error :: "SubmitStatus \<Rightarrow> TaskProtocolErrorCode" where
  "admission_error SubmitStatus_kInvalidTask = PError_kInvalidRequest"
| "admission_error SubmitStatus_kTenantWeightMismatch = PError_kInvalidRequest"
| "admission_error SubmitStatus_kQuotaExceeded = PError_kQuotaExceeded"
| "admission_error SubmitStatus_kQueueFull = PError_kQueueFull"
| "admission_error SubmitStatus_kAccepted = PError_kInternalError"
| "admission_error SubmitStatus_kInternalError = PError_kInternalError"

fun parse_failure_code :: "TaskProtocolParseError \<Rightarrow> TaskProtocolErrorCode" where
  "parse_failure_code Parse_kUnsupportedVersion = PError_kUnsupportedVersion"
| "parse_failure_code Parse_kInternalError = PError_kInternalError"
| "parse_failure_code _ = PError_kInvalidRequest"

section \<open>The endpoint\<close>

text \<open>
  The environment of one call: the readings and failures of the service calls it makes, in order
  (\<open>ep_claim_env\<close> and \<open>ep_cancel_env\<close> for the second and third call of an ACQUIRE), the rounds of
  a wait, and whether parsing, copying the tenant into a lease response, or formatting the
  response fails to allocate. The registrar is a function pointer that may be null.
\<close>

record endpoint_env =
  ep_parse_fails :: bool
  ep_env :: adm_env
  ep_claim_env :: adm_env
  ep_cancel_env :: adm_env
  ep_now :: time_ns
  ep_rounds :: "wait_round list"
  ep_copy_fails :: bool
  ep_format_fails :: bool

record TaskControlEndpoint =
  admission_service :: TaskAdmissionService
  ep_registrar :: "(TaskId \<Rightarrow> bool) option"

definition TaskControlEndpoint_new :: "TaskAdmissionService \<Rightarrow> (TaskId \<Rightarrow> bool) option \<Rightarrow> TaskControlEndpoint" where
  "TaskControlEndpoint_new svc registrar = \<lparr>admission_service = svc, ep_registrar = registrar\<rparr>"

definition format_response :: "endpoint_env \<Rightarrow> TaskProtocolResponse \<Rightarrow> string option" where
  "format_response env r = (if ep_format_fails env then None else format_task_protocol_response r)"

text \<open>An exception while a lease response is built is answered as an internal error.\<close>

definition lease_reply :: "endpoint_env \<Rightarrow> TaskSnapshot \<Rightarrow> TaskProtocolResponse" where
  "lease_reply env sn = (if ep_copy_fails env then error_response PError_kInternalError else lease_response sn)"

definition unknown_or_invalid :: "TaskId \<Rightarrow> TaskAdmissionService \<Rightarrow> TaskProtocolResponse" where
  "unknown_or_invalid i svc =
     error_response (if adm_find i svc = None then PError_kUnknownTask else PError_kInvalidRequest)"

definition handle_acquire ::
  "endpoint_env \<Rightarrow> TaskId \<Rightarrow> TaskPeerIdentity option \<Rightarrow> TaskAdmissionService \<Rightarrow>
   TaskProtocolResponse \<times> TaskAdmissionService" where
  "handle_acquire env i peer svc =
     (case adm_claim (ep_claim_env env) i peer svc of
        (Some sn, svc1) \<Rightarrow> (lease_reply env sn, svc1)
      | (None, svc1) \<Rightarrow>
          if map_option snap_state (adm_find i svc1) = Some TaskState_kQueued then (accepted_response i, svc1)
          else (error_response PError_kInternalError, snd (adm_cancel (ep_cancel_env env) i svc1)))"

definition handle_claim ::
  "endpoint_env \<Rightarrow> TaskId \<Rightarrow> TaskPeerIdentity option \<Rightarrow> TaskAdmissionService \<Rightarrow>
   TaskProtocolResponse \<times> TaskAdmissionService" where
  "handle_claim env i peer svc =
     (case (if i = 0 then claim_next (ep_env env) peer svc else adm_claim (ep_env env) i peer svc) of
        (Some sn, svc1) \<Rightarrow> (lease_reply env sn, svc1)
      | (None, svc1) \<Rightarrow>
          (if i \<noteq> 0 \<and> adm_find i svc1 = None then error_response PError_kUnknownTask else empty_response, svc1))"

definition handle_wait ::
  "endpoint_env \<Rightarrow> TaskId \<Rightarrow> u32 \<Rightarrow> TaskPeerIdentity option \<Rightarrow> TaskAdmissionService \<Rightarrow>
   TaskProtocolResponse option \<times> TaskAdmissionService" where
  "handle_wait env i timeout peer svc =
     (case wait_claim (ep_rounds env) (ep_now env) i (int (unat timeout)) peer svc of
        (None, svc1) \<Rightarrow> (None, svc1)
      | (Some (Some sn), svc1) \<Rightarrow> (Some (lease_reply env sn), svc1)
      | (Some None, svc1) \<Rightarrow>
          (Some (case adm_find i svc1 of
             None \<Rightarrow> error_response PError_kUnknownTask
           | Some sn \<Rightarrow>
               if snap_state sn \<noteq> TaskState_kQueued then state_response (snap_task_id sn) (snap_state sn)
               else empty_response), svc1))"

text \<open>
  The answer to a parsed request; \<open>None\<close> while a wait has not returned.
\<close>

definition handle_request ::
  "endpoint_env \<Rightarrow> (TaskId \<Rightarrow> bool) option \<Rightarrow> TaskProtocolRequest \<Rightarrow> TaskPeerIdentity option \<Rightarrow>
   TaskAdmissionService \<Rightarrow> TaskProtocolResponse option \<times> TaskAdmissionService" where
  "handle_request env registrar r peer svc =
     (let i = preq_task_id r in
      case preq_operation r of
        POp_kSubmit \<Rightarrow>
          (case adm_submit (ep_env env) registrar (preq_admission r) peer svc of
             (res, svc1) \<Rightarrow>
               (Some (if \<not> accepted res then error_response (admission_error (sr_status res))
                      else accepted_response (sr_task_id res)), svc1))
      | POp_kAcquire \<Rightarrow>
          (case adm_submit (ep_env env) registrar (preq_admission r) peer svc of
             (res, svc1) \<Rightarrow>
               if \<not> accepted res then (Some (error_response (admission_error (sr_status res))), svc1)
               else apfst Some (handle_acquire env (sr_task_id res) peer svc1))
      | POp_kCancel \<Rightarrow>
          (case adm_cancel_queued i svc of
             (cancelled, svc1) \<Rightarrow>
               (Some (if cancelled then state_response i TaskState_kCancelled else unknown_or_invalid i svc1), svc1))
      | POp_kQuery \<Rightarrow>
          (Some (case adm_find i svc of
             None \<Rightarrow> error_response PError_kUnknownTask
           | Some sn \<Rightarrow> state_response (snap_task_id sn) (snap_state sn)), svc)
      | POp_kHeartbeat \<Rightarrow>
          (case adm_heartbeat (ep_env env) i peer svc of
             (ok, svc1) \<Rightarrow> (Some (if ok then state_response i TaskState_kRunning else unknown_or_invalid i svc1), svc1))
      | POp_kClaim \<Rightarrow> apfst Some (handle_claim env i peer svc)
      | POp_kWait \<Rightarrow> handle_wait env i (preq_wait_timeout_ms r) peer svc
      | POp_kStats \<Rightarrow> (Some (stats_response (adm_stats svc) False), svc)
      | POp_kMetrics \<Rightarrow> (Some (stats_response (adm_stats svc) True), svc)
      | POp_kComplete \<Rightarrow>
          (case adm_complete (ep_env env) i peer svc of
             (ok, svc1) \<Rightarrow> (Some (if ok then state_response i TaskState_kCompleted else unknown_or_invalid i svc1), svc1))
      | POp_kFail \<Rightarrow>
          (case adm_fail (ep_env env) i peer svc of
             (ok, svc1) \<Rightarrow> (Some (if ok then state_response i TaskState_kFailed else unknown_or_invalid i svc1), svc1))
      | POp_unlisted \<Rightarrow> (Some (error_response PError_kInternalError), svc))"

text \<open>
  \<open>handle\<close>: \<open>None\<close> while waiting, \<open>Some None\<close> when no response line could be built.
\<close>

definition handle ::
  "endpoint_env \<Rightarrow> string \<Rightarrow> TaskPeerIdentity option \<Rightarrow> TaskControlEndpoint \<Rightarrow>
   string option option \<times> TaskControlEndpoint" where
  "handle env line peer ep =
     (let parsed = parse_task_protocol_request (ep_parse_fails env) line in
      case (rp_error parsed, rp_request parsed) of
        (Parse_kNone, Some r) \<Rightarrow>
          (case handle_request env (ep_registrar ep) r peer (admission_service ep) of
             (reply, svc1) \<Rightarrow> (map_option (format_response env) reply, ep\<lparr>admission_service := svc1\<rparr>))
      | (e, _) \<Rightarrow> (Some (format_response env (error_response (parse_failure_code e))), ep))"

definition handle_anonymous ::
  "endpoint_env \<Rightarrow> string \<Rightarrow> TaskControlEndpoint \<Rightarrow> string option option \<times> TaskControlEndpoint" where
  "handle_anonymous env line ep = handle env line None ep"

end
