(* ===== verification/TaskProtocolProps.thy ===== *)
theory TaskProtocolProps
  imports TaskProtocol
begin

text \<open>
  What the line protocol of tasks guarantees: a request or response that can be formatted is
  read back unchanged, every accepted request line denotes a request that can be formatted
  again, and which responses fit the line limit.
\<close>

section \<open>Lines and tokens\<close>

definition line_token :: "string \<Rightarrow> bool" where
  "line_token t \<longleftrightarrow> token_ok t \<and> list_all (\<lambda>c. c \<noteq> CHR 0x0D) t"

lemma join_tokens_last: "ts \<noteq> [] \<Longrightarrow> list_all token_ok ts \<Longrightarrow> join_tokens ts \<noteq> [] \<and> last (join_tokens ts) = last (last ts)"
  by (induction ts rule: join_tokens.induct) (auto simp: token_ok_def)

lemma strip_format_last:
  assumes "list_all token_ok ts" and "ts \<noteq> []" and "line_token (last ts)"
  shows "strip_suffix CHR 0x0D (strip_suffix newline (format_line ts)) = join_tokens ts"
proof -
  have "last (last ts) \<noteq> CHR 0x0D" using assms(3) by (auto simp: line_token_def token_ok_def list_all_iff)
  with join_tokens_last [OF assms(2,1)] show ?thesis by (simp add: strip_suffix_def format_line_def)
qed

lemma strip_format_line:
  assumes "list_all line_token ts" and "ts \<noteq> []"
  shows "strip_suffix CHR 0x0D (strip_suffix newline (format_line ts)) = join_tokens ts"
proof (rule strip_format_last)
  show "list_all token_ok ts" using assms(1) by (auto simp: line_token_def list_all_iff)
  show "line_token (last ts)" using assms by (simp add: list_all_iff)
qed (rule assms(2))

lemma split_format_line [simp]:
  assumes "list_all line_token ts" and "ts \<noteq> []" and "length ts \<le> kMaxTokens"
  shows "split_tokens (strip_suffix CHR 0x0D (strip_suffix newline (format_line ts))) =
         \<lparr>tok_values = ts, tok_overflow = False\<rparr>"
  using assms by (simp add: strip_format_line split_join line_token_def list_all_iff)

lemma length_join_tokens: "ts \<noteq> [] \<Longrightarrow> length (join_tokens ts) = sum_list (map length ts) + length ts - 1"
  by (induction ts rule: join_tokens.induct) auto

lemma length_format_line: "ts \<noteq> [] \<Longrightarrow> length (format_line ts) = sum_list (map length ts) + length ts"
  by (cases ts) (simp_all add: format_line_def length_join_tokens)

lemma digits_no_return: "list_all is_digit s \<Longrightarrow> list_all (\<lambda>c. c \<noteq> CHR 0x0D) s"
  by (auto simp: list_all_iff is_digit_def)

lemma line_token_to_string [simp]: "line_token (to_string w)"
  using to_decimal_props [of "unat w"] digits_no_return [of "to_decimal (unat w)"]
  by (simp add: line_token_def to_string_def token_ok_def)

lemma line_token_tenant [simp]: "is_valid_tenant_id t \<Longrightarrow> line_token t"
  by (auto simp: is_valid_tenant_id_def line_token_def token_ok_def list_all_iff is_separator_def
      is_ascii_alphanumeric_def Let_def)

lemma tenant_length: "is_valid_tenant_id t \<Longrightarrow> length t \<le> 96"
  by (simp add: is_valid_tenant_id_def kTaskProtocolMaxTenantIdBytes_def)

lemma version_token [simp]: "line_token kTaskProtocolVersion" and version_length [simp]: "length kTaskProtocolVersion = 15"
  by (simp_all add: line_token_def token_ok_def is_separator_def kTaskProtocolVersion_def)

lemma literal_tokens [simp]:
  "line_token ''SUBMIT''" "line_token ''ACQUIRE''" "line_token ''CANCEL''" "line_token ''QUERY''" "line_token ''CLAIM''"
  "line_token ''WAIT''" "line_token ''HEARTBEAT''" "line_token ''COMPLETE''" "line_token ''FAIL''" "line_token ''STATS''"
  "line_token ''METRICS''" "line_token ''OK''" "line_token ''EMPTY''" "line_token ''LEASE''" "line_token ''STATE''"
  "line_token ''ERROR''"
  by (simp_all add: line_token_def token_ok_def is_separator_def)

lemmas protocol_limits = kTaskProtocolMaxLineBytes_def kMaxTokens_def

section \<open>Requests\<close>

text \<open>The requests of the protocol, and the fields a request line carries.\<close>

definition valid_request :: "TaskProtocolRequest \<Rightarrow> bool" where
  "valid_request r \<longleftrightarrow>
     (case preq_operation r of
        POp_kSubmit \<Rightarrow> is_valid_tenant_id (req_tenant_id (preq_admission r)) \<and> req_memory_bytes (preq_admission r) \<noteq> 0 \<and>
          req_weight (preq_admission r) \<noteq> 0 \<and> req_work_units (preq_admission r) \<noteq> 0
      | POp_kAcquire \<Rightarrow> is_valid_tenant_id (req_tenant_id (preq_admission r)) \<and> req_memory_bytes (preq_admission r) \<noteq> 0 \<and>
          req_weight (preq_admission r) \<noteq> 0 \<and> req_work_units (preq_admission r) \<noteq> 0
      | POp_kWait \<Rightarrow> preq_task_id r \<noteq> 0 \<and> preq_wait_timeout_ms r \<noteq> 0 \<and> preq_wait_timeout_ms r \<le> kMaxWaitTimeoutMs
      | POp_kClaim \<Rightarrow> True
      | POp_kStats \<Rightarrow> True
      | POp_kMetrics \<Rightarrow> True
      | POp_unlisted \<Rightarrow> False
      | _ \<Rightarrow> preq_task_id r \<noteq> 0)"

definition carried_request :: "TaskProtocolRequest \<Rightarrow> TaskProtocolRequest" where
  "carried_request r =
     (case preq_operation r of
        POp_kSubmit \<Rightarrow> default_request\<lparr>preq_operation := POp_kSubmit, preq_admission := preq_admission r\<rparr>
      | POp_kAcquire \<Rightarrow> default_request\<lparr>preq_operation := POp_kAcquire, preq_admission := preq_admission r\<rparr>
      | POp_kWait \<Rightarrow> default_request\<lparr>preq_operation := POp_kWait, preq_task_id := preq_task_id r,
                        preq_wait_timeout_ms := preq_wait_timeout_ms r\<rparr>
      | POp_kStats \<Rightarrow> default_request\<lparr>preq_operation := POp_kStats\<rparr>
      | POp_kMetrics \<Rightarrow> default_request\<lparr>preq_operation := POp_kMetrics\<rparr>
      | op \<Rightarrow> default_request\<lparr>preq_operation := op, preq_task_id := preq_task_id r\<rparr>)"

definition request_tokens :: "TaskProtocolRequest \<Rightarrow> string list" where
  "request_tokens r =
     kTaskProtocolVersion #
     (let op = preq_operation r; a = preq_admission r in
      if op = POp_kSubmit \<or> op = POp_kAcquire
      then [if op = POp_kSubmit then ''SUBMIT'' else ''ACQUIRE'', req_tenant_id a,
            to_string (req_memory_bytes a), to_string (req_weight a), to_string (req_work_units a)] @
           (if req_priority a \<noteq> 0 then [to_string (req_priority a)] else [])
      else if op = POp_kClaim then ''CLAIM'' # (if preq_task_id r = 0 then [] else [to_string (preq_task_id r)])
      else if op = POp_kWait then [''WAIT'', to_string (preq_task_id r), to_string (preq_wait_timeout_ms r)]
      else if op = POp_kStats then [''STATS'']
      else if op = POp_kMetrics then [''METRICS'']
      else [task_operation_token op, to_string (preq_task_id r)])"

lemma format_request_line_eq:
  "format_request_line r = (if valid_request r then Some (format_line (request_tokens r)) else None)"
  by (cases "preq_operation r")
     (auto simp: format_request_line_def valid_request_def request_tokens_def Let_def format_task_id_def)

lemma request_tokens_wf:
  assumes "valid_request r"
  shows "list_all line_token (request_tokens r)" "length (request_tokens r) \<le> 7" "request_tokens r \<noteq> []"
  using assms by (cases "preq_operation r"; simp add: valid_request_def request_tokens_def Let_def)+

lemma request_line_length:
  assumes "valid_request r"
  shows "length (format_line (request_tokens r)) \<le> 175"
proof -
  have l64: "length (to_string (w :: u64)) \<le> 20" and l32: "length (to_string (v :: u32)) \<le> 10" for w v
    by (rule to_string_length_u64 to_string_length_u32)+
  have t: "length (req_tenant_id (preq_admission r)) \<le> 96" if "preq_operation r \<in> {POp_kSubmit, POp_kAcquire}"
    using that assms tenant_length by (auto simp: valid_request_def)
  show ?thesis
    using assms t l64 [of "req_memory_bytes (preq_admission r)"] l32 [of "req_weight (preq_admission r)"]
      l32 [of "req_work_units (preq_admission r)"] l32 [of "req_priority (preq_admission r)"]
      l64 [of "preq_task_id r"] l32 [of "preq_wait_timeout_ms r"]
    by (cases "preq_operation r") (simp_all add: length_format_line request_tokens_def Let_def valid_request_def)
qed

lemma format_request_eq:
  "format_task_protocol_request r = (if valid_request r then Some (format_line (request_tokens r)) else None)"
  using request_line_length [of r]
  by (auto simp: format_task_protocol_request_def format_request_line_eq kTaskProtocolMaxLineBytes_def)

lemma admission_eta [simp]:
  "req_priority a = p \<Longrightarrow> \<lparr>req_tenant_id = req_tenant_id a, req_memory_bytes = req_memory_bytes a,
     req_weight = req_weight a, req_work_units = req_work_units a, req_priority = p\<rparr> = a"
  by (cases a) simp

lemma parse_request_tokens:
  assumes "valid_request r"
  shows "parse_task_protocol_request False (format_line (request_tokens r)) = request_parsed (carried_request r)"
proof -
  have len: "\<not> length (format_line (request_tokens r)) > kTaskProtocolMaxLineBytes"
    using request_line_length [OF assms] by (simp add: kTaskProtocolMaxLineBytes_def)
  have sp: "split_tokens (strip_suffix CHR 0x0D (strip_suffix newline (format_line (request_tokens r)))) =
            \<lparr>tok_values = request_tokens r, tok_overflow = False\<rparr>"
    using request_tokens_wf [OF assms] by (intro split_format_line) (simp_all add: kMaxTokens_def)
  show ?thesis
    using assms len unfolding parse_task_protocol_request_def sp
    by (cases "preq_operation r")
       (auto simp: Let_def request_tokens_def valid_request_def carried_request_def default_request_def
          parse_admission_request_def parse_claim_request_def parse_wait_request_def parse_task_request_def not_less)
qed

lemma parse_positive_nonzero: "parse_positive_integer t = Some w \<Longrightarrow> w \<noteq> 0"
  by (auto simp: parse_positive_integer_def split: option.splits if_splits)

text \<open>A parse result that carries no request, or a valid one with every unused field at its default.\<close>

definition well_parsed :: "TaskProtocolRequestParseResult \<Rightarrow> bool" where
  "well_parsed p \<longleftrightarrow>
     (case rp_request p of
        None \<Rightarrow> rp_error p \<noteq> Parse_kNone
      | Some r \<Rightarrow> rp_error p = Parse_kNone \<and> valid_request r \<and> carried_request r = r)"

lemma well_parsed_error [simp]: "well_parsed (request_error e) \<longleftrightarrow> e \<noteq> Parse_kNone"
  by (simp add: well_parsed_def request_error_def)

lemma well_parsed_request [simp]: "well_parsed (request_parsed r) \<longleftrightarrow> valid_request r \<and> carried_request r = r"
  by (simp add: well_parsed_def request_parsed_def)

lemmas request_forms = valid_request_def carried_request_def default_request_def

lemma well_parsed_admission:
  "op = POp_kSubmit \<or> op = POp_kAcquire \<Longrightarrow> well_parsed (parse_admission_request af op vs)"
  by (auto simp: parse_admission_request_def request_forms dest: parse_positive_nonzero split: option.split)

lemma well_parsed_claim: "well_parsed (parse_claim_request vs)"
  by (simp add: parse_claim_request_def request_forms split: option.split)

lemma well_parsed_wait: "well_parsed (parse_wait_request vs)"
  by (auto simp: parse_wait_request_def request_forms not_less dest: parse_positive_nonzero split: option.split)

lemma well_parsed_task: "well_parsed (parse_task_request vs)"
  by (auto simp: parse_task_request_def Let_def request_forms dest: parse_positive_nonzero split: option.split)

lemma parse_request_well_parsed: "well_parsed (parse_task_protocol_request af line)"
  by (simp add: parse_task_protocol_request_def Let_def well_parsed_admission well_parsed_claim well_parsed_wait
      well_parsed_task request_forms)

lemma parsed_request_valid:
  assumes "rp_request (parse_task_protocol_request af line) = Some r"
  shows "valid_request r \<and> carried_request r = r"
  using parse_request_well_parsed [of af line] assms by (simp add: well_parsed_def)

section \<open>Responses\<close>

definition valid_response :: "TaskProtocolResponse \<Rightarrow> bool" where
  "valid_response r \<longleftrightarrow>
     (case pres_kind r of
        PKind_kAccepted \<Rightarrow> pres_task_id r \<noteq> 0
      | PKind_kState \<Rightarrow> pres_task_id r \<noteq> 0 \<and> pres_state r \<noteq> PState_unlisted
      | PKind_kLease \<Rightarrow> pres_task_id r \<noteq> 0 \<and> is_valid_tenant_id (pres_tenant_id r) \<and> pres_memory_bytes r \<noteq> 0 \<and>
          pres_weight r \<noteq> 0 \<and> pres_work_units r \<noteq> 0
      | PKind_kEmpty \<Rightarrow> True
      | PKind_kStats \<Rightarrow> True
      | PKind_kMetrics \<Rightarrow> True
      | _ \<Rightarrow> pres_error r \<noteq> PError_unlisted)"

definition carried_response :: "TaskProtocolResponse \<Rightarrow> TaskProtocolResponse" where
  "carried_response r =
     (case pres_kind r of
        PKind_kAccepted \<Rightarrow> default_response\<lparr>pres_kind := PKind_kAccepted, pres_task_id := pres_task_id r\<rparr>
      | PKind_kState \<Rightarrow> default_response\<lparr>pres_kind := PKind_kState, pres_task_id := pres_task_id r, pres_state := pres_state r\<rparr>
      | PKind_kLease \<Rightarrow> default_response\<lparr>pres_kind := PKind_kLease, pres_task_id := pres_task_id r,
          pres_tenant_id := pres_tenant_id r, pres_memory_bytes := pres_memory_bytes r, pres_weight := pres_weight r,
          pres_work_units := pres_work_units r\<rparr>
      | PKind_kEmpty \<Rightarrow> default_response\<lparr>pres_kind := PKind_kEmpty\<rparr>
      | PKind_kStats \<Rightarrow> default_response\<lparr>pres_kind := PKind_kStats, pres_stats := (pres_stats r)\<lparr>
          ps_total_queue_wait_microseconds := 0, ps_max_queue_wait_microseconds := 0,
          ps_total_service_time_microseconds := 0, ps_max_service_time_microseconds := 0\<rparr>\<rparr>
      | PKind_kMetrics \<Rightarrow> default_response\<lparr>pres_kind := PKind_kMetrics, pres_stats := pres_stats r\<rparr>
      | _ \<Rightarrow> default_response\<lparr>pres_kind := PKind_kError, pres_error := pres_error r\<rparr>)"

definition response_tokens :: "TaskProtocolResponse \<Rightarrow> string list" where
  "response_tokens r =
     kTaskProtocolVersion #
     (case pres_kind r of
        PKind_kAccepted \<Rightarrow> [''OK'', to_string (pres_task_id r)]
      | PKind_kState \<Rightarrow> [''STATE'', to_string (pres_task_id r), the (state_token (pres_state r))]
      | PKind_kLease \<Rightarrow> [''LEASE'', to_string (pres_task_id r), pres_tenant_id r, to_string (pres_memory_bytes r),
          to_string (pres_weight r), to_string (pres_work_units r)]
      | PKind_kEmpty \<Rightarrow> [''EMPTY'']
      | PKind_kStats \<Rightarrow> ''STATS'' # stats_tokens (pres_stats r)
      | PKind_kMetrics \<Rightarrow> ''METRICS'' # stats_tokens (pres_stats r) @ timing_tokens (pres_stats r)
      | _ \<Rightarrow> [''ERROR'', the (error_token (pres_error r))])"

lemma state_token_props:
  assumes "st \<noteq> PState_unlisted"
  shows "line_token (the (state_token st))" "length (the (state_token st)) \<le> 9"
    "parse_state (the (state_token st)) = Some st" "\<exists>t. state_token st = Some t"
  using assms by (cases st; simp add: parse_state_def line_token_def token_ok_def is_separator_def)+

lemma error_token_props:
  assumes "e \<noteq> PError_unlisted"
  shows "line_token (the (error_token e))" "length (the (error_token e)) \<le> 19"
    "parse_error_code (the (error_token e)) = Some e" "\<exists>t. error_token e = Some t"
  using assms by (cases e; simp add: parse_error_code_def line_token_def token_ok_def is_separator_def)+

lemma response_tokens_wf:
  assumes "valid_response r"
  shows "list_all line_token (response_tokens r)" "length (response_tokens r) \<le> 17" "response_tokens r \<noteq> []"
  using assms state_token_props [of "pres_state r"] error_token_props [of "pres_error r"]
  by (cases "pres_kind r"; simp add: valid_response_def response_tokens_def stats_tokens_def timing_tokens_def)+

lemma response_line_length:
  assumes "valid_response r" and "pres_kind r \<noteq> PKind_kMetrics"
  shows "length (format_line (response_tokens r)) \<le> 253"
proof -
  have l64: "length (to_string (w :: u64)) \<le> 20" and l32: "length (to_string (v :: u32)) \<le> 10" for w v
    by (rule to_string_length_u64 to_string_length_u32)+
  have st: "sum_list (map length (stats_tokens s)) \<le> 220" for s
    using l64 [of "ps_total_task_count s"] l64 [of "ps_queued_task_count s"] l64 [of "ps_running_task_count s"]
      l64 [of "ps_completed_task_count s"] l64 [of "ps_cancelled_task_count s"] l64 [of "ps_failed_task_count s"]
      l64 [of "ps_quota_limit_bytes s"] l64 [of "ps_quota_reserved_bytes s"] l64 [of "ps_quota_allocated_bytes s"]
      l64 [of "ps_max_running_tasks s"] l64 [of "ps_max_queued_tasks s"]
    by (simp add: stats_tokens_def)
  have sl: "length (stats_tokens s) = 11" for s by (simp add: stats_tokens_def)
  show ?thesis
    using assms st [of "pres_stats r"] l64 [of "pres_task_id r"] l64 [of "pres_memory_bytes r"]
      l32 [of "pres_weight r"] l32 [of "pres_work_units r"] tenant_length [of "pres_tenant_id r"]
      state_token_props(2) [of "pres_state r"] error_token_props(2) [of "pres_error r"]
    by (cases "pres_kind r") (simp_all add: length_format_line response_tokens_def valid_response_def sl)
qed

lemma format_response_eq:
  "format_task_protocol_response r =
     (if valid_response r then within_line_limit (format_line (response_tokens r)) else None)"
proof (cases "valid_response r")
  case True
  with state_token_props(4) [of "pres_state r"] error_token_props(4) [of "pres_error r"] response_line_length [OF True]
  show ?thesis
    by (cases "pres_kind r")
       (auto simp: format_task_protocol_response_def valid_response_def response_tokens_def Let_def format_task_id_def
          within_line_limit_def kTaskProtocolMaxLineBytes_def)
next
  case False
  then show ?thesis
    by (cases "pres_kind r"; cases "pres_state r"; cases "pres_error r")
       (auto simp: format_task_protocol_response_def valid_response_def Let_def format_task_id_def)
qed

lemma parse_response_tokens_carried:
  assumes "valid_response r"
  shows "parse_response_tokens False (response_tokens r) = response_parsed (carried_response r)"
  using assms state_token_props(3) [of "pres_state r"] error_token_props(3) [of "pres_error r"]
  by (cases "pres_kind r"; cases "pres_stats r")
     (simp_all add: parse_response_tokens_def response_tokens_def valid_response_def carried_response_def
        parse_stats_tokens_def stats_tokens_def timing_tokens_def default_response_def default_stats_def)

lemma response_tokens_hd: "response_tokens r ! 0 = kTaskProtocolVersion"
  by (simp add: response_tokens_def)

lemma parse_response_line:
  assumes "valid_response r" and "length (format_line (response_tokens r)) \<le> kTaskProtocolMaxLineBytes"
  shows "parse_task_protocol_response False (format_line (response_tokens r)) = response_parsed (carried_response r)"
proof -
  have sp: "split_tokens (strip_suffix CHR 0x0D (strip_suffix newline (format_line (response_tokens r)))) =
            \<lparr>tok_values = response_tokens r, tok_overflow = False\<rparr>"
    using response_tokens_wf [OF assms(1)] by (intro split_format_line) (simp_all add: kMaxTokens_def)
  show ?thesis
    using assms(2) response_tokens_wf(3) [OF assms(1)] response_tokens_hd [of r] parse_response_tokens_carried [OF assms(1)]
    unfolding parse_task_protocol_response_def sp by (simp add: Let_def)
qed

section \<open>Properties\<close>

text \<open>
  C19. A request that can be formatted gives a line of at most 175 bytes, inside the 256-byte
  limit, and parsing this line gives back the operation with every field the operation carries;
  exactly the valid requests can be formatted.
\<close>

theorem request_round_trip:
  "(format_task_protocol_request r \<noteq> None \<longleftrightarrow> valid_request r) \<and>
   (\<forall>line. format_task_protocol_request r = Some line \<longrightarrow>
      length line \<le> 175 \<and> parse_task_protocol_request False line = request_parsed (carried_request r))"
  by (simp add: format_request_eq request_line_length parse_request_tokens)

theorem request_round_trip_witness:
  "\<exists>r line. preq_operation r = POp_kWait \<and> format_task_protocol_request r = Some line \<and>
     parse_task_protocol_request False line = request_parsed r"
proof -
  let ?r = "default_request\<lparr>preq_operation := POp_kWait, preq_task_id := 7, preq_wait_timeout_ms := 250\<rparr>"
  have v: "valid_request ?r" by (simp add: valid_request_def default_request_def kMaxWaitTimeoutMs_def)
  then obtain line where f: "format_task_protocol_request ?r = Some line"
    using request_round_trip [of ?r] by blast
  then have "parse_task_protocol_request False line = request_parsed (carried_request ?r)"
    using request_round_trip [of ?r] by blast
  moreover have "carried_request ?r = ?r" by (simp add: carried_request_def default_request_def)
  moreover have "preq_operation ?r = POp_kWait" by simp
  ultimately show ?thesis using f by (metis (no_types))
qed

text \<open>
  C20. Whatever bytes arrive, a request the parser accepts is one the formatter accepts, and its
  formatted line parses to that same request: the parser never hands a zero task id, an invalid
  tenant, a zero memory, weight or work size, or an oversized wait to the service, and an accepted
  request has no second meaning.
\<close>

theorem accepted_request_reformats:
  assumes "rp_request (parse_task_protocol_request alloc_fails line) = Some r"
  shows "rp_error (parse_task_protocol_request alloc_fails line) = Parse_kNone \<and> valid_request r \<and>
    (\<exists>line'. format_task_protocol_request r = Some line' \<and> parse_task_protocol_request False line' = request_parsed r)"
proof -
  note v = parsed_request_valid [OF assms]
  have "rp_error (parse_task_protocol_request alloc_fails line) = Parse_kNone"
    using parse_request_well_parsed [of alloc_fails line] assms by (simp add: well_parsed_def)
  with v parse_request_tokens [of r] show ?thesis by (simp add: format_request_eq)
qed

theorem accepted_request_reformats_witness:
  "\<exists>line r. rp_request (parse_task_protocol_request False line) = Some r \<and> preq_operation r = POp_kClaim \<and> valid_request r"
proof -
  let ?line = "''GLIMMER_TASK_V1  CLAIM'' @ [CHR 0x0D, CHR 0x0A]"
  have *: "rp_request (parse_task_protocol_request False ?line) = Some (default_request\<lparr>preq_operation := POp_kClaim\<rparr>)"
    by code_simp
  show ?thesis
    by (rule exI [of _ ?line], rule exI [of _ "default_request\<lparr>preq_operation := POp_kClaim\<rparr>"])
       (use * accepted_request_reformats [OF *] in simp)
qed

lemma formatted_response_parses:
  assumes "format_task_protocol_response r = Some line"
  shows "length line \<le> kTaskProtocolMaxLineBytes \<and> parse_task_protocol_response False line = response_parsed (carried_response r)"
proof -
  have v: "valid_response r" and w: "within_line_limit (format_line (response_tokens r)) = Some line"
    using assms by (auto simp: format_response_eq split: if_splits)
  then have "line = format_line (response_tokens r)" "length (format_line (response_tokens r)) \<le> kTaskProtocolMaxLineBytes"
    by (auto simp: within_line_limit_def split: if_splits)
  with parse_response_line [OF v] show ?thesis by simp
qed

lemma formatted_response_iff:
  "format_task_protocol_response r \<noteq> None \<longleftrightarrow>
   (if pres_kind r = PKind_kMetrics
    then sum_list (map length (stats_tokens (pres_stats r) @ timing_tokens (pres_stats r))) \<le> 217
    else valid_response r)"
proof (cases "pres_kind r = PKind_kMetrics")
  case True
  have "length (format_line (response_tokens r)) =
      39 + sum_list (map length (stats_tokens (pres_stats r) @ timing_tokens (pres_stats r)))"
    using True by (simp add: length_format_line response_tokens_def stats_tokens_def timing_tokens_def)
  moreover have "valid_response r" using True by (simp add: valid_response_def)
  ultimately show ?thesis using True by (simp add: format_response_eq within_line_limit_def kTaskProtocolMaxLineBytes_def)
next
  case False
  then show ?thesis using response_line_length [of r]
    by (auto simp: format_response_eq within_line_limit_def kTaskProtocolMaxLineBytes_def)
qed

text \<open>
  C21. A response line is within the 256-byte limit and parses back to its kind with every field the
  kind carries. Every valid response other than a metrics one has such a line, at any value of its
  counters; a metrics response has one exactly when its fifteen numbers take at most 217 digits
  together.
\<close>

theorem response_round_trip:
  "(\<forall>line. format_task_protocol_response r = Some line \<longrightarrow>
      length line \<le> kTaskProtocolMaxLineBytes \<and> parse_task_protocol_response False line = response_parsed (carried_response r)) \<and>
   (format_task_protocol_response r \<noteq> None \<longleftrightarrow>
     (if pres_kind r = PKind_kMetrics
      then sum_list (map length (stats_tokens (pres_stats r) @ timing_tokens (pres_stats r))) \<le> 217
      else valid_response r))"
  using formatted_response_parses formatted_response_iff by blast

definition largest_stats :: TaskProtocolStats where
  "largest_stats =
     \<lparr>ps_total_task_count = -1, ps_queued_task_count = -1, ps_running_task_count = -1, ps_completed_task_count = -1,
      ps_cancelled_task_count = -1, ps_failed_task_count = -1, ps_quota_limit_bytes = -1, ps_quota_reserved_bytes = -1,
      ps_quota_allocated_bytes = -1, ps_max_running_tasks = -1, ps_max_queued_tasks = -1,
      ps_total_queue_wait_microseconds = -1, ps_max_queue_wait_microseconds = -1,
      ps_total_service_time_microseconds = -1, ps_max_service_time_microseconds = -1\<rparr>"

lemma largest_digits: "length (to_string (-1 :: u64)) = 20"
proof -
  have "unat (-1 :: u64) = 18446744073709551615" by (simp add: unsigned_minus_1_eq_mask mask_eq_exp_minus_1)
  then show ?thesis unfolding to_string_def by (simp add: to_decimal.simps)
qed

theorem response_round_trip_witness:
  "format_task_protocol_response (default_response\<lparr>pres_kind := PKind_kStats, pres_stats := largest_stats\<rparr>) \<noteq> None \<and>
   format_task_protocol_response (default_response\<lparr>pres_kind := PKind_kMetrics, pres_stats := largest_stats\<rparr>) = None"
proof -
  let ?s = "default_response\<lparr>pres_kind := PKind_kStats, pres_stats := largest_stats\<rparr>"
  let ?m = "default_response\<lparr>pres_kind := PKind_kMetrics, pres_stats := largest_stats\<rparr>"
  have "valid_response ?s" by (simp add: valid_response_def)
  then have "format_task_protocol_response ?s \<noteq> None" using response_round_trip [of ?s] by simp
  moreover have "\<not> sum_list (map length (stats_tokens largest_stats @ timing_tokens largest_stats)) \<le> 217"
    by (simp add: stats_tokens_def timing_tokens_def largest_stats_def largest_digits)
  then have "format_task_protocol_response ?m = None" using response_round_trip [of ?m] by simp
  ultimately show ?thesis by blast
qed

end
