(* ===== verification/TaskEndpointProps.thy ===== *)
theory TaskEndpointProps
  imports TaskEndpoint TaskProtocolProps TaskAdmissionContract
begin

text \<open>
  What a client can rely on when it talks to the endpoint: every reply line parses, and what it
  says is true of the service when the reply is built.
\<close>

section \<open>Results of the service calls\<close>

definition lease_held :: "TaskId \<Rightarrow> TaskSnapshot \<Rightarrow> TaskAdmissionService \<Rightarrow> bool" where
  "lease_held i sn svc \<longleftrightarrow> adm_find i svc = Some sn \<and> snap_state sn = TaskState_kRunning"

lemma find_id: "adm_find i svc = Some sn \<Longrightarrow> snap_task_id sn = i"
  by (auto simp: adm_find_def Scheduler_find_def snapshot_locked_def)

lemma adm_find_state: "map_option snap_state (adm_find i svc) = st svc i"
  by (simp add: adm_find_def find_state)

lemma find_some_state: "adm_find i svc = Some sn \<Longrightarrow> st svc i = Some (snap_state sn)"
  using adm_find_state [of i svc] by (simp del: map_option_eq_Some)

lemma record_lease_some:
  assumes "record_lease env r peer svc = (Some sn, svc')"
  shows "r = Some sn \<and> ta_scheduler svc' = ta_scheduler svc"
  using assms
  by (auto simp: record_lease_def lease_refused_def Let_def case_prod_beta split: option.splits if_splits)

lemma grant_held:
  assumes "announce_dispatch env (record_lease env r peer (svc\<lparr>ta_scheduler := s\<rparr>)) = (Some sn, svc')"
    and "case r of None \<Rightarrow> idle_states s0 s | Some sn \<Rightarrow> dispatched_states sn s0 s"
  shows "lease_held (snap_task_id sn) sn svc'"
proof -
  let ?r = "record_lease env r peer (svc\<lparr>ta_scheduler := s\<rparr>)"
  have "fst ?r = Some sn" "ta_scheduler svc' = ta_scheduler (snd ?r)"
    using announce_dispatch_simps(1,2) [of env ?r] by (simp_all add: assms(1))
  then have "r = Some sn" "ta_scheduler svc' = s" using record_lease_some [of env r peer _ sn "snd ?r"] by (auto simp: prod_eq_iff)
  with assms(2) show ?thesis by (simp add: lease_held_def adm_find_def dispatched_states_def)
qed

lemma claim_dispatch_held:
  assumes "sched_inv (ta_scheduler svc)" and "claim_dispatch env i peer svc = (Some sn, svc')"
  shows "lease_held i sn svc'"
proof -
  obtain r s where d: "Scheduler_dispatch_task (env_dispatch_fault env) (at_scheduler env) i (ta_scheduler svc) = (r, s)"
    by (cases "Scheduler_dispatch_task (env_dispatch_fault env) (at_scheduler env) i (ta_scheduler svc)")
  note D = dispatch_task_step [OF assms(1) d]
  have g: "announce_dispatch env (record_lease env r peer (svc\<lparr>ta_scheduler := s\<rparr>)) = (Some sn, svc')"
    using assms(2) d by (simp add: claim_dispatch_def)
  have c: "case r of None \<Rightarrow> idle_states (ta_scheduler svc) s | Some sn \<Rightarrow> dispatched_states sn (ta_scheduler svc) s"
    using D by (simp split: option.splits)
  have "r = Some sn" using g record_lease_some [of env r peer _ sn] announce_dispatch_simps(1) [of env "record_lease env r peer (svc\<lparr>ta_scheduler := s\<rparr>)"]
    by (metis fst_conv prod.collapse)
  then have "snap_task_id sn = i" using D by simp
  with grant_held [OF g c] show ?thesis by simp
qed

lemma claim_held:
  assumes "sched_inv (ta_scheduler svc)" and "adm_claim env i peer svc = (Some sn, svc')"
  shows "lease_held i sn svc'"
proof (cases "map_option snap_state (Scheduler_find i (ta_scheduler svc)) = Some TaskState_kRunning")
  case True
  with assms(2) show ?thesis by (auto simp: adm_claim_def Let_def lease_held_def adm_find_def split: if_splits)
next
  case False
  then have "claim_dispatch env i peer svc = (Some sn, svc')"
    using assms(2) by (auto simp: adm_claim_def Let_def split: if_splits)
  then show ?thesis by (rule claim_dispatch_held [OF assms(1)])
qed

lemma claim_next_held:
  assumes "sched_inv (ta_scheduler svc)" and "claim_next env peer svc = (Some sn, svc')"
  shows "lease_held (snap_task_id sn) sn svc'"
proof -
  obtain r s where d: "Scheduler_dispatch_next (env_dispatch_fault env) (at_scheduler env) (ta_scheduler svc) = (r, s)"
    by (cases "Scheduler_dispatch_next (env_dispatch_fault env) (at_scheduler env) (ta_scheduler svc)")
  have "announce_dispatch env (record_lease env r peer (svc\<lparr>ta_scheduler := s\<rparr>)) = (Some sn, svc')"
    using assms(2) d by (simp add: claim_next_def split: if_splits)
  then show ?thesis by (rule grant_held) (rule dispatch_next_step [OF assms(1) d])
qed

lemma wait_attempt_held:
  assumes "sched_inv (ta_scheduler svc)" and "wait_attempt env i peer svc = (Some (Some sn), svc')"
  shows "lease_held i sn svc'"
  using assms claim_dispatch_held [OF assms(1), of env i peer]
  by (auto simp: wait_attempt_def lease_held_def adm_find_def split: option.splits if_splits prod.splits)

text \<open>Between the rounds of a wait the other threads run operations of the service and its scheduler.\<close>

definition service_rounds :: "wait_round list \<Rightarrow> bool" where
  "service_rounds rs \<longleftrightarrow>
     list_all (\<lambda>r. (\<exists>ops. before_attempt r = fold run_adm ops) \<and> (\<exists>ops. while_waiting r = fold run_adm ops)) rs"

lemma wait_loop_held:
  assumes "sched_reachable limit opts (ta_scheduler svc)" and "service_rounds rs"
    and "wait_claim_loop rs deadline i peer svc = (res, svc')"
  shows "sched_reachable limit opts (ta_scheduler svc') \<and> (\<forall>sn. res = Some (Some sn) \<longrightarrow> lease_held i sn svc')"
  using assms
proof (induction rs arbitrary: svc)
  case Nil
  then show ?case by simp
next
  case (Cons r rs)
  obtain ops1 ops2 where ops: "before_attempt r = fold run_adm ops1" "while_waiting r = fold run_adm ops2"
    using Cons.prems(2) by (auto simp: service_rounds_def)
  have rs: "service_rounds rs" using Cons.prems(2) by (simp add: service_rounds_def)
  let ?svc = "before_attempt r svc"
  have b: "sched_reachable limit opts (ta_scheduler ?svc)" using Cons.prems(1) by (simp add: ops history_reachable)
  obtain w svc1 where w: "wait_attempt (round_env r) i peer ?svc = (w, svc1)" by (cases "wait_attempt (round_env r) i peer ?svc")
  then have a: "sched_reachable limit opts (ta_scheduler svc1)"
    using run_adm_reachable [OF b, of "Adm_wait_attempt (round_env r) i peer"] by simp
  then have c: "sched_reachable limit opts (ta_scheduler (while_waiting r svc1))" by (simp add: ops history_reachable)
  show ?case
  proof (cases w)
    case (Some x)
    then have "res = Some x" "svc' = svc1" using Cons.prems(3) w by (simp_all add: Let_def)
    with a Some w wait_attempt_held [OF reachable_inv [OF b]] show ?thesis by blast
  next
    case None
    then show ?thesis using Cons.prems(3) w a c Cons.IH [OF c rs] by (auto simp: Let_def split: if_splits)
  qed
qed

lemma wait_claim_held:
  assumes "sched_reachable limit opts (ta_scheduler svc)" and "service_rounds rs"
    and "wait_claim rs now i timeout peer svc = (res, svc')"
  shows "sched_reachable limit opts (ta_scheduler svc') \<and> (\<forall>sn. res = Some (Some sn) \<longrightarrow> lease_held i sn svc')"
  using assms wait_loop_held [OF assms(1,2)] by (auto simp: wait_claim_def split: if_splits)

lemma submit_queued:
  assumes "sched_inv (ta_scheduler svc)" and "adm_submit env reg req peer svc = (res, svc')" and "accepted res"
  shows "st svc' (sr_task_id res) = Some TaskState_kQueued"
proof -
  obtain ad s where sub: "Scheduler_submit (env_submit_fault env) (at_scheduler env) (request_spec req) (ta_scheduler svc) = (ad, s)"
    by (cases "Scheduler_submit (env_submit_fault env) (at_scheduler env) (request_spec req) (ta_scheduler svc)")
  have "res = ad \<and> ta_scheduler svc' = s"
    using assms(2,3) sub
    by (auto simp: adm_submit_def Let_def case_prod_beta submit_aborted_def accepted_def submit_failed_def split: option.splits if_splits)
  with submit_step [OF assms(1) sub] assms(3) show ?thesis by simp
qed

lemma report_true:
  assumes "sched_inv (ta_scheduler svc)"
  shows "adm_complete env i peer svc = (True, svc') \<Longrightarrow> st svc' i = Some TaskState_kCompleted"
    and "adm_fail env i peer svc = (True, svc') \<Longrightarrow> st svc' i = Some TaskState_kFailed"
    and "adm_cancel_queued i svc = (True, svc') \<Longrightarrow> st svc' i = Some TaskState_kCancelled"
    and "adm_heartbeat env i peer svc = (True, svc') \<Longrightarrow> st svc' i = Some TaskState_kRunning"
proof -
  have done_: "fst (finish_running_task_locked now i terminal s) \<longrightarrow>
      Scheduler_task_state i (snd (finish_running_task_locked now i terminal s)) = Some terminal"
    if "sched_inv s" "terminal \<noteq> TaskState_kQueued" "terminal \<noteq> TaskState_kRunning" for s terminal now
    using finish_step [OF that, of i now] by (simp split: if_splits)
  show "adm_complete env i peer svc = (True, svc') \<Longrightarrow> st svc' i = Some TaskState_kCompleted"
    using done_ [OF assms, of TaskState_kCompleted "at_scheduler env"]
    by (auto simp: adm_complete_def report_terminal_def Scheduler_complete_def Let_def case_prod_beta split: if_splits option.splits)
  show "adm_fail env i peer svc = (True, svc') \<Longrightarrow> st svc' i = Some TaskState_kFailed"
    using done_ [OF assms, of TaskState_kFailed "at_scheduler env"]
    by (auto simp: adm_fail_def report_terminal_def Scheduler_fail_def Let_def case_prod_beta split: if_splits option.splits)
  show "adm_cancel_queued i svc = (True, svc') \<Longrightarrow> st svc' i = Some TaskState_kCancelled"
    using cancel_queued_step [OF assms, of i] by (auto simp: adm_cancel_queued_def case_prod_beta split: if_splits)
  show "adm_heartbeat env i peer svc = (True, svc') \<Longrightarrow> st svc' i = Some TaskState_kRunning"
    by (auto simp: adm_heartbeat_def find_state split: if_splits option.splits simp del: map_option_eq_Some)
qed

section \<open>What a reply says\<close>

definition reply_true :: "TaskProtocolRequest \<Rightarrow> TaskProtocolResponse \<Rightarrow> TaskAdmissionService \<Rightarrow> bool" where
  "reply_true q r svc \<longleftrightarrow>
     (case pres_kind r of
        PKind_kAccepted \<Rightarrow> st svc (pres_task_id r) = Some TaskState_kQueued
      | PKind_kState \<Rightarrow> map_option protocol_state (st svc (pres_task_id r)) = Some (pres_state r)
      | PKind_kLease \<Rightarrow>
          (\<exists>sn. lease_held (pres_task_id r) sn svc \<and> pres_tenant_id r = snap_tenant_id sn \<and>
             pres_memory_bytes r = snap_memory_bytes sn \<and> pres_weight r = snap_weight sn \<and>
             pres_work_units r = snap_work_units sn)
      | PKind_kEmpty \<Rightarrow> True
      | PKind_kStats \<Rightarrow> ps_quota_reserved_bytes (pres_stats r) = reserved_bytes (Scheduler_usage (ta_scheduler svc)) \<and>
          ps_quota_allocated_bytes (pres_stats r) = allocated_bytes (Scheduler_usage (ta_scheduler svc))
      | PKind_kMetrics \<Rightarrow> ps_quota_reserved_bytes (pres_stats r) = reserved_bytes (Scheduler_usage (ta_scheduler svc)) \<and>
          ps_quota_allocated_bytes (pres_stats r) = allocated_bytes (Scheduler_usage (ta_scheduler svc))
      | PKind_kError \<Rightarrow> pres_error r \<noteq> PError_unlisted \<and>
          (pres_error r = PError_kUnknownTask \<longrightarrow> adm_find (preq_task_id q) svc = None)
      | PKind_unlisted \<Rightarrow> False)"


lemma reply_true_simps [simp]:
  "reply_true q (error_response e) svc \<longleftrightarrow> e \<noteq> PError_unlisted \<and> (e = PError_kUnknownTask \<longrightarrow> adm_find (preq_task_id q) svc = None)"
  "reply_true q (accepted_response i) svc \<longleftrightarrow> st svc i = Some TaskState_kQueued"
  "reply_true q (state_response i x) svc \<longleftrightarrow> map_option protocol_state (st svc i) = Some (protocol_state x)"
  "reply_true q empty_response svc"
  "reply_true q (stats_response (adm_stats svc) b) svc"
  by (simp_all add: reply_true_def error_response_def accepted_response_def state_response_def empty_response_def
      stats_response_def adm_stats_def Scheduler_stats_def Scheduler_usage_def ledger_usage_def)

lemma lease_reply_true: "lease_held i sn svc \<Longrightarrow> reply_true q (lease_reply env sn) svc"
  using find_id [of i svc sn] by (auto simp: lease_reply_def reply_true_def lease_response_def error_response_def lease_held_def)

lemma admission_error_known: "admission_error x \<noteq> PError_kUnknownTask" "admission_error x \<noteq> PError_unlisted"
  by (cases x; simp)+

lemma unknown_or_invalid_true: "i = preq_task_id q \<Longrightarrow> reply_true q (unknown_or_invalid i svc) svc"
  by (simp add: unknown_or_invalid_def)

lemma handle_acquire_true:
  assumes "sched_inv (ta_scheduler svc)" and "handle_acquire env i peer svc = (r, svc')"
  shows "reply_true q r svc'"
proof -
  obtain res svc1 where c: "adm_claim (ep_claim_env env) i peer svc = (res, svc1)"
    by (cases "adm_claim (ep_claim_env env) i peer svc")
  show ?thesis
    using assms(2) c claim_held [OF assms(1), of "ep_claim_env env" i peer] lease_reply_true
    by (auto simp: handle_acquire_def adm_find_state split: option.splits if_splits simp del: map_option_eq_Some)
qed

lemma handle_claim_true:
  assumes "sched_inv (ta_scheduler svc)" and "handle_claim env i peer svc = (r, svc')" and "i = preq_task_id q"
  shows "reply_true q r svc'"
proof -
  let ?c = "if i = 0 then claim_next (ep_env env) peer svc else adm_claim (ep_env env) i peer svc"
  have "\<exists>j. lease_held j sn svc1" if "?c = (Some sn, svc1)" for sn svc1
    using that claim_held [OF assms(1), of "ep_env env" i peer sn svc1] claim_next_held [OF assms(1), of "ep_env env" peer sn svc1]
    by (auto split: if_splits)
  with assms(2,3) show ?thesis
    by (auto simp: handle_claim_def lease_reply_true split: prod.splits option.splits)
qed

lemma handle_wait_true:
  assumes "sched_reachable limit opts (ta_scheduler svc)" and "service_rounds (ep_rounds env)"
    and "handle_wait env i timeout peer svc = (Some r, svc')" and "i = preq_task_id q"
  shows "reply_true q r svc'"
proof -
  obtain res svc1 where w: "wait_claim (ep_rounds env) (ep_now env) i (int (unat timeout)) peer svc = (res, svc1)"
    by (cases "wait_claim (ep_rounds env) (ep_now env) i (int (unat timeout)) peer svc")
  note H = wait_claim_held [OF assms(1,2) w]
  show ?thesis
    using assms(3,4) w H lease_reply_true
    by (auto simp: handle_wait_def find_id find_some_state split: option.splits if_splits)
qed

lemma handle_request_true:
  assumes R: "sched_reachable limit opts (ta_scheduler svc)" and "service_rounds (ep_rounds env)"
    and h: "handle_request env reg q peer svc = (Some r, svc')"
  shows "reply_true q r svc'"
proof -
  note inv = reachable_inv [OF R]
  note T = report_true [OF inv]
  show ?thesis
  proof (cases "preq_operation q")
    case POp_kSubmit
    obtain res svc1 where s: "adm_submit (ep_env env) reg (preq_admission q) peer svc = (res, svc1)"
      by (cases "adm_submit (ep_env env) reg (preq_admission q) peer svc")
    with POp_kSubmit h submit_queued [OF inv s] show ?thesis
      by (auto simp: handle_request_def Let_def admission_error_known split: if_splits)
  next
    case POp_kAcquire
    obtain res svc1 where s: "adm_submit (ep_env env) reg (preq_admission q) peer svc = (res, svc1)"
      by (cases "adm_submit (ep_env env) reg (preq_admission q) peer svc")
    then have "sched_reachable limit opts (ta_scheduler svc1)"
      using run_adm_reachable [OF R, of "Adm_submit (ep_env env) reg (preq_admission q) peer"] by simp
    note inv1 = reachable_inv [OF this]
    obtain ra sa where a: "handle_acquire env (sr_task_id res) peer svc1 = (ra, sa)"
      by (cases "handle_acquire env (sr_task_id res) peer svc1")
    with POp_kAcquire h s handle_acquire_true [OF inv1 a] show ?thesis
      by (auto simp: handle_request_def Let_def admission_error_known split: if_splits)
  next
    case POp_kCancel
    with h T(3) show ?thesis
      by (auto simp: handle_request_def Let_def unknown_or_invalid_true split: if_splits prod.splits)
  next
    case POp_kQuery
    with h show ?thesis
      by (auto simp: handle_request_def Let_def find_id find_some_state split: option.splits)
  next
    case POp_kClaim
    obtain rc sc where "handle_claim env (preq_task_id q) peer svc = (rc, sc)"
      by (cases "handle_claim env (preq_task_id q) peer svc")
    with POp_kClaim h handle_claim_true [OF inv this refl] show ?thesis by (simp add: handle_request_def Let_def)
  next
    case POp_kWait
    with h handle_wait_true [OF R assms(2) _ refl] show ?thesis by (simp add: handle_request_def Let_def)
  next
    case POp_kHeartbeat
    with h T(4) show ?thesis
      by (auto simp: handle_request_def Let_def unknown_or_invalid_true split: if_splits prod.splits)
  next
    case POp_kComplete
    with h T(1) show ?thesis
      by (auto simp: handle_request_def Let_def unknown_or_invalid_true split: if_splits prod.splits)
  next
    case POp_kFail
    with h T(2) show ?thesis
      by (auto simp: handle_request_def Let_def unknown_or_invalid_true split: if_splits prod.splits)
  qed (use h in \<open>auto simp: handle_request_def Let_def\<close>)
qed

section \<open>Histories of the endpoint\<close>

text \<open>
  Operations that put no task with an unprintable tenant into the scheduler. Every call of the
  endpoint is a sequence of such operations on its service.
\<close>

definition protocol_op :: "adm_op \<Rightarrow> bool" where
  "protocol_op op \<longleftrightarrow> (\<forall>spec. submits op spec \<longrightarrow> is_valid_tenant_id (spec_tenant_id spec))"

definition protocol_step :: "TaskAdmissionService \<Rightarrow> TaskAdmissionService \<Rightarrow> bool" where
  "protocol_step svc svc' \<longleftrightarrow> (\<exists>ops. list_all protocol_op ops \<and> svc' = fold run_adm ops svc)"

definition protocol_rounds :: "wait_round list \<Rightarrow> bool" where
  "protocol_rounds rs \<longleftrightarrow>
     list_all (\<lambda>r. (\<exists>ops. list_all protocol_op ops \<and> before_attempt r = fold run_adm ops) \<and>
       (\<exists>ops. list_all protocol_op ops \<and> while_waiting r = fold run_adm ops)) rs"

lemma protocol_step_refl: "protocol_step svc svc"
  unfolding protocol_step_def by (rule exI [of _ "[]"]) simp

lemma protocol_step_op: "protocol_op op \<Longrightarrow> svc' = run_adm op svc \<Longrightarrow> protocol_step svc svc'"
  unfolding protocol_step_def by (rule exI [of _ "[op]"]) simp

lemma protocol_step_trans: "protocol_step a b \<Longrightarrow> protocol_step b c \<Longrightarrow> protocol_step a c"
  unfolding protocol_step_def by (metis fold_append comp_apply list_all_append)

lemma wait_loop_protocol:
  assumes "protocol_rounds rs"
  shows "protocol_step svc (snd (wait_claim_loop rs deadline i peer svc))"
  using assms
proof (induction rs arbitrary: svc)
  case Nil
  then show ?case by (simp add: protocol_step_refl)
next
  case (Cons r rs)
  then have rs: "protocol_rounds rs" and b: "protocol_step svc (before_attempt r svc)"
    and w: "protocol_step x (while_waiting r x)" for x
    by (auto simp: protocol_rounds_def protocol_step_def)
  obtain a svc1 where a: "wait_attempt (round_env r) i peer (before_attempt r svc) = (a, svc1)"
    by (cases "wait_attempt (round_env r) i peer (before_attempt r svc)")
  then have "protocol_step (before_attempt r svc) svc1"
    by (intro protocol_step_op [of "Adm_wait_attempt (round_env r) i peer"]) (simp_all add: protocol_op_def)
  then have s1: "protocol_step svc svc1" by (rule protocol_step_trans [OF b])
  note s2 = protocol_step_trans [OF s1 w]
  show ?case using a s1 s2 protocol_step_trans [OF s2 Cons.IH [OF rs]] by (auto simp: Let_def split: option.split)
qed

lemma handle_request_protocol:
  assumes "valid_request q" and "protocol_rounds (ep_rounds env)"
  shows "protocol_step svc (snd (handle_request env reg q peer svc))"
proof -
  have op: "protocol_step x (run_adm o1 x)" if "protocol_op o1" for o1 x by (rule protocol_step_op [OF that refl])
  have claim: "protocol_step x (snd (adm_claim e i peer x))" for e i x
    using op [of "Adm_claim e i peer" x] by (simp add: protocol_op_def)
  have acq: "protocol_step x (snd (handle_acquire env i peer x))" for i x
    using claim [of x "ep_claim_env env" i] protocol_step_trans [OF claim [of x "ep_claim_env env" i] op [of "Adm_cancel (ep_cancel_env env) i"]]
    by (simp add: handle_acquire_def protocol_op_def case_prod_beta split: option.split)
  show ?thesis
  proof (cases "preq_operation q")
    case POp_kSubmit
    with assms(1) op [of "Adm_submit (ep_env env) reg (preq_admission q) peer" svc] show ?thesis
      by (simp add: handle_request_def Let_def protocol_op_def case_prod_beta valid_request_def request_spec_def)
  next
    case POp_kAcquire
    with assms(1) have "protocol_step svc (snd (adm_submit (ep_env env) reg (preq_admission q) peer svc))"
      using op [of "Adm_submit (ep_env env) reg (preq_admission q) peer" svc]
      by (simp add: protocol_op_def valid_request_def request_spec_def)
    with POp_kAcquire protocol_step_trans [OF this acq] show ?thesis
      by (simp add: handle_request_def Let_def case_prod_beta)
  next
    case POp_kClaim
    with claim [of svc "ep_env env" "preq_task_id q"] op [of "Adm_claim_next (ep_env env) peer" svc] show ?thesis
      by (simp add: handle_request_def Let_def handle_claim_def case_prod_beta protocol_op_def split: option.split)
  next
    case POp_kWait
    with wait_loop_protocol [OF assms(2)] show ?thesis
      by (simp add: handle_request_def Let_def handle_wait_def wait_claim_def case_prod_beta protocol_step_refl split: option.split)
  next
    case POp_kCancel
    with op [of "Adm_cancel_queued (preq_task_id q)" svc] show ?thesis
      by (simp add: handle_request_def Let_def case_prod_beta protocol_op_def)
  next
    case POp_kHeartbeat
    with op [of "Adm_heartbeat (ep_env env) (preq_task_id q) peer" svc] show ?thesis
      by (simp add: handle_request_def Let_def case_prod_beta protocol_op_def)
  next
    case POp_kComplete
    with op [of "Adm_complete (ep_env env) (preq_task_id q) peer" svc] show ?thesis
      by (simp add: handle_request_def Let_def case_prod_beta protocol_op_def)
  next
    case POp_kFail
    with op [of "Adm_fail (ep_env env) (preq_task_id q) peer" svc] show ?thesis
      by (simp add: handle_request_def Let_def case_prod_beta protocol_op_def)
  qed (simp_all add: handle_request_def Let_def protocol_step_refl)
qed

lemma handle_cases:
  obtains (rejected) e where "rp_request (parse_task_protocol_request (ep_parse_fails env) line) = None" "e \<noteq> PError_unlisted"
      "handle env line peer ep = (Some (format_response env (error_response e)), ep)" "e \<noteq> PError_kUnknownTask"
  | (request) q reply svc where "rp_request (parse_task_protocol_request (ep_parse_fails env) line) = Some q" "valid_request q"
      "handle_request env (ep_registrar ep) q peer (admission_service ep) = (reply, svc)"
      "handle env line peer ep = (map_option (format_response env) reply, ep\<lparr>admission_service := svc\<rparr>)"
proof (cases "rp_request (parse_task_protocol_request (ep_parse_fails env) line)")
  case None
  let ?e = "rp_error (parse_task_protocol_request (ep_parse_fails env) line)"
  have ne: "?e \<noteq> Parse_kNone" using parse_request_well_parsed [of "ep_parse_fails env" line] None by (simp add: well_parsed_def)
  have "handle env line peer ep = (Some (format_response env (error_response (parse_failure_code ?e))), ep)"
    using None ne by (cases ?e) (simp_all add: handle_def)
  moreover have "parse_failure_code ?e \<noteq> PError_unlisted" "parse_failure_code ?e \<noteq> PError_kUnknownTask" by (cases ?e; simp)+
  ultimately show thesis using rejected None by blast
next
  case (Some q)
  have e: "rp_error (parse_task_protocol_request (ep_parse_fails env) line) = Parse_kNone"
    using parse_request_well_parsed [of "ep_parse_fails env" line] Some by (simp add: well_parsed_def)
  obtain reply svc where h: "handle_request env (ep_registrar ep) q peer (admission_service ep) = (reply, svc)"
    by (cases "handle_request env (ep_registrar ep) q peer (admission_service ep)")
  have "handle env line peer ep = (map_option (format_response env) reply, ep\<lparr>admission_service := svc\<rparr>)"
    by (simp add: handle_def Some e h)
  with parsed_request_valid [OF Some] request [OF Some] h show thesis by blast
qed

text \<open>
  The states of an endpoint: it handles lines, and its service is advanced by the reaper, by
  executors and by other endpoints of the same service.
\<close>

inductive endpoint_reachable :: "TaskControlEndpoint \<Rightarrow> TaskControlEndpoint \<Rightarrow> bool"
  for ep0 :: TaskControlEndpoint where
  endpoint_created: "endpoint_reachable ep0 ep0"
| endpoint_handled: "endpoint_reachable ep0 ep \<Longrightarrow> protocol_rounds (ep_rounds env) \<Longrightarrow>
    endpoint_reachable ep0 (snd (handle env line peer ep))"
| endpoint_advanced: "endpoint_reachable ep0 ep \<Longrightarrow> protocol_op op \<Longrightarrow>
    endpoint_reachable ep0 (ep\<lparr>admission_service := run_adm op (admission_service ep)\<rparr>)"

lemma handle_protocol:
  assumes "protocol_rounds (ep_rounds env)"
  shows "protocol_step (admission_service ep) (admission_service (snd (handle env line peer ep)))"
proof (rule handle_cases [of env line peer ep], goal_cases)
  case (1 e)
  then show ?case by (simp add: protocol_step_refl)
next
  case (2 q reply svc)
  then show ?case using handle_request_protocol [OF 2(2) assms, of "admission_service ep" "ep_registrar ep" peer] by simp
qed

lemma endpoint_protocol:
  "endpoint_reachable ep0 ep \<Longrightarrow> protocol_step (admission_service ep0) (admission_service ep)"
proof (induction rule: endpoint_reachable.induct)
  case endpoint_created
  then show ?case by (rule protocol_step_refl)
next
  case (endpoint_handled ep env line peer)
  then show ?case using protocol_step_trans handle_protocol by blast
next
  case (endpoint_advanced ep op)
  then show ?case using protocol_step_trans [OF endpoint_advanced.IH protocol_step_op [OF _ refl]] by simp
qed

section \<open>Replies fit the protocol\<close>

definition tenants_valid :: "Scheduler \<Rightarrow> bool" where
  "tenants_valid s \<longleftrightarrow> (\<forall>i t. map_of (tasks s) i = Some t \<longrightarrow> is_valid_tenant_id (spec_tenant_id (task_spec t)))"

lemma tenants_lifecycle: "lifecycle s s' \<Longrightarrow> tenants_valid s \<Longrightarrow> tenants_valid s'"
  by (induction rule: lifecycle.induct)
     (auto simp: tenants_valid_def idle_round_def task_transition_def dest: rr_frameD split: if_splits)

lemma tenants_run_op:
  assumes "sched_inv s" and "tenants_valid s" and "allows op sop" and "protocol_op op"
  shows "tenants_valid (run_op sop s)"
proof (cases "lifecycle_op sop")
  case True
  with assms show ?thesis by (blast intro: tenants_lifecycle run_op_lifecycle)
next
  case False
  show ?thesis
  proof (cases sop)
    case (Op_submit f now spec)
    obtain res s' where sub: "Scheduler_submit f now spec s = (res, s')" by (cases "Scheduler_submit f now spec s")
    have v: "is_valid_tenant_id (spec_tenant_id spec)" using assms(3,4) Op_submit by (simp add: protocol_op_def)
    show ?thesis
    proof (cases "sr_status res = SubmitStatus_kAccepted")
      case True
      with assms(2) v sub Op_submit submit_accepted(1) [OF assms(1) sub] show ?thesis
        by (auto simp: tenants_valid_def submit_transition_def submitted_record_def split: if_splits)
    next
      case False
      with assms(2) sub Op_submit submit_rejected [OF assms(1) sub] show ?thesis by simp
    qed
  qed (use False assms(2) in \<open>auto simp: tenants_valid_def Scheduler_forget_def Scheduler_set_priority_reserved_slots_def
      split: option.splits if_splits prod.splits\<close>)
qed

lemma run_adm_tenants:
  assumes "sched_inv (ta_scheduler svc)" "tenants_valid (ta_scheduler svc)" "protocol_op op"
  shows "sched_inv (ta_scheduler (run_adm op svc)) \<and> tenants_valid (ta_scheduler (run_adm op svc))"
  using assms run_adm_preserves [of "\<lambda>s. sched_inv s \<and> tenants_valid s" svc op] run_op_inv tenants_run_op by blast

lemma protocol_step_tenants:
  assumes "protocol_step svc svc'" and "sched_inv (ta_scheduler svc)" "tenants_valid (ta_scheduler svc)"
  shows "sched_inv (ta_scheduler svc') \<and> tenants_valid (ta_scheduler svc')"
proof -
  have "sched_inv (ta_scheduler (fold run_adm ops svc)) \<and> tenants_valid (ta_scheduler (fold run_adm ops svc))"
    if "list_all protocol_op ops" for ops
    using that assms(2,3) by (induction ops arbitrary: svc) (auto simp: run_adm_tenants)
  with assms(1) show ?thesis by (auto simp: protocol_step_def)
qed

lemma known_task_id: "sched_inv (ta_scheduler svc) \<Longrightarrow> st svc i \<noteq> None \<Longrightarrow> i \<noteq> 0"
  by (auto simp: Scheduler_task_state_def task_ok_def dest: task_okD)

lemma held_valid:
  assumes "sched_inv (ta_scheduler svc)" "tenants_valid (ta_scheduler svc)" "lease_held i sn svc"
  shows "i \<noteq> 0 \<and> is_valid_tenant_id (snap_tenant_id sn) \<and> snap_memory_bytes sn \<noteq> 0 \<and> snap_weight sn \<noteq> 0 \<and> snap_work_units sn \<noteq> 0"
proof -
  obtain t where t: "map_of (tasks (ta_scheduler svc)) i = Some t" "sn = snapshot_locked i t"
    using assms(3) by (auto simp: lease_held_def adm_find_def Scheduler_find_def)
  from task_okD [OF assms(1) t(1)] have "spec_valid (task_spec t)" "0 < i" by (simp_all add: task_ok_def)
  with t assms(2) show ?thesis by (auto simp: tenants_valid_def snapshot_locked_def spec_valid_def)
qed

lemma protocol_state_listed: "protocol_state x \<noteq> PState_unlisted"
  by (cases x) simp_all

lemma true_reply_valid:
  assumes "sched_inv (ta_scheduler svc)" "tenants_valid (ta_scheduler svc)" "reply_true q r svc"
  shows "valid_response r"
proof (cases "pres_kind r")
  case PKind_kAccepted
  with assms known_task_id [of svc "pres_task_id r"] show ?thesis by (simp add: valid_response_def reply_true_def)
next
  case PKind_kState
  with assms known_task_id [of svc "pres_task_id r"] show ?thesis
    by (auto simp: valid_response_def reply_true_def protocol_state_listed)
next
  case PKind_kLease
  with assms held_valid [OF assms(1,2)] show ?thesis by (fastforce simp: valid_response_def reply_true_def)
qed (use assms(3) in \<open>simp_all add: valid_response_def reply_true_def\<close>)

section \<open>Properties\<close>

abbreviation new_endpoint ::
  "MemoryBytes \<Rightarrow> SchedulerOptions \<Rightarrow> int \<Rightarrow> bool \<Rightarrow> bool \<Rightarrow> bool \<Rightarrow> (TaskId \<Rightarrow> bool) option \<Rightarrow> TaskControlEndpoint" where
  "new_endpoint limit opts timeout bound dobs cobs reg \<equiv>
     TaskControlEndpoint_new (new_service limit opts timeout bound dobs cobs) reg"

lemma endpoint_scheduler:
  assumes "endpoint_reachable (new_endpoint limit opts timeout bound dobs cobs reg) ep"
  shows "sched_reachable limit opts (ta_scheduler (admission_service ep))"
    and "sched_inv (ta_scheduler (admission_service ep)) \<and> tenants_valid (ta_scheduler (admission_service ep))"
proof -
  let ?svc = "new_service limit opts timeout bound dobs cobs"
  have p: "protocol_step ?svc (admission_service ep)"
    using endpoint_protocol [OF assms] by (simp add: TaskControlEndpoint_new_def)
  then show "sched_reachable limit opts (ta_scheduler (admission_service ep))"
    using new_service_reachable by (auto simp: protocol_step_def)
  have "sched_inv (ta_scheduler ?svc)" by (simp add: TaskAdmissionService_new_def new_inv)
  moreover have "tenants_valid (ta_scheduler ?svc)"
    by (simp add: TaskAdmissionService_new_def tenants_valid_def Scheduler_new_def)
  ultimately show "sched_inv (ta_scheduler (admission_service ep)) \<and> tenants_valid (ta_scheduler (admission_service ep))"
    by (rule protocol_step_tenants [OF p])
qed

lemma protocol_rounds_service: "protocol_rounds rs \<Longrightarrow> service_rounds rs"
  by (auto simp: protocol_rounds_def service_rounds_def list_all_iff)


text \<open>Only a METRICS request is answered by a metrics response.\<close>

lemma reply_kind:
  assumes "handle_request env reg q peer svc = (Some r, svc')" and "preq_operation q \<noteq> POp_kMetrics"
  shows "pres_kind r \<noteq> PKind_kMetrics"
proof -
  have *: "pres_kind (error_response e) \<noteq> PKind_kMetrics" "pres_kind (accepted_response i) \<noteq> PKind_kMetrics"
    "pres_kind (state_response i x) \<noteq> PKind_kMetrics" "pres_kind empty_response \<noteq> PKind_kMetrics"
    "pres_kind (lease_reply env sn) \<noteq> PKind_kMetrics" "pres_kind (unknown_or_invalid i s) \<noteq> PKind_kMetrics"
    "pres_kind (stats_response y False) \<noteq> PKind_kMetrics" for e i x sn s y
    by (simp_all add: error_response_def accepted_response_def state_response_def empty_response_def lease_reply_def
        lease_response_def unknown_or_invalid_def stats_response_def)
  show ?thesis
    using assms * by (cases "preq_operation q")
      (auto simp: handle_request_def Let_def handle_acquire_def handle_claim_def handle_wait_def
        split: prod.splits option.splits if_splits)
qed


definition ex_line_env :: "time_ns \<Rightarrow> endpoint_env" where
  "ex_line_env t =
     \<lparr>ep_parse_fails = False, ep_env = ex_env t, ep_claim_env = ex_env t, ep_cancel_env = ex_env t, ep_now = t,
      ep_rounds = [], ep_copy_fails = False, ep_format_fails = False\<rparr>"

definition ex_endpoint :: TaskControlEndpoint where
  "ex_endpoint = new_endpoint 100 (demo_opts kFifo) 5 True False False (Some (\<lambda>_. True))"



text \<open>
  C23. Every line is answered. In every history of an endpoint, whatever bytes a client sends, the
  call returns a response line within the limit unless the line cannot be allocated, the request
  is METRICS, whose counters may not fit, or a WAIT is still waiting.
\<close>

theorem endpoint_answers:
  assumes "endpoint_reachable (new_endpoint limit opts timeout bound dobs cobs reg) ep"
    and "protocol_rounds (ep_rounds env)" and "\<not> ep_format_fails env"
    and "map_option preq_operation (rp_request (parse_task_protocol_request (ep_parse_fails env) line)) = x"
    and "x \<noteq> Some POp_kMetrics"
  shows "(\<exists>text. fst (handle env line peer ep) = Some (Some text) \<and> length text \<le> kTaskProtocolMaxLineBytes) \<or>
    (x = Some POp_kWait \<and> fst (handle env line peer ep) = None)"
proof -
  have fit: "\<exists>text. format_response env r = Some text \<and> length text \<le> kTaskProtocolMaxLineBytes"
    if "valid_response r" "pres_kind r \<noteq> PKind_kMetrics" for r
    using that assms(3) formatted_response_iff [of r] formatted_response_parses [of r] by (auto simp: format_response_def)
  show ?thesis
  proof (rule handle_cases [of env line peer ep], goal_cases)
    case (1 e)
    then show ?case using fit [of "error_response e"] by (simp add: valid_response_def error_response_def)
  next
    case (2 q reply svc)
    have m: "preq_operation q \<noteq> POp_kMetrics" using 2(1) assms(4,5) by auto
    show ?case
    proof (cases reply)
      case None
      then have "preq_operation q = POp_kWait"
        using 2(3) by (auto simp: handle_request_def Let_def case_prod_beta apfst_def map_prod_def
            split: TaskProtocolOperation.splits if_splits)
      with None 2 assms(4) show ?thesis by simp
    next
      case (Some r)
      have "protocol_step (admission_service ep) svc"
        using handle_request_protocol [OF 2(2) assms(2), of "admission_service ep" "ep_registrar ep" peer] 2(3) by simp
      then have I: "sched_inv (ta_scheduler svc) \<and> tenants_valid (ta_scheduler svc)"
        using endpoint_scheduler(2) [OF assms(1)] protocol_step_tenants by blast
      have "reply_true q r svc"
        using handle_request_true [OF endpoint_scheduler(1) [OF assms(1)] protocol_rounds_service [OF assms(2)]] 2(3) Some by simp
      with I have "valid_response r" using true_reply_valid by blast
      moreover have "pres_kind r \<noteq> PKind_kMetrics"
        using m 2(3) Some reply_kind by blast
      ultimately show ?thesis using fit 2(4) Some by simp
    qed
  qed
qed

theorem endpoint_answers_witness:
  "\<exists>text. fst (handle (ex_line_env 10) [] None ex_endpoint) = Some (Some text) \<and> length text \<le> kTaskProtocolMaxLineBytes"
proof -
  have rd: "protocol_rounds (ep_rounds (ex_line_env 10))" by (simp add: protocol_rounds_def ex_line_env_def)
  have f: "\<not> ep_format_fails (ex_line_env 10)" by (simp add: ex_line_env_def)
  have q: "map_option preq_operation (rp_request (parse_task_protocol_request (ep_parse_fails (ex_line_env 10)) [])) = None"
    by code_simp
  show ?thesis
    using endpoint_answers [OF endpoint_reachable.endpoint_created [of ex_endpoint, unfolded ex_endpoint_def] rd f q, of None]
    unfolding ex_endpoint_def by simp
qed

end
