(* ===== verification/SubmissionQueue.thy ===== *)
theory SubmissionQueue
  imports Prelude
begin

text \<open>
  The queue between a client's accepted commands and the executor that issues them,
  \<^verbatim>\<open>src/src/backend/execution_submission_queue.cc\<close>. Every method that takes the mutex once is one
  state transformer. A method that retires a payload takes the mutex three times: it marks the
  entry, moves the payload out and, after the payload has been destroyed outside the mutex, gives
  its bytes back. The three steps are separate definitions, so that other calls can run between
  them, and the local variables of a thread between the last two steps are the component
  \<open>eq_in_flight\<close>.
\<close>

section \<open>Data\<close>

type_synonym byte = "8 word"

record ExecutionReceipt =
  rc_owner :: "nat option"
  rc_sequence :: u64

record ExecutionIssueToken =
  tk_owner :: "nat option"
  tk_sequence :: u64
  tk_generation :: u64

record ExecutionSessionIdentity =
  client_id :: u64
  server_incarnation :: u64
  first_sequence :: u64

record ExecutionSubmissionLimits =
  max_commands :: size_t
  max_parameter_bytes :: size_t
  max_retained_host_bytes :: size_t

text \<open>A span is its bytes together with whether its data pointer is null.\<close>

record byte_span =
  span_bytes :: "byte list"
  span_null :: bool

definition span_size :: "byte_span \<Rightarrow> size_t" where
  "span_size sp = of_nat (length (span_bytes sp))"

definition span_invalid :: "byte_span \<Rightarrow> bool" where
  "span_invalid sp \<longleftrightarrow> span_bytes sp \<noteq> [] \<and> span_null sp"

record ExecutionRequest =
  er_operation :: u32
  er_context :: u64
  er_stream :: u64
  er_parameters :: byte_span
  er_lifetime :: "nat option"
  er_parameter_capacity_bytes :: size_t

datatype ExecutionAcceptStatus =
    Accept_kAccepted
  | Accept_kInvalid
  | Accept_kWrongSequence
  | Accept_kWrongProcess
  | Accept_kFull
  | Accept_kClosed
  | Accept_kQuarantined
  | Accept_kOutOfMemory

record ExecutionAcceptance =
  ea_status :: ExecutionAcceptStatus
  ea_receipt :: ExecutionReceipt

datatype ExecutionReplyOrigin =
    Origin_kNativeSdk
  | Origin_kRejectedBeforeIssue
  | Origin_kUncertainIssue

record ExecutionHostReply =
  hr_status :: int
  hr_origin :: ExecutionReplyOrigin

record ExecutionIssue =
  is_receipt :: ExecutionReceipt
  is_token :: ExecutionIssueToken
  is_operation :: u32
  is_context :: u64
  is_stream :: u64
  is_parameters :: "byte list"

datatype Phase = Phase_kQueued | Phase_kIssuing | Phase_kHostReturned | Phase_kPaused | Phase_kResuming

record Payload =
  pl_parameters :: "byte list"
  pl_lifetime :: nat

record Entry =
  en_sequence :: u64
  en_generation :: u64
  en_operation :: u32
  en_context :: u64
  en_stream :: u64
  en_phase :: Phase
  en_reply :: "ExecutionHostReply option"
  en_payload :: "Payload option"
  en_issue_parameter_bytes :: size_t
  en_acknowledged :: bool
  en_physically_stopped :: bool
  en_releasing_payload :: bool

text \<open>
  The queue. \<open>eq_identity\<close> stands for the shared pointer that receipts and tokens point to,
  \<open>eq_executor\<close> for the weak pointer to the lifetime of the executor's thread, \<open>eq_host_bytes\<close>
  for the counter that the host storages share.
\<close>

record SubmissionQueue =
  eq_session :: ExecutionSessionIdentity
  eq_limits :: ExecutionSubmissionLimits
  eq_process_id :: int
  eq_identity :: nat
  eq_entries :: "Entry list"
  eq_executor :: "nat option"
  eq_next_sequence :: u64
  eq_parameter_bytes :: size_t
  eq_host_bytes :: size_t
  eq_has_sequence_space :: bool
  eq_has_bound_executor :: bool
  eq_closing :: bool
  eq_quarantined :: bool
  eq_in_flight :: "(u64 \<times> size_t) list"

text \<open>
  The caller of a method: its process, the lifetime object its thread holds (none before a first
  \<open>bind_executor\<close>), whether the thread bound as executor is still alive, a fresh lifetime object
  if one can be allocated, and whether an allocation in the call fails.
\<close>

record queue_ctx =
  qc_process :: int
  qc_lifetime :: "nat option"
  qc_executor_alive :: bool
  qc_fresh :: "nat option"
  qc_alloc_fails :: bool

section \<open>The implementation object\<close>

definition Implementation_new ::
  "int \<Rightarrow> nat \<Rightarrow> ExecutionSessionIdentity \<Rightarrow> ExecutionSubmissionLimits \<Rightarrow> SubmissionQueue option" where
  "Implementation_new pid ident session limits =
     (if client_id session = 0 \<or> server_incarnation session = 0 \<or> first_sequence session = 0 \<or>
         max_commands limits = 0 \<or> max_parameter_bytes limits = 0 \<or> max_retained_host_bytes limits = 0
      then None
      else Some \<lparr>eq_session = session, eq_limits = limits, eq_process_id = pid, eq_identity = ident,
             eq_entries = [], eq_executor = None, eq_next_sequence = first_sequence session,
             eq_parameter_bytes = 0, eq_host_bytes = 0, eq_has_sequence_space = True,
             eq_has_bound_executor = False, eq_closing = False, eq_quarantined = False, eq_in_flight = []\<rparr>)"

definition executor_lock :: "queue_ctx \<Rightarrow> SubmissionQueue \<Rightarrow> nat option" where
  "executor_lock c q = (if qc_executor_alive c then eq_executor q else None)"

definition executor_expired :: "queue_ctx \<Rightarrow> SubmissionQueue \<Rightarrow> bool" where
  "executor_expired c q \<longleftrightarrow> executor_lock c q = None"

definition is_executor :: "queue_ctx \<Rightarrow> SubmissionQueue \<Rightarrow> bool" where
  "is_executor c q \<longleftrightarrow> qc_lifetime c \<noteq> None \<and> executor_lock c q = qc_lifetime c"

definition is_same_process :: "queue_ctx \<Rightarrow> SubmissionQueue \<Rightarrow> bool" where
  "is_same_process c q \<longleftrightarrow> qc_process c = eq_process_id q"

definition find_entry :: "nat option \<Rightarrow> u64 \<Rightarrow> SubmissionQueue \<Rightarrow> Entry option" where
  "find_entry own sequence q =
     (if own \<noteq> Some (eq_identity q) \<or> sequence = 0 then None
      else List.find (\<lambda>e. en_sequence e = sequence) (eq_entries q))"

definition find_receipt :: "ExecutionReceipt \<Rightarrow> SubmissionQueue \<Rightarrow> Entry option" where
  "find_receipt r q = find_entry (rc_owner r) (rc_sequence r) q"

definition find_issue :: "ExecutionIssueToken \<Rightarrow> SubmissionQueue \<Rightarrow> Entry option" where
  "find_issue t q =
     (case find_entry (tk_owner t) (tk_sequence t) q of
        None \<Rightarrow> None
      | Some e \<Rightarrow> if en_generation e \<noteq> 0 \<and> en_generation e = tk_generation t then Some e else None)"

text \<open>Assignments through the shared pointer to an entry.\<close>

definition set_entry :: "Entry \<Rightarrow> SubmissionQueue \<Rightarrow> SubmissionQueue" where
  "set_entry e q =
     q\<lparr>eq_entries := map (\<lambda>e'. if en_sequence e' = en_sequence e then e else e') (eq_entries q)\<rparr>"

definition erase_entry :: "Entry \<Rightarrow> SubmissionQueue \<Rightarrow> SubmissionQueue" where
  "erase_entry e q = q\<lparr>eq_entries := filter (\<lambda>e'. en_sequence e' \<noteq> en_sequence e) (eq_entries q)\<rparr>"

definition collect_entry :: "Entry \<Rightarrow> SubmissionQueue \<Rightarrow> SubmissionQueue" where
  "collect_entry e q =
     (if \<not> en_acknowledged e \<or> \<not> en_physically_stopped e \<or> en_releasing_payload e then q
      else erase_entry e q)"

definition issuing_phase :: "Entry \<Rightarrow> bool" where
  "issuing_phase e \<longleftrightarrow> en_phase e = Phase_kIssuing \<or> en_phase e = Phase_kResuming"

definition is_issuing :: "SubmissionQueue \<Rightarrow> bool" where
  "is_issuing q \<longleftrightarrow> list_ex issuing_phase (eq_entries q)"

definition issue_of :: "Entry \<Rightarrow> SubmissionQueue \<Rightarrow> ExecutionIssue" where
  "issue_of e q =
     \<lparr>is_receipt = \<lparr>rc_owner = Some (eq_identity q), rc_sequence = en_sequence e\<rparr>,
      is_token = \<lparr>tk_owner = Some (eq_identity q), tk_sequence = en_sequence e, tk_generation = en_generation e\<rparr>,
      is_operation = en_operation e, is_context = en_context e, is_stream = en_stream e,
      is_parameters = take (unat (en_issue_parameter_bytes e))
        (case en_payload e of None \<Rightarrow> [] | Some p \<Rightarrow> pl_parameters p)\<rparr>"

text \<open>The two critical sections of \<open>release_payload\<close>.\<close>

definition payload_size :: "Payload \<Rightarrow> size_t" where
  "payload_size p = of_nat (length (pl_parameters p))"

definition detach_payload :: "u64 \<Rightarrow> SubmissionQueue \<Rightarrow> SubmissionQueue" where
  "detach_payload sequence q =
     (case List.find (\<lambda>e. en_sequence e = sequence) (eq_entries q) of
        None \<Rightarrow> q
      | Some e \<Rightarrow>
          (case en_payload e of
             None \<Rightarrow> q
           | Some p \<Rightarrow>
               if \<not> en_releasing_payload e then q
               else (set_entry (e\<lparr>en_payload := None\<rparr>) q)
                      \<lparr>eq_in_flight := (sequence, payload_size p) # eq_in_flight q\<rparr>))"

definition finish_release :: "u64 \<Rightarrow> SubmissionQueue \<Rightarrow> SubmissionQueue" where
  "finish_release sequence q =
     (case (map_of (eq_in_flight q) sequence, List.find (\<lambda>e. en_sequence e = sequence) (eq_entries q)) of
        (Some bytes, Some e) \<Rightarrow>
          let e' = e\<lparr>en_releasing_payload := False\<rparr>
          in collect_entry e' ((set_entry e' q)\<lparr>eq_parameter_bytes := eq_parameter_bytes q - bytes,
               eq_in_flight := AList.delete sequence (eq_in_flight q)\<rparr>)
      | _ \<Rightarrow> q)"

definition release_payload :: "u64 \<Rightarrow> SubmissionQueue \<Rightarrow> SubmissionQueue" where
  "release_payload sequence q = finish_release sequence (detach_payload sequence q)"

section \<open>Receipts, tokens and acceptances\<close>

definition receipt_bool :: "(nat \<Rightarrow> bool) \<Rightarrow> ExecutionReceipt \<Rightarrow> bool" where
  "receipt_bool alive r \<longleftrightarrow>
     rc_sequence r \<noteq> 0 \<and> (case rc_owner r of None \<Rightarrow> False | Some n \<Rightarrow> alive n)"

definition token_bool :: "(nat \<Rightarrow> bool) \<Rightarrow> ExecutionIssueToken \<Rightarrow> bool" where
  "token_bool alive t \<longleftrightarrow>
     tk_sequence t \<noteq> 0 \<and> tk_generation t \<noteq> 0 \<and> (case tk_owner t of None \<Rightarrow> False | Some n \<Rightarrow> alive n)"

definition acceptance_accepted :: "(nat \<Rightarrow> bool) \<Rightarrow> ExecutionAcceptance \<Rightarrow> bool" where
  "acceptance_accepted alive a \<longleftrightarrow> ea_status a = Accept_kAccepted \<and> receipt_bool alive (ea_receipt a)"

section \<open>Binding, host storage and acceptance\<close>

text \<open>
  \<open>bind_executor\<close> returns its answer, the lifetime object the calling thread holds afterwards and
  the queue.
\<close>

definition bind_executor ::
  "queue_ctx \<Rightarrow> SubmissionQueue \<Rightarrow> bool \<times> nat option \<times> SubmissionQueue" where
  "bind_executor c q =
     (if \<not> is_same_process c q then (False, qc_lifetime c, q)
      else case (case qc_lifetime c of None \<Rightarrow> qc_fresh c | Some l \<Rightarrow> Some l) of
        None \<Rightarrow> (False, None, q)
      | Some l \<Rightarrow>
          let c' = c\<lparr>qc_lifetime := Some l\<rparr>
          in if eq_closing q \<and> eq_entries q = [] then (False, Some l, q)
             else if eq_has_bound_executor q
             then let q' = (if executor_expired c' q then q\<lparr>eq_quarantined := True, eq_closing := True\<rparr> else q)
                  in (is_executor c' q', Some l, q')
             else (True, Some l, q\<lparr>eq_executor := Some l, eq_has_bound_executor := True\<rparr>))"

definition owns_executor :: "queue_ctx \<Rightarrow> SubmissionQueue \<Rightarrow> bool" where
  "owns_executor c q \<longleftrightarrow> is_same_process c q \<and> is_executor c q"

definition executor_is_quarantined :: "queue_ctx \<Rightarrow> SubmissionQueue \<Rightarrow> bool" where
  "executor_is_quarantined c q \<longleftrightarrow> \<not> is_same_process c q \<or> \<not> is_executor c q \<or> eq_quarantined q"

text \<open>
  A host storage is charged to the shared counter when it is created and discharged when it is
  destroyed.
\<close>

definition allocate_host_storage ::
  "queue_ctx \<Rightarrow> size_t \<Rightarrow> SubmissionQueue \<Rightarrow> ExecutionAcceptStatus \<times> size_t option \<times> SubmissionQueue" where
  "allocate_host_storage c bytes q =
     (if \<not> is_same_process c q then (Accept_kWrongProcess, None, q)
      else if \<not> is_executor c q \<or> bytes = 0 then (Accept_kInvalid, None, q)
      else if eq_quarantined q then (Accept_kQuarantined, None, q)
      else if eq_closing q then (Accept_kClosed, None, q)
      else if bytes > max_retained_host_bytes (eq_limits q) then (Accept_kOutOfMemory, None, q)
      else if bytes > max_retained_host_bytes (eq_limits q) - eq_host_bytes q then (Accept_kFull, None, q)
      else if qc_alloc_fails c then (Accept_kOutOfMemory, None, q)
      else (Accept_kAccepted, Some bytes, q\<lparr>eq_host_bytes := eq_host_bytes q + bytes\<rparr>))"

definition destroy_host_storage :: "size_t \<Rightarrow> SubmissionQueue \<Rightarrow> SubmissionQueue" where
  "destroy_host_storage bytes q =
     (if bytes \<noteq> 0 then q\<lparr>eq_host_bytes := eq_host_bytes q - bytes\<rparr> else q)"

definition resized :: "nat \<Rightarrow> byte list \<Rightarrow> byte list" where
  "resized n bs = take n (bs @ replicate n 0)"

definition no_receipt :: ExecutionReceipt where
  "no_receipt = \<lparr>rc_owner = None, rc_sequence = 0\<rparr>"

definition not_accepted :: "ExecutionAcceptStatus \<Rightarrow> ExecutionAcceptance" where
  "not_accepted st = \<lparr>ea_status = st, ea_receipt = no_receipt\<rparr>"

definition request_capacity :: "ExecutionRequest \<Rightarrow> size_t" where
  "request_capacity r =
     (if er_parameter_capacity_bytes r \<noteq> 0 then er_parameter_capacity_bytes r else span_size (er_parameters r))"

definition new_entry :: "u64 \<Rightarrow> ExecutionRequest \<Rightarrow> nat \<Rightarrow> Entry" where
  "new_entry sequence r life =
     \<lparr>en_sequence = sequence, en_generation = 0, en_operation = er_operation r, en_context = er_context r,
      en_stream = er_stream r, en_phase = Phase_kQueued, en_reply = None,
      en_payload = Some \<lparr>pl_parameters = resized (unat (request_capacity r)) (span_bytes (er_parameters r)),
                         pl_lifetime = life\<rparr>,
      en_issue_parameter_bytes = span_size (er_parameters r), en_acknowledged = False,
      en_physically_stopped = False, en_releasing_payload = False\<rparr>"

definition accept_entry :: "u64 \<Rightarrow> ExecutionRequest \<Rightarrow> nat \<Rightarrow> SubmissionQueue \<Rightarrow> SubmissionQueue" where
  "accept_entry sequence r life q =
     (let q1 = q\<lparr>eq_entries := eq_entries q @ [new_entry sequence r life],
                 eq_parameter_bytes := eq_parameter_bytes q + request_capacity r\<rparr>
      in if sequence = u64_max then q1\<lparr>eq_has_sequence_space := False\<rparr>
         else q1\<lparr>eq_next_sequence := eq_next_sequence q1 + 1\<rparr>)"

definition queue_accept ::
  "queue_ctx \<Rightarrow> u64 \<Rightarrow> ExecutionRequest \<Rightarrow> SubmissionQueue \<Rightarrow> ExecutionAcceptance \<times> SubmissionQueue" where
  "queue_accept c sequence r q0 =
     (let capacity = request_capacity r in
      if \<not> is_same_process c q0 then (not_accepted Accept_kWrongProcess, q0)
      else if sequence = 0 \<or> er_operation r = 0 \<or> er_context r = 0 \<or> er_lifetime r = None \<or>
        capacity < span_size (er_parameters r) \<or> span_invalid (er_parameters r)
      then (not_accepted Accept_kInvalid, q0)
      else
        let q = (if eq_has_bound_executor q0 \<and> executor_expired c q0
                 then q0\<lparr>eq_quarantined := True, eq_closing := True\<rparr> else q0)
        in if eq_quarantined q then (not_accepted Accept_kQuarantined, q)
           else if eq_closing q then (not_accepted Accept_kClosed, q)
           else if \<not> eq_has_sequence_space q \<or> sequence \<noteq> eq_next_sequence q
           then (not_accepted Accept_kWrongSequence, q)
           else if capacity > max_parameter_bytes (eq_limits q) then (not_accepted Accept_kOutOfMemory, q)
           else if length (eq_entries q) \<ge> unat (max_commands (eq_limits q)) \<or>
             capacity > max_parameter_bytes (eq_limits q) - eq_parameter_bytes q
           then (not_accepted Accept_kFull, q)
           else if qc_alloc_fails c then (not_accepted Accept_kOutOfMemory, q)
           else (\<lparr>ea_status = Accept_kAccepted,
                  ea_receipt = \<lparr>rc_owner = Some (eq_identity q), rc_sequence = sequence\<rparr>\<rparr>,
                 accept_entry sequence r (the (er_lifetime r)) q))"

section \<open>Issue\<close>

definition take_next_impl ::
  "queue_ctx \<Rightarrow> ExecutionReceipt option \<Rightarrow> SubmissionQueue \<Rightarrow> ExecutionIssue option \<times> SubmissionQueue" where
  "take_next_impl c receipt q =
     (if \<not> is_same_process c q then (None, q)
      else if \<not> is_executor c q \<or> eq_quarantined q \<or> is_issuing q then (None, q)
      else
        let selected = (case receipt of None \<Rightarrow> None | Some r \<Rightarrow> find_receipt r q)
        in if receipt \<noteq> None \<and> selected = None then (None, q)
           else case List.find (\<lambda>e. en_phase e = Phase_kQueued \<and>
                  (case selected of None \<Rightarrow> True | Some e' \<Rightarrow> en_sequence e = en_sequence e')) (eq_entries q) of
             None \<Rightarrow> (None, q)
           | Some e \<Rightarrow>
               let e' = e\<lparr>en_phase := Phase_kIssuing, en_generation := 1\<rparr>
               in (Some (issue_of e' q), set_entry e' q))"

definition take_next :: "queue_ctx \<Rightarrow> SubmissionQueue \<Rightarrow> ExecutionIssue option \<times> SubmissionQueue" where
  "take_next c q = take_next_impl c None q"

definition take_next_receipt ::
  "queue_ctx \<Rightarrow> ExecutionReceipt \<Rightarrow> SubmissionQueue \<Rightarrow> ExecutionIssue option \<times> SubmissionQueue" where
  "take_next_receipt c r q = take_next_impl c (Some r) q"

text \<open>The entry of a receipt that the executor may still prepare.\<close>

definition unissued_entry :: "queue_ctx \<Rightarrow> ExecutionReceipt \<Rightarrow> SubmissionQueue \<Rightarrow> (Entry \<times> Payload) option" where
  "unissued_entry c r q =
     (if \<not> is_same_process c q \<or> \<not> is_executor c q \<or> eq_quarantined q then None
      else case find_receipt r q of
        None \<Rightarrow> None
      | Some e \<Rightarrow>
          (case en_payload e of
             None \<Rightarrow> None
           | Some p \<Rightarrow>
               if en_phase e \<noteq> Phase_kQueued \<or> en_generation e \<noteq> 0 \<or> en_reply e \<noteq> None \<or> en_releasing_payload e
               then None else Some (e, p)))"

definition limit_unissued_parameters ::
  "queue_ctx \<Rightarrow> ExecutionReceipt \<Rightarrow> size_t \<Rightarrow> SubmissionQueue \<Rightarrow> bool \<times> SubmissionQueue" where
  "limit_unissued_parameters c r bytes q =
     (case unissued_entry c r q of
        None \<Rightarrow> (False, q)
      | Some (e, p) \<Rightarrow>
          if bytes > en_issue_parameter_bytes e then (False, q)
          else (True, set_entry (e\<lparr>en_issue_parameter_bytes := bytes\<rparr>) q))"

text \<open>Copying out returns the bytes that overwrite the output span.\<close>

definition copy_unissued_parameters ::
  "queue_ctx \<Rightarrow> ExecutionReceipt \<Rightarrow> byte_span \<Rightarrow> SubmissionQueue \<Rightarrow> byte list option" where
  "copy_unissued_parameters c r output q =
     (case unissued_entry c r q of
        None \<Rightarrow> None
      | Some (e, p) \<Rightarrow>
          if span_size output \<noteq> en_issue_parameter_bytes e \<or> span_invalid output then None
          else Some (take (length (span_bytes output)) (pl_parameters p)))"

text \<open>Overwriting a part of the parameters in place.\<close>

definition overwrite :: "nat \<Rightarrow> byte list \<Rightarrow> byte list \<Rightarrow> byte list" where
  "overwrite offset bs xs = take offset xs @ bs @ drop (offset + length bs) xs"

definition replace_unissued_parameters ::
  "queue_ctx \<Rightarrow> ExecutionReceipt \<Rightarrow> byte_span \<Rightarrow> SubmissionQueue \<Rightarrow> bool \<times> SubmissionQueue" where
  "replace_unissued_parameters c r input q =
     (case unissued_entry c r q of
        None \<Rightarrow> (False, q)
      | Some (e, p) \<Rightarrow>
          if length (span_bytes input) > length (pl_parameters p) \<or> span_invalid input then (False, q)
          else (True, set_entry (e\<lparr>en_payload := Some (p\<lparr>pl_parameters := overwrite 0 (span_bytes input) (pl_parameters p)\<rparr>),
                                   en_issue_parameter_bytes := span_size input\<rparr>) q))"

definition patch_issue_parameters ::
  "queue_ctx \<Rightarrow> ExecutionIssueToken \<Rightarrow> size_t \<Rightarrow> byte_span \<Rightarrow> SubmissionQueue \<Rightarrow> bool \<times> SubmissionQueue" where
  "patch_issue_parameters c t offset bs q =
     (if \<not> is_same_process c q \<or> span_bytes bs = [] \<or> span_null bs then (False, q)
      else if \<not> is_executor c q \<or> eq_quarantined q then (False, q)
      else case find_issue t q of
        None \<Rightarrow> (False, q)
      | Some e \<Rightarrow>
          (case en_payload e of
             None \<Rightarrow> (False, q)
           | Some p \<Rightarrow>
               if \<not> issuing_phase e then (False, q)
               else if offset > en_issue_parameter_bytes e \<or>
                 length (span_bytes bs) > unat (en_issue_parameter_bytes e - offset)
               then (False, q)
               else (True, set_entry (e\<lparr>en_payload :=
                      Some (p\<lparr>pl_parameters := overwrite (unat offset) (span_bytes bs) (pl_parameters p)\<rparr>)\<rparr>) q)))"

section \<open>Host results\<close>

text \<open>The entry of a token, when the caller is the executor.\<close>

definition executor_issue :: "queue_ctx \<Rightarrow> ExecutionIssueToken \<Rightarrow> SubmissionQueue \<Rightarrow> Entry option" where
  "executor_issue c t q =
     (if \<not> is_same_process c q \<or> \<not> is_executor c q then None else find_issue t q)"

definition publish_host_result ::
  "queue_ctx \<Rightarrow> ExecutionIssueToken \<Rightarrow> int \<Rightarrow> SubmissionQueue \<Rightarrow> bool \<times> SubmissionQueue" where
  "publish_host_result c t native_status q =
     (case executor_issue c t q of
        None \<Rightarrow> (False, q)
      | Some e \<Rightarrow>
          if en_phase e \<noteq> Phase_kIssuing then (False, q)
          else (True, set_entry (e\<lparr>en_reply := Some \<lparr>hr_status = native_status, hr_origin = Origin_kNativeSdk\<rparr>,
                                   en_phase := Phase_kHostReturned\<rparr>) q))"

definition fail_uncertain_issue ::
  "queue_ctx \<Rightarrow> ExecutionIssueToken \<Rightarrow> int \<Rightarrow> SubmissionQueue \<Rightarrow> bool \<times> SubmissionQueue" where
  "fail_uncertain_issue c t failure_status q =
     (if failure_status = 0 then (False, q)
      else case executor_issue c t q of
        None \<Rightarrow> (False, q)
      | Some e \<Rightarrow>
          if \<not> issuing_phase e then (False, q)
          else (True, (set_entry (e\<lparr>en_reply :=
                   (if en_phase e = Phase_kIssuing
                    then Some \<lparr>hr_status = failure_status, hr_origin = Origin_kUncertainIssue\<rparr> else en_reply e),
                   en_phase := Phase_kHostReturned\<rparr>) q)\<lparr>eq_quarantined := True, eq_closing := True\<rparr>))"

definition publish_preparation_failure ::
  "queue_ctx \<Rightarrow> ExecutionIssueToken \<Rightarrow> int \<Rightarrow> SubmissionQueue \<Rightarrow> bool \<times> SubmissionQueue" where
  "publish_preparation_failure c t failure_status q =
     (if failure_status = 0 then (False, q)
      else case executor_issue c t q of
        None \<Rightarrow> (False, q)
      | Some e \<Rightarrow>
          if en_phase e \<noteq> Phase_kIssuing then (False, q)
          else (True, set_entry (e\<lparr>en_reply := Some \<lparr>hr_status = failure_status, hr_origin = Origin_kRejectedBeforeIssue\<rparr>,
                                   en_phase := Phase_kHostReturned\<rparr>) q))"

text \<open>The first critical sections of the two rejections: the entry is stopped and marked.\<close>

definition rejected_entry :: "int \<Rightarrow> Entry \<Rightarrow> Entry" where
  "rejected_entry failure_status e =
     e\<lparr>en_reply := Some \<lparr>hr_status = failure_status, hr_origin = Origin_kRejectedBeforeIssue\<rparr>,
       en_phase := Phase_kHostReturned, en_physically_stopped := True, en_releasing_payload := True\<rparr>"

definition mark_reject_unissued ::
  "queue_ctx \<Rightarrow> ExecutionReceipt \<Rightarrow> int \<Rightarrow> SubmissionQueue \<Rightarrow> bool \<times> SubmissionQueue" where
  "mark_reject_unissued c r failure_status q =
     (if \<not> is_same_process c q \<or> failure_status = 0 then (False, q)
      else case find_receipt r q of
        None \<Rightarrow> (False, q)
      | Some e \<Rightarrow>
          if \<not> is_executor c q \<or> en_phase e \<noteq> Phase_kQueued then (False, q)
          else (True, set_entry (rejected_entry failure_status e) q))"

definition mark_reject_before_native_issue ::
  "queue_ctx \<Rightarrow> ExecutionIssueToken \<Rightarrow> int \<Rightarrow> SubmissionQueue \<Rightarrow> bool \<times> SubmissionQueue" where
  "mark_reject_before_native_issue c t failure_status q =
     (if failure_status = 0 then (False, q)
      else case executor_issue c t q of
        None \<Rightarrow> (False, q)
      | Some e \<Rightarrow>
          if en_phase e \<noteq> Phase_kIssuing then (False, q)
          else (True, set_entry (rejected_entry failure_status e) q))"

definition released_if :: "u64 \<Rightarrow> bool \<times> SubmissionQueue \<Rightarrow> bool \<times> SubmissionQueue" where
  "released_if sequence r = (case r of (ok, q) \<Rightarrow> (ok, if ok then release_payload sequence q else q))"

definition reject_unissued ::
  "queue_ctx \<Rightarrow> ExecutionReceipt \<Rightarrow> int \<Rightarrow> SubmissionQueue \<Rightarrow> bool \<times> SubmissionQueue" where
  "reject_unissued c r failure_status q = released_if (rc_sequence r) (mark_reject_unissued c r failure_status q)"

definition reject_before_native_issue ::
  "queue_ctx \<Rightarrow> ExecutionIssueToken \<Rightarrow> int \<Rightarrow> SubmissionQueue \<Rightarrow> bool \<times> SubmissionQueue" where
  "reject_before_native_issue c t failure_status q =
     released_if (tk_sequence t) (mark_reject_before_native_issue c t failure_status q)"

definition host_result :: "queue_ctx \<Rightarrow> ExecutionReceipt \<Rightarrow> SubmissionQueue \<Rightarrow> ExecutionHostReply option" where
  "host_result c r q =
     (if \<not> is_same_process c q then None
      else case find_receipt r q of
        None \<Rightarrow> None
      | Some e \<Rightarrow> if \<not> en_acknowledged e then en_reply e else None)"

definition acknowledge_result ::
  "queue_ctx \<Rightarrow> ExecutionReceipt \<Rightarrow> SubmissionQueue \<Rightarrow> bool \<times> SubmissionQueue" where
  "acknowledge_result c r q =
     (if \<not> is_same_process c q then (False, q)
      else case find_receipt r q of
        None \<Rightarrow> (False, q)
      | Some e \<Rightarrow>
          if en_reply e = None \<or> en_acknowledged e then (False, q)
          else let e' = e\<lparr>en_acknowledged := True\<rparr> in (True, collect_entry e' (set_entry e' q)))"

section \<open>Physical stop\<close>

definition mark_complete ::
  "queue_ctx \<Rightarrow> ExecutionIssueToken \<Rightarrow> SubmissionQueue \<Rightarrow> bool \<times> SubmissionQueue" where
  "mark_complete c t q =
     (case executor_issue c t q of
        None \<Rightarrow> (False, q)
      | Some e \<Rightarrow>
          if en_phase e \<noteq> Phase_kHostReturned \<or> en_physically_stopped e then (False, q)
          else (True, set_entry (e\<lparr>en_physically_stopped := True, en_releasing_payload := True\<rparr>) q))"

definition complete_after_physical_stop ::
  "queue_ctx \<Rightarrow> ExecutionIssueToken \<Rightarrow> SubmissionQueue \<Rightarrow> bool \<times> SubmissionQueue" where
  "complete_after_physical_stop c t q = released_if (tk_sequence t) (mark_complete c t q)"

definition pause_after_physical_stop ::
  "queue_ctx \<Rightarrow> ExecutionIssueToken \<Rightarrow> SubmissionQueue \<Rightarrow> bool \<times> SubmissionQueue" where
  "pause_after_physical_stop c t q =
     (case executor_issue c t q of
        None \<Rightarrow> (False, q)
      | Some e \<Rightarrow>
          if en_phase e \<noteq> Phase_kHostReturned \<or> en_physically_stopped e then (False, q)
          else (case en_reply e of
            None \<Rightarrow> (False, q)
          | Some reply \<Rightarrow>
              if hr_status reply \<noteq> 0 \<or> hr_origin reply \<noteq> Origin_kNativeSdk then (False, q)
              else (True, set_entry (e\<lparr>en_phase := Phase_kPaused\<rparr>) q)))"

definition resume_after_physical_stop ::
  "queue_ctx \<Rightarrow> ExecutionIssueToken \<Rightarrow> SubmissionQueue \<Rightarrow> ExecutionIssue option \<times> SubmissionQueue" where
  "resume_after_physical_stop c t q =
     (if \<not> is_same_process c q then (None, q)
      else if \<not> is_executor c q \<or> eq_quarantined q then (None, q)
      else case find_issue t q of
        None \<Rightarrow> (None, q)
      | Some e \<Rightarrow>
          if en_phase e \<noteq> Phase_kPaused \<or> is_issuing q then (None, q)
          else if en_generation e = u64_max then (None, q\<lparr>eq_quarantined := True, eq_closing := True\<rparr>)
          else let e' = e\<lparr>en_generation := en_generation e + 1, en_phase := Phase_kResuming\<rparr>
               in (Some (issue_of e' q), set_entry e' q))"

definition finish_continuation_issue ::
  "queue_ctx \<Rightarrow> ExecutionIssueToken \<Rightarrow> SubmissionQueue \<Rightarrow> bool \<times> SubmissionQueue" where
  "finish_continuation_issue c t q =
     (case executor_issue c t q of
        None \<Rightarrow> (False, q)
      | Some e \<Rightarrow>
          if en_phase e \<noteq> Phase_kResuming then (False, q)
          else (True, set_entry (e\<lparr>en_phase := Phase_kHostReturned\<rparr>) q))"

section \<open>Closing and observation\<close>

definition queue_close :: "queue_ctx \<Rightarrow> SubmissionQueue \<Rightarrow> SubmissionQueue" where
  "queue_close c q = (if \<not> is_same_process c q then q else q\<lparr>eq_closing := True\<rparr>)"

definition queue_quarantine :: "queue_ctx \<Rightarrow> SubmissionQueue \<Rightarrow> SubmissionQueue" where
  "queue_quarantine c q = (if \<not> is_same_process c q then q else q\<lparr>eq_closing := True, eq_quarantined := True\<rparr>)"

definition queue_shutdown :: "queue_ctx \<Rightarrow> SubmissionQueue \<Rightarrow> bool \<times> SubmissionQueue" where
  "queue_shutdown c q =
     (if \<not> is_same_process c q then (False, q) else (eq_entries q = [], q\<lparr>eq_closing := True\<rparr>))"

record ExecutionSubmissionSnapshot =
  sn_outstanding :: nat
  sn_queued :: nat
  sn_issuing :: nat
  sn_awaiting_physical_stop :: nat
  sn_paused :: nat
  sn_unacknowledged_replies :: nat
  sn_retained_parameter_bytes :: size_t
  sn_retained_host_bytes :: size_t
  sn_has_executor :: bool
  sn_closing :: bool
  sn_quarantined :: bool

definition queue_snapshot :: "queue_ctx \<Rightarrow> SubmissionQueue \<Rightarrow> ExecutionSubmissionSnapshot" where
  "queue_snapshot c q =
     (if \<not> is_same_process c q
      then \<lparr>sn_outstanding = 0, sn_queued = 0, sn_issuing = 0, sn_awaiting_physical_stop = 0, sn_paused = 0,
            sn_unacknowledged_replies = 0, sn_retained_parameter_bytes = 0, sn_retained_host_bytes = 0,
            sn_has_executor = False, sn_closing = True, sn_quarantined = True\<rparr>
      else \<lparr>sn_outstanding = length (eq_entries q),
            sn_queued = length (filter (\<lambda>e. en_phase e = Phase_kQueued) (eq_entries q)),
            sn_issuing = length (filter issuing_phase (eq_entries q)),
            sn_awaiting_physical_stop =
              length (filter (\<lambda>e. en_phase e = Phase_kHostReturned \<and> \<not> en_physically_stopped e) (eq_entries q)),
            sn_paused = length (filter (\<lambda>e. en_phase e = Phase_kPaused) (eq_entries q)),
            sn_unacknowledged_replies =
              length (filter (\<lambda>e. en_reply e \<noteq> None \<and> \<not> en_acknowledged e) (eq_entries q)),
            sn_retained_parameter_bytes = eq_parameter_bytes q, sn_retained_host_bytes = eq_host_bytes q,
            sn_has_executor = (\<not> executor_expired c q), sn_closing = eq_closing q,
            sn_quarantined = eq_quarantined q\<rparr>)"

definition queue_identity :: "queue_ctx \<Rightarrow> SubmissionQueue \<Rightarrow> ExecutionSessionIdentity" where
  "queue_identity c q =
     (if is_same_process c q then eq_session q
      else \<lparr>client_id = 0, server_incarnation = 0, first_sequence = 1\<rparr>)"

end
