(* ===== verification/SubmissionQueueProps.thy ===== *)
theory SubmissionQueueProps
  imports SubmissionQueue
begin

text \<open>
  The submission queue as a transition system whose steps are the critical sections of its
  methods, in any interleaving and from any thread, and what holds in all its histories: exact
  accounting of the retained bytes, retention of the inputs of a command until its physical stop,
  one reply per command, and issue tokens that are never reused.
\<close>

section \<open>Steps\<close>

datatype queue_op =
    Q_bind queue_ctx
  | Q_allocate_host queue_ctx size_t
  | Q_destroy_host size_t
  | Q_accept queue_ctx u64 ExecutionRequest
  | Q_take queue_ctx "ExecutionReceipt option"
  | Q_limit queue_ctx ExecutionReceipt size_t
  | Q_replace queue_ctx ExecutionReceipt byte_span
  | Q_patch queue_ctx ExecutionIssueToken size_t byte_span
  | Q_publish queue_ctx ExecutionIssueToken int
  | Q_fail_uncertain queue_ctx ExecutionIssueToken int
  | Q_preparation_failure queue_ctx ExecutionIssueToken int
  | Q_mark_reject queue_ctx ExecutionReceipt int
  | Q_mark_reject_native queue_ctx ExecutionIssueToken int
  | Q_mark_complete queue_ctx ExecutionIssueToken
  | Q_detach u64
  | Q_finish u64
  | Q_acknowledge queue_ctx ExecutionReceipt
  | Q_pause queue_ctx ExecutionIssueToken
  | Q_resume queue_ctx ExecutionIssueToken
  | Q_continue queue_ctx ExecutionIssueToken
  | Q_close queue_ctx
  | Q_quarantine queue_ctx
  | Q_shutdown queue_ctx

fun run_queue :: "queue_op \<Rightarrow> SubmissionQueue \<Rightarrow> SubmissionQueue" where
  "run_queue (Q_bind c) q = snd (snd (bind_executor c q))"
| "run_queue (Q_allocate_host c b) q = snd (snd (allocate_host_storage c b q))"
| "run_queue (Q_destroy_host b) q = destroy_host_storage b q"
| "run_queue (Q_accept c s r) q = snd (queue_accept c s r q)"
| "run_queue (Q_take c r) q = snd (take_next_impl c r q)"
| "run_queue (Q_limit c r b) q = snd (limit_unissued_parameters c r b q)"
| "run_queue (Q_replace c r i) q = snd (replace_unissued_parameters c r i q)"
| "run_queue (Q_patch c t off bs) q = snd (patch_issue_parameters c t off bs q)"
| "run_queue (Q_publish c t n) q = snd (publish_host_result c t n q)"
| "run_queue (Q_fail_uncertain c t n) q = snd (fail_uncertain_issue c t n q)"
| "run_queue (Q_preparation_failure c t n) q = snd (publish_preparation_failure c t n q)"
| "run_queue (Q_mark_reject c r n) q = snd (mark_reject_unissued c r n q)"
| "run_queue (Q_mark_reject_native c t n) q = snd (mark_reject_before_native_issue c t n q)"
| "run_queue (Q_mark_complete c t) q = snd (mark_complete c t q)"
| "run_queue (Q_detach s) q = detach_payload s q"
| "run_queue (Q_finish s) q = finish_release s q"
| "run_queue (Q_acknowledge c r) q = snd (acknowledge_result c r q)"
| "run_queue (Q_pause c t) q = snd (pause_after_physical_stop c t q)"
| "run_queue (Q_resume c t) q = snd (resume_after_physical_stop c t q)"
| "run_queue (Q_continue c t) q = snd (finish_continuation_issue c t q)"
| "run_queue (Q_close c) q = queue_close c q"
| "run_queue (Q_quarantine c) q = queue_quarantine c q"
| "run_queue (Q_shutdown c) q = snd (queue_shutdown c q)"

text \<open>A method that retires a payload is its three critical sections in a row.\<close>

lemma retiring_methods:
  "snd (reject_unissued c r n q) = (if fst (mark_reject_unissued c r n q)
     then fold run_queue [Q_mark_reject c r n, Q_detach (rc_sequence r), Q_finish (rc_sequence r)] q
     else run_queue (Q_mark_reject c r n) q)"
  "snd (reject_before_native_issue c t n q) = (if fst (mark_reject_before_native_issue c t n q)
     then fold run_queue [Q_mark_reject_native c t n, Q_detach (tk_sequence t), Q_finish (tk_sequence t)] q
     else run_queue (Q_mark_reject_native c t n) q)"
  "snd (complete_after_physical_stop c t q) = (if fst (mark_complete c t q)
     then fold run_queue [Q_mark_complete c t, Q_detach (tk_sequence t), Q_finish (tk_sequence t)] q
     else run_queue (Q_mark_complete c t) q)"
  by (simp_all add: reject_unissued_def reject_before_native_issue_def complete_after_physical_stop_def
      released_if_def release_payload_def case_prod_beta)

text \<open>The part of the queue that the commands live in.\<close>

definition core :: "SubmissionQueue \<Rightarrow> SubmissionQueue" where
  "core q = q\<lparr>eq_executor := None, eq_host_bytes := 0, eq_has_bound_executor := False, eq_closing := False,
              eq_quarantined := False\<rparr>"

lemma core_fields:
  assumes "core q = core q'"
  shows "eq_session q = eq_session q'" "eq_limits q = eq_limits q'" "eq_identity q = eq_identity q'"
    "eq_entries q = eq_entries q'" "eq_next_sequence q = eq_next_sequence q'"
    "eq_parameter_bytes q = eq_parameter_bytes q'" "eq_has_sequence_space q = eq_has_sequence_space q'"
    "eq_in_flight q = eq_in_flight q'"
  using assms by (cases q; cases q'; simp add: core_def)+

lemma core_simps [simp]:
  "core (q\<lparr>eq_closing := b\<rparr>) = core q" "core (q\<lparr>eq_quarantined := b\<rparr>) = core q"
  "core (q\<lparr>eq_executor := x\<rparr>) = core q" "core (q\<lparr>eq_has_bound_executor := b\<rparr>) = core q"
  "core (q\<lparr>eq_host_bytes := h\<rparr>) = core q"
  by (simp_all add: core_def)

text \<open>What one critical section can do to the entry it works on.\<close>

inductive entry_step :: "Entry \<Rightarrow> Entry \<Rightarrow> bool" where
  issued: "en_phase e = Phase_kQueued \<Longrightarrow>
    entry_step e (e\<lparr>en_phase := Phase_kIssuing, en_generation := 1\<rparr>)"
| prepared: "en_phase e = Phase_kQueued \<Longrightarrow> en_payload e = Some p \<Longrightarrow> length bs = length (pl_parameters p) \<Longrightarrow>
    unat n \<le> length bs \<Longrightarrow>
    entry_step e (e\<lparr>en_payload := Some (p\<lparr>pl_parameters := bs\<rparr>), en_issue_parameter_bytes := n\<rparr>)"
| patched: "issuing_phase e \<Longrightarrow> en_payload e = Some p \<Longrightarrow> length bs = length (pl_parameters p) \<Longrightarrow>
    entry_step e (e\<lparr>en_payload := Some (p\<lparr>pl_parameters := bs\<rparr>)\<rparr>)"
| replied: "en_phase e = Phase_kIssuing \<Longrightarrow>
    entry_step e (e\<lparr>en_reply := Some r, en_phase := Phase_kHostReturned\<rparr>)"
| continued: "en_phase e = Phase_kResuming \<Longrightarrow> entry_step e (e\<lparr>en_phase := Phase_kHostReturned\<rparr>)"
| rejected: "en_phase e = Phase_kQueued \<or> en_phase e = Phase_kIssuing \<Longrightarrow> entry_step e (rejected_entry n e)"
| completed: "en_phase e = Phase_kHostReturned \<Longrightarrow> \<not> en_physically_stopped e \<Longrightarrow>
    entry_step e (e\<lparr>en_physically_stopped := True, en_releasing_payload := True\<rparr>)"
| paused: "en_phase e = Phase_kHostReturned \<Longrightarrow> \<not> en_physically_stopped e \<Longrightarrow> en_reply e \<noteq> None \<Longrightarrow>
    entry_step e (e\<lparr>en_phase := Phase_kPaused\<rparr>)"
| resumed: "en_phase e = Phase_kPaused \<Longrightarrow> en_generation e \<noteq> u64_max \<Longrightarrow>
    entry_step e (e\<lparr>en_generation := en_generation e + 1, en_phase := Phase_kResuming\<rparr>)"

text \<open>
  The commands that an operation may acknowledge and those whose parameters it may prepare, and
  the steps that acknowledge only commands of \<open>A\<close> and prepare only commands of \<open>P\<close>.
\<close>

fun acknowledges :: "queue_op \<Rightarrow> u64 set" where
  "acknowledges (Q_acknowledge c r) = {rc_sequence r}"
| "acknowledges _ = {}"

fun prepares :: "queue_op \<Rightarrow> u64 set" where
  "prepares (Q_limit c r b) = {rc_sequence r}"
| "prepares (Q_replace c r i) = {rc_sequence r}"
| "prepares _ = {}"

inductive queue_step :: "u64 set \<Rightarrow> u64 set \<Rightarrow> SubmissionQueue \<Rightarrow> SubmissionQueue \<Rightarrow> bool" for A P where
  idle: "core q' = core q \<Longrightarrow> queue_step A P q q'"
| accepted: "eq_has_sequence_space q \<Longrightarrow> eq_next_sequence q \<noteq> 0 \<Longrightarrow>
    request_capacity r \<le> max_parameter_bytes (eq_limits q) \<Longrightarrow> span_size (er_parameters r) \<le> request_capacity r \<Longrightarrow>
    length (eq_entries q) < unat (max_commands (eq_limits q)) \<Longrightarrow>
    request_capacity r \<le> max_parameter_bytes (eq_limits q) - eq_parameter_bytes q \<Longrightarrow>
    core q' = core (accept_entry (eq_next_sequence q) r life q) \<Longrightarrow> queue_step A P q q'"
| moved: "e \<in> set (eq_entries q) \<Longrightarrow> entry_step e e' \<Longrightarrow> (issuing_phase e' \<Longrightarrow> issuing_phase e \<or> \<not> is_issuing q) \<Longrightarrow>
    (en_phase e' = Phase_kQueued \<Longrightarrow> en_sequence e \<in> P) \<Longrightarrow> core q' = core (set_entry e' q) \<Longrightarrow> queue_step A P q q'"
| acknowledged: "e \<in> set (eq_entries q) \<Longrightarrow> en_reply e \<noteq> None \<Longrightarrow> \<not> en_acknowledged e \<Longrightarrow>
    en_sequence e \<in> A \<Longrightarrow> e' = e\<lparr>en_acknowledged := True\<rparr> \<Longrightarrow> q' = collect_entry e' (set_entry e' q) \<Longrightarrow> queue_step A P q q'"
| detached: "e \<in> set (eq_entries q) \<Longrightarrow> en_payload e = Some p \<Longrightarrow> en_releasing_payload e \<Longrightarrow>
    q' = (set_entry (e\<lparr>en_payload := None\<rparr>) q)\<lparr>eq_in_flight := (en_sequence e, payload_size p) # eq_in_flight q\<rparr> \<Longrightarrow>
    queue_step A P q q'"
| finished: "e \<in> set (eq_entries q) \<Longrightarrow> map_of (eq_in_flight q) (en_sequence e) = Some n \<Longrightarrow>
    e' = e\<lparr>en_releasing_payload := False\<rparr> \<Longrightarrow>
    q' = collect_entry e' ((set_entry e' q)\<lparr>eq_parameter_bytes := eq_parameter_bytes q - n,
           eq_in_flight := AList.delete (en_sequence e) (eq_in_flight q)\<rparr>) \<Longrightarrow> queue_step A P q q'"

lemma find_in_entries: "List.find P xs = Some e \<Longrightarrow> e \<in> set xs \<and> P e"
  by (auto simp: find_Some_iff)

lemma find_receipt_in: "find_receipt r q = Some e \<Longrightarrow> e \<in> set (eq_entries q) \<and> en_sequence e = rc_sequence r"
  by (auto simp: find_receipt_def find_entry_def dest: find_in_entries split: if_splits)

lemma find_issue_in:
  "find_issue t q = Some e \<Longrightarrow> e \<in> set (eq_entries q) \<and> en_sequence e = tk_sequence t \<and> en_generation e = tk_generation t"
  by (auto simp: find_issue_def find_entry_def dest: find_in_entries split: option.splits if_splits)

lemma executor_issue_in:
  "executor_issue c t q = Some e \<Longrightarrow> e \<in> set (eq_entries q) \<and> en_sequence e = tk_sequence t \<and> en_generation e = tk_generation t"
  by (auto simp: executor_issue_def dest: find_issue_in split: if_splits)

lemma overwrite_length: "offset + length bs \<le> length xs \<Longrightarrow> length (overwrite offset bs xs) = length xs"
  by (simp add: overwrite_def)

section \<open>The invariant\<close>

definition entry_ok :: "Entry \<Rightarrow> bool" where
  "entry_ok e \<longleftrightarrow>
     en_sequence e \<noteq> 0 \<and>
     (case en_payload e of
        None \<Rightarrow> en_physically_stopped e
      | Some p \<Rightarrow> length (pl_parameters p) < 2 ^ 64 \<and> unat (en_issue_parameter_bytes e) \<le> length (pl_parameters p)) \<and>
     (en_releasing_payload e \<longrightarrow> en_physically_stopped e) \<and>
     (en_physically_stopped e \<and> en_payload e \<noteq> None \<longrightarrow> en_releasing_payload e) \<and>
     (en_acknowledged e \<longrightarrow> en_reply e \<noteq> None) \<and>
     (en_phase e = Phase_kQueued \<longleftrightarrow> en_generation e = 0 \<and> \<not> en_physically_stopped e) \<and>
     (en_phase e = Phase_kQueued \<or> en_phase e = Phase_kIssuing \<longleftrightarrow> en_reply e = None) \<and>
     (en_physically_stopped e \<longrightarrow> en_phase e = Phase_kHostReturned)"

definition charge :: "Entry \<Rightarrow> nat" where
  "charge e = (case en_payload e of None \<Rightarrow> 0 | Some p \<Rightarrow> length (pl_parameters p))"

definition entries_ok :: "SubmissionQueue \<Rightarrow> bool" where
  "entries_ok q \<longleftrightarrow>
     sorted_wrt (<) (map en_sequence (eq_entries q)) \<and> list_all entry_ok (eq_entries q) \<and>
     (eq_has_sequence_space q \<longrightarrow> list_all (\<lambda>e. en_sequence e < eq_next_sequence q) (eq_entries q)) \<and>
     eq_next_sequence q \<noteq> 0 \<and>
     length (eq_entries q) \<le> unat (max_commands (eq_limits q)) \<and>
     length (filter issuing_phase (eq_entries q)) \<le> 1 \<and>
     list_all (\<lambda>e. \<not> (en_acknowledged e \<and> en_physically_stopped e \<and> \<not> en_releasing_payload e)) (eq_entries q)"

definition detached_entry :: "Entry \<Rightarrow> bool" where
  "detached_entry e \<longleftrightarrow> en_releasing_payload e \<and> en_payload e = None"

definition detached_sequences :: "SubmissionQueue \<Rightarrow> u64 set" where
  "detached_sequences q = en_sequence ` set (filter detached_entry (eq_entries q))"

definition accounts_ok :: "SubmissionQueue \<Rightarrow> bool" where
  "accounts_ok q \<longleftrightarrow>
     keys_distinct (eq_in_flight q) \<and>
     fst ` set (eq_in_flight q) = detached_sequences q \<and>
     unat (eq_parameter_bytes q) = sum_list (map charge (eq_entries q)) + umap_sum unat (eq_in_flight q) \<and>
     eq_parameter_bytes q \<le> max_parameter_bytes (eq_limits q)"

definition queue_inv :: "SubmissionQueue \<Rightarrow> bool" where
  "queue_inv q \<longleftrightarrow> entries_ok q \<and> accounts_ok q"

lemma queue_invD:
  assumes "queue_inv q"
  shows "entries_ok q" "accounts_ok q"
  using assms by (simp_all add: queue_inv_def)

lemma entry_okD: "queue_inv q \<Longrightarrow> e \<in> set (eq_entries q) \<Longrightarrow> entry_ok e"
  by (auto simp: queue_inv_def entries_ok_def list_all_iff)

lemma payload_length:
  "queue_inv q \<Longrightarrow> e \<in> set (eq_entries q) \<Longrightarrow> en_payload e = Some p \<Longrightarrow>
   length (pl_parameters p) < 2 ^ 64 \<and> unat (en_issue_parameter_bytes e) \<le> length (pl_parameters p)"
  using entry_okD [of q e] by (simp add: entry_ok_def)

section \<open>Every operation is a step\<close>

lemma step_refl: "queue_step A P q q"
  by (rule queue_step.idle) simp

lemma step_moved:
  assumes "e \<in> set (eq_entries q)" and "entry_step e e'" and "issuing_phase e' \<Longrightarrow> issuing_phase e \<or> \<not> is_issuing q"
    and "en_phase e' = Phase_kQueued \<Longrightarrow> en_sequence e \<in> P"
  shows "queue_step A P q (set_entry e' q)" "queue_step A P q ((set_entry e' q)\<lparr>eq_quarantined := True, eq_closing := True\<rparr>)"
  by (rule queue_step.moved [OF assms]; simp)+

lemma unissued_entry_in:
  "unissued_entry c r q = Some (e, p) \<Longrightarrow>
   e \<in> set (eq_entries q) \<and> en_payload e = Some p \<and> en_phase e = Phase_kQueued \<and> en_sequence e = rc_sequence r"
  by (auto simp: unissued_entry_def dest: find_receipt_in split: if_splits option.splits)

lemma prepare_steps:
  assumes inv: "queue_inv q"
  shows "queue_step A {rc_sequence r} q (snd (limit_unissued_parameters c r b q))"
    and "queue_step A {rc_sequence r} q (snd (replace_unissued_parameters c r i q))"
    and "queue_step A P q (snd (patch_issue_parameters c t off bs q))"
proof -
  have u: "queue_step A {rc_sequence r} q (set_entry (e\<lparr>en_payload := Some (p\<lparr>pl_parameters := xs\<rparr>), en_issue_parameter_bytes := n\<rparr>) q)"
    if "unissued_entry c r q = Some (e, p)" "length xs = length (pl_parameters p)" "unat n \<le> length xs" for e p xs n
    using unissued_entry_in [OF that(1)] that(2,3)
    by (intro step_moved(1) [where e = e] entry_step.prepared) (auto simp: issuing_phase_def)
  show "queue_step A {rc_sequence r} q (snd (limit_unissued_parameters c r b q))"
  proof (cases "unissued_entry c r q")
    case (Some ep)
    obtain e p where ep: "ep = (e, p)" by (cases ep)
    note E = unissued_entry_in [OF Some [unfolded ep]]
    have "b \<le> en_issue_parameter_bytes e \<Longrightarrow> unat b \<le> length (pl_parameters p)"
      using payload_length [OF inv, of e p] E by (simp add: word_le_nat_alt)
    moreover have "e\<lparr>en_issue_parameter_bytes := b\<rparr> =
        e\<lparr>en_payload := Some (p\<lparr>pl_parameters := pl_parameters p\<rparr>), en_issue_parameter_bytes := b\<rparr>"
      using E by (cases e) simp
    ultimately show ?thesis
      using Some ep u [OF Some [unfolded ep] refl, of b] by (simp add: limit_unissued_parameters_def step_refl not_less)
  qed (simp add: limit_unissued_parameters_def step_refl)
  show "queue_step A {rc_sequence r} q (snd (replace_unissued_parameters c r i q))"
  proof (cases "unissued_entry c r q")
    case (Some ep)
    obtain e p where ep: "ep = (e, p)" by (cases ep)
    have "unat (span_size i) \<le> length (span_bytes i)" by (simp add: span_size_def unsigned_of_nat take_bit_eq_mod)
    then show ?thesis
      using Some ep u [OF Some [unfolded ep], of "overwrite 0 (span_bytes i) (pl_parameters p)" "span_size i"]
      by (simp add: replace_unissued_parameters_def step_refl overwrite_length not_less)
  qed (simp add: replace_unissued_parameters_def step_refl)
  show "queue_step A P q (snd (patch_issue_parameters c t off bs q))"
  proof (cases "find_issue t q")
    case (Some e)
    note E = find_issue_in [OF Some]
    show ?thesis
    proof (cases "en_payload e")
      case (Some p)
      have "unat off + length (span_bytes bs) \<le> length (pl_parameters p)"
        if "\<not> off > en_issue_parameter_bytes e" "\<not> length (span_bytes bs) > unat (en_issue_parameter_bytes e - off)"
        using that payload_length [OF inv _ Some] E by (auto simp: not_less unat_sub word_le_nat_alt)
      then have "queue_step A P q (set_entry (e\<lparr>en_payload :=
          Some (p\<lparr>pl_parameters := overwrite (unat off) (span_bytes bs) (pl_parameters p)\<rparr>)\<rparr>) q)"
        if "\<not> off > en_issue_parameter_bytes e" "\<not> length (span_bytes bs) > unat (en_issue_parameter_bytes e - off)"
          "issuing_phase e"
        using that E Some by (intro step_moved(1) [where e = e] entry_step.patched) (auto simp: overwrite_length issuing_phase_def)
      with Some \<open>find_issue t q = Some e\<close> show ?thesis by (auto simp: patch_issue_parameters_def step_refl)
    qed (simp add: patch_issue_parameters_def step_refl \<open>find_issue t q = Some e\<close>)
  qed (simp add: patch_issue_parameters_def step_refl)
qed

lemma result_steps:
  shows "queue_step A P q (snd (publish_host_result c t n q))"
    and "queue_step A P q (snd (fail_uncertain_issue c t n q))"
    and "queue_step A P q (snd (publish_preparation_failure c t n q))"
    and "queue_step A P q (snd (mark_reject_unissued c r n q))"
    and "queue_step A P q (snd (mark_reject_before_native_issue c t n q))"
    and "queue_step A P q (snd (mark_complete c t q))"
    and "queue_step A P q (snd (pause_after_physical_stop c t q))"
    and "queue_step A P q (snd (finish_continuation_issue c t q))"
proof -
  have mv: "queue_step A P q (set_entry e' q)" "queue_step A P q ((set_entry e' q)\<lparr>eq_quarantined := True, eq_closing := True\<rparr>)"
    if "executor_issue c t q = Some e \<or> find_receipt r q = Some e" "entry_step e e'" "\<not> issuing_phase e'" "en_phase e' \<noteq> Phase_kQueued" for e e'
    using step_moved [of e q e'] that executor_issue_in [of c t q e] find_receipt_in [of r q e] by auto
  have ph: "\<not> issuing_phase (e\<lparr>en_phase := Phase_kHostReturned\<rparr>)" "\<not> issuing_phase (e\<lparr>en_phase := Phase_kPaused\<rparr>)"
    "\<not> issuing_phase (e\<lparr>en_reply := x, en_phase := Phase_kHostReturned\<rparr>)" "\<not> issuing_phase (rejected_entry n e)"
    "en_phase (rejected_entry n e) \<noteq> Phase_kQueued"
    "en_phase e = Phase_kHostReturned \<Longrightarrow> \<not> issuing_phase (e\<lparr>en_physically_stopped := True, en_releasing_payload := True\<rparr>)" for e x
    by (simp_all add: issuing_phase_def rejected_entry_def)
  show "queue_step A P q (snd (publish_host_result c t n q))"
    by (auto simp: publish_host_result_def step_refl split: option.split intro!: mv entry_step.replied ph)
  show "queue_step A P q (snd (publish_preparation_failure c t n q))"
    by (auto simp: publish_preparation_failure_def step_refl split: option.split intro!: mv entry_step.replied ph)
  show "queue_step A P q (snd (mark_reject_unissued c r n q))"
    by (auto simp: mark_reject_unissued_def step_refl split: option.split intro!: mv(1) entry_step.rejected ph)
  show "queue_step A P q (snd (mark_reject_before_native_issue c t n q))"
    by (auto simp: mark_reject_before_native_issue_def step_refl split: option.split intro!: mv(1) entry_step.rejected ph)
  show "queue_step A P q (snd (mark_complete c t q))"
    by (auto simp: mark_complete_def step_refl split: option.split intro!: mv(1) entry_step.completed ph)
  show "queue_step A P q (snd (pause_after_physical_stop c t q))"
    by (auto simp: pause_after_physical_stop_def step_refl split: option.split intro!: mv(1) entry_step.paused ph)
  show "queue_step A P q (snd (finish_continuation_issue c t q))"
    by (auto simp: finish_continuation_issue_def step_refl split: option.split intro!: mv(1) entry_step.continued ph)
  show "queue_step A P q (snd (fail_uncertain_issue c t n q))"
  proof (cases "executor_issue c t q")
    case (Some e)
    have "entry_step e (e\<lparr>en_reply := en_reply e, en_phase := Phase_kHostReturned\<rparr>)" if "en_phase e = Phase_kResuming"
      using entry_step.continued [OF that] by simp
    with Some show ?thesis
      by (auto simp: fail_uncertain_issue_def step_refl issuing_phase_def [of e] intro!: mv(2) [of e] entry_step.replied ph)
  qed (simp add: fail_uncertain_issue_def step_refl)
qed

lemma issue_steps:
  shows "queue_step A P q (snd (take_next_impl c x q))"
    and "queue_step A P q (snd (resume_after_physical_stop c t q))"
proof -
  have tk: "queue_step A P q (set_entry (e\<lparr>en_phase := Phase_kIssuing, en_generation := 1\<rparr>) q)"
    if "e \<in> set (eq_entries q)" "en_phase e = Phase_kQueued" "\<not> is_issuing q" for e
    using that by (intro step_moved(1) [where e = e] entry_step.issued) simp_all
  show "queue_step A P q (snd (take_next_impl c x q))"
    using tk by (auto simp: take_next_impl_def step_refl Let_def dest!: find_in_entries split: option.split)
  have "queue_step A P q (set_entry (e\<lparr>en_generation := en_generation e + 1, en_phase := Phase_kResuming\<rparr>) q)"
    if "find_issue t q = Some e" "en_phase e = Phase_kPaused" "\<not> is_issuing q" "en_generation e \<noteq> u64_max" for e
    using that find_issue_in [OF that(1)] by (intro step_moved(1) [where e = e] entry_step.resumed) simp_all
  then show "queue_step A P q (snd (resume_after_physical_stop c t q))"
    by (auto simp: resume_after_physical_stop_def step_refl Let_def intro: queue_step.idle split: option.split)
qed

lemma accept_step:
  assumes "queue_inv q"
  shows "queue_step A P q (snd (queue_accept c s r q))"
proof -
  let ?q = "if eq_has_bound_executor q \<and> executor_expired c q then q\<lparr>eq_quarantined := True, eq_closing := True\<rparr> else q"
  have idle: "queue_step A P q ?q" by (rule queue_step.idle) simp
  have f: "eq_entries ?q = eq_entries q" "eq_limits ?q = eq_limits q" "eq_parameter_bytes ?q = eq_parameter_bytes q"
    "eq_next_sequence ?q = eq_next_sequence q" "eq_has_sequence_space ?q = eq_has_sequence_space q" by simp_all
  have acc: "queue_step A P q (accept_entry (eq_next_sequence q) r life ?q)"
    if "eq_has_sequence_space q" "eq_next_sequence q \<noteq> 0" "request_capacity r \<le> max_parameter_bytes (eq_limits q)"
      "span_size (er_parameters r) \<le> request_capacity r" "length (eq_entries q) < unat (max_commands (eq_limits q))"
      "request_capacity r \<le> max_parameter_bytes (eq_limits q) - eq_parameter_bytes q" for life
    by (rule queue_step.accepted [OF that, of _ life]) (simp add: accept_entry_def Let_def core_def)
  show ?thesis
    using idle acc step_refl unfolding queue_accept_def Let_def f
    by (auto simp: not_less not_le)
qed

lemma other_steps:
  shows "queue_step {rc_sequence r} P q (snd (acknowledge_result c r q))" "queue_step A P q (detach_payload s q)" "queue_step A P q (finish_release s q)"
proof -
  show "queue_step {rc_sequence r} P q (snd (acknowledge_result c r q))"
    by (auto simp: acknowledge_result_def step_refl Let_def dest: find_receipt_in split: option.split
        intro: queue_step.acknowledged)
  show "queue_step A P q (detach_payload s q)"
    by (auto simp: detach_payload_def step_refl dest!: find_in_entries split: option.split intro: queue_step.detached)
  show "queue_step A P q (finish_release s q)"
    by (auto simp: finish_release_def step_refl Let_def dest!: find_in_entries split: option.split intro: queue_step.finished)
qed

lemma run_queue_step:
  assumes "queue_inv q"
  shows "queue_step (acknowledges op) (prepares op) q (run_queue op q)"
proof (cases op)
  case (Q_bind c)
  then show ?thesis by (auto simp: bind_executor_def Let_def step_refl intro: queue_step.idle split: option.split)
qed (auto simp: prepare_steps [OF assms] result_steps issue_steps accept_step [OF assms] other_steps step_refl
    allocate_host_storage_def destroy_host_storage_def queue_close_def queue_quarantine_def queue_shutdown_def
    intro: queue_step.idle)

section \<open>Every step keeps the invariant\<close>

lemma entry_step_frame:
  assumes "entry_step e e'" and "entry_ok e"
  shows "en_sequence e' = en_sequence e" "entry_ok e'" "charge e' = charge e" "en_acknowledged e' = en_acknowledged e"
    "detached_entry e' = detached_entry e"
    "en_physically_stopped e' \<and> \<not> en_releasing_payload e' \<longleftrightarrow> en_physically_stopped e \<and> \<not> en_releasing_payload e"
  using assms
  by (induction rule: entry_step.induct;
      auto simp: entry_ok_def charge_def rejected_entry_def detached_entry_def issuing_phase_def u64_Suc_nonzero split: option.splits)+

text \<open>Updating or erasing an entry, with the list split at it.\<close>

lemma entries_split:
  assumes "distinct (map en_sequence (eq_entries q))" and "e \<in> set (eq_entries q)" and "en_sequence e' = en_sequence e"
  obtains xs ys where "eq_entries q = xs @ e # ys" "eq_entries (set_entry e' q) = xs @ e' # ys"
    "eq_entries (erase_entry e' (set_entry e' q)) = xs @ ys" "en_sequence e \<notin> en_sequence ` set (xs @ ys)"
proof -
  obtain xs ys where s: "eq_entries q = xs @ e # ys" using assms(2) by (auto simp: in_set_conv_decomp)
  then have n: "en_sequence e \<notin> en_sequence ` set xs" "en_sequence e \<notin> en_sequence ` set ys" using assms(1) by auto
  then have d: "x \<in> set xs \<or> x \<in> set ys \<Longrightarrow> en_sequence x \<noteq> en_sequence e" for x by (metis imageI)
  then have m: "map (\<lambda>x. if en_sequence x = en_sequence e then e' else x) xs = xs"
    "map (\<lambda>x. if en_sequence x = en_sequence e then e' else x) ys = ys"
    using d by (auto intro!: map_idI)
  have f: "filter (\<lambda>x. en_sequence x \<noteq> en_sequence e) xs = xs" "filter (\<lambda>x. en_sequence x \<noteq> en_sequence e) ys = ys"
    using d by (auto simp: filter_id_conv)
  show thesis
    by (rule that [OF s]) (use s m f n assms(3) in \<open>simp_all add: set_entry_def erase_entry_def image_Un\<close>)
qed

lemma entries_distinct: "entries_ok q \<Longrightarrow> distinct (map en_sequence (eq_entries q))"
  by (simp add: entries_ok_def strict_sorted_iff)

lemma set_entry_frame [simp]:
  "eq_limits (set_entry e q) = eq_limits q" "eq_next_sequence (set_entry e q) = eq_next_sequence q"
  "eq_has_sequence_space (set_entry e q) = eq_has_sequence_space q" "eq_in_flight (set_entry e q) = eq_in_flight q"
  "eq_parameter_bytes (set_entry e q) = eq_parameter_bytes q" "eq_identity (set_entry e q) = eq_identity q"
  "eq_limits (erase_entry e q) = eq_limits q" "eq_next_sequence (erase_entry e q) = eq_next_sequence q"
  "eq_has_sequence_space (erase_entry e q) = eq_has_sequence_space q" "eq_in_flight (erase_entry e q) = eq_in_flight q"
  "eq_parameter_bytes (erase_entry e q) = eq_parameter_bytes q" "eq_identity (erase_entry e q) = eq_identity q"
  by (simp_all add: set_entry_def erase_entry_def)

lemma core_inv: "core q' = core q \<Longrightarrow> queue_inv q' = queue_inv q"
  using core_fields [of q' q] by (simp add: queue_inv_def entries_ok_def accounts_ok_def detached_sequences_def)

lemma moved_inv:
  assumes inv: "queue_inv q" and e: "e \<in> set (eq_entries q)" and st: "entry_step e e'"
    and iss: "issuing_phase e' \<Longrightarrow> issuing_phase e \<or> \<not> is_issuing q"
  shows "queue_inv (set_entry e' q)"
proof -
  note E = queue_invD(1) [OF inv] and A = queue_invD(2) [OF inv]
  note F = entry_step_frame [OF st entry_okD [OF inv e]]
  obtain xs ys where s: "eq_entries q = xs @ e # ys" "eq_entries (set_entry e' q) = xs @ e' # ys"
    by (rule entries_split [OF entries_distinct [OF E] e F(1)])
  have "length (filter issuing_phase (xs @ e' # ys)) \<le> 1"
  proof (cases "issuing_phase e'")
    case True
    have "length (filter issuing_phase (xs @ e # ys)) \<le> 1" using E s by (simp add: entries_ok_def)
    moreover have "\<not> is_issuing q \<Longrightarrow> filter issuing_phase xs = [] \<and> filter issuing_phase ys = []"
      by (simp add: is_issuing_def s list_ex_iff filter_empty_conv)
    ultimately show ?thesis using iss [OF True] by (auto split: if_splits)
  next
    case False
    have "length (filter issuing_phase (xs @ e # ys)) \<le> 1" using E s by (simp add: entries_ok_def)
    with False show ?thesis by (auto split: if_splits)
  qed
  then have "entries_ok (set_entry e' q)"
    using E F by (auto simp: entries_ok_def s sorted_wrt_append)
  moreover have "accounts_ok (set_entry e' q)"
  proof -
    have "detached_sequences (set_entry e' q) = detached_sequences q"
      using F(1,5) by (simp add: detached_sequences_def s)
    moreover have "sum_list (map charge (eq_entries (set_entry e' q))) = sum_list (map charge (eq_entries q))"
      using F(3) by (simp add: s)
    ultimately show ?thesis using A unfolding accounts_ok_def by simp
  qed
  ultimately show ?thesis by (simp add: queue_inv_def)
qed

lemma accepted_inv:
  assumes inv: "queue_inv q" and sp: "eq_has_sequence_space q"
    and cap: "span_size (er_parameters r) \<le> request_capacity r" "length (eq_entries q) < unat (max_commands (eq_limits q))"
      "request_capacity r \<le> max_parameter_bytes (eq_limits q) - eq_parameter_bytes q"
  shows "queue_inv (accept_entry (eq_next_sequence q) r life q)"
proof -
  note E = queue_invD(1) [OF inv] and A = queue_invD(2) [OF inv]
  let ?n = "eq_next_sequence q" and ?q = "accept_entry (eq_next_sequence q) r life q"
  let ?e = "new_entry ?n r life"
  have f: "eq_entries ?q = eq_entries q @ [?e]" "eq_limits ?q = eq_limits q" "eq_in_flight ?q = eq_in_flight q"
    "eq_parameter_bytes ?q = eq_parameter_bytes q + request_capacity r"
    "eq_next_sequence ?q = (if ?n = u64_max then ?n else ?n + 1)" "eq_has_sequence_space ?q = (?n \<noteq> u64_max)"
    using sp by (simp_all add: accept_entry_def Let_def)
  have nz: "?n \<noteq> 0" using E by (simp add: entries_ok_def)
  have len: "length (resized k bs) = k" for k and bs :: "byte list" by (simp add: resized_def)
  have ok: "entry_ok ?e" "charge ?e = unat (request_capacity r)" "\<not> detached_entry ?e" "\<not> issuing_phase ?e"
    "en_sequence ?e = ?n" "\<not> en_acknowledged ?e"
    using nz cap(1) by (simp_all add: entry_ok_def new_entry_def charge_def detached_entry_def issuing_phase_def len word_le_nat_alt)
  have "?n < ?n + 1" if "?n \<noteq> u64_max" using unat_Suc_no_wrap [OF that] by (simp add: word_less_nat_alt)
  moreover have "en_sequence e < ?n" if "e \<in> set (eq_entries q)" for e using E sp that by (simp add: entries_ok_def list_all_iff)
  ultimately have "en_sequence e < ?n + 1" if "e \<in> set (eq_entries q)" "?n \<noteq> u64_max" for e using that less_trans by blast
  then have "entries_ok ?q"
    using E sp ok cap(2) nz u64_Suc_nonzero [of ?n] \<open>?n \<noteq> u64_max \<Longrightarrow> ?n < ?n + 1\<close>
    by (auto simp: entries_ok_def f sorted_wrt_append list_all_iff)
  moreover have "accounts_ok ?q"
  proof -
    have "eq_parameter_bytes q \<le> max_parameter_bytes (eq_limits q)" using A by (simp add: accounts_ok_def)
    with cap(3) have "unat (request_capacity r) \<le> unat (max_parameter_bytes (eq_limits q)) - unat (eq_parameter_bytes q)"
      "unat (eq_parameter_bytes q) \<le> unat (max_parameter_bytes (eq_limits q))"
      by (simp_all add: word_le_nat_alt unat_sub)
    then have le: "unat (eq_parameter_bytes q) + unat (request_capacity r) \<le> unat (max_parameter_bytes (eq_limits q))" by linarith
    also have "\<dots> < 2 ^ LENGTH(64)" by (rule unsigned_less)
    finally have "unat (eq_parameter_bytes q + request_capacity r) = unat (eq_parameter_bytes q) + unat (request_capacity r)"
      by (rule unat_add_no_wrap)
    with A ok le show ?thesis by (simp add: accounts_ok_def f detached_sequences_def word_le_nat_alt)
  qed
  ultimately show ?thesis by (simp add: queue_inv_def)
qed

text \<open>An update that starts no issue, and an update whose entry is then collected.\<close>

lemma entries_ok_collect:
  assumes E: "entries_ok q" and e: "e \<in> set (eq_entries q)" and s: "en_sequence e' = en_sequence e"
    and ok: "entry_ok e'" and ph: "issuing_phase e' \<Longrightarrow> issuing_phase e"
  shows "entries_ok (collect_entry e' (set_entry e' q))"
proof -
  obtain xs ys where x: "eq_entries q = xs @ e # ys" "eq_entries (set_entry e' q) = xs @ e' # ys"
    "eq_entries (erase_entry e' (set_entry e' q)) = xs @ ys"
    by (rule entries_split [OF entries_distinct [OF E] e s])
  have "length (filter issuing_phase (xs @ e # ys)) \<le> 1" using E x by (simp add: entries_ok_def)
  then have "length (filter issuing_phase (xs @ e' # ys)) \<le> 1" "length (filter issuing_phase (xs @ ys)) \<le> 1"
    using ph by (auto split: if_splits)
  then show ?thesis
    using E s ok by (auto simp: collect_entry_def entries_ok_def x sorted_wrt_append)
qed

lemma entries_ok_cong:
  "eq_entries q' = eq_entries q \<Longrightarrow> eq_limits q' = eq_limits q \<Longrightarrow> eq_next_sequence q' = eq_next_sequence q \<Longrightarrow>
   eq_has_sequence_space q' = eq_has_sequence_space q \<Longrightarrow> entries_ok q' = entries_ok q"
  by (simp add: entries_ok_def)

lemma collect_frame [simp]:
  "eq_limits (collect_entry e q) = eq_limits q" "eq_in_flight (collect_entry e q) = eq_in_flight q"
  "eq_parameter_bytes (collect_entry e q) = eq_parameter_bytes q" "eq_identity (collect_entry e q) = eq_identity q"
  "eq_next_sequence (collect_entry e q) = eq_next_sequence q"
  "eq_has_sequence_space (collect_entry e q) = eq_has_sequence_space q"
  by (simp_all add: collect_entry_def)

text \<open>The sums and the detached entries after such an update.\<close>

lemma collect_accounts:
  assumes E: "entries_ok q" and e: "e \<in> set (eq_entries q)" and s: "en_sequence e' = en_sequence e"
    and ok: "entry_ok e'"
  shows "sum_list (map charge (eq_entries (collect_entry e' (set_entry e' q)))) + charge e =
         sum_list (map charge (eq_entries q)) + charge e'"
    and "detached_sequences (collect_entry e' (set_entry e' q)) =
         (if detached_entry e' then insert (en_sequence e) (detached_sequences q)
          else detached_sequences q - {en_sequence e})"
proof -
  obtain xs ys where x: "eq_entries q = xs @ e # ys" "eq_entries (set_entry e' q) = xs @ e' # ys"
    "eq_entries (erase_entry e' (set_entry e' q)) = xs @ ys" and n: "en_sequence e \<notin> en_sequence ` set (xs @ ys)"
    by (rule entries_split [OF entries_distinct [OF E] e s])
  have gone: "charge e' = 0 \<and> \<not> detached_entry e'" if "en_acknowledged e'" "en_physically_stopped e'" "\<not> en_releasing_payload e'"
    using that ok by (auto simp: entry_ok_def charge_def detached_entry_def split: option.splits)
  show "sum_list (map charge (eq_entries (collect_entry e' (set_entry e' q)))) + charge e =
      sum_list (map charge (eq_entries q)) + charge e'"
    using gone by (auto simp: collect_entry_def x)
  show "detached_sequences (collect_entry e' (set_entry e' q)) =
      (if detached_entry e' then insert (en_sequence e) (detached_sequences q) else detached_sequences q - {en_sequence e})"
  proof -
    let ?D = "\<lambda>zs. en_sequence ` set (filter detached_entry zs)"
    have "?D (xs @ x # ys) = (if detached_entry x then insert (en_sequence x) (?D (xs @ ys)) else ?D (xs @ ys))" for x
      by (simp add: image_Un)
    moreover have "en_sequence e \<notin> ?D (xs @ ys)" using n by auto
    ultimately show ?thesis
      using gone s by (simp add: collect_entry_def detached_sequences_def x del: filter_append set_append)
  qed
qed

lemma same_entry:
  "entries_ok q \<Longrightarrow> e \<in> set (eq_entries q) \<Longrightarrow> x \<in> set (eq_entries q) \<Longrightarrow> en_sequence x = en_sequence e \<Longrightarrow> x = e"
  by (rule inj_onD [of en_sequence "set (eq_entries q)"]) (use entries_distinct [of q] in \<open>simp_all add: distinct_map\<close>)

lemma detached_iff:
  assumes "entries_ok q" and "e \<in> set (eq_entries q)"
  shows "en_sequence e \<in> detached_sequences q \<longleftrightarrow> detached_entry e"
proof
  assume "en_sequence e \<in> detached_sequences q"
  then obtain x where "x \<in> set (eq_entries q)" "detached_entry x" "en_sequence x = en_sequence e"
    unfolding detached_sequences_def by force
  with same_entry [OF assms] show "detached_entry e" by blast
qed (use assms(2) in \<open>simp add: detached_sequences_def\<close>)

lemma acknowledged_inv:
  assumes inv: "queue_inv q" and e: "e \<in> set (eq_entries q)" and r: "en_reply e \<noteq> None"
  shows "queue_inv (collect_entry (e\<lparr>en_acknowledged := True\<rparr>) (set_entry (e\<lparr>en_acknowledged := True\<rparr>) q))"
proof -
  note E = queue_invD(1) [OF inv] and A = queue_invD(2) [OF inv]
  let ?e = "e\<lparr>en_acknowledged := True\<rparr>"
  let ?q = "collect_entry ?e (set_entry ?e q)"
  have f: "en_sequence ?e = en_sequence e" "issuing_phase ?e = issuing_phase e" "charge ?e = charge e"
    "detached_entry ?e = detached_entry e"
    by (simp_all add: issuing_phase_def charge_def detached_entry_def)
  have ok: "entry_ok ?e" using entry_okD [OF inv e] r by (cases "en_payload e") (auto simp: entry_ok_def)
  note C = collect_accounts [OF E e f(1) ok]
  have "detached_sequences ?q = detached_sequences q"
    using C(2) f(4) detached_iff [OF E e] by (cases "detached_entry e") (simp_all add: insert_absorb)
  moreover have "sum_list (map charge (eq_entries ?q)) = sum_list (map charge (eq_entries q))"
    using C(1) f(3) by linarith
  ultimately have "accounts_ok ?q" using A by (simp only: accounts_ok_def collect_frame set_entry_frame)
  moreover have "entries_ok ?q" by (rule entries_ok_collect [OF E e f(1) ok]) (simp only: f(2))
  ultimately show ?thesis by (simp only: queue_inv_def)
qed

lemma finished_inv:
  assumes inv: "queue_inv q" and e: "e \<in> set (eq_entries q)" and n: "map_of (eq_in_flight q) (en_sequence e) = Some n"
    and e': "e' = e\<lparr>en_releasing_payload := False\<rparr>"
  shows "queue_inv (collect_entry e' ((set_entry e' q)\<lparr>eq_parameter_bytes := eq_parameter_bytes q - n,
           eq_in_flight := AList.delete (en_sequence e) (eq_in_flight q)\<rparr>))" (is "queue_inv ?q")
proof -
  note E = queue_invD(1) [OF inv] and A = queue_invD(2) [OF inv]
  have kd: "keys_distinct (eq_in_flight q)" and fs: "fst ` set (eq_in_flight q) = detached_sequences q"
    and sum: "unat (eq_parameter_bytes q) = sum_list (map charge (eq_entries q)) + umap_sum unat (eq_in_flight q)"
    and le: "eq_parameter_bytes q \<le> max_parameter_bytes (eq_limits q)"
    using A by (simp_all add: accounts_ok_def)
  have "en_sequence e \<in> detached_sequences q" using n fs by (force dest!: map_of_SomeD simp flip: fs)
  then have de: "detached_entry e" by (simp add: detached_iff [OF E e])
  have f: "en_sequence e' = en_sequence e" "entry_ok e'" "issuing_phase e' = issuing_phase e" "charge e' = 0" "charge e = 0"
    "\<not> detached_entry e'"
    using entry_okD [OF inv e] de by (auto simp: e' entry_ok_def issuing_phase_def charge_def detached_entry_def)
  note C = collect_accounts [OF E e f(1,2)]
  have nle: "unat n \<le> umap_sum unat (eq_in_flight q)" by (rule umap_sum_ge [OF n])
  then have nb: "n \<le> eq_parameter_bytes q" using sum by (simp add: word_le_nat_alt)
  let ?upd = "collect_entry e' (set_entry e' q)"
  have q: "?q = ?upd\<lparr>eq_parameter_bytes := eq_parameter_bytes q - n, eq_in_flight := AList.delete (en_sequence e) (eq_in_flight q)\<rparr>"
    by (simp add: collect_entry_def erase_entry_def set_entry_def)
  have "entries_ok ?q" using entries_ok_collect [OF E e f(1,2)] f(3) unfolding q by (simp add: entries_ok_def)
  moreover have "accounts_ok ?q"
  proof -
    have "fst ` set (AList.delete (en_sequence e) (eq_in_flight q)) = detached_sequences q - {en_sequence e}"
      unfolding fs [symmetric] by (auto simp: AList.delete_eq image_iff)
    moreover have "detached_sequences ?q = detached_sequences ?upd" unfolding q by (simp add: detached_sequences_def)
    moreover have "unat (eq_parameter_bytes q - n) = unat (eq_parameter_bytes q) - unat n" by (rule unat_sub_no_wrap [OF nb])
    moreover have "eq_parameter_bytes q - n \<le> max_parameter_bytes (eq_limits q)"
      using le nb by (simp add: word_le_nat_alt unat_sub)
    ultimately show ?thesis
      using kd C f(4-6) sum nle unfolding q by (simp add: accounts_ok_def umap_sum_delete [OF kd n])
  qed
  ultimately show ?thesis by (simp add: queue_inv_def)
qed

lemma detached_inv:
  assumes inv: "queue_inv q" and e: "e \<in> set (eq_entries q)" and p: "en_payload e = Some p" and r: "en_releasing_payload e"
  shows "queue_inv ((set_entry (e\<lparr>en_payload := None\<rparr>) q)\<lparr>eq_in_flight := (en_sequence e, payload_size p) # eq_in_flight q\<rparr>)"
    (is "queue_inv ?q")
proof -
  note E = queue_invD(1) [OF inv] and A = queue_invD(2) [OF inv]
  let ?e = "e\<lparr>en_payload := None\<rparr>"
  have ok: "entry_ok e" by (rule entry_okD [OF inv e])
  have f: "en_sequence ?e = en_sequence e" "entry_ok ?e" "issuing_phase ?e = issuing_phase e" "charge ?e = 0"
    "charge e = length (pl_parameters p)" "detached_entry ?e" "\<not> detached_entry e"
    using ok p r by (auto simp: entry_ok_def issuing_phase_def charge_def detached_entry_def)
  have c: "collect_entry ?e (set_entry ?e q) = set_entry ?e q" using r by (simp add: collect_entry_def)
  note C = collect_accounts [OF E e f(1,2), unfolded c]
  have new: "en_sequence e \<notin> detached_sequences q"
    using f(7) by (simp add: detached_iff [OF E e])
  have "unat (payload_size p) = length (pl_parameters p)"
    using payload_length [OF inv e p] by (simp add: payload_size_def unsigned_of_nat take_bit_nat_eq_self)
  then have "accounts_ok ?q"
    using A C f(4-6) new by (simp add: accounts_ok_def detached_sequences_def) 
  moreover have "entries_ok ?q"
    using entries_ok_collect [OF E e f(1,2)] f(3) unfolding c by (simp add: entries_ok_def)
  ultimately show ?thesis by (simp add: queue_inv_def)
qed

lemma queue_step_inv: "queue_step A P q q' \<Longrightarrow> queue_inv q \<Longrightarrow> queue_inv q'"
proof (induction rule: queue_step.induct)
  case (accepted q r q' life)
  then show ?case using accepted_inv [of q r life] core_inv by blast
next
  case (moved e q e' q')
  then show ?case using moved_inv [of q e e'] core_inv by blast
next
  case (acknowledged e q e' q')
  show ?case unfolding acknowledged.hyps(5,6) by (rule acknowledged_inv [OF acknowledged.prems acknowledged.hyps(1,2)])
next
  case (detached e q p q')
  show ?case unfolding detached.hyps(4) by (rule detached_inv [OF detached.prems detached.hyps(1-3)])
next
  case (finished e q n e' q')
  show ?case unfolding finished.hyps(4) by (rule finished_inv [OF finished.prems finished.hyps(1-3)])
qed (blast dest: core_inv)

end
