(* ===== verification/SubmissionQueueHistory.thy ===== *)
theory SubmissionQueueHistory
  imports SubmissionQueueProps
begin

text \<open>
  Histories of the submission queue: the steps of its methods in any order and from any thread,
  starting from the queue the constructor makes.
\<close>

section \<open>Following one command\<close>

text \<open>The entry of a sequence number, and the numbers that have already been given away.\<close>

definition entry_at :: "u64 \<Rightarrow> SubmissionQueue \<Rightarrow> Entry option" where
  "entry_at s q = List.find (\<lambda>e. en_sequence e = s) (eq_entries q)"

definition spent :: "u64 \<Rightarrow> SubmissionQueue \<Rightarrow> bool" where
  "spent s q \<longleftrightarrow> \<not> eq_has_sequence_space q \<or> s < eq_next_sequence q"

text \<open>How the entry of a command may differ later on.\<close>

definition later_entry :: "Entry \<Rightarrow> Entry \<Rightarrow> bool" where
  "later_entry e e' \<longleftrightarrow>
     (en_reply e \<noteq> None \<longrightarrow> en_reply e' = en_reply e) \<and>
     (en_acknowledged e \<longrightarrow> en_acknowledged e') \<and>
     (en_physically_stopped e \<longrightarrow> en_physically_stopped e') \<and>
     en_generation e \<le> en_generation e' \<and> en_sequence e' = en_sequence e \<and>
     en_operation e' = en_operation e \<and> en_context e' = en_context e \<and> en_stream e' = en_stream e"

lemma later_refl: "later_entry e e"
  by (simp add: later_entry_def)

lemma later_trans: "later_entry e e' \<Longrightarrow> later_entry e' e'' \<Longrightarrow> later_entry e e''"
  by (auto simp: later_entry_def)

lemma word_le_suc: "(g :: u64) \<noteq> u64_max \<Longrightarrow> g < g + 1"
  by (simp add: word_less_nat_alt unat_Suc_no_wrap)

lemma entry_step_later: "entry_step e e' \<Longrightarrow> entry_ok e \<Longrightarrow> later_entry e e'"
proof (induction rule: entry_step.induct)
  case (resumed e)
  then show ?case using word_le_suc [of "en_generation e"] by (simp add: later_entry_def)
qed (auto simp: later_entry_def entry_ok_def rejected_entry_def)

lemma find_set_entry:
  "List.find (\<lambda>e. en_sequence e = s) (map (\<lambda>e'. if en_sequence e' = en_sequence e then e else e') es) =
   (case List.find (\<lambda>e. en_sequence e = s) es of
      None \<Rightarrow> None | Some e' \<Rightarrow> Some (if s = en_sequence e then e else e'))"
  by (induction es) auto

lemma entry_at_set_entry:
  "entry_at s (set_entry e q) =
   (case entry_at s q of None \<Rightarrow> None | Some e' \<Rightarrow> Some (if s = en_sequence e then e else e'))"
  by (simp add: entry_at_def set_entry_def find_set_entry)

lemma find_erase_entry:
  "List.find (\<lambda>e. en_sequence e = s) (filter (\<lambda>e. en_sequence e \<noteq> t) es) =
   (if s = t then None else List.find (\<lambda>e. en_sequence e = s) es)"
  by (induction es) auto

lemma entry_at_collect:
  "entry_at s (collect_entry e q) =
   (if s = en_sequence e \<and> en_acknowledged e \<and> en_physically_stopped e \<and> \<not> en_releasing_payload e then None
    else entry_at s q)"
  by (simp add: entry_at_def collect_entry_def erase_entry_def find_erase_entry)

lemma find_distinct:
  "distinct (map en_sequence es) \<Longrightarrow> e \<in> set es \<Longrightarrow> List.find (\<lambda>e'. en_sequence e' = en_sequence e) es = Some e"
  by (induction es) (auto simp: image_iff)

lemma entry_at_in: "entry_at s q = Some e \<Longrightarrow> e \<in> set (eq_entries q) \<and> en_sequence e = s"
  unfolding entry_at_def by (rule find_in_entries)

lemma entry_at_self:
  assumes "queue_inv q" and "e \<in> set (eq_entries q)"
  shows "entry_at (en_sequence e) q = Some e"
  unfolding entry_at_def
  by (rule find_distinct [OF entries_distinct [OF queue_invD(1) [OF assms(1)]] assms(2)])

lemma entry_at_core: "core q' = core q \<Longrightarrow> entry_at s q' = entry_at s q"
  using core_fields [of q' q] by (simp add: entry_at_def)

lemma spent_core: "core q' = core q \<Longrightarrow> spent s q' = spent s q"
  using core_fields [of q' q] by (simp add: spent_def)

lemma entry_at_spent:
  assumes "queue_inv q" and "entry_at s q = Some e"
  shows "spent s q"
  using queue_invD(1) [OF assms(1)] entry_at_in [OF assms(2)]
  by (auto simp: entries_ok_def spent_def list_all_iff)

lemma spent_frame [simp]:
  "spent s (set_entry e q) = spent s q" "spent s (collect_entry e q) = spent s q"
  "spent s (q\<lparr>eq_in_flight := f\<rparr>) = spent s q" "spent s (q\<lparr>eq_parameter_bytes := b\<rparr>) = spent s q"
  by (simp_all add: spent_def collect_entry_def erase_entry_def set_entry_def)

lemma entry_at_frame [simp]:
  "entry_at s (q\<lparr>eq_in_flight := f\<rparr>) = entry_at s q" "entry_at s (q\<lparr>eq_parameter_bytes := b\<rparr>) = entry_at s q"
  by (simp_all add: entry_at_def)

text \<open>Accepting appends the entry of a number that was not spent.\<close>

lemma find_append: "List.find P (xs @ ys) = (case List.find P xs of None \<Rightarrow> List.find P ys | Some e \<Rightarrow> Some e)"
  by (induction xs) auto

lemma entry_at_accept:
  "entry_at s (accept_entry n r life q) =
   (case entry_at s q of None \<Rightarrow> if s = n then Some (new_entry n r life) else None | Some e \<Rightarrow> Some e)"
  by (auto simp: entry_at_def accept_entry_def Let_def find_append new_entry_def split: option.split)

lemma spent_accept:
  assumes "spent s q" and "eq_has_sequence_space q"
  shows "spent s (accept_entry (eq_next_sequence q) r life q)"
proof (cases "eq_next_sequence q = u64_max")
  case False
  then have "eq_next_sequence q < eq_next_sequence q + 1" by (rule word_le_suc)
  then show ?thesis using assms False by (auto simp: spent_def accept_entry_def)
qed (simp add: spent_def accept_entry_def)

section \<open>One step\<close>

text \<open>
  What a step that acknowledges commands of \<open>A\<close> and prepares commands of \<open>P\<close> leaves of the
  command with a given number.
\<close>

definition follows :: "bool \<Rightarrow> bool \<Rightarrow> Entry option \<Rightarrow> Entry option \<Rightarrow> bool" where
  "follows acked prepared x y \<longleftrightarrow>
     (case x of
        None \<Rightarrow> y = None
      | Some e \<Rightarrow>
          (case y of
             None \<Rightarrow> acked \<or> en_acknowledged e
           | Some e' \<Rightarrow> later_entry e e' \<and> (en_acknowledged e' \<longrightarrow> acked \<or> en_acknowledged e) \<and>
               (en_phase e' = Phase_kQueued \<longrightarrow> prepared \<or> e' = e)))"

lemma follows_refl: "follows a p x x"
  by (simp add: follows_def later_refl split: option.split)

lemma later_queued: "later_entry e e' \<Longrightarrow> entry_ok e \<Longrightarrow> entry_ok e' \<Longrightarrow> en_phase e' = Phase_kQueued \<Longrightarrow> en_phase e = Phase_kQueued"
  by (auto simp: later_entry_def entry_ok_def)

lemma moved_follows:
  assumes "entry_step e e'" and "entry_ok e" and "en_phase e' = Phase_kQueued \<Longrightarrow> p"
  shows "follows a p (Some e) (Some e')"
  using entry_step_later [OF assms(1,2)] assms entry_step_frame [OF assms(1)]
  by (auto simp: follows_def)

lemma queue_step_follows:
  assumes "queue_step A P q q'" and "queue_inv q" and "spent s q"
  shows "spent s q' \<and> follows (s \<in> A) (s \<in> P) (entry_at s q) (entry_at s q')"
  using assms
proof (induction rule: queue_step.induct)
  case (idle q' q)
  then show ?case using spent_core [OF idle.hyps] entry_at_core [OF idle.hyps] by (simp add: follows_refl)
next
  case (accepted q r q' life)
  note c = accepted.hyps(7)
  have n: "s \<noteq> eq_next_sequence q" using accepted by (auto simp: spent_def)
  have e: "entry_at s q' = entry_at s q"
    using entry_at_core [OF c] n by (simp add: entry_at_accept split: option.split)
  have "spent s q'" unfolding spent_core [OF c] by (rule spent_accept [OF accepted.prems(2) accepted.hyps(1)])
  then show ?case by (simp add: e follows_refl)
next
  case (moved e q e' q')
  note c = moved.hyps(5)
  have ok: "entry_ok e" and at: "entry_at (en_sequence e) q = Some e"
    using entry_okD [OF moved.prems(1) moved.hyps(1)] entry_at_self [OF moved.prems(1) moved.hyps(1)] .
  have seq: "en_sequence e' = en_sequence e" using entry_step_later [OF moved.hyps(2) ok] by (simp add: later_entry_def)
  have "follows (s \<in> A) (s \<in> P) (entry_at s q) (entry_at s (set_entry e' q))"
  proof (cases "s = en_sequence e")
    case True
    then show ?thesis using moved_follows [OF moved.hyps(2) ok moved.hyps(4)] at seq by (simp add: entry_at_set_entry)
  next
    case False
    then show ?thesis using seq by (simp add: entry_at_set_entry follows_refl split: option.split)
  qed
  then show ?case using spent_core [OF c] entry_at_core [OF c] moved.prems(2) by simp
next
  case (acknowledged e q e' q')
  have at: "entry_at (en_sequence e) q = Some e" by (rule entry_at_self [OF acknowledged.prems(1) acknowledged.hyps(1)])
  have "follows (s \<in> A) (s \<in> P) (entry_at s q) (entry_at s q')"
  proof (cases "s = en_sequence e")
    case True
    have "en_phase e \<noteq> Phase_kQueued"
      using entry_okD [OF acknowledged.prems(1) acknowledged.hyps(1)] acknowledged.hyps(2) by (auto simp: entry_ok_def)
    with True show ?thesis using acknowledged.hyps at
      by (auto simp: entry_at_set_entry entry_at_collect follows_def later_entry_def)
  next
    case False
    then show ?thesis using acknowledged.hyps(5,6)
      by (simp add: entry_at_set_entry entry_at_collect follows_refl split: option.split)
  qed
  then show ?case using acknowledged.prems(2) acknowledged.hyps(6) by simp
next
  case (detached e q p q')
  have at: "entry_at (en_sequence e) q = Some e" by (rule entry_at_self [OF detached.prems(1) detached.hyps(1)])
  have "en_phase e \<noteq> Phase_kQueued"
    using entry_okD [OF detached.prems(1) detached.hyps(1)] detached.hyps(3) by (auto simp: entry_ok_def)
  then have "follows (s \<in> A) (s \<in> P) (entry_at s q) (entry_at s q')"
    using detached.hyps(4) at
    by (cases "s = en_sequence e") (simp_all add: entry_at_set_entry follows_def later_entry_def split: option.split)
  then show ?case using detached.prems(2) detached.hyps(4) by simp
next
  case (finished e q n e' q')
  have at: "entry_at (en_sequence e) q = Some e" by (rule entry_at_self [OF finished.prems(1) finished.hyps(1)])
  have fl: "en_sequence e \<in> detached_sequences q"
    using queue_invD(2) [OF finished.prems(1)] map_of_SomeD [OF finished.hyps(2)] by (force simp: accounts_ok_def)
  have "en_phase e \<noteq> Phase_kQueued"
    using entry_okD [OF finished.prems(1) finished.hyps(1)] fl
      detached_iff [OF queue_invD(1) [OF finished.prems(1)] finished.hyps(1)]
    by (auto simp: entry_ok_def detached_entry_def)
  then have "follows (s \<in> A) (s \<in> P) (entry_at s q) (entry_at s q')"
    using finished.hyps(3,4) at
    by (cases "s = en_sequence e")
      (simp_all add: entry_at_set_entry entry_at_collect follows_def later_entry_def split: option.split)
  then show ?case using finished.prems(2) finished.hyps(4) by simp
qed

section \<open>Histories\<close>

lemma start_inv: "Implementation_new pid ident session limits = Some q \<Longrightarrow> queue_inv q"
  by (auto simp: Implementation_new_def queue_inv_def entries_ok_def accounts_ok_def detached_sequences_def split: if_splits)

lemma run_inv: "queue_inv q \<Longrightarrow> queue_inv (run_queue op q)"
  by (rule queue_step_inv [OF run_queue_step])

lemma queue_history_inv: "queue_inv q \<Longrightarrow> queue_inv (fold run_queue ops q)"
  by (induction ops arbitrary: q) (simp_all add: run_inv)

lemma start_history_inv: "Implementation_new pid ident session limits = Some q \<Longrightarrow> queue_inv (fold run_queue ops q)"
  by (rule queue_history_inv [OF start_inv])

lemma run_follows:
  assumes "queue_inv q" and "spent s q"
  shows "spent s (run_queue op q) \<and>
    follows (s \<in> acknowledges op) (s \<in> prepares op) (entry_at s q) (entry_at s (run_queue op q))"
  by (rule queue_step_follows [OF run_queue_step [OF assms(1)] assms])

lemma follows_trans:
  assumes "follows a p x y" and "follows a' p' y z"
  shows "follows (a \<or> a') (p \<or> p') x z"
  using assms by (auto simp: follows_def dest: later_trans split: option.splits)

lemma history_follows:
  assumes "queue_inv q" and "spent s q"
  shows "spent s (fold run_queue ops q) \<and>
    follows (s \<in> \<Union>(acknowledges ` set ops)) (s \<in> \<Union>(prepares ` set ops)) (entry_at s q) (entry_at s (fold run_queue ops q))"
  using assms
proof (induction ops arbitrary: q)
  case Nil
  then show ?case by (simp add: follows_refl)
next
  case (Cons op ops)
  note F = run_follows [OF Cons.prems, of op]
  have "follows (s \<in> acknowledges op \<or> s \<in> \<Union>(acknowledges ` set ops)) (s \<in> prepares op \<or> s \<in> \<Union>(prepares ` set ops))
      (entry_at s q) (entry_at s (fold run_queue ops (run_queue op q)))"
    using follows_trans F Cons.IH [OF run_inv [OF Cons.prems(1)]] by blast
  then show ?case using F Cons.IH [OF run_inv [OF Cons.prems(1)]] by simp
qed

lemma core_owner: "core q' = core q \<Longrightarrow> eq_identity q' = eq_identity q \<and> eq_process_id q' = eq_process_id q"
  by (cases q; cases q'; simp add: core_def)

lemma step_owner: "queue_step A P q q' \<Longrightarrow> eq_identity q' = eq_identity q \<and> eq_process_id q' = eq_process_id q"
  by (induction rule: queue_step.induct)
    (auto dest!: core_owner simp: accept_entry_def Let_def set_entry_def collect_entry_def erase_entry_def split: if_splits)

lemma history_owner:
  "queue_inv q \<Longrightarrow>
   eq_identity (fold run_queue ops q) = eq_identity q \<and> eq_process_id (fold run_queue ops q) = eq_process_id q"
  by (induction ops arbitrary: q) (simp_all add: run_inv step_owner [OF run_queue_step])

section \<open>Replies\<close>

lemma host_result_entry:
  "host_result c r q = Some rep \<longleftrightarrow>
   is_same_process c q \<and> rc_owner r = Some (eq_identity q) \<and> rc_sequence r \<noteq> 0 \<and>
   (\<exists>e. entry_at (rc_sequence r) q = Some e \<and> \<not> en_acknowledged e \<and> en_reply e = Some rep)"
  by (auto simp: host_result_def find_receipt_def find_entry_def entry_at_def split: option.split)

lemma acknowledge_entry:
  assumes "queue_inv q" and "host_result c r q = Some rep"
  shows "fst (acknowledge_result c r q)"
    and "entry_at (rc_sequence r) (snd (acknowledge_result c r q)) = Some e \<Longrightarrow> en_acknowledged e"
proof -
  obtain x where x: "entry_at (rc_sequence r) q = Some x" "\<not> en_acknowledged x" "en_reply x = Some rep"
    and own: "rc_owner r = Some (eq_identity q)" "rc_sequence r \<noteq> 0" "is_same_process c q"
    using assms(2) by (auto simp: host_result_entry)
  have find: "find_receipt r q = Some x"
    using x(1) own by (simp add: find_receipt_def find_entry_def entry_at_def)
  have seq: "en_sequence x = rc_sequence r" using entry_at_in [OF x(1)] by simp
  show "fst (acknowledge_result c r q)" using find x own by (simp add: acknowledge_result_def Let_def)
  show "entry_at (rc_sequence r) (snd (acknowledge_result c r q)) = Some e \<Longrightarrow> en_acknowledged e"
    using find x own seq
    by (auto simp: acknowledge_result_def Let_def entry_at_collect entry_at_set_entry split: if_splits)
qed

lemma acknowledged_hidden:
  assumes "queue_inv q" and "spent (rc_sequence r) q"
    and "\<And>e. entry_at (rc_sequence r) q = Some e \<Longrightarrow> en_acknowledged e"
  shows "host_result c r (fold run_queue ops q) = None"
proof (rule ccontr)
  assume "host_result c r (fold run_queue ops q) \<noteq> None"
  then obtain rep where "host_result c r (fold run_queue ops q) = Some rep" by blast
  then show False
    using history_follows [OF assms(1,2), of ops] assms(3)
    by (auto simp: host_result_entry follows_def later_entry_def split: option.splits)
qed

text \<open>
  C25. One reply per command. Once the host result of a command can be read in some history of the queue,
  then whatever all threads do next: as long as nobody acknowledges it, the same reply is read; at
  no time is a different reply read; acknowledging it succeeds, and after that no reply of the
  command is read ever again.
\<close>

theorem one_reply_per_command:
  assumes start: "Implementation_new pid ident session limits = Some start"
    and q: "q = fold run_queue before start"
    and reply: "host_result c r q = Some rep"
  shows "(host_result c r (fold run_queue after q) = None \<or> host_result c r (fold run_queue after q) = Some rep) \<and>
    (rc_sequence r \<notin> \<Union>(acknowledges ` set after) \<longrightarrow> host_result c r (fold run_queue after q) = Some rep) \<and>
    fst (acknowledge_result c r q) \<and>
    host_result c' r (fold run_queue after (snd (acknowledge_result c r q))) = None"
proof -
  have inv: "queue_inv q" unfolding q by (rule start_history_inv [OF start])
  obtain e where e: "entry_at (rc_sequence r) q = Some e" "\<not> en_acknowledged e" "en_reply e = Some rep"
    and own: "rc_owner r = Some (eq_identity q)" "rc_sequence r \<noteq> 0" "is_same_process c q"
    using reply by (auto simp: host_result_entry)
  note sp = entry_at_spent [OF inv e(1)]
  note F = history_follows [OF inv sp, of after] and O = history_owner [OF inv, of after]
  have same: "host_result c r (fold run_queue after q) = None \<or> host_result c r (fold run_queue after q) = Some rep"
    using F e by (cases "host_result c r (fold run_queue after q)")
      (auto simp: host_result_entry follows_def later_entry_def split: option.splits)
  have kept: "host_result c r (fold run_queue after q) = Some rep" if "rc_sequence r \<notin> \<Union>(acknowledges ` set after)"
    using F that e own O
    by (auto simp: host_result_entry follows_def later_entry_def is_same_process_def split: option.splits)
  have run: "snd (acknowledge_result c r q) = run_queue (Q_acknowledge c r) q" by simp
  have "host_result c' r (fold run_queue after (snd (acknowledge_result c r q))) = None"
  proof (rule acknowledged_hidden)
    show "queue_inv (snd (acknowledge_result c r q))" unfolding run by (rule run_inv [OF inv])
    show "spent (rc_sequence r) (snd (acknowledge_result c r q))"
      unfolding run using run_follows [OF inv sp] by blast
  qed (rule acknowledge_entry(2) [OF inv reply])
  then show ?thesis using same kept acknowledge_entry(1) [OF inv reply] by blast
qed

section \<open>Issue tokens\<close>

text \<open>The issue that an operation hands to the executor, and those of a history.\<close>

fun issued :: "queue_op \<Rightarrow> SubmissionQueue \<Rightarrow> ExecutionIssue option" where
  "issued (Q_take c r) q = fst (take_next_impl c r q)"
| "issued (Q_resume c t) q = fst (resume_after_physical_stop c t q)"
| "issued _ q = None"

fun issues :: "queue_op list \<Rightarrow> SubmissionQueue \<Rightarrow> ExecutionIssue list" where
  "issues [] q = []"
| "issues (op # ops) q =
     (case issued op q of None \<Rightarrow> [] | Some i \<Rightarrow> [i]) @ issues ops (run_queue op q)"

definition token_used :: "ExecutionIssueToken \<Rightarrow> SubmissionQueue \<Rightarrow> bool" where
  "token_used t q \<longleftrightarrow> spent (tk_sequence t) q \<and>
     (case entry_at (tk_sequence t) q of None \<Rightarrow> True | Some e \<Rightarrow> tk_generation t \<le> en_generation e)"

lemma token_used_later:
  assumes "queue_inv q" and "token_used t q"
  shows "token_used t (run_queue op q)"
  using run_follows [OF assms(1), of "tk_sequence t" op] assms(2)
  by (auto simp: token_used_def follows_def later_entry_def split: option.splits)

lemma take_next_cases:
  assumes "queue_inv q" and "take_next_impl c x q = (Some i, q')"
  obtains e where "e \<in> set (eq_entries q)" "entry_at (en_sequence e) q = Some e" "en_phase e = Phase_kQueued"
    "i = issue_of (e\<lparr>en_phase := Phase_kIssuing, en_generation := 1\<rparr>) q"
    "q' = set_entry (e\<lparr>en_phase := Phase_kIssuing, en_generation := 1\<rparr>) q"
proof -
  from assms(2) obtain P e where f: "List.find P (eq_entries q) = Some e" and P: "\<And>e. P e \<Longrightarrow> en_phase e = Phase_kQueued"
    and i: "i = issue_of (e\<lparr>en_phase := Phase_kIssuing, en_generation := 1\<rparr>) q"
    and q': "q' = set_entry (e\<lparr>en_phase := Phase_kIssuing, en_generation := 1\<rparr>) q"
    by (auto simp: take_next_impl_def Let_def split: if_splits option.splits)
  have e: "e \<in> set (eq_entries q)" using find_in_entries [OF f] by simp
  show thesis
    using that [OF e entry_at_self [OF assms(1) e] _ i q'] find_in_entries [OF f] P by blast
qed

lemma resume_cases:
  assumes "queue_inv q" and "resume_after_physical_stop c t q = (Some i, q')"
  obtains e where "e \<in> set (eq_entries q)" "entry_at (en_sequence e) q = Some e" "en_phase e = Phase_kPaused"
    "en_generation e \<noteq> u64_max"
    "i = issue_of (e\<lparr>en_generation := en_generation e + 1, en_phase := Phase_kResuming\<rparr>) q"
    "q' = set_entry (e\<lparr>en_generation := en_generation e + 1, en_phase := Phase_kResuming\<rparr>) q"
proof -
  from assms(2) obtain e where f: "find_issue t q = Some e" and e: "en_phase e = Phase_kPaused" "en_generation e \<noteq> u64_max"
    "i = issue_of (e\<lparr>en_generation := en_generation e + 1, en_phase := Phase_kResuming\<rparr>) q"
    "q' = set_entry (e\<lparr>en_generation := en_generation e + 1, en_phase := Phase_kResuming\<rparr>) q"
    by (auto simp: resume_after_physical_stop_def Let_def split: if_splits option.splits)
  show thesis
    using that entry_at_self [OF assms(1)] find_issue_in [OF f] e by blast
qed

lemma reissued_entry:
  assumes "queue_inv q" and "entry_at (en_sequence e) q = Some e" and "en_sequence e' = en_sequence e"
    and "en_generation e < en_generation e'"
  shows "\<not> token_used (is_token (issue_of e' q)) q" "token_used (is_token (issue_of e' q)) (set_entry e' q)"
  using assms entry_at_spent [OF assms(1,2)] by (auto simp: token_used_def issue_of_def entry_at_set_entry)

lemma issued_fresh:
  assumes inv: "queue_inv q" and i: "issued op q = Some i"
  shows "\<not> token_used (is_token i) q" "token_used (is_token i) (run_queue op q)"
proof -
  have "\<not> token_used (is_token i) q \<and> token_used (is_token i) (run_queue op q)"
  proof (cases op)
    case (Q_take c x)
    obtain q' where t: "take_next_impl c x q = (Some i, q')" using i Q_take by (cases "take_next_impl c x q") simp
    from take_next_cases [OF inv t] obtain e where e: "e \<in> set (eq_entries q)" "entry_at (en_sequence e) q = Some e"
      "en_phase e = Phase_kQueued" "i = issue_of (e\<lparr>en_phase := Phase_kIssuing, en_generation := 1\<rparr>) q"
      "q' = set_entry (e\<lparr>en_phase := Phase_kIssuing, en_generation := 1\<rparr>) q" by metis
    have "en_generation e = 0" using entry_okD [OF inv e(1)] e(3) by (simp add: entry_ok_def)
    then show ?thesis
      using reissued_entry [OF inv e(2), of "e\<lparr>en_phase := Phase_kIssuing, en_generation := 1\<rparr>"] e(4,5) t Q_take by simp
  next
    case (Q_resume c t)
    obtain q' where r: "resume_after_physical_stop c t q = (Some i, q')"
      using i Q_resume by (cases "resume_after_physical_stop c t q") simp
    from resume_cases [OF inv r] obtain e where e: "e \<in> set (eq_entries q)" "entry_at (en_sequence e) q = Some e"
      "en_generation e \<noteq> u64_max" "i = issue_of (e\<lparr>en_generation := en_generation e + 1, en_phase := Phase_kResuming\<rparr>) q"
      "q' = set_entry (e\<lparr>en_generation := en_generation e + 1, en_phase := Phase_kResuming\<rparr>) q" by metis
    then show ?thesis
      using reissued_entry [OF inv e(2), of "e\<lparr>en_generation := en_generation e + 1, en_phase := Phase_kResuming\<rparr>"]
        word_le_suc [OF e(3)] r Q_resume by simp
  qed (use i in simp_all)
  then show "\<not> token_used (is_token i) q" "token_used (is_token i) (run_queue op q)" by simp_all
qed

lemma issues_fresh:
  assumes "queue_inv q"
  shows "distinct (map is_token (issues ops q)) \<and> (\<forall>i\<in>set (issues ops q). \<not> token_used (is_token i) q)"
  using assms
proof (induction ops arbitrary: q)
  case (Cons op ops)
  note IH = Cons.IH [OF run_inv [OF Cons.prems, of op]]
  have later: "\<not> token_used (is_token i) q" if "i \<in> set (issues ops (run_queue op q))" for i
    using IH that token_used_later [OF Cons.prems] by blast
  show ?case
  proof (cases "issued op q")
    case None
    then show ?thesis using IH later by simp
  next
    case (Some i)
    have "is_token i \<notin> is_token ` set (issues ops (run_queue op q))"
      using IH issued_fresh(2) [OF Cons.prems Some] by auto
    then show ?thesis using Some IH later issued_fresh(1) [OF Cons.prems Some] by simp
  qed
qed simp

text \<open>
  C26. No issue token is handed out twice. In every history of the queue, over first issues and resumptions of
  all commands, the tokens given to executors are pairwise distinct, so a token that was consumed
  can never name a later issue.
\<close>

theorem issue_tokens_never_reused:
  assumes "Implementation_new pid ident session limits = Some q"
  shows "distinct (map is_token (issues ops q))"
  using issues_fresh [OF start_inv [OF assms]] by blast

section \<open>Retained inputs\<close>

lemma step_limits: "queue_step A P q q' \<Longrightarrow> eq_limits q' = eq_limits q"
  by (induction rule: queue_step.induct)
    (auto dest!: core_fields(2) simp: accept_entry_def Let_def set_entry_def collect_entry_def erase_entry_def split: if_splits)

lemma history_limits: "queue_inv q \<Longrightarrow> eq_limits (fold run_queue ops q) = eq_limits q"
  by (induction ops arbitrary: q) (simp_all add: run_inv step_limits [OF run_queue_step])

text \<open>
  C24. Exact retention. In every history of the queue, with the critical sections of retiring commands
  interleaved with all other calls, the byte counter is the sum of the payloads still held by
  commands and of the payloads being destroyed, and it stays within its limit, as does the number
  of commands; the commands are in the order of their numbers, at most one is being issued, and a
  command whose work has not physically stopped still holds its inputs.
\<close>

theorem queue_retention:
  assumes start: "Implementation_new pid ident session limits = Some start" and q: "q = fold run_queue ops start"
  shows "unat (eq_parameter_bytes q) = sum_list (map charge (eq_entries q)) + umap_sum unat (eq_in_flight q) \<and>
    eq_parameter_bytes q \<le> max_parameter_bytes limits \<and>
    length (eq_entries q) \<le> unat (max_commands limits) \<and>
    sorted_wrt (<) (map en_sequence (eq_entries q)) \<and>
    length (filter issuing_phase (eq_entries q)) \<le> 1 \<and>
    (\<forall>e\<in>set (eq_entries q). en_physically_stopped e \<or> en_payload e \<noteq> None)"
proof -
  have inv: "queue_inv q" unfolding q by (rule start_history_inv [OF start])
  have "eq_limits start = limits" using start by (auto simp: Implementation_new_def split: if_splits)
  then have l: "eq_limits q = limits" unfolding q using history_limits [OF start_inv [OF start]] by simp
  have "en_physically_stopped e \<or> en_payload e \<noteq> None" if "e \<in> set (eq_entries q)" for e
    using entry_okD [OF inv that] by (auto simp: entry_ok_def split: option.splits)
  then show ?thesis
    using queue_invD [OF inv] l by (simp add: entries_ok_def accounts_ok_def)
qed

section \<open>From acceptance to issue\<close>

lemma resized_prefix: "length bs \<le> n \<Longrightarrow> take (length bs) (resized n bs) = bs"
  by (simp add: resized_def)

lemma accepted_entry:
  assumes inv: "queue_inv q" and acc: "ea_status (fst (queue_accept c s r q)) = Accept_kAccepted"
  shows "entry_at s (snd (queue_accept c s r q)) = Some (new_entry s r (the (er_lifetime r)))"
    and "span_size (er_parameters r) \<le> request_capacity r"
    and "spent s (snd (queue_accept c s r q))"
proof -
  let ?q = "if eq_has_bound_executor q \<and> executor_expired c q then q\<lparr>eq_quarantined := True, eq_closing := True\<rparr> else q"
  from acc have g: "s = eq_next_sequence q" "eq_has_sequence_space q" "\<not> request_capacity r < span_size (er_parameters r)"
    and post: "snd (queue_accept c s r q) = accept_entry s r (the (er_lifetime r)) ?q"
    by (auto simp: queue_accept_def Let_def not_accepted_def split: if_splits)
  have "entry_at s q = None"
  proof (rule ccontr)
    assume "entry_at s q \<noteq> None"
    then obtain e where "entry_at s q = Some e" by blast
    then show False using entry_at_spent [OF inv] g(1,2) by (auto simp: spent_def)
  qed
  then have "entry_at s ?q = None" by (simp add: entry_at_def)
  then show e: "entry_at s (snd (queue_accept c s r q)) = Some (new_entry s r (the (er_lifetime r)))"
    unfolding post entry_at_accept by simp
  show "span_size (er_parameters r) \<le> request_capacity r" using g(3) by simp
  have "queue_inv (run_queue (Q_accept c s r) q)" by (rule run_inv [OF inv])
  then show "spent s (snd (queue_accept c s r q))" using entry_at_spent e by simp
qed

text \<open>
  What is issued is what was accepted. Once a request is accepted under a number, and unless the executor
  itself prepares the parameters of that command, the first issue of the command, after any
  interleaving of other calls, carries exactly the operation, context, stream and parameter bytes
  of the request.
\<close>

theorem issued_as_accepted:
  assumes start: "Implementation_new pid ident session limits = Some start" and q: "q = fold run_queue before start"
    and acc: "ea_status (fst (queue_accept c s r q)) = Accept_kAccepted"
    and small: "length (span_bytes (er_parameters r)) < 2 ^ 64"
    and un: "s \<notin> \<Union>(prepares ` set after)"
    and take: "take_next_impl c' x (fold run_queue after (snd (queue_accept c s r q))) = (Some i, q')"
    and seq: "rc_sequence (is_receipt i) = s"
  shows "is_operation i = er_operation r \<and> is_context i = er_context r \<and> is_stream i = er_stream r \<and>
    is_parameters i = span_bytes (er_parameters r)"
proof -
  have inv: "queue_inv q" unfolding q by (rule start_history_inv [OF start])
  let ?a = "snd (queue_accept c s r q)"
  have inva: "queue_inv ?a" using run_inv [OF inv, of "Q_accept c s r"] by simp
  note A = accepted_entry [OF inv acc]
  note F = history_follows [OF inva A(3), of after]
  from take_next_cases [OF queue_history_inv [OF inva] take] obtain e where
    e: "entry_at (en_sequence e) (fold run_queue after ?a) = Some e" "en_phase e = Phase_kQueued"
      "i = issue_of (e\<lparr>en_phase := Phase_kIssuing, en_generation := 1\<rparr>) (fold run_queue after ?a)" by metis
  have s: "en_sequence e = s" using seq e(3) by (simp add: issue_of_def)
  have eq: "e = new_entry s r (the (er_lifetime r))"
    using F un e(1,2) A(1) s by (auto simp: follows_def)
  have len: "unat (span_size (er_parameters r)) = length (span_bytes (er_parameters r))"
    using small by (simp add: span_size_def unsigned_of_nat take_bit_nat_eq_self)
  have "length (span_bytes (er_parameters r)) \<le> unat (request_capacity r)"
    using A(2) len by (simp add: word_le_nat_alt)
  then show ?thesis
    unfolding e(3) eq by (simp add: issue_of_def new_entry_def len resized_prefix)
qed

section \<open>A concrete history\<close>

text \<open>A queue for four commands and sixteen bytes, its executor, and two requests.\<close>

definition demo_session :: ExecutionSessionIdentity where
  "demo_session = \<lparr>client_id = 5, server_incarnation = 6, first_sequence = 10\<rparr>"

definition demo_limits :: ExecutionSubmissionLimits where
  "demo_limits = \<lparr>max_commands = 4, max_parameter_bytes = 16, max_retained_host_bytes = 16\<rparr>"

definition demo_ctx :: queue_ctx where
  "demo_ctx = \<lparr>qc_process = 7, qc_lifetime = Some 1, qc_executor_alive = True, qc_fresh = Some 1, qc_alloc_fails = False\<rparr>"

definition demo_request :: "byte list \<Rightarrow> ExecutionRequest" where
  "demo_request bs = \<lparr>er_operation = 1, er_context = 2, er_stream = 3,
     er_parameters = \<lparr>span_bytes = bs, span_null = False\<rparr>, er_lifetime = Some 9, er_parameter_capacity_bytes = 4\<rparr>"

definition demo_receipt :: "u64 \<Rightarrow> ExecutionReceipt" where
  "demo_receipt s = \<lparr>rc_owner = Some 3, rc_sequence = s\<rparr>"

definition demo_token :: "u64 \<Rightarrow> u64 \<Rightarrow> ExecutionIssueToken" where
  "demo_token s g = \<lparr>tk_owner = Some 3, tk_sequence = s, tk_generation = g\<rparr>"

definition demo_start :: SubmissionQueue where
  "demo_start = the (Implementation_new 7 3 demo_session demo_limits)"

lemma demo_started: "Implementation_new 7 3 demo_session demo_limits = Some demo_start"
  by (simp add: demo_start_def Implementation_new_def demo_session_def demo_limits_def)

text \<open>
  Two commands are accepted; the first is issued, returns, pauses, resumes, and is being retired
  while the second is issued.
\<close>

definition demo_ops :: "queue_op list" where
  "demo_ops =
     [Q_bind demo_ctx, Q_accept demo_ctx 10 (demo_request [1, 2]), Q_accept demo_ctx 11 (demo_request [3]),
      Q_take demo_ctx None, Q_publish demo_ctx (demo_token 10 1) 0, Q_pause demo_ctx (demo_token 10 1),
      Q_resume demo_ctx (demo_token 10 1), Q_continue demo_ctx (demo_token 10 2),
      Q_mark_complete demo_ctx (demo_token 10 2), Q_detach 10, Q_take demo_ctx None]"

theorem one_reply_per_command_witness:
  "host_result demo_ctx (demo_receipt 10) (fold run_queue demo_ops demo_start) =
     Some \<lparr>hr_status = 0, hr_origin = Origin_kNativeSdk\<rparr> \<and>
   host_result demo_ctx (demo_receipt 10) (fold run_queue [Q_finish 10] (fold run_queue demo_ops demo_start)) =
     Some \<lparr>hr_status = 0, hr_origin = Origin_kNativeSdk\<rparr>"
proof -
  have r: "host_result demo_ctx (demo_receipt 10) (fold run_queue demo_ops demo_start) =
     Some \<lparr>hr_status = 0, hr_origin = Origin_kNativeSdk\<rparr>" by code_simp
  show ?thesis
    using one_reply_per_command [OF demo_started refl r, of "[Q_finish 10]"] r by (simp add: demo_receipt_def)
qed

theorem issue_tokens_never_reused_witness:
  "map is_token (issues demo_ops demo_start) = [demo_token 10 1, demo_token 10 2, demo_token 11 1] \<and>
   distinct (map is_token (issues demo_ops demo_start))"
proof -
  have "map is_token (issues demo_ops demo_start) = [demo_token 10 1, demo_token 10 2, demo_token 11 1]" by code_simp
  then show ?thesis using issue_tokens_never_reused [OF demo_started] by blast
qed

theorem queue_retention_witness:
  "eq_parameter_bytes (fold run_queue demo_ops demo_start) = 8 \<and>
   eq_in_flight (fold run_queue demo_ops demo_start) = [(10, 4)] \<and>
   sum_list (map charge (eq_entries (fold run_queue demo_ops demo_start))) + 4 = 8"
proof -
  have b: "eq_parameter_bytes (fold run_queue demo_ops demo_start) = 8"
    "eq_in_flight (fold run_queue demo_ops demo_start) = [(10, 4)]" by code_simp+
  then show ?thesis
    using queue_retention [OF demo_started refl, of demo_ops] by (simp add: umap_sum_def)
qed

theorem issued_as_accepted_witness:
  "is_parameters (the (fst (take_next_impl demo_ctx None (fold run_queue [Q_close demo_ctx]
     (snd (queue_accept demo_ctx 10 (demo_request [1, 2]) (fold run_queue [Q_bind demo_ctx] demo_start))))))) = [1, 2]"
proof -
  let ?q = "fold run_queue [Q_bind demo_ctx] demo_start"
  let ?t = "take_next_impl demo_ctx None (fold run_queue [Q_close demo_ctx]
     (snd (queue_accept demo_ctx 10 (demo_request [1, 2]) ?q)))"
  have a: "ea_status (fst (queue_accept demo_ctx 10 (demo_request [1, 2]) ?q)) = Accept_kAccepted" by code_simp
  have f: "fst ?t \<noteq> None" "rc_sequence (is_receipt (the (fst ?t))) = 10" by code_simp+
  have t: "?t = (Some (the (fst ?t)), snd ?t)" using f(1) by (cases ?t) simp
  show ?thesis
    using issued_as_accepted [OF demo_started refl a _ _ t f(2)] by (simp add: demo_request_def)
qed

end
