(* ===== verification/AllocationRegistry.thy ===== *)
theory AllocationRegistry
  imports Prelude
begin

text \<open>
  The registry of intercepted device allocations,
  \<^verbatim>\<open>src/src/interceptor/internal/allocation_registry.cc\<close>. The two hash maps are association lists, in
  whatever order the maps iterate. A method runs under the mutex; a caller is described by the
  process it runs in and by which of its fallible steps fail: locking the mutex, allocating a map
  node, growing a vector that already has a number of elements, and allocating a fresh mutex after
  a fork.
\<close>

section \<open>Data\<close>

type_synonym CUdeviceptr = u64
type_synonym CUcontext = u64
type_synonym CUstream = u64
type_synonym CUdevice = int
type_synonym CUmemGenericAllocationHandle = u64

record AllocationIdentity =
  ai_device_pointer :: CUdeviceptr
  ai_context :: CUcontext
  ai_device :: CUdevice

record VmmAllocationIdentity =
  vi_handle :: CUmemGenericAllocationHandle
  vi_device :: CUdevice

datatype AllocationScope = Scope_kContextBound | Scope_kContextIndependent

record AsyncStreamIdentity =
  as_stream :: CUstream
  as_context :: CUcontext
  as_per_thread_default_stream :: bool
  as_thread_id :: nat

definition no_stream :: AsyncStreamIdentity where
  "no_stream = \<lparr>as_stream = 0, as_context = 0, as_per_thread_default_stream = False, as_thread_id = 0\<rparr>"

datatype ReleaseStatus = Release_kUnknown | Release_kInProgress | Release_kStarted

record ReleaseTicket =
  rt_identity :: AllocationIdentity
  rt_memory_bytes :: MemoryBytes
  rt_stream :: AsyncStreamIdentity

record VmmReleaseTicket =
  vt_identity :: VmmAllocationIdentity
  vt_memory_bytes :: MemoryBytes
  vt_is_last_reference :: bool

record DeviceReleaseSummary =
  ds_device :: CUdevice
  ds_memory_bytes :: MemoryBytes

record AllocationRecord =
  al_memory_bytes :: MemoryBytes
  al_scope :: AllocationScope
  al_is_releasing :: bool
  al_is_async_release :: bool
  al_is_async_release_submitted :: bool
  al_is_async_release_stream_detached :: bool
  al_pending_stream :: AsyncStreamIdentity

record VmmAllocationRecord =
  vr_memory_bytes :: MemoryBytes
  vr_device :: CUdevice
  vr_reference_count :: size_t
  vr_is_releasing :: bool

record AllocationRegistry =
  ar_has_mutex :: bool
  ar_records :: "(AllocationIdentity \<times> AllocationRecord) list"
  ar_vmm_records :: "(CUmemGenericAllocationHandle \<times> VmmAllocationRecord) list"
  ar_is_accounting_degraded :: bool
  ar_process_id :: int

record registry_env =
  re_process :: int
  re_lock_fails :: bool
  re_node_fails :: bool
  re_push_fails :: "nat \<Rightarrow> bool"
  re_mutex_fails :: bool

definition same_async_stream :: "AsyncStreamIdentity \<Rightarrow> AsyncStreamIdentity \<Rightarrow> bool" where
  "same_async_stream left right \<longleftrightarrow>
     (if as_stream left \<noteq> as_stream right \<or> as_context left \<noteq> as_context right then False
      else if as_stream left \<noteq> 0 then True
      else if as_per_thread_default_stream left \<noteq> as_per_thread_default_stream right then False
      else \<not> as_per_thread_default_stream left \<or> as_thread_id left = as_thread_id right)"

section \<open>Construction, fork and the mutex\<close>

definition AllocationRegistry_new :: "registry_env \<Rightarrow> AllocationRegistry" where
  "AllocationRegistry_new env =
     \<lparr>ar_has_mutex = True, ar_records = [], ar_vmm_records = [], ar_is_accounting_degraded = False,
      ar_process_id = re_process env\<rparr>"

definition reset_after_fork_if_needed :: "registry_env \<Rightarrow> AllocationRegistry \<Rightarrow> AllocationRegistry" where
  "reset_after_fork_if_needed env r =
     (if ar_process_id r = re_process env then r
      else
        let r1 = (if ar_has_mutex r then r else r\<lparr>ar_is_accounting_degraded := True\<rparr>)
        in if re_mutex_fails env then r1\<lparr>ar_has_mutex := False, ar_is_accounting_degraded := True\<rparr>
           else r1\<lparr>ar_has_mutex := True, ar_records := [], ar_vmm_records := [],
                   ar_is_accounting_degraded := False, ar_process_id := re_process env\<rparr>)"

definition is_accounting_degraded :: "AllocationRegistry \<Rightarrow> bool" where
  "is_accounting_degraded r = ar_is_accounting_degraded r"

definition mark_accounting_degraded :: "AllocationRegistry \<Rightarrow> AllocationRegistry" where
  "mark_accounting_degraded r = r\<lparr>ar_is_accounting_degraded := True\<rparr>"

text \<open>The frame of every method: take the mutex, run the body, or report the failure.\<close>

definition with_lock ::
  "registry_env \<Rightarrow> 'a \<Rightarrow> (AllocationRegistry \<Rightarrow> 'a \<times> AllocationRegistry) \<Rightarrow> AllocationRegistry \<Rightarrow> 'a \<times> AllocationRegistry" where
  "with_lock env failed body r =
     (let r' = reset_after_fork_if_needed env r
      in if re_lock_fails env then (failed, mark_accounting_degraded r') else body r')"

definition set_record :: "AllocationIdentity \<Rightarrow> AllocationRecord \<Rightarrow> AllocationRegistry \<Rightarrow> AllocationRegistry" where
  "set_record i a r = r\<lparr>ar_records := AList.update i a (ar_records r)\<rparr>"

definition set_vmm :: "CUmemGenericAllocationHandle \<Rightarrow> VmmAllocationRecord \<Rightarrow> AllocationRegistry \<Rightarrow> AllocationRegistry" where
  "set_vmm h v r = r\<lparr>ar_vmm_records := AList.update h v (ar_vmm_records r)\<rparr>"

section \<open>Recording\<close>

definition new_record :: "MemoryBytes \<Rightarrow> AllocationScope \<Rightarrow> AllocationRecord" where
  "new_record memory_bytes scope =
     \<lparr>al_memory_bytes = memory_bytes, al_scope = scope, al_is_releasing = False, al_is_async_release = False,
      al_is_async_release_submitted = False, al_is_async_release_stream_detached = False,
      al_pending_stream = no_stream\<rparr>"

definition registry_record ::
  "registry_env \<Rightarrow> AllocationIdentity \<Rightarrow> MemoryBytes \<Rightarrow> AllocationScope \<Rightarrow> AllocationRegistry \<Rightarrow> bool \<times> AllocationRegistry" where
  "registry_record env i memory_bytes scope = with_lock env False (\<lambda>r.
     if ar_is_accounting_degraded r \<or> map_of (ar_records r) i \<noteq> None then (False, r)
     else if re_node_fails env then (False, mark_accounting_degraded r)
     else (True, set_record i (new_record memory_bytes scope) r))"

definition record_vmm ::
  "registry_env \<Rightarrow> VmmAllocationIdentity \<Rightarrow> MemoryBytes \<Rightarrow> AllocationRegistry \<Rightarrow> bool \<times> AllocationRegistry" where
  "record_vmm env i memory_bytes = with_lock env False (\<lambda>r.
     if ar_is_accounting_degraded r \<or> vi_handle i = 0 \<or> vi_device i < 0 \<or>
        map_of (ar_vmm_records r) (vi_handle i) \<noteq> None
     then (False, r)
     else if re_node_fails env then (False, mark_accounting_degraded r)
     else (True, set_vmm (vi_handle i) \<lparr>vr_memory_bytes = memory_bytes, vr_device = vi_device i,
                   vr_reference_count = 1, vr_is_releasing = False\<rparr> r))"

definition retain_vmm_handle ::
  "registry_env \<Rightarrow> CUmemGenericAllocationHandle \<Rightarrow> AllocationRegistry \<Rightarrow> bool \<times> AllocationRegistry" where
  "retain_vmm_handle env h = with_lock env False (\<lambda>r.
     case map_of (ar_vmm_records r) h of
       None \<Rightarrow> (False, r)
     | Some v \<Rightarrow>
         if vr_is_releasing v \<or> vr_reference_count v = u64_max then (False, r)
         else (True, set_vmm h (v\<lparr>vr_reference_count := vr_reference_count v + 1\<rparr>) r))"

section \<open>Beginning a release\<close>

type_synonym begun = "ReleaseStatus \<times> ReleaseTicket option"
type_synonym vmm_begun = "ReleaseStatus \<times> VmmReleaseTicket option"

abbreviation begun_unknown :: "ReleaseStatus \<times> 'a option" where
  "begun_unknown \<equiv> (Release_kUnknown, None)"

definition begin_record ::
  "AllocationIdentity \<Rightarrow> AllocationRecord \<Rightarrow> AllocationRegistry \<Rightarrow> begun \<times> AllocationRegistry" where
  "begin_record i a r =
     (if al_is_releasing a then ((Release_kInProgress, None), r)
      else ((Release_kStarted, Some \<lparr>rt_identity = i, rt_memory_bytes = al_memory_bytes a, rt_stream = no_stream\<rparr>),
            set_record i (a\<lparr>al_is_releasing := True\<rparr>) r))"

definition begin_release :: "registry_env \<Rightarrow> AllocationIdentity \<Rightarrow> AllocationRegistry \<Rightarrow> begun \<times> AllocationRegistry" where
  "begin_release env i = with_lock env begun_unknown (\<lambda>r.
     case map_of (ar_records r) i of None \<Rightarrow> (begun_unknown, r) | Some a \<Rightarrow> begin_record i a r)"

definition begin_vmm_record ::
  "CUmemGenericAllocationHandle \<Rightarrow> VmmAllocationRecord \<Rightarrow> AllocationRegistry \<Rightarrow> vmm_begun \<times> AllocationRegistry" where
  "begin_vmm_record h v r =
     (if vr_is_releasing v then ((Release_kInProgress, None), r)
      else ((Release_kStarted, Some \<lparr>vt_identity = \<lparr>vi_handle = h, vi_device = vr_device v\<rparr>,
               vt_memory_bytes = vr_memory_bytes v, vt_is_last_reference = (vr_reference_count v = 1)\<rparr>),
            set_vmm h (v\<lparr>vr_is_releasing := True\<rparr>) r))"

definition begin_vmm_release ::
  "registry_env \<Rightarrow> VmmAllocationIdentity \<Rightarrow> AllocationRegistry \<Rightarrow> vmm_begun \<times> AllocationRegistry" where
  "begin_vmm_release env i = with_lock env begun_unknown (\<lambda>r.
     case map_of (ar_vmm_records r) (vi_handle i) of
       None \<Rightarrow> (begun_unknown, r)
     | Some v \<Rightarrow> if vr_device v \<noteq> vi_device i then (begun_unknown, r) else begin_vmm_record (vi_handle i) v r)"

definition begin_vmm_release_by_handle ::
  "registry_env \<Rightarrow> CUmemGenericAllocationHandle \<Rightarrow> AllocationRegistry \<Rightarrow> vmm_begun \<times> AllocationRegistry" where
  "begin_vmm_release_by_handle env h = with_lock env begun_unknown (\<lambda>r.
     case map_of (ar_vmm_records r) h of None \<Rightarrow> (begun_unknown, r) | Some v \<Rightarrow> begin_vmm_record h v r)"

text \<open>
  The search for the only record with a pointer on a device: \<open>None\<close> when a second one is met.
\<close>

fun pointer_candidate ::
  "CUdeviceptr \<Rightarrow> CUdevice \<Rightarrow> (AllocationIdentity \<times> AllocationRecord) option \<Rightarrow>
   (AllocationIdentity \<times> AllocationRecord) list \<Rightarrow> (AllocationIdentity \<times> AllocationRecord) option option" where
  "pointer_candidate p d candidate [] = Some candidate"
| "pointer_candidate p d candidate ((i, a) # m) =
     (if ai_device_pointer i \<noteq> p \<or> ai_device i \<noteq> d then pointer_candidate p d candidate m
      else if candidate \<noteq> None then None
      else pointer_candidate p d (Some (i, a)) m)"

definition begin_release_by_pointer ::
  "registry_env \<Rightarrow> CUdeviceptr \<Rightarrow> CUdevice \<Rightarrow> AllocationRegistry \<Rightarrow> begun \<times> AllocationRegistry" where
  "begin_release_by_pointer env p d = with_lock env begun_unknown (\<lambda>r.
     case pointer_candidate p d None (ar_records r) of
       Some (Some (i, a)) \<Rightarrow> begin_record i a r
     | _ \<Rightarrow> (begun_unknown, r))"

definition begin_async_record ::
  "AsyncStreamIdentity \<Rightarrow> AllocationIdentity \<Rightarrow> AllocationRecord \<Rightarrow> AllocationRegistry \<Rightarrow> begun \<times> AllocationRegistry" where
  "begin_async_record stream i a r =
     (if al_is_releasing a then ((Release_kInProgress, None), r)
      else ((Release_kStarted, Some \<lparr>rt_identity = i, rt_memory_bytes = al_memory_bytes a, rt_stream = stream\<rparr>),
            set_record i (a\<lparr>al_is_releasing := True, al_is_async_release := True,
              al_is_async_release_submitted := False, al_is_async_release_stream_detached := False,
              al_pending_stream := stream\<rparr>) r))"

definition begin_async_release ::
  "registry_env \<Rightarrow> AllocationIdentity \<Rightarrow> AsyncStreamIdentity \<Rightarrow> AllocationRegistry \<Rightarrow> begun \<times> AllocationRegistry" where
  "begin_async_release env i stream = with_lock env begun_unknown (\<lambda>r.
     case map_of (ar_records r) i of None \<Rightarrow> (begun_unknown, r) | Some a \<Rightarrow> begin_async_record stream i a r)"

definition begin_async_release_by_pointer ::
  "registry_env \<Rightarrow> CUdeviceptr \<Rightarrow> CUdevice \<Rightarrow> AsyncStreamIdentity \<Rightarrow> AllocationRegistry \<Rightarrow> begun \<times> AllocationRegistry" where
  "begin_async_release_by_pointer env p d stream = with_lock env begun_unknown (\<lambda>r.
     case pointer_candidate p d None (ar_records r) of
       Some (Some (i, a)) \<Rightarrow> begin_async_record stream i a r
     | _ \<Rightarrow> (begun_unknown, r))"

section \<open>Completing, committing and cancelling\<close>

definition complete_release :: "registry_env \<Rightarrow> ReleaseTicket \<Rightarrow> AllocationRegistry \<Rightarrow> bool \<times> AllocationRegistry" where
  "complete_release env t = with_lock env False (\<lambda>r.
     case map_of (ar_records r) (rt_identity t) of
       None \<Rightarrow> (False, r)
     | Some a \<Rightarrow>
         if \<not> al_is_releasing a \<or> al_is_async_release a \<or> al_memory_bytes a \<noteq> rt_memory_bytes t then (False, r)
         else (True, r\<lparr>ar_records := AList.delete (rt_identity t) (ar_records r)\<rparr>))"

definition complete_vmm_release ::
  "registry_env \<Rightarrow> VmmReleaseTicket \<Rightarrow> AllocationRegistry \<Rightarrow> bool \<times> AllocationRegistry" where
  "complete_vmm_release env t = with_lock env False (\<lambda>r.
     case map_of (ar_vmm_records r) (vi_handle (vt_identity t)) of
       None \<Rightarrow> (False, r)
     | Some v \<Rightarrow>
         if vr_device v \<noteq> vi_device (vt_identity t) \<or> \<not> vr_is_releasing v \<or> vr_memory_bytes v \<noteq> vt_memory_bytes t
         then (False, r)
         else if vt_is_last_reference t
         then if vr_reference_count v \<noteq> 1 then (False, r)
              else (True, r\<lparr>ar_vmm_records := AList.delete (vi_handle (vt_identity t)) (ar_vmm_records r)\<rparr>)
         else if vr_reference_count v \<le> 1 then (False, r)
         else (True, set_vmm (vi_handle (vt_identity t))
                       (v\<lparr>vr_reference_count := vr_reference_count v - 1, vr_is_releasing := False\<rparr>) r))"

definition commit_async_release :: "registry_env \<Rightarrow> ReleaseTicket \<Rightarrow> AllocationRegistry \<Rightarrow> bool \<times> AllocationRegistry" where
  "commit_async_release env t = with_lock env False (\<lambda>r.
     case map_of (ar_records r) (rt_identity t) of
       None \<Rightarrow> (False, r)
     | Some a \<Rightarrow>
         if \<not> al_is_releasing a \<or> \<not> al_is_async_release a \<or> al_memory_bytes a \<noteq> rt_memory_bytes t \<or>
           \<not> same_async_stream (al_pending_stream a) (rt_stream t)
         then (False, r)
         else (True, set_record (rt_identity t) (a\<lparr>al_is_async_release_submitted := True\<rparr>) r))"

definition idle_record :: "AllocationRecord \<Rightarrow> AllocationRecord" where
  "idle_record a =
     a\<lparr>al_is_releasing := False, al_is_async_release := False, al_is_async_release_submitted := False,
       al_is_async_release_stream_detached := False, al_pending_stream := no_stream\<rparr>"

definition cancel_release :: "registry_env \<Rightarrow> ReleaseTicket \<Rightarrow> AllocationRegistry \<Rightarrow> AllocationRegistry" where
  "cancel_release env t r0 = snd (with_lock env () (\<lambda>r.
     case map_of (ar_records r) (rt_identity t) of
       None \<Rightarrow> ((), r)
     | Some a \<Rightarrow>
         if \<not> al_is_releasing a \<or> al_memory_bytes a \<noteq> rt_memory_bytes t then ((), r)
         else ((), set_record (rt_identity t) (idle_record a) r)) r0)"

definition cancel_vmm_release :: "registry_env \<Rightarrow> VmmReleaseTicket \<Rightarrow> AllocationRegistry \<Rightarrow> AllocationRegistry" where
  "cancel_vmm_release env t r0 = snd (with_lock env () (\<lambda>r.
     case map_of (ar_vmm_records r) (vi_handle (vt_identity t)) of
       None \<Rightarrow> ((), r)
     | Some v \<Rightarrow>
         if vr_device v \<noteq> vi_device (vt_identity t) \<or> \<not> vr_is_releasing v \<or> vr_memory_bytes v \<noteq> vt_memory_bytes t
         then ((), r)
         else ((), set_vmm (vi_handle (vt_identity t)) (v\<lparr>vr_is_releasing := False\<rparr>) r)) r0)"

section \<open>Streams and contexts\<close>

definition pending_on_stream :: "AsyncStreamIdentity \<Rightarrow> AllocationRecord \<Rightarrow> bool" where
  "pending_on_stream stream a \<longleftrightarrow>
     \<not> (\<not> al_is_releasing a \<or> \<not> al_is_async_release a \<or> \<not> al_is_async_release_submitted a \<or>
        al_is_async_release_stream_detached a \<or> \<not> same_async_stream (al_pending_stream a) stream)"

definition detach_async_releases_for_stream ::
  "registry_env \<Rightarrow> AsyncStreamIdentity \<Rightarrow> AllocationRegistry \<Rightarrow> bool \<times> AllocationRegistry" where
  "detach_async_releases_for_stream env stream = with_lock env False (\<lambda>r.
     (True, r\<lparr>ar_records := map (\<lambda>(i, a).
        (i, if pending_on_stream stream a
            then a\<lparr>al_is_async_release_stream_detached := True, al_pending_stream := no_stream\<rparr> else a)) (ar_records r)\<rparr>))"

fun append_device_release_summary ::
  "(nat \<Rightarrow> bool) \<Rightarrow> nat \<Rightarrow> CUdevice \<Rightarrow> MemoryBytes \<Rightarrow> DeviceReleaseSummary list \<Rightarrow> DeviceReleaseSummary list option" where
  "append_device_release_summary push_fails n d bytes [] =
     (if push_fails n then None else Some [\<lparr>ds_device = d, ds_memory_bytes = bytes\<rparr>])"
| "append_device_release_summary push_fails n d bytes (s # ss) =
     (if ds_device s \<noteq> d
      then (case append_device_release_summary push_fails n d bytes ss of None \<Rightarrow> None | Some ss' \<Rightarrow> Some (s # ss'))
      else if ds_memory_bytes s > u64_max - bytes then None
      else Some (s\<lparr>ds_memory_bytes := ds_memory_bytes s + bytes\<rparr> # ss))"

text \<open>The first loop of the methods that release by device, over the records that match.\<close>

fun device_summaries ::
  "(nat \<Rightarrow> bool) \<Rightarrow> (AllocationIdentity \<Rightarrow> AllocationRecord \<Rightarrow> bool) \<Rightarrow> DeviceReleaseSummary list \<Rightarrow>
   (AllocationIdentity \<times> AllocationRecord) list \<Rightarrow> DeviceReleaseSummary list option" where
  "device_summaries push_fails matches ss [] = Some ss"
| "device_summaries push_fails matches ss ((i, a) # m) =
     (if \<not> matches i a then device_summaries push_fails matches ss m
      else case append_device_release_summary push_fails (length ss) (ai_device i) (al_memory_bytes a) ss of
        None \<Rightarrow> None
      | Some ss' \<Rightarrow> device_summaries push_fails matches ss' m)"

text \<open>The second loop erases the records that match.\<close>

definition erase_matching ::
  "(AllocationIdentity \<Rightarrow> AllocationRecord \<Rightarrow> bool) \<Rightarrow> AllocationRegistry \<Rightarrow> AllocationRegistry" where
  "erase_matching matches r = r\<lparr>ar_records := filter (\<lambda>(i, a). \<not> matches i a) (ar_records r)\<rparr>"

definition complete_async_releases_for_stream_by_device ::
  "registry_env \<Rightarrow> AsyncStreamIdentity \<Rightarrow> AllocationRegistry \<Rightarrow> DeviceReleaseSummary list option \<times> AllocationRegistry" where
  "complete_async_releases_for_stream_by_device env stream = with_lock env None (\<lambda>r.
     case device_summaries (re_push_fails env) (\<lambda>i a. pending_on_stream stream a) [] (ar_records r) of
       None \<Rightarrow> (None, r)
     | Some ss \<Rightarrow> if ss = [] then (Some ss, r)
                else (Some ss, erase_matching (\<lambda>i a. pending_on_stream stream a) r))"

text \<open>The loops that erase while they add the bytes up, saturating.\<close>

definition saturating_add :: "MemoryBytes \<Rightarrow> MemoryBytes \<Rightarrow> MemoryBytes" where
  "saturating_add released bytes = (if released > u64_max - bytes then u64_max else released + bytes)"

definition erased_bytes ::
  "(AllocationIdentity \<Rightarrow> AllocationRecord \<Rightarrow> bool) \<Rightarrow> (AllocationIdentity \<times> AllocationRecord) list \<Rightarrow> MemoryBytes" where
  "erased_bytes matches m =
     fold (\<lambda>(i, a) released. if \<not> matches i a then released else saturating_add released (al_memory_bytes a)) m 0"

definition submitted_async :: "AllocationRecord \<Rightarrow> bool" where
  "submitted_async a \<longleftrightarrow> \<not> (\<not> al_is_releasing a \<or> \<not> al_is_async_release a \<or> \<not> al_is_async_release_submitted a)"

definition complete_async_releases_for_context ::
  "registry_env \<Rightarrow> CUcontext \<Rightarrow> CUdevice \<Rightarrow> AllocationRegistry \<Rightarrow> MemoryBytes \<times> AllocationRegistry" where
  "complete_async_releases_for_context env c d = with_lock env 0 (\<lambda>r.
     let matches = (\<lambda>i a. submitted_async a \<and> ai_context i = c \<and> ai_device i = d)
     in (erased_bytes matches (ar_records r), erase_matching matches r))"

definition complete_async_releases_for_context_by_device ::
  "registry_env \<Rightarrow> CUcontext \<Rightarrow> AllocationRegistry \<Rightarrow> DeviceReleaseSummary list option \<times> AllocationRegistry" where
  "complete_async_releases_for_context_by_device env c = with_lock env None (\<lambda>r.
     let matches = (\<lambda>i a. submitted_async a \<and> ai_context i = c)
     in case device_summaries (re_push_fails env) matches [] (ar_records r) of
          None \<Rightarrow> (None, r)
        | Some ss \<Rightarrow> if ss = [] then (Some ss, r) else (Some ss, erase_matching matches r))"

fun context_device :: "CUcontext \<Rightarrow> CUdevice option \<Rightarrow> (AllocationIdentity \<times> AllocationRecord) list \<Rightarrow> CUdevice option" where
  "context_device c device [] = device"
| "context_device c device ((i, a) # m) =
     (if ai_context i \<noteq> c then context_device c device m
      else case device of
        None \<Rightarrow> context_device c (Some (ai_device i)) m
      | Some d \<Rightarrow> if d \<noteq> ai_device i then None else context_device c (Some (ai_device i)) m)"

definition device_for_context :: "registry_env \<Rightarrow> CUcontext \<Rightarrow> AllocationRegistry \<Rightarrow> CUdevice option \<times> AllocationRegistry" where
  "device_for_context env c = with_lock env None (\<lambda>r. (context_device c None (ar_records r), r))"

definition bound_to :: "CUcontext \<Rightarrow> AllocationIdentity \<Rightarrow> AllocationRecord \<Rightarrow> bool" where
  "bound_to c i a \<longleftrightarrow> ai_context i = c \<and> al_scope a = Scope_kContextBound"

definition erase_context_by_device ::
  "registry_env \<Rightarrow> CUcontext \<Rightarrow> AllocationRegistry \<Rightarrow> DeviceReleaseSummary list option \<times> AllocationRegistry" where
  "erase_context_by_device env c = with_lock env None (\<lambda>r.
     case device_summaries (re_push_fails env) (bound_to c) [] (ar_records r) of
       None \<Rightarrow> (None, r)
     | Some ss \<Rightarrow> (Some ss, erase_matching (bound_to c) r))"

definition erase_context :: "registry_env \<Rightarrow> CUcontext \<Rightarrow> AllocationRegistry \<Rightarrow> MemoryBytes \<times> AllocationRegistry" where
  "erase_context env c = with_lock env 0 (\<lambda>r.
     (erased_bytes (bound_to c) (ar_records r), erase_matching (bound_to c) r))"

definition erase_context_device ::
  "registry_env \<Rightarrow> CUcontext \<Rightarrow> CUdevice \<Rightarrow> AllocationRegistry \<Rightarrow> MemoryBytes \<times> AllocationRegistry" where
  "erase_context_device env c d = with_lock env 0 (\<lambda>r.
     let matches = (\<lambda>i a. bound_to c i a \<and> ai_device i = d)
     in (erased_bytes matches (ar_records r), erase_matching matches r))"

end
