(* ===== verification/AllocationRegistryProps.thy ===== *)
theory AllocationRegistryProps
  imports AllocationRegistry
begin

text \<open>
  Histories of the allocation registry: the bytes it reports as released are exactly those that
  were recorded and are no longer tracked, virtual-memory references are counted exactly, releases
  by device are attributed to the right device, and a cancelled release leaves no trace.
\<close>

section \<open>Operations\<close>

datatype reg_op =
    R_record registry_env AllocationIdentity MemoryBytes AllocationScope
  | R_record_vmm registry_env VmmAllocationIdentity MemoryBytes
  | R_retain registry_env CUmemGenericAllocationHandle
  | R_begin registry_env AllocationIdentity
  | R_begin_pointer registry_env CUdeviceptr CUdevice
  | R_begin_async registry_env AllocationIdentity AsyncStreamIdentity
  | R_begin_async_pointer registry_env CUdeviceptr CUdevice AsyncStreamIdentity
  | R_begin_vmm registry_env VmmAllocationIdentity
  | R_begin_vmm_handle registry_env CUmemGenericAllocationHandle
  | R_complete registry_env ReleaseTicket
  | R_complete_vmm registry_env VmmReleaseTicket
  | R_commit registry_env ReleaseTicket
  | R_cancel registry_env ReleaseTicket
  | R_cancel_vmm registry_env VmmReleaseTicket
  | R_detach registry_env AsyncStreamIdentity
  | R_complete_stream registry_env AsyncStreamIdentity
  | R_complete_context registry_env CUcontext CUdevice
  | R_complete_context_by_device registry_env CUcontext
  | R_device_for_context registry_env CUcontext
  | R_erase_by_device registry_env CUcontext
  | R_erase registry_env CUcontext
  | R_erase_device registry_env CUcontext CUdevice

fun run_reg :: "reg_op \<Rightarrow> AllocationRegistry \<Rightarrow> AllocationRegistry" where
  "run_reg (R_record env i b s) r = snd (registry_record env i b s r)"
| "run_reg (R_record_vmm env i b) r = snd (record_vmm env i b r)"
| "run_reg (R_retain env h) r = snd (retain_vmm_handle env h r)"
| "run_reg (R_begin env i) r = snd (begin_release env i r)"
| "run_reg (R_begin_pointer env p d) r = snd (begin_release_by_pointer env p d r)"
| "run_reg (R_begin_async env i s) r = snd (begin_async_release env i s r)"
| "run_reg (R_begin_async_pointer env p d s) r = snd (begin_async_release_by_pointer env p d s r)"
| "run_reg (R_begin_vmm env i) r = snd (begin_vmm_release env i r)"
| "run_reg (R_begin_vmm_handle env h) r = snd (begin_vmm_release_by_handle env h r)"
| "run_reg (R_complete env t) r = snd (complete_release env t r)"
| "run_reg (R_complete_vmm env t) r = snd (complete_vmm_release env t r)"
| "run_reg (R_commit env t) r = snd (commit_async_release env t r)"
| "run_reg (R_cancel env t) r = cancel_release env t r"
| "run_reg (R_cancel_vmm env t) r = cancel_vmm_release env t r"
| "run_reg (R_detach env s) r = snd (detach_async_releases_for_stream env s r)"
| "run_reg (R_complete_stream env s) r = snd (complete_async_releases_for_stream_by_device env s r)"
| "run_reg (R_complete_context env c d) r = snd (complete_async_releases_for_context env c d r)"
| "run_reg (R_complete_context_by_device env c) r = snd (complete_async_releases_for_context_by_device env c r)"
| "run_reg (R_device_for_context env c) r = snd (device_for_context env c r)"
| "run_reg (R_erase_by_device env c) r = snd (erase_context_by_device env c r)"
| "run_reg (R_erase env c) r = snd (erase_context env c r)"
| "run_reg (R_erase_device env c d) r = snd (erase_context_device env c d r)"

fun op_env :: "reg_op \<Rightarrow> registry_env" where
  "op_env (R_record env i b s) = env"
| "op_env (R_record_vmm env i' b) = env"
| "op_env (R_retain env h) = env"
| "op_env (R_begin env i) = env"
| "op_env (R_begin_pointer env p d) = env"
| "op_env (R_begin_async env i st) = env"
| "op_env (R_begin_async_pointer env p d st) = env"
| "op_env (R_begin_vmm env i') = env"
| "op_env (R_begin_vmm_handle env h) = env"
| "op_env (R_complete env t) = env"
| "op_env (R_complete_vmm env t') = env"
| "op_env (R_commit env t) = env"
| "op_env (R_cancel env t) = env"
| "op_env (R_cancel_vmm env t') = env"
| "op_env (R_detach env st) = env"
| "op_env (R_complete_stream env st) = env"
| "op_env (R_complete_context env c d) = env"
| "op_env (R_complete_context_by_device env c) = env"
| "op_env (R_device_for_context env c) = env"
| "op_env (R_erase_by_device env c) = env"
| "op_env (R_erase env c) = env"
| "op_env (R_erase_device env c d) = env"

text \<open>
  What the caller of a method learns: the bytes it has just put under the registry, and the bytes
  it is told to give back to the quota.
\<close>

definition summed :: "DeviceReleaseSummary list option \<Rightarrow> nat" where
  "summed x = (case x of None \<Rightarrow> 0 | Some ss \<Rightarrow> sum_list (map (unat \<circ> ds_memory_bytes) ss))"

fun recorded_by :: "reg_op \<Rightarrow> AllocationRegistry \<Rightarrow> nat" where
  "recorded_by (R_record env i b s) r = (if fst (registry_record env i b s r) then unat b else 0)"
| "recorded_by (R_record_vmm env i b) r = (if fst (record_vmm env i b r) then unat b else 0)"
| "recorded_by _ r = 0"

fun released_by :: "reg_op \<Rightarrow> AllocationRegistry \<Rightarrow> nat" where
  "released_by (R_complete env t) r = (if fst (complete_release env t r) then unat (rt_memory_bytes t) else 0)"
| "released_by (R_complete_vmm env t) r =
     (if fst (complete_vmm_release env t r) \<and> vt_is_last_reference t then unat (vt_memory_bytes t) else 0)"
| "released_by (R_complete_stream env s) r = summed (fst (complete_async_releases_for_stream_by_device env s r))"
| "released_by (R_complete_context env c d) r = unat (fst (complete_async_releases_for_context env c d r))"
| "released_by (R_complete_context_by_device env c) r = summed (fst (complete_async_releases_for_context_by_device env c r))"
| "released_by (R_erase_by_device env c) r = summed (fst (erase_context_by_device env c r))"
| "released_by (R_erase env c) r = unat (fst (erase_context env c r))"
| "released_by (R_erase_device env c d) r = unat (fst (erase_context_device env c d r))"
| "released_by _ r = 0"

section \<open>What is tracked\<close>

abbreviation record_bytes :: "AllocationRecord \<Rightarrow> nat" where
  "record_bytes a \<equiv> unat (al_memory_bytes a)"

abbreviation vmm_bytes :: "VmmAllocationRecord \<Rightarrow> nat" where
  "vmm_bytes v \<equiv> unat (vr_memory_bytes v)"

definition tracked :: "AllocationRegistry \<Rightarrow> nat" where
  "tracked r = umap_sum record_bytes (ar_records r) + umap_sum vmm_bytes (ar_vmm_records r)"

definition record_ok :: "AllocationRecord \<Rightarrow> bool" where
  "record_ok a \<longleftrightarrow>
     (al_is_async_release a \<longrightarrow> al_is_releasing a) \<and>
     (\<not> al_is_async_release a \<longrightarrow>
        \<not> al_is_async_release_submitted a \<and> \<not> al_is_async_release_stream_detached a \<and> al_pending_stream a = no_stream)"

definition reg_inv :: "AllocationRegistry \<Rightarrow> bool" where
  "reg_inv r \<longleftrightarrow>
     keys_distinct (ar_records r) \<and> keys_distinct (ar_vmm_records r) \<and>
     list_all record_ok (map snd (ar_records r)) \<and>
     list_all (\<lambda>v. vr_reference_count v \<noteq> 0) (map snd (ar_vmm_records r))"

text \<open>The bytes of the records that match.\<close>

definition matching :: "(AllocationIdentity \<Rightarrow> AllocationRecord \<Rightarrow> bool) \<Rightarrow> (AllocationIdentity \<times> AllocationRecord) list \<Rightarrow> nat" where
  "matching P m = umap_sum record_bytes (filter (\<lambda>(i, a). P i a) m)"

lemma matching_simps [simp]:
  "matching P [] = 0"
  "matching P ((i, a) # m) = (if P i a then record_bytes a else 0) + matching P m"
  by (simp_all add: matching_def)

lemma matching_split: "umap_sum record_bytes m = matching P m + umap_sum record_bytes (filter (\<lambda>(i, a). \<not> P i a) m)"
  by (induction m) auto

lemma matching_le: "matching P m \<le> umap_sum record_bytes m"
  by (induction m) auto

lemma matching_zero: "matching P m = 0 \<or> (\<exists>(i, a) \<in> set m. P i a)"
  by (induction m) auto

section \<open>Summaries by device\<close>

definition device_bytes :: "CUdevice \<Rightarrow> DeviceReleaseSummary list \<Rightarrow> nat" where
  "device_bytes d ss = sum_list (map (unat \<circ> ds_memory_bytes) (filter (\<lambda>s. ds_device s = d) ss))"

lemma guarded_add:
  assumes "\<not> a > u64_max - b"
  shows "unat (a + b) = unat a + unat b"
proof (rule unat_add_no_wrap)
  have "unat a \<le> 18446744073709551615 - unat b" using assms by (simp add: word_less_nat_alt)
  then have "unat a + unat b \<le> 18446744073709551615" using unat_le_u64_max [of b] by linarith
  then show "unat a + unat b < 2 ^ LENGTH(64)" by simp
qed

lemma append_summary:
  assumes "append_device_release_summary f n d b ss = Some ss'"
  shows "device_bytes d' ss' = device_bytes d' ss + (if d' = d then unat b else 0)"
    and "set (map ds_device ss') = insert d (set (map ds_device ss))"
    and "distinct (map ds_device ss) \<Longrightarrow> distinct (map ds_device ss')"
    and "summed (Some ss') = summed (Some ss) + unat b"
proof -
  have "(\<forall>d'. device_bytes d' ss' = device_bytes d' ss + (if d' = d then unat b else 0)) \<and>
      set (map ds_device ss') = insert d (set (map ds_device ss)) \<and>
      (distinct (map ds_device ss) \<longrightarrow> distinct (map ds_device ss')) \<and>
      summed (Some ss') = summed (Some ss) + unat b"
    using assms
  proof (induction ss arbitrary: ss')
    case Nil
    then show ?case by (auto simp: device_bytes_def summed_def split: if_splits)
  next
    case (Cons s ss)
    show ?case
    proof (cases "ds_device s = d")
      case True
      with Cons.prems have "ss' = s\<lparr>ds_memory_bytes := ds_memory_bytes s + b\<rparr> # ss" and "\<not> ds_memory_bytes s > u64_max - b"
        by (auto split: if_splits)
      moreover from this(2) have "unat (ds_memory_bytes s + b) = unat (ds_memory_bytes s) + unat b"
        by (rule guarded_add)
      ultimately show ?thesis using True by (auto simp: device_bytes_def summed_def)
    next
      case False
      with Cons.prems obtain ss1 where s1: "append_device_release_summary f n d b ss = Some ss1" "ss' = s # ss1"
        by (auto split: option.splits)
      show ?thesis using Cons.IH [OF s1(1)] s1(2) False by (auto simp: device_bytes_def summed_def)
    qed
  qed
  then show "device_bytes d' ss' = device_bytes d' ss + (if d' = d then unat b else 0)"
    and "set (map ds_device ss') = insert d (set (map ds_device ss))"
    and "distinct (map ds_device ss) \<Longrightarrow> distinct (map ds_device ss')"
    and "summed (Some ss') = summed (Some ss) + unat b"
    by blast+
qed

lemma summaries_exact:
  assumes "device_summaries f P ss m = Some ss'"
  shows "device_bytes d ss' = device_bytes d ss + matching (\<lambda>i a. P i a \<and> ai_device i = d) m \<and>
    summed (Some ss') = summed (Some ss) + matching P m \<and>
    (distinct (map ds_device ss) \<longrightarrow> distinct (map ds_device ss')) \<and>
    set (map ds_device ss') = set (map ds_device ss) \<union> {ai_device i | i a. (i, a) \<in> set m \<and> P i a}"
  using assms
proof (induction m arbitrary: ss)
  case (Cons x m)
  obtain i a where x: "x = (i, a)" by (cases x)
  show ?case
  proof (cases "P i a")
    case True
    then obtain s1 where s1: "append_device_release_summary f (length ss) (ai_device i) (al_memory_bytes a) ss = Some s1"
      and rest: "device_summaries f P s1 m = Some ss'"
      using Cons.prems x by (auto split: option.splits)
    have "{ai_device j | j b. (j, b) \<in> set (x # m) \<and> P j b} = insert (ai_device i) {ai_device j | j b. (j, b) \<in> set m \<and> P j b}"
      using True x by auto
    then show ?thesis using Cons.IH [OF rest] append_summary [OF s1] True x by auto
  next
    case False
    moreover from this have "{ai_device j | j b. (j, b) \<in> set (x # m) \<and> P j b} = {ai_device j | j b. (j, b) \<in> set m \<and> P j b}"
      using x by auto
    ultimately show ?thesis using Cons.IH [of ss] Cons.prems x by simp
  qed
qed simp

section \<open>Steps\<close>

text \<open>A step within one process, with the bytes it records and those it reports as released.\<close>

inductive reg_step :: "nat \<Rightarrow> nat \<Rightarrow> AllocationRegistry \<Rightarrow> AllocationRegistry \<Rightarrow> bool" where
  kept: "ar_records r' = ar_records r \<Longrightarrow> ar_vmm_records r' = ar_vmm_records r \<Longrightarrow> reg_step 0 0 r r'"
| added: "map_of (ar_records r) i = None \<Longrightarrow> reg_step (unat b) 0 r (set_record i (new_record b s) r)"
| changed: "map_of (ar_records r) i = Some a \<Longrightarrow> al_memory_bytes a' = al_memory_bytes a \<Longrightarrow>
    (record_ok a \<Longrightarrow> record_ok a') \<Longrightarrow> reg_step 0 0 r (set_record i a' r)"
| removed: "map_of (ar_records r) i = Some a \<Longrightarrow> n = record_bytes a \<Longrightarrow>
    reg_step 0 n r (r\<lparr>ar_records := AList.delete i (ar_records r)\<rparr>)"
| erased: "n = matching P (ar_records r) \<Longrightarrow> reg_step 0 n r (erase_matching P r)"
| detached: "(\<And>a. al_memory_bytes (f a) = al_memory_bytes a) \<Longrightarrow> (\<And>a. record_ok a \<Longrightarrow> record_ok (f a)) \<Longrightarrow>
    reg_step 0 0 r (r\<lparr>ar_records := map (\<lambda>(i, a). (i, f a)) (ar_records r)\<rparr>)"
| vmm_added: "map_of (ar_vmm_records r) h = None \<Longrightarrow> vr_memory_bytes v = b \<Longrightarrow> vr_reference_count v \<noteq> 0 \<Longrightarrow>
    reg_step (unat b) 0 r (set_vmm h v r)"
| vmm_changed: "map_of (ar_vmm_records r) h = Some v \<Longrightarrow> vr_memory_bytes v' = vr_memory_bytes v \<Longrightarrow>
    vr_reference_count v' \<noteq> 0 \<Longrightarrow> reg_step 0 0 r (set_vmm h v' r)"
| vmm_removed: "map_of (ar_vmm_records r) h = Some v \<Longrightarrow> n = vmm_bytes v \<Longrightarrow>
    reg_step 0 n r (r\<lparr>ar_vmm_records := AList.delete h (ar_vmm_records r)\<rparr>)"

lemma map_detached_sum:
  "(\<And>a. al_memory_bytes (f a) = al_memory_bytes a) \<Longrightarrow>
   umap_sum record_bytes (map (\<lambda>(i, a). (i, f a)) m) = umap_sum record_bytes m"
  by (induction m) auto

lemma reg_step_conserves:
  assumes "reg_step n k r r'" and "reg_inv r"
  shows "n + tracked r = k + tracked r'"
  using assms
proof (induction rule: reg_step.induct)
  case (erased n P r)
  then show ?case using matching_split [of "ar_records r" P] by (simp add: tracked_def erase_matching_def)
next
  case (removed r i a n)
  then show ?case using umap_sum_ge [OF removed.hyps(1), of record_bytes]
    by (simp add: tracked_def reg_inv_def umap_sum_delete del: map_of_eq_Some_iff)
next
  case (vmm_removed r h v n)
  then show ?case using umap_sum_ge [OF vmm_removed.hyps(1), of vmm_bytes]
    by (simp add: tracked_def reg_inv_def umap_sum_delete del: map_of_eq_Some_iff)
next
  case (changed r i a a')
  then show ?case using umap_sum_present [OF changed.hyps(1), of record_bytes a'] by (simp add: tracked_def set_record_def)
next
  case (vmm_changed r h v v')
  then show ?case using umap_sum_present [OF vmm_changed.hyps(1), of vmm_bytes v'] by (simp add: tracked_def set_vmm_def)
qed (simp_all add: tracked_def set_record_def set_vmm_def umap_sum_absent map_detached_sum new_record_def)

lemma reg_step_inv:
  assumes "reg_step n k r r'" and "reg_inv r"
  shows "reg_inv r'"
  using assms
proof (induction rule: reg_step.induct)
  case (erased n P r)
  then show ?case
    by (simp add: reg_inv_def erase_matching_def distinct_map_filter list_all_filter)
next
  case (added r i b s)
  have "record_ok (new_record b s)" by (simp add: record_ok_def new_record_def)
  then show ?case using added by (simp add: reg_inv_def set_record_def list_all_update)
next
  case (changed r i a a')
  then have "record_ok a" by (blast intro: list_all_lookup dest: reg_inv_def [THEN iffD1])
  then show ?case using changed by (simp add: reg_inv_def set_record_def list_all_update)
next
  case (detached f r)
  have "list_all record_ok (map snd (map (\<lambda>(i, a). (i, f a)) m))" if "list_all record_ok (map snd m)"
    for m :: "(AllocationIdentity \<times> AllocationRecord) list"
    using that detached.hyps(2) by (induction m) auto
  moreover have "map fst (map (\<lambda>(i, a). (i, f a)) m) = map fst m" for m :: "(AllocationIdentity \<times> AllocationRecord) list"
    by (induction m) auto
  ultimately show ?case using detached.prems by (simp add: reg_inv_def del: map_map map_eq_conv)
qed (simp_all add: reg_inv_def set_vmm_def list_all_update list_all_delete)

section \<open>Every operation is a step\<close>

lemma lock_no_fork [simp]:
  "reset_after_fork_if_needed env r = r \<Longrightarrow>
   with_lock env x body r = (if re_lock_fails env then (x, mark_accounting_degraded r) else body r)"
  by (simp add: with_lock_def)

lemma step_kept [simp]: "reg_step 0 0 r r" "reg_step 0 0 r (mark_accounting_degraded r)"
  by (simp_all add: reg_step.kept mark_accounting_degraded_def)

lemma candidate_invariant:
  assumes "pointer_candidate p d c m = Some (Some (i, a))"
  shows "c = Some (i, a) \<or> (i, a) \<in> set m"
  using assms by (induction p d c m rule: pointer_candidate.induct) (auto split: if_splits)

lemma candidate_found:
  assumes "reg_inv r" and "pointer_candidate p d None (ar_records r) = Some (Some (i, a))"
  shows "map_of (ar_records r) i = Some a"
  using candidate_invariant [OF assms(2)] assms(1) by (simp add: reg_inv_def)

lemma begin_record_step: "map_of (ar_records r) i = Some a \<Longrightarrow> reg_step 0 0 r (snd (begin_record i a r))"
  by (auto simp: begin_record_def record_ok_def intro!: reg_step.changed)

lemma begin_async_record_step: "map_of (ar_records r) i = Some a \<Longrightarrow> reg_step 0 0 r (snd (begin_async_record s i a r))"
  by (auto simp: begin_async_record_def record_ok_def intro!: reg_step.changed)

lemma begin_vmm_record_step:
  assumes "reg_inv r" and "map_of (ar_vmm_records r) h = Some v"
  shows "reg_step 0 0 r (snd (begin_vmm_record h v r))"
proof -
  have "vr_reference_count v \<noteq> 0" using assms list_all_lookup [OF _ assms(2)] by (auto simp: reg_inv_def)
  then show ?thesis using assms(2) by (auto simp: begin_vmm_record_def intro!: reg_step.vmm_changed)
qed

lemma unat_saturating_add: "unat (saturating_add x b) = min 18446744073709551615 (unat x + unat b)"
proof (cases "x > u64_max - b")
  case True
  then have "18446744073709551615 - unat b < unat x" by (simp add: word_less_nat_alt)
  then show ?thesis using True by (simp add: saturating_add_def)
next
  case False
  then have "unat (x + b) = unat x + unat b" by (rule guarded_add)
  then show ?thesis using False unat_le_u64_max [of "x + b"] by (simp add: saturating_add_def)
qed

lemma unat_erased_bytes: "unat (erased_bytes P m) = min 18446744073709551615 (matching P m)"
proof -
  have "unat (fold (\<lambda>(i, a) n. if \<not> P i a then n else saturating_add n (al_memory_bytes a)) m n) =
      min 18446744073709551615 (unat n + matching P m)" for n
    by (induction m arbitrary: n) (auto simp: unat_saturating_add)
  then show ?thesis by (simp add: erased_bytes_def)
qed

lemma erased_bytes_exact: "tracked r < 2 ^ 64 \<Longrightarrow> unat (erased_bytes P (ar_records r)) = matching P (ar_records r)"
  using matching_le [of P "ar_records r"] by (simp add: unat_erased_bytes tracked_def)

lemma erase_step:
  "tracked r < 2 ^ 64 \<Longrightarrow> reg_step 0 (unat (erased_bytes P (ar_records r))) r (erase_matching P r)"
  by (rule reg_step.erased) (rule erased_bytes_exact)

lemma summaries_step:
  assumes "device_summaries f P [] (ar_records r) = Some ss"
  shows "reg_step 0 (summed (Some ss)) r (erase_matching P r)"
    and "ss = [] \<Longrightarrow> reg_step 0 (summed (Some ss)) r r"
  using summaries_exact [OF assms] by (auto simp: summed_def intro: reg_step.erased)

lemma begin_steps:
  assumes inv: "reg_inv r" and p: "reset_after_fork_if_needed env r = r"
  shows "reg_step 0 0 r (snd (begin_release env i r))"
    and "reg_step 0 0 r (snd (begin_release_by_pointer env q d r))"
    and "reg_step 0 0 r (snd (begin_async_release env i s r))"
    and "reg_step 0 0 r (snd (begin_async_release_by_pointer env q d s r))"
    and "reg_step 0 0 r (snd (begin_vmm_release env v r))"
    and "reg_step 0 0 r (snd (begin_vmm_release_by_handle env h r))"
  using p
  by (auto simp: begin_release_def begin_release_by_pointer_def begin_async_release_def begin_async_release_by_pointer_def
      begin_vmm_release_def begin_vmm_release_by_handle_def candidate_found [OF inv]
      intro!: begin_record_step begin_async_record_step begin_vmm_record_step [OF inv] split: option.split)

lemma record_steps:
  assumes p: "reset_after_fork_if_needed env r = r" and inv: "reg_inv r"
  shows "reg_step (if fst (registry_record env i b s r) then unat b else 0) 0 r (snd (registry_record env i b s r))"
    and "reg_step (if fst (record_vmm env v b r) then unat b else 0) 0 r (snd (record_vmm env v b r))"
    and "reg_step 0 0 r (snd (retain_vmm_handle env h r))"
proof -
  show "reg_step (if fst (registry_record env i b s r) then unat b else 0) 0 r (snd (registry_record env i b s r))"
    using p by (auto simp: registry_record_def intro: reg_step.added)
  show "reg_step (if fst (record_vmm env v b r) then unat b else 0) 0 r (snd (record_vmm env v b r))"
    using p by (auto simp: record_vmm_def intro: reg_step.vmm_added)
  show "reg_step 0 0 r (snd (retain_vmm_handle env h r))"
    using p by (auto simp: retain_vmm_handle_def u64_Suc_nonzero intro!: reg_step.vmm_changed split: option.split)
qed

lemma end_steps:
  assumes p: "reset_after_fork_if_needed env r = r" and inv: "reg_inv r"
  shows "reg_step 0 (if fst (complete_release env t r) then unat (rt_memory_bytes t) else 0) r (snd (complete_release env t r))"
    and "reg_step 0 (if fst (complete_vmm_release env u r) \<and> vt_is_last_reference u then unat (vt_memory_bytes u) else 0) r
      (snd (complete_vmm_release env u r))"
    and "reg_step 0 0 r (snd (commit_async_release env t r))"
    and "reg_step 0 0 r (cancel_release env t r)"
    and "reg_step 0 0 r (cancel_vmm_release env u r)"
proof -
  show "reg_step 0 (if fst (complete_release env t r) then unat (rt_memory_bytes t) else 0) r (snd (complete_release env t r))"
    using p by (auto simp: complete_release_def intro!: reg_step.removed split: option.split)
  have count: "vr_reference_count v \<noteq> 0" if "map_of (ar_vmm_records r) h = Some v" for h v
    using inv list_all_lookup [OF _ that] by (auto simp: reg_inv_def)
  have dec: "(c :: u64) - 1 \<noteq> 0" if "\<not> c \<le> 1" for c
    using that by (metis diff_add_cancel add_0 order_refl)
  show "reg_step 0 (if fst (complete_vmm_release env u r) \<and> vt_is_last_reference u then unat (vt_memory_bytes u) else 0) r
      (snd (complete_vmm_release env u r))"
    using p dec by (auto simp: complete_vmm_release_def intro!: reg_step.vmm_removed reg_step.vmm_changed split: option.split)
  show "reg_step 0 0 r (snd (commit_async_release env t r))"
    using p by (auto simp: commit_async_release_def record_ok_def intro!: reg_step.changed split: option.split)
  show "reg_step 0 0 r (cancel_release env t r)"
    using p by (auto simp: cancel_release_def record_ok_def idle_record_def intro!: reg_step.changed split: option.split)
  show "reg_step 0 0 r (cancel_vmm_release env u r)"
    using p count by (auto simp: cancel_vmm_release_def intro!: reg_step.vmm_changed split: option.split)
qed

lemma summary_steps:
  assumes p: "reset_after_fork_if_needed env r = r"
  shows "reg_step 0 0 r (snd (detach_async_releases_for_stream env s r))"
    and "reg_step 0 (summed (fst (complete_async_releases_for_stream_by_device env s r))) r
      (snd (complete_async_releases_for_stream_by_device env s r))"
    and "reg_step 0 (summed (fst (complete_async_releases_for_context_by_device env c r))) r
      (snd (complete_async_releases_for_context_by_device env c r))"
    and "reg_step 0 0 r (snd (device_for_context env c r))"
    and "reg_step 0 (summed (fst (erase_context_by_device env c r))) r (snd (erase_context_by_device env c r))"
proof -
  have none: "summed None = 0" by (simp add: summed_def)
  let ?f = "\<lambda>a. if pending_on_stream s a
    then a\<lparr>al_is_async_release_stream_detached := True, al_pending_stream := no_stream\<rparr> else a"
  have "reg_step 0 0 r (r\<lparr>ar_records := map (\<lambda>(i, a). (i, ?f a)) (ar_records r)\<rparr>)"
    by (rule reg_step.detached) (auto simp: record_ok_def pending_on_stream_def)
  then show "reg_step 0 0 r (snd (detach_async_releases_for_stream env s r))"
    using p by (simp add: detach_async_releases_for_stream_def)
  show "reg_step 0 (summed (fst (complete_async_releases_for_stream_by_device env s r))) r
      (snd (complete_async_releases_for_stream_by_device env s r))"
    using p summaries_step [of _ _ r]
    by (auto simp: complete_async_releases_for_stream_by_device_def none split: option.split)
  show "reg_step 0 (summed (fst (complete_async_releases_for_context_by_device env c r))) r
      (snd (complete_async_releases_for_context_by_device env c r))"
    using p summaries_step [of _ _ r]
    by (auto simp: complete_async_releases_for_context_by_device_def Let_def none split: option.split)
  show "reg_step 0 0 r (snd (device_for_context env c r))"
    using p by (simp add: device_for_context_def)
  show "reg_step 0 (summed (fst (erase_context_by_device env c r))) r (snd (erase_context_by_device env c r))"
    using p summaries_step [of _ _ r] by (auto simp: erase_context_by_device_def none split: option.split)
qed

text \<open>
  The methods that add up without a device may saturate: the number they return is the number of
  bytes erased when what is tracked fits in 64 bits.
\<close>

lemma context_steps:
  assumes p: "reset_after_fork_if_needed env r = r"
  shows "\<exists>k. reg_step 0 k r (snd (complete_async_releases_for_context env c d r)) \<and>
      (tracked r < 2 ^ 64 \<longrightarrow> k = unat (fst (complete_async_releases_for_context env c d r)))"
    and "\<exists>k. reg_step 0 k r (snd (erase_context env c r)) \<and>
      (tracked r < 2 ^ 64 \<longrightarrow> k = unat (fst (erase_context env c r)))"
    and "\<exists>k. reg_step 0 k r (snd (erase_context_device env c d r)) \<and>
      (tracked r < 2 ^ 64 \<longrightarrow> k = unat (fst (erase_context_device env c d r)))"
proof -
  have e: "\<exists>k. reg_step 0 k r (erase_matching P r) \<and> (tracked r < 2 ^ 64 \<longrightarrow> k = unat (erased_bytes P (ar_records r)))" for P
    using reg_step.erased [OF refl, of P r] erased_bytes_exact [of r P] by auto
  have n: "\<exists>k. reg_step 0 k r (mark_accounting_degraded r) \<and> (tracked r < 2 ^ 64 \<longrightarrow> k = 0)" by (rule exI [of _ 0]) simp
  show "\<exists>k. reg_step 0 k r (snd (complete_async_releases_for_context env c d r)) \<and>
      (tracked r < 2 ^ 64 \<longrightarrow> k = unat (fst (complete_async_releases_for_context env c d r)))"
    using p e n by (simp add: complete_async_releases_for_context_def Let_def)
  show "\<exists>k. reg_step 0 k r (snd (erase_context env c r)) \<and>
      (tracked r < 2 ^ 64 \<longrightarrow> k = unat (fst (erase_context env c r)))"
    using p e n by (simp add: erase_context_def)
  show "\<exists>k. reg_step 0 k r (snd (erase_context_device env c d r)) \<and>
      (tracked r < 2 ^ 64 \<longrightarrow> k = unat (fst (erase_context_device env c d r)))"
    using p e n by (simp add: erase_context_device_def Let_def)
qed

lemma exact_step: "reg_step n k r r' \<Longrightarrow> \<exists>k'. reg_step n k' r r' \<and> (tracked r < 2 ^ 64 \<longrightarrow> k' = k)"
  by blast

lemma run_reg_step:
  assumes "reg_inv r" and "reset_after_fork_if_needed (op_env op) r = r"
  shows "\<exists>k. reg_step (recorded_by op r) k r (run_reg op r) \<and> (tracked r < 2 ^ 64 \<longrightarrow> k = released_by op r)"
  using assms by (cases op) (simp_all only: run_reg.simps recorded_by.simps released_by.simps op_env.simps
      begin_steps [THEN exact_step] record_steps [THEN exact_step] end_steps [THEN exact_step]
      summary_steps [THEN exact_step] context_steps)

end
