(* ===== verification/AllocationRegistryHistory.thy ===== *)
theory AllocationRegistryHistory
  imports AllocationRegistryProps
begin

text \<open>
  The laws of the allocation registry over whole histories of calls.
\<close>

section \<open>Histories\<close>

lemma reset_idem [simp]:
  "reset_after_fork_if_needed env (reset_after_fork_if_needed env r) = reset_after_fork_if_needed env r"
  by (simp add: reset_after_fork_if_needed_def Let_def)

lemma reset_inv: "reg_inv r \<Longrightarrow> reg_inv (reset_after_fork_if_needed env r)"
  by (simp add: reset_after_fork_if_needed_def Let_def reg_inv_def)

lemma lock_reset: "with_lock env x body (reset_after_fork_if_needed env r) = with_lock env x body r"
  by (simp add: with_lock_def)

lemmas reg_method_defs =
  registry_record_def record_vmm_def retain_vmm_handle_def begin_release_def begin_release_by_pointer_def
  begin_async_release_def begin_async_release_by_pointer_def begin_vmm_release_def begin_vmm_release_by_handle_def
  complete_release_def complete_vmm_release_def commit_async_release_def cancel_release_def cancel_vmm_release_def
  detach_async_releases_for_stream_def complete_async_releases_for_stream_by_device_def
  complete_async_releases_for_context_def complete_async_releases_for_context_by_device_def device_for_context_def
  erase_context_by_device_def erase_context_def erase_context_device_def

lemma run_reg_reset: "run_reg op (reset_after_fork_if_needed (op_env op) r) = run_reg op r"
  by (cases op) (simp_all add: reg_method_defs lock_reset)

lemma new_reg_inv: "reg_inv (AllocationRegistry_new env)"
  by (simp add: reg_inv_def AllocationRegistry_new_def)

lemma run_reg_inv:
  assumes "reg_inv r"
  shows "reg_inv (run_reg op r)"
proof -
  have "reg_inv (run_reg op (reset_after_fork_if_needed (op_env op) r))"
    using run_reg_step [OF reset_inv [OF assms], of op "op_env op"] reg_step_inv reset_inv [OF assms] by fastforce
  then show ?thesis by (simp add: run_reg_reset)
qed

lemma reg_history_inv: "reg_inv r \<Longrightarrow> reg_inv (fold run_reg ops r)"
  by (induction ops arbitrary: r) (simp_all add: run_reg_inv)

lemma same_process_reset: "re_process env = ar_process_id r \<Longrightarrow> reset_after_fork_if_needed env r = r"
  by (simp add: reset_after_fork_if_needed_def)

lemma run_reg_process:
  "re_process (op_env op) = ar_process_id r \<Longrightarrow> ar_process_id (run_reg op r) = ar_process_id r"
  by (cases op)
    (auto simp: reg_method_defs same_process_reset set_record_def set_vmm_def begin_record_def begin_async_record_def
      begin_vmm_record_def mark_accounting_degraded_def erase_matching_def Let_def split: option.split)

text \<open>The bytes recorded and released over a history, and the states it goes through.\<close>

fun recorded_in :: "reg_op list \<Rightarrow> AllocationRegistry \<Rightarrow> nat" where
  "recorded_in [] r = 0"
| "recorded_in (op # ops) r = recorded_by op r + recorded_in ops (run_reg op r)"

fun released_in :: "reg_op list \<Rightarrow> AllocationRegistry \<Rightarrow> nat" where
  "released_in [] r = 0"
| "released_in (op # ops) r = released_by op r + released_in ops (run_reg op r)"

fun reg_states :: "reg_op list \<Rightarrow> AllocationRegistry \<Rightarrow> AllocationRegistry list" where
  "reg_states [] r = [r]"
| "reg_states (op # ops) r = r # reg_states ops (run_reg op r)"

definition one_process :: "int \<Rightarrow> reg_op list \<Rightarrow> bool" where
  "one_process pid ops \<longleftrightarrow> list_all (\<lambda>op. re_process (op_env op) = pid) ops"

lemma history_conserves:
  assumes "reg_inv r" and "one_process (ar_process_id r) ops" and "list_all (\<lambda>n. n < 2 ^ 64) (map tracked (reg_states ops r))"
  shows "tracked r + recorded_in ops r = released_in ops r + tracked (fold run_reg ops r)"
  using assms
proof (induction ops arbitrary: r)
  case (Cons op ops)
  have p: "re_process (op_env op) = ar_process_id r" using Cons.prems(2) by (simp add: one_process_def)
  have "recorded_by op r + tracked r = released_by op r + tracked (run_reg op r)"
    using run_reg_step [OF Cons.prems(1) same_process_reset [OF p]] reg_step_conserves [OF _ Cons.prems(1)] Cons.prems(3)
    by auto
  moreover have "tracked (run_reg op r) + recorded_in ops (run_reg op r) =
      released_in ops (run_reg op r) + tracked (fold run_reg ops (run_reg op r))"
    using Cons.IH [OF run_reg_inv [OF Cons.prems(1)]] Cons.prems(2,3) run_reg_process [OF p] by (simp add: one_process_def)
  ultimately show ?case by simp
qed simp

text \<open>
  C27. Conservation of bytes. In every history of calls within one process, with failing allocations and a
  failing mutex included, the bytes recorded are exactly the bytes the registry has reported as
  released plus the bytes it still tracks: nothing is reported twice and nothing is lost, as long
  as what is tracked at one time fits in 64 bits.
\<close>

theorem registry_conserves_bytes:
  assumes "one_process (re_process env) ops"
    and "list_all (\<lambda>n. n < 2 ^ 64) (map tracked (reg_states ops (AllocationRegistry_new env)))"
  shows "recorded_in ops (AllocationRegistry_new env) =
    released_in ops (AllocationRegistry_new env) + tracked (fold run_reg ops (AllocationRegistry_new env))"
proof -
  have "tracked (AllocationRegistry_new env) = 0" by (simp add: tracked_def AllocationRegistry_new_def)
  then show ?thesis
    using history_conserves [OF new_reg_inv, of env ops] assms by (simp add: AllocationRegistry_new_def)
qed

section \<open>References\<close>

definition references :: "CUmemGenericAllocationHandle \<Rightarrow> AllocationRegistry \<Rightarrow> nat" where
  "references h r = (case map_of (ar_vmm_records r) h of None \<Rightarrow> 0 | Some v \<Rightarrow> unat (vr_reference_count v))"

fun reference_gained :: "CUmemGenericAllocationHandle \<Rightarrow> reg_op \<Rightarrow> AllocationRegistry \<Rightarrow> nat" where
  "reference_gained h (R_record_vmm env i b) r = (if vi_handle i = h \<and> fst (record_vmm env i b r) then 1 else 0)"
| "reference_gained h (R_retain env h') r = (if h' = h \<and> fst (retain_vmm_handle env h' r) then 1 else 0)"
| "reference_gained h _ r = 0"

fun reference_lost :: "CUmemGenericAllocationHandle \<Rightarrow> reg_op \<Rightarrow> AllocationRegistry \<Rightarrow> nat" where
  "reference_lost h (R_complete_vmm env t) r =
     (if vi_handle (vt_identity t) = h \<and> fst (complete_vmm_release env t r) then 1 else 0)"
| "reference_lost h _ r = 0"

fun references_gained :: "CUmemGenericAllocationHandle \<Rightarrow> reg_op list \<Rightarrow> AllocationRegistry \<Rightarrow> nat" where
  "references_gained h [] r = 0"
| "references_gained h (op # ops) r = reference_gained h op r + references_gained h ops (run_reg op r)"

fun references_lost :: "CUmemGenericAllocationHandle \<Rightarrow> reg_op list \<Rightarrow> AllocationRegistry \<Rightarrow> nat" where
  "references_lost h [] r = 0"
| "references_lost h (op # ops) r = reference_lost h op r + references_lost h ops (run_reg op r)"

lemma references_frame [simp]:
  "references h (set_record i a r) = references h r"
  "references h (mark_accounting_degraded r) = references h r"
  "references h (erase_matching P r) = references h r"
  "references h (r\<lparr>ar_records := m\<rparr>) = references h r"
  "references h (set_vmm h' v r) = (if h = h' then unat (vr_reference_count v) else references h r)"
  by (simp_all add: references_def set_record_def mark_accounting_degraded_def erase_matching_def set_vmm_def)

lemma references_deleted:
  "references h (r\<lparr>ar_vmm_records := AList.delete h' (ar_vmm_records r)\<rparr>) = (if h = h' then 0 else references h r)"
  by (simp add: references_def)

lemma references_lookup: "map_of (ar_vmm_records r) h = Some v \<Longrightarrow> references h r = unat (vr_reference_count v)"
  by (simp add: references_def)

lemma begin_references [simp]:
  "references h (snd (begin_record i a r)) = references h r"
  "references h (snd (begin_async_record s i a r)) = references h r"
  "map_of (ar_vmm_records r) h' = Some v \<Longrightarrow> references h (snd (begin_vmm_record h' v r)) = references h r"
  by (simp_all add: begin_record_def begin_async_record_def begin_vmm_record_def references_lookup)

lemma references_changed:
  assumes p: "reset_after_fork_if_needed env r = r"
  shows "references h r + reference_gained h (R_record_vmm env i b) r = references h (run_reg (R_record_vmm env i b) r)"
    and "references h r + reference_gained h (R_retain env h') r = references h (run_reg (R_retain env h') r)"
    and "references h r = references h (run_reg (R_complete_vmm env t) r) + reference_lost h (R_complete_vmm env t) r"
proof -
  show "references h r + reference_gained h (R_record_vmm env i b) r = references h (run_reg (R_record_vmm env i b) r)"
    using p by (auto simp: record_vmm_def references_def [of _ r])
  show "references h r + reference_gained h (R_retain env h') r = references h (run_reg (R_retain env h') r)"
    using p by (auto simp: retain_vmm_handle_def references_lookup unat_Suc_no_wrap split: option.split)
  have dec: "unat (c - 1) + 1 = unat c" if "\<not> c \<le> (1 :: u64)" for c
    using that by (simp add: unat_sub word_le_nat_alt)
  show "references h r = references h (run_reg (R_complete_vmm env t) r) + reference_lost h (R_complete_vmm env t) r"
    using p dec by (auto simp: complete_vmm_release_def references_lookup references_deleted split: option.split)
qed

lemma references_step:
  assumes inv: "reg_inv r" and p: "re_process (op_env op) = ar_process_id r"
  shows "references h r + reference_gained h op r = references h (run_reg op r) + reference_lost h op r"
proof -
  note q = same_process_reset [OF p]
  show ?thesis
  proof (cases op)
    case (R_record_vmm env i b)
    then show ?thesis using references_changed(1) q by simp
  next
    case (R_retain env h')
    then show ?thesis using references_changed(2) q by simp
  next
    case (R_complete_vmm env t)
    then show ?thesis using references_changed(3) [of env r h t] q by simp
  next
    case (R_cancel_vmm env t)
    then show ?thesis using q by (auto simp: cancel_vmm_release_def references_lookup split: option.split)
  qed (use q in \<open>auto simp: reg_method_defs Let_def split: option.split\<close>)
qed

lemma history_references:
  assumes "reg_inv r" and "one_process (ar_process_id r) ops"
  shows "references h r + references_gained h ops r = references h (fold run_reg ops r) + references_lost h ops r"
  using assms
proof (induction ops arbitrary: r)
  case (Cons op ops)
  have p: "re_process (op_env op) = ar_process_id r" using Cons.prems(2) by (simp add: one_process_def)
  show ?case
    using references_step [OF Cons.prems(1) p, of h] Cons.IH [OF run_reg_inv [OF Cons.prems(1)], of op] Cons.prems(2)
      run_reg_process [OF p]
    by (simp add: one_process_def)
qed simp

text \<open>
  C28. Exact reference counts. In every history within one process, the references of a virtual-memory handle
  are the successful recordings and retentions minus the completed releases; and a completed
  release says that it was the last one exactly when no reference is left.
\<close>

theorem vmm_references_exact:
  assumes ops: "one_process (re_process env) ops" and r: "r = fold run_reg ops (AllocationRegistry_new env)"
  shows "references_gained h ops (AllocationRegistry_new env) =
      references h r + references_lost h ops (AllocationRegistry_new env) \<and>
    (fst (complete_vmm_release env' t r) \<longrightarrow>
      (vt_is_last_reference t \<longleftrightarrow> references (vi_handle (vt_identity t)) (snd (complete_vmm_release env' t r)) = 0))"
proof -
  have inv: "reg_inv r" unfolding r by (rule reg_history_inv [OF new_reg_inv])
  have z: "references h (AllocationRegistry_new env) = 0" by (simp add: references_def AllocationRegistry_new_def)
  have dec: "0 < unat (c - 1)" if "\<not> c \<le> (1 :: u64)" for c
    using that by (simp add: unat_sub word_le_nat_alt)
  have "vt_is_last_reference t \<longleftrightarrow> references (vi_handle (vt_identity t)) (snd (complete_vmm_release env' t r)) = 0"
    if "fst (complete_vmm_release env' t r)"
    using that dec
    by (auto simp: complete_vmm_release_def with_lock_def Let_def references_deleted unat_eq_zero split: if_splits option.splits)
  then show ?thesis
    using history_references [OF new_reg_inv, of env ops h] ops z unfolding r by (simp add: AllocationRegistry_new_def)
qed

section \<open>Releases by device\<close>

definition released_exactly ::
  "(AllocationIdentity \<Rightarrow> AllocationRecord \<Rightarrow> bool) \<Rightarrow> AllocationRegistry \<Rightarrow>
   DeviceReleaseSummary list option \<times> AllocationRegistry \<Rightarrow> bool" where
  "released_exactly P r result \<longleftrightarrow>
     (case fst result of
        None \<Rightarrow> ar_records (snd result) = ar_records r
      | Some ss \<Rightarrow>
          distinct (map ds_device ss) \<and>
          (\<forall>d. device_bytes d ss = matching (\<lambda>i a. P i a \<and> ai_device i = d) (ar_records r)) \<and>
          ar_records (snd result) = filter (\<lambda>(i, a). \<not> P i a) (ar_records r))"

lemma released_nothing [simp]:
  "released_exactly P r (None, r)" "released_exactly P r (None, mark_accounting_degraded r)"
  by (simp_all add: released_exactly_def mark_accounting_degraded_def)

lemma released_summaries:
  assumes "device_summaries f P [] (ar_records r) = Some ss"
  shows "released_exactly P r (Some ss, erase_matching P r)" "ss = [] \<Longrightarrow> released_exactly P r (Some ss, r)"
  using summaries_exact [OF assms]
  by (auto simp: released_exactly_def device_bytes_def erase_matching_def intro!: filter_True [symmetric])

text \<open>
  C29. Releases go to the right device. When completing the asynchronous frees of a stream, those of a context, or
  erasing a context returns summaries, there is one summary per device, its bytes are exactly
  those of the matching records on that device, and exactly the matching records are gone; when it
  returns nothing, no record has been touched.
\<close>

theorem summaries_by_device_exact:
  assumes "re_process env = ar_process_id r"
  shows "released_exactly (\<lambda>i a. pending_on_stream s a) r (complete_async_releases_for_stream_by_device env s r) \<and>
    released_exactly (\<lambda>i a. submitted_async a \<and> ai_context i = c) r (complete_async_releases_for_context_by_device env c r) \<and>
    released_exactly (bound_to c) r (erase_context_by_device env c r)"
  using released_summaries [of _ _ r] same_process_reset [OF assms]
  by (simp add: complete_async_releases_for_stream_by_device_def complete_async_releases_for_context_by_device_def
      erase_context_by_device_def Let_def split: option.split)

section \<open>Cancelling a release\<close>

lemma reset_record_same:
  "map_of (ar_records r) i = Some a \<Longrightarrow> set_record i a (set_record i a' r) = r"
  by (cases r) (simp add: set_record_def update_same)

lemma set_record_lookup: "map_of (ar_records (set_record i a r)) i = Some a"
  by (simp add: set_record_def)

lemma reset_vmm_same:
  "map_of (ar_vmm_records r) h = Some v \<Longrightarrow> set_vmm h v (set_vmm h v' r) = r"
  by (cases r) (simp add: set_vmm_def update_same)

lemma idle_again:
  assumes "record_ok a" and "\<not> al_is_releasing a"
  shows "idle_record (a\<lparr>al_is_releasing := True\<rparr>) = a"
    and "idle_record (a\<lparr>al_is_releasing := True, al_is_async_release := True, al_is_async_release_submitted := False,
      al_is_async_release_stream_detached := False, al_pending_stream := s\<rparr>) = a"
  using assms by (cases a; simp add: idle_record_def record_ok_def)+

lemma cancel_record:
  assumes inv: "reg_inv r" and a: "map_of (ar_records r) i = Some a" and env: "reset_after_fork_if_needed env r = r"
    "\<not> re_lock_fails env"
  shows "fst (begin_record i a r) = (Release_kStarted, Some t) \<Longrightarrow> cancel_release env t (snd (begin_record i a r)) = r"
    and "fst (begin_async_record s i a r) = (Release_kStarted, Some t) \<Longrightarrow>
      cancel_release env t (snd (begin_async_record s i a r)) = r"
proof -
  have ok: "record_ok a" using inv list_all_lookup [OF _ a, of record_ok] by (simp add: reg_inv_def)
  have upd: "reset_after_fork_if_needed env (set_record i b r) = set_record i b r" for b
    using env(1) by (cases r) (auto simp: reset_after_fork_if_needed_def set_record_def Let_def split: if_splits)
  show "fst (begin_record i a r) = (Release_kStarted, Some t) \<Longrightarrow> cancel_release env t (snd (begin_record i a r)) = r"
    using idle_again(1) [OF ok] reset_record_same [OF a] env upd
    by (auto simp: begin_record_def cancel_release_def set_record_lookup split: if_splits)
  show "fst (begin_async_record s i a r) = (Release_kStarted, Some t) \<Longrightarrow>
      cancel_release env t (snd (begin_async_record s i a r)) = r"
    using idle_again(2) [OF ok] reset_record_same [OF a] env upd
    by (auto simp: begin_async_record_def cancel_release_def set_record_lookup split: if_splits)
qed

lemma cancel_vmm_record:
  assumes a: "map_of (ar_vmm_records r) h = Some v" and env: "reset_after_fork_if_needed env r = r" "\<not> re_lock_fails env"
    and "fst (begin_vmm_record h v r) = (Release_kStarted, Some t)"
  shows "cancel_vmm_release env t (snd (begin_vmm_record h v r)) = r"
proof -
  have upd: "reset_after_fork_if_needed env (set_vmm h w r) = set_vmm h w r" for w
    using env(1) by (cases r) (auto simp: reset_after_fork_if_needed_def set_vmm_def Let_def split: if_splits)
  have look: "map_of (ar_vmm_records (set_vmm h w r)) h = Some w" for w by (simp add: set_vmm_def)
  have nr: "\<not> vr_is_releasing v" using assms(4) by (simp add: begin_vmm_record_def split: if_splits)
  then have "v\<lparr>vr_is_releasing := False\<rparr> = v" by (cases v) simp
  then have "set_vmm h (v\<lparr>vr_is_releasing := False\<rparr>) (set_vmm h (v\<lparr>vr_is_releasing := True\<rparr>) r) = r"
    by (simp add: reset_vmm_same [OF a])
  then show ?thesis
    using assms(4) nr env upd look by (auto simp: begin_vmm_record_def cancel_vmm_release_def)
qed

text \<open>
  Cancelling undoes beginning. In whatever state the registry has been brought, a release that was begun, by
  identity, by pointer, asynchronously or for a virtual-memory handle, and is then cancelled with
  the ticket it returned, leaves the registry exactly as it was.
\<close>

theorem cancel_undoes_begin:
  assumes r: "r = fold run_reg ops (AllocationRegistry_new env0)"
    and p: "re_process env = ar_process_id r" and lock: "\<not> re_lock_fails env"
  shows "(fst (begin_release env i r) = (Release_kStarted, Some t) \<longrightarrow>
      cancel_release env t (snd (begin_release env i r)) = r) \<and>
    (fst (begin_release_by_pointer env x d r) = (Release_kStarted, Some t) \<longrightarrow>
      cancel_release env t (snd (begin_release_by_pointer env x d r)) = r) \<and>
    (fst (begin_async_release env i s r) = (Release_kStarted, Some t) \<longrightarrow>
      cancel_release env t (snd (begin_async_release env i s r)) = r) \<and>
    (fst (begin_async_release_by_pointer env x d s r) = (Release_kStarted, Some t) \<longrightarrow>
      cancel_release env t (snd (begin_async_release_by_pointer env x d s r)) = r) \<and>
    (fst (begin_vmm_release env v r) = (Release_kStarted, Some u) \<longrightarrow>
      cancel_vmm_release env u (snd (begin_vmm_release env v r)) = r) \<and>
    (fst (begin_vmm_release_by_handle env h r) = (Release_kStarted, Some u) \<longrightarrow>
      cancel_vmm_release env u (snd (begin_vmm_release_by_handle env h r)) = r)"
proof -
  have inv: "reg_inv r" unfolding r by (rule reg_history_inv [OF new_reg_inv])
  note q = same_process_reset [OF p]
  note C = cancel_record [OF inv _ q lock] cancel_vmm_record [OF _ q lock] candidate_found [OF inv]
  show ?thesis
    using q lock C
    by (simp add: begin_release_def begin_release_by_pointer_def begin_async_release_def begin_async_release_by_pointer_def
        begin_vmm_release_def begin_vmm_release_by_handle_def split: option.split)
qed

section \<open>A concrete history\<close>

text \<open>
  Two allocations on two devices and a handle with two references; one allocation is freed, the
  other freed asynchronously on a stream, and one reference is given back.
\<close>

definition demo_reg_env :: registry_env where
  "demo_reg_env = \<lparr>re_process = 7, re_lock_fails = False, re_node_fails = False, re_push_fails = (\<lambda>n. False),
     re_mutex_fails = False\<rparr>"

definition demo_identity :: "u64 \<Rightarrow> int \<Rightarrow> AllocationIdentity" where
  "demo_identity p d = \<lparr>ai_device_pointer = p, ai_context = 1, ai_device = d\<rparr>"

definition demo_stream :: AsyncStreamIdentity where
  "demo_stream = \<lparr>as_stream = 4, as_context = 1, as_per_thread_default_stream = False, as_thread_id = 0\<rparr>"

definition demo_setup :: "reg_op list" where
  "demo_setup =
     [R_record demo_reg_env (demo_identity 16 0) 100 Scope_kContextBound,
      R_record demo_reg_env (demo_identity 32 1) 50 Scope_kContextBound,
      R_record_vmm demo_reg_env \<lparr>vi_handle = 5, vi_device = 0\<rparr> 30,
      R_retain demo_reg_env 5]"

definition demo_ticket :: ReleaseTicket where
  "demo_ticket = \<lparr>rt_identity = demo_identity 16 0, rt_memory_bytes = 100, rt_stream = no_stream\<rparr>"

definition demo_releases :: "reg_op list" where
  "demo_releases =
     [R_begin demo_reg_env (demo_identity 16 0), R_complete demo_reg_env demo_ticket,
      R_begin_async demo_reg_env (demo_identity 32 1) demo_stream,
      R_commit demo_reg_env \<lparr>rt_identity = demo_identity 32 1, rt_memory_bytes = 50, rt_stream = demo_stream\<rparr>,
      R_complete_stream demo_reg_env demo_stream, R_begin_vmm_handle demo_reg_env 5,
      R_complete_vmm demo_reg_env \<lparr>vt_identity = \<lparr>vi_handle = 5, vi_device = 0\<rparr>, vt_memory_bytes = 30,
        vt_is_last_reference = False\<rparr>]"

theorem registry_conserves_bytes_witness:
  "recorded_in (demo_setup @ demo_releases) (AllocationRegistry_new demo_reg_env) = 180 \<and>
   released_in (demo_setup @ demo_releases) (AllocationRegistry_new demo_reg_env) = 150 \<and>
   tracked (fold run_reg (demo_setup @ demo_releases) (AllocationRegistry_new demo_reg_env)) = 30"
proof -
  let ?ops = "demo_setup @ demo_releases" and ?r = "AllocationRegistry_new demo_reg_env"
  have p: "one_process (re_process demo_reg_env) ?ops" by code_simp
  have t: "map tracked (reg_states ?ops ?r) = [0, 100, 150, 180, 180, 180, 80, 80, 80, 30, 30, 30]" by code_simp
  have n: "recorded_in ?ops ?r = 180" "tracked (fold run_reg ?ops ?r) = 30" by code_simp+
  show ?thesis using registry_conserves_bytes [OF p] n unfolding t by simp
qed

theorem vmm_references_exact_witness:
  "references_gained 5 (demo_setup @ demo_releases) (AllocationRegistry_new demo_reg_env) = 2 \<and>
   references_lost 5 (demo_setup @ demo_releases) (AllocationRegistry_new demo_reg_env) = 1 \<and>
   references 5 (fold run_reg (demo_setup @ demo_releases) (AllocationRegistry_new demo_reg_env)) = 1"
proof -
  let ?ops = "demo_setup @ demo_releases" and ?r = "AllocationRegistry_new demo_reg_env"
  have p: "one_process (re_process demo_reg_env) ?ops" by code_simp
  have n: "references_gained 5 ?ops ?r = 2" "references_lost 5 ?ops ?r = 1" by code_simp+
  show ?thesis using vmm_references_exact [OF p refl, of 5] n by simp
qed

theorem summaries_by_device_exact_witness:
  "fst (erase_context_by_device demo_reg_env 1 (fold run_reg demo_setup (AllocationRegistry_new demo_reg_env))) =
     Some [\<lparr>ds_device = 0, ds_memory_bytes = 100\<rparr>, \<lparr>ds_device = 1, ds_memory_bytes = 50\<rparr>] \<and>
   released_exactly (bound_to 1) (fold run_reg demo_setup (AllocationRegistry_new demo_reg_env))
     (erase_context_by_device demo_reg_env 1 (fold run_reg demo_setup (AllocationRegistry_new demo_reg_env)))"
proof -
  let ?r = "fold run_reg demo_setup (AllocationRegistry_new demo_reg_env)"
  have p: "re_process demo_reg_env = ar_process_id ?r" by code_simp
  have "fst (erase_context_by_device demo_reg_env 1 ?r) =
     Some [\<lparr>ds_device = 0, ds_memory_bytes = 100\<rparr>, \<lparr>ds_device = 1, ds_memory_bytes = 50\<rparr>]" by code_simp
  then show ?thesis using summaries_by_device_exact [OF p] by blast
qed

theorem cancel_undoes_begin_witness:
  "cancel_release demo_reg_env demo_ticket
     (snd (begin_release demo_reg_env (demo_identity 16 0) (fold run_reg demo_setup (AllocationRegistry_new demo_reg_env)))) =
   fold run_reg demo_setup (AllocationRegistry_new demo_reg_env)"
proof -
  let ?r = "fold run_reg demo_setup (AllocationRegistry_new demo_reg_env)"
  have p: "re_process demo_reg_env = ar_process_id ?r" "\<not> re_lock_fails demo_reg_env" by code_simp+
  have "fst (begin_release demo_reg_env (demo_identity 16 0) ?r) = (Release_kStarted, Some demo_ticket)" by code_simp
  then show ?thesis using cancel_undoes_begin [OF refl p] by blast
qed

end
