(* ===== verification/ExecutionAdmission.thy ===== *)
theory ExecutionAdmission
  imports TaskAdmission
begin

text \<open>
  The admission service for executions that stop and continue,
  \<^verbatim>\<open>src/src/control/internal/execution_admission_state.cc\<close> with
  \<^verbatim>\<open>execution_cooperative_admission.cc\<close> and \<^verbatim>\<open>execution_native_epoch_admission.cc\<close>, and its owner
  \<^verbatim>\<open>src/src/control/task_execution_admission.cc\<close>. It extends the lease service by cooperative leases,
  which an execution gives up and takes again under a new dispatch generation, and by native
  epochs, whose grant is handed out once. Every method takes the admission mutex. Clock readings
  and caught failures are in the environment, as for the lease service: \<open>at_lease\<close> is the first
  reading of a method, \<open>at_retry\<close> the second. The public class only forwards each call to this state.
\<close>

section \<open>Data\<close>

record TaskExecutionIdentity =
  xi_task_id :: TaskId
  xi_generation :: u64

record NativeEpochExtent =
  max_calls :: u32
  calls_per_prefix :: u32
  max_pending_prefixes :: u32
  acceptance_microseconds :: u32

record NativeEpochGrant =
  ng_execution :: TaskExecutionIdentity
  ng_extent :: NativeEpochExtent
  ng_acceptance_deadline_nanoseconds :: u64

definition valid_native_epoch_extent :: "NativeEpochExtent \<Rightarrow> bool" where
  "valid_native_epoch_extent e \<longleftrightarrow>
     max_calls e \<noteq> 0 \<and> max_calls e \<le> 65536 \<and> calls_per_prefix e \<noteq> 0 \<and>
     calls_per_prefix e \<le> max_calls e \<and> max_pending_prefixes e \<noteq> 0 \<and> max_pending_prefixes e \<le> 16 \<and>
     acceptance_microseconds e \<noteq> 0 \<and> acceptance_microseconds e \<le> 1000000"

record ExecutionLease =
  xl_deadline :: time_ns
  xl_submitted_at :: time_ns
  xl_started_at :: time_ns
  xl_reaping :: bool
  xl_owner :: "TaskPeerIdentity option"
  xl_is_cooperative :: bool
  xl_queued_at :: time_ns
  xl_queue_wait_microseconds :: u64
  xl_service_time_microseconds :: u64
  xl_native_epoch :: "NativeEpochExtent option"
  xl_acceptance_deadline_nanoseconds :: u64

record ExecutionAdmissionState =
  xa_scheduler :: Scheduler
  xa_lease_timeout :: int
  xa_bind_leases_to_process :: bool
  xa_native_epoch_policy :: "NativeEpochExtent option"
  xa_dispatch_observer :: bool
  xa_completion_observer :: bool
  xa_state_generation :: u64
  xa_active_leases :: "(TaskId \<times> ExecutionLease) list"
  xa_pending_leases :: "(TaskId \<times> ExecutionLease) list"
  xa_observations :: "observation list"

record exec_env = adm_env +
  env_suspend_fails :: bool

datatype AdmissionKind = Admission_kLegacy | Admission_kCooperative | Admission_kNative

record TaskExecutionLeaseStatus =
  ls_queued_tasks :: size_t
  ls_running_tasks :: nat
  ls_pending_legacy :: nat
  ls_pending_cooperative :: nat
  ls_pending_native :: nat
  ls_active_legacy :: nat
  ls_active_cooperative :: nat
  ls_active_native :: nat
  ls_reaping :: nat

section \<open>Helpers\<close>

definition add_duration :: "u64 \<Rightarrow> u64 \<Rightarrow> u64" where
  "add_duration accumulated duration =
     (if duration > u64_max - accumulated then u64_max else accumulated + duration)"

definition ExecutionAdmissionState_new ::
  "Scheduler \<Rightarrow> int \<Rightarrow> bool \<Rightarrow> bool \<Rightarrow> bool \<Rightarrow> NativeEpochExtent option \<Rightarrow> ExecutionAdmissionState" where
  "ExecutionAdmissionState_new s timeout bound dobs cobs epoch_policy =
     \<lparr>xa_scheduler = s, xa_lease_timeout = (if timeout > 0 then timeout else 0),
      xa_bind_leases_to_process = bound, xa_native_epoch_policy = epoch_policy, xa_dispatch_observer = dobs,
      xa_completion_observer = cobs, xa_state_generation = 0, xa_active_leases = [], xa_pending_leases = [],
      xa_observations = []\<rparr>"

definition TaskExecutionAdmissionService_new ::
  "MemoryBytes \<Rightarrow> SchedulerOptions \<Rightarrow> int \<Rightarrow> bool \<Rightarrow> bool \<Rightarrow> bool \<Rightarrow> NativeEpochExtent option \<Rightarrow> ExecutionAdmissionState" where
  "TaskExecutionAdmissionService_new limit opts timeout bound dobs cobs epoch_policy =
     ExecutionAdmissionState_new (Scheduler_new limit opts) timeout bound dobs cobs epoch_policy"

definition x_notify :: "ExecutionAdmissionState \<Rightarrow> ExecutionAdmissionState" where
  "x_notify x =
     (if xa_state_generation x \<noteq> u64_max then x\<lparr>xa_state_generation := xa_state_generation x + 1\<rparr> else x)"

definition x_owner_matches ::
  "ExecutionAdmissionState \<Rightarrow> ExecutionLease \<Rightarrow> TaskPeerIdentity option \<Rightarrow> bool" where
  "x_owner_matches x l p =
     (if \<not> xa_bind_leases_to_process x then True
      else valid_peer_identity p \<and> valid_peer_identity (xl_owner l) \<and> p = xl_owner l)"

definition x_pending_owner_matches ::
  "ExecutionAdmissionState \<Rightarrow> TaskId \<Rightarrow> TaskPeerIdentity option \<Rightarrow> bool" where
  "x_pending_owner_matches x i p =
     (if \<not> xa_bind_leases_to_process x then True
      else (case map_of (xa_pending_leases x) i of
        None \<Rightarrow> False
      | Some l \<Rightarrow> \<not> xl_reaping l \<and> x_owner_matches x l p))"

definition x_tracks_leases :: "ExecutionAdmissionState \<Rightarrow> bool" where
  "x_tracks_leases x \<longleftrightarrow> xa_bind_leases_to_process x \<or> xa_lease_timeout x \<noteq> 0 \<or> xa_completion_observer x"

definition x_deadline_from :: "ExecutionAdmissionState \<Rightarrow> time_ns \<Rightarrow> time_ns" where
  "x_deadline_from x t = (if xa_lease_timeout x = 0 then time_point_max else t + milliseconds (xa_lease_timeout x))"

text \<open>The assignments to the scheduler and to the two maps.\<close>

definition x_set_scheduler :: "Scheduler \<Rightarrow> ExecutionAdmissionState \<Rightarrow> ExecutionAdmissionState" where
  "x_set_scheduler s x = x\<lparr>xa_scheduler := s\<rparr>"

definition x_put_active :: "TaskId \<Rightarrow> ExecutionLease \<Rightarrow> ExecutionAdmissionState \<Rightarrow> ExecutionAdmissionState" where
  "x_put_active i l x = x\<lparr>xa_active_leases := AList.update i l (xa_active_leases x)\<rparr>"

definition x_put_pending :: "TaskId \<Rightarrow> ExecutionLease \<Rightarrow> ExecutionAdmissionState \<Rightarrow> ExecutionAdmissionState" where
  "x_put_pending i l x = x\<lparr>xa_pending_leases := AList.update i l (xa_pending_leases x)\<rparr>"

definition x_erase_active :: "TaskId \<Rightarrow> ExecutionAdmissionState \<Rightarrow> ExecutionAdmissionState" where
  "x_erase_active i x = x\<lparr>xa_active_leases := AList.delete i (xa_active_leases x)\<rparr>"

definition x_erase_pending :: "TaskId \<Rightarrow> ExecutionAdmissionState \<Rightarrow> ExecutionAdmissionState" where
  "x_erase_pending i x = x\<lparr>xa_pending_leases := AList.delete i (xa_pending_leases x)\<rparr>"

definition x_find :: "TaskId \<Rightarrow> ExecutionAdmissionState \<Rightarrow> TaskSnapshot option" where
  "x_find i x = Scheduler_find i (xa_scheduler x)"

definition x_stats :: "ExecutionAdmissionState \<Rightarrow> SchedulerStats" where
  "x_stats x = Scheduler_stats (xa_scheduler x)"

text \<open>The lease of a task is cooperative, in whichever map it is.\<close>

definition cooperative_in :: "(TaskId \<times> ExecutionLease) list \<Rightarrow> TaskId \<Rightarrow> bool" where
  "cooperative_in m i \<longleftrightarrow> (case map_of m i of None \<Rightarrow> False | Some l \<Rightarrow> xl_is_cooperative l)"

definition is_cooperative_task :: "ExecutionAdmissionState \<Rightarrow> TaskId \<Rightarrow> bool" where
  "is_cooperative_task x i \<longleftrightarrow> cooperative_in (xa_active_leases x) i \<or> cooperative_in (xa_pending_leases x) i"

section \<open>Observers\<close>

definition x_observe_dispatch :: "exec_env \<Rightarrow> TaskSnapshot \<Rightarrow> ExecutionAdmissionState \<Rightarrow> ExecutionAdmissionState" where
  "x_observe_dispatch env sn x =
     (if \<not> xa_dispatch_observer x \<or> env_observation_fails env then x
      else x\<lparr>xa_observations := xa_observations x @
             [Dispatched \<lparr>dobs_task = sn, dobs_sequence = snap_dispatch_sequence sn,
                dispatched_at_nanoseconds =
                  (if at_observer env \<le> 0 then 0 else word_of_int (at_observer env))\<rparr>]\<rparr>)"

definition x_observe_completion ::
  "exec_env \<Rightarrow> TaskSnapshot \<Rightarrow> TaskState \<Rightarrow> ExecutionLease option \<Rightarrow> ExecutionAdmissionState \<Rightarrow> ExecutionAdmissionState" where
  "x_observe_completion env sn terminal lease x =
     (if \<not> xa_completion_observer x \<or> env_observation_fails env then x
      else x\<lparr>xa_observations := xa_observations x @
             [Completed \<lparr>cobs_task = sn, cobs_terminal_state = terminal,
                queue_wait_microseconds =
                  (case lease of
                     None \<Rightarrow> 0
                   | Some l \<Rightarrow> add_duration (xl_queue_wait_microseconds l)
                       (if xl_started_at l = 0 then elapsed_microseconds (xl_queued_at l) (at_observer env) else 0)),
                service_time_microseconds =
                  (case lease of
                     None \<Rightarrow> 0
                   | Some l \<Rightarrow> add_duration (xl_service_time_microseconds l)
                       (elapsed_microseconds (xl_started_at l) (at_observer env)))\<rparr>]\<rparr>)"

definition stop_lease_timing :: "time_ns \<Rightarrow> ExecutionLease \<Rightarrow> ExecutionLease" where
  "stop_lease_timing now l =
     l\<lparr>xl_service_time_microseconds :=
         add_duration (xl_service_time_microseconds l) (elapsed_microseconds (xl_started_at l) now),
       xl_started_at := 0, xl_queued_at := now\<rparr>"

section \<open>Submission and cancellation\<close>

definition x_submit_aborted ::
  "exec_env \<Rightarrow> TaskId \<Rightarrow> ExecutionAdmissionState \<Rightarrow> SubmitResult \<times> ExecutionAdmissionState" where
  "x_submit_aborted env i x =
     (\<lparr>sr_status = SubmitStatus_kInternalError, sr_task_id = i\<rparr>,
      x_notify (x_set_scheduler (snd (Scheduler_cancel (at_scheduler env) i (xa_scheduler x))) x))"

definition pending_lease ::
  "exec_env \<Rightarrow> ExecutionAdmissionState \<Rightarrow> TaskPeerIdentity option \<Rightarrow> AdmissionKind \<Rightarrow> NativeEpochExtent option \<Rightarrow> ExecutionLease" where
  "pending_lease env x peer kind extent =
     \<lparr>xl_deadline = x_deadline_from x (at_lease env), xl_submitted_at = at_lease env, xl_started_at = 0,
      xl_reaping = False, xl_owner = peer, xl_is_cooperative = (kind \<noteq> Admission_kLegacy), xl_queued_at = 0,
      xl_queue_wait_microseconds = 0, xl_service_time_microseconds = 0, xl_native_epoch = extent,
      xl_acceptance_deadline_nanoseconds = 0\<rparr>"

definition submit_impl ::
  "exec_env \<Rightarrow> (TaskId \<Rightarrow> bool) option \<Rightarrow> TaskAdmissionRequest \<Rightarrow> TaskPeerIdentity option \<Rightarrow>
   NativeEpochExtent option \<Rightarrow> AdmissionKind \<Rightarrow> ExecutionAdmissionState \<Rightarrow> SubmitResult \<times> ExecutionAdmissionState" where
  "submit_impl env registrar req peer extent kind x =
     (case registrar of
        None \<Rightarrow> (submit_failed SubmitStatus_kInternalError, x)
      | Some register \<Rightarrow>
          if xa_bind_leases_to_process x \<and> \<not> valid_peer_identity peer
          then (submit_failed SubmitStatus_kInvalidTask, x)
          else if kind \<noteq> Admission_kLegacy \<and> (\<not> xa_bind_leases_to_process x \<or> \<not> valid_peer_identity peer) \<or>
            (kind = Admission_kNative) \<noteq> (extent \<noteq> None)
          then (submit_failed SubmitStatus_kInvalidTask, x)
          else
            let (admission, s) = Scheduler_submit (env_submit_fault env) (at_scheduler env) (request_spec req)
                                   (xa_scheduler x);
                i = sr_task_id admission;
                x1 = x_set_scheduler s x
            in if \<not> accepted admission then (admission, x1)
               else
                 let (recorded, x2) =
                   (if \<not> x_tracks_leases x1 then (True, x1)
                    else if env_lease_fails env \<or> map_of (xa_pending_leases x1) i \<noteq> None then (False, x1)
                    else (True, x_put_pending i (pending_lease env x1 peer kind extent) x1))
                 in if \<not> recorded then x_submit_aborted env i x2
                    else if register i then (admission, x2)
                    else x_submit_aborted env i (x_erase_pending i x2))"

definition x_submit ::
  "exec_env \<Rightarrow> (TaskId \<Rightarrow> bool) option \<Rightarrow> TaskAdmissionRequest \<Rightarrow> TaskPeerIdentity option \<Rightarrow>
   ExecutionAdmissionState \<Rightarrow> SubmitResult \<times> ExecutionAdmissionState" where
  "x_submit env registrar req peer x = submit_impl env registrar req peer None Admission_kLegacy x"

definition submit_cooperative ::
  "exec_env \<Rightarrow> (TaskId \<Rightarrow> bool) option \<Rightarrow> TaskAdmissionRequest \<Rightarrow> TaskPeerIdentity option \<Rightarrow>
   ExecutionAdmissionState \<Rightarrow> SubmitResult \<times> ExecutionAdmissionState" where
  "submit_cooperative env registrar req peer x = submit_impl env registrar req peer None Admission_kCooperative x"

definition x_cancel :: "exec_env \<Rightarrow> TaskId \<Rightarrow> ExecutionAdmissionState \<Rightarrow> bool \<times> ExecutionAdmissionState" where
  "x_cancel env i x =
     (if is_cooperative_task x i then (False, x)
      else (case Scheduler_cancel (at_scheduler env) i (xa_scheduler x) of
        (cancelled, s) \<Rightarrow>
          (cancelled,
           if cancelled then x_notify (x_erase_pending i (x_erase_active i (x_set_scheduler s x)))
           else x_set_scheduler s x)))"

definition forget_terminal :: "TaskId \<Rightarrow> ExecutionAdmissionState \<Rightarrow> bool \<times> ExecutionAdmissionState" where
  "forget_terminal i x =
     (if map_of (xa_active_leases x) i \<noteq> None \<or> map_of (xa_pending_leases x) i \<noteq> None then (False, x)
      else (case Scheduler_forget i (xa_scheduler x) of (forgot, s) \<Rightarrow> (forgot, x_set_scheduler s x)))"

definition x_cancel_queued ::
  "TaskId \<Rightarrow> TaskPeerIdentity option \<Rightarrow> ExecutionAdmissionState \<Rightarrow> bool \<times> ExecutionAdmissionState" where
  "x_cancel_queued i peer x =
     (let pending = map_of (xa_pending_leases x) i in
      if xa_bind_leases_to_process x \<and> (case pending of None \<Rightarrow> True | Some l \<Rightarrow> \<not> x_owner_matches x l peer)
      then (False, x)
      else if cooperative_in (xa_pending_leases x) i then (False, x)
      else (case Scheduler_cancel_queued i (xa_scheduler x) of
        (cancelled, s) \<Rightarrow>
          (cancelled,
           if cancelled then x_notify (x_erase_pending i (x_set_scheduler s x)) else x_set_scheduler s x)))"

section \<open>Claims\<close>

definition x_lease_refused ::
  "exec_env \<Rightarrow> TaskId \<Rightarrow> ExecutionAdmissionState \<Rightarrow> TaskSnapshot option \<times> ExecutionAdmissionState" where
  "x_lease_refused env i x =
     (None, x_notify (x_set_scheduler (snd (Scheduler_fail (at_scheduler env) i (xa_scheduler x))) x))"

definition x_pending_invalid ::
  "ExecutionAdmissionState \<Rightarrow> TaskId \<Rightarrow> TaskPeerIdentity option \<Rightarrow> bool" where
  "x_pending_invalid x i peer \<longleftrightarrow>
     xa_bind_leases_to_process x \<and>
     (case map_of (xa_pending_leases x) i of
        None \<Rightarrow> True
      | Some l \<Rightarrow> xl_reaping l \<or> \<not> x_owner_matches x l peer)"

text \<open>The active lease made from a pending one, if there is one.\<close>

definition active_lease ::
  "exec_env \<Rightarrow> ExecutionAdmissionState \<Rightarrow> TaskPeerIdentity option \<Rightarrow> ExecutionLease option \<Rightarrow> ExecutionLease" where
  "active_lease env x peer pending =
     (let submitted_at = (case pending of None \<Rightarrow> 0 | Some l \<Rightarrow> xl_submitted_at l);
          queued_at = (case pending of None \<Rightarrow> 0
                       | Some l \<Rightarrow> if xl_queued_at l = 0 then submitted_at else xl_queued_at l);
          waited = (case pending of None \<Rightarrow> 0 | Some l \<Rightarrow> xl_queue_wait_microseconds l);
          served = (case pending of None \<Rightarrow> 0 | Some l \<Rightarrow> xl_service_time_microseconds l);
          started_at = at_lease env
      in \<lparr>xl_deadline = x_deadline_from x started_at, xl_submitted_at = submitted_at, xl_started_at = started_at,
          xl_reaping = False, xl_owner = peer,
          xl_is_cooperative = (case pending of None \<Rightarrow> False | Some l \<Rightarrow> xl_is_cooperative l), xl_queued_at = 0,
          xl_queue_wait_microseconds = add_duration waited (elapsed_microseconds queued_at started_at),
          xl_service_time_microseconds = served,
          xl_native_epoch = (case pending of None \<Rightarrow> None | Some l \<Rightarrow> xl_native_epoch l),
          xl_acceptance_deadline_nanoseconds = 0\<rparr>)"

definition x_record_lease ::
  "exec_env \<Rightarrow> TaskSnapshot option \<Rightarrow> TaskPeerIdentity option \<Rightarrow> ExecutionAdmissionState \<Rightarrow>
   TaskSnapshot option \<times> ExecutionAdmissionState" where
  "x_record_lease env snapshot peer x =
     (case snapshot of
        None \<Rightarrow> (None, x)
      | Some sn \<Rightarrow>
          if \<not> x_tracks_leases x then (Some sn, x)
          else
            let i = snap_task_id sn;
                pending = map_of (xa_pending_leases x) i;
                x1 = x_erase_pending i x
            in if x_pending_invalid x i peer then x_lease_refused env i x1
               else if \<not> xa_bind_leases_to_process x1 \<and> map_of (xa_active_leases x1) i \<noteq> None then (Some sn, x1)
               else if env_lease_fails env then x_lease_refused env i x1
               else if map_of (xa_active_leases x1) i \<noteq> None
               then (if \<not> xa_bind_leases_to_process x1 then (Some sn, x1) else x_lease_refused env i x1)
               else (Some sn, x_put_active i (active_lease env x1 peer pending) x1))"

definition x_announce ::
  "exec_env \<Rightarrow> TaskSnapshot option \<times> ExecutionAdmissionState \<Rightarrow> TaskSnapshot option \<times> ExecutionAdmissionState" where
  "x_announce env r =
     (case r of
        (None, x) \<Rightarrow> (None, x)
      | (Some sn, x) \<Rightarrow> (Some sn, x_notify (x_observe_dispatch env sn x)))"

definition x_claim_next ::
  "exec_env \<Rightarrow> TaskPeerIdentity option \<Rightarrow> ExecutionAdmissionState \<Rightarrow> TaskSnapshot option \<times> ExecutionAdmissionState" where
  "x_claim_next env peer x =
     (if xa_bind_leases_to_process x then (None, x)
      else (case Scheduler_dispatch_next (env_dispatch_fault env) (at_scheduler env) (xa_scheduler x) of
        (r, s) \<Rightarrow> x_announce env (x_record_lease env r peer (x_set_scheduler s x))))"

text \<open>Dispatch this task if it is next, and record its lease.\<close>

definition dispatch_and_record ::
  "exec_env \<Rightarrow> TaskId \<Rightarrow> TaskPeerIdentity option \<Rightarrow> ExecutionAdmissionState \<Rightarrow>
   TaskSnapshot option \<times> ExecutionAdmissionState" where
  "dispatch_and_record env i peer x =
     (case Scheduler_dispatch_task (env_dispatch_fault env) (at_scheduler env) i (xa_scheduler x) of
        (r, s) \<Rightarrow> x_record_lease env r peer (x_set_scheduler s x))"

definition x_running_visible ::
  "ExecutionAdmissionState \<Rightarrow> TaskId \<Rightarrow> TaskPeerIdentity option \<Rightarrow> bool" where
  "x_running_visible x i peer \<longleftrightarrow>
     (case map_of (xa_active_leases x) i of None \<Rightarrow> False | Some l \<Rightarrow> x_owner_matches x l peer) \<or>
     \<not> xa_bind_leases_to_process x \<and> xa_lease_timeout x = 0"

definition x_claim ::
  "exec_env \<Rightarrow> TaskId \<Rightarrow> TaskPeerIdentity option \<Rightarrow> ExecutionAdmissionState \<Rightarrow>
   TaskSnapshot option \<times> ExecutionAdmissionState" where
  "x_claim env i peer x =
     (if i = 0 \<or> xa_bind_leases_to_process x \<and> \<not> valid_peer_identity peer then (None, x)
      else if is_cooperative_task x i then (None, x)
      else
        let existing = x_find i x
        in if map_option snap_state existing = Some TaskState_kRunning
           then (if x_running_visible x i peer then existing else None, x)
           else if \<not> x_pending_owner_matches x i peer then (None, x)
           else x_announce env (dispatch_and_record env i peer x))"

text \<open>One round of the loop of \<open>wait_claim\<close>: \<open>Some r\<close> is the value it returns.\<close>

definition x_wait_attempt ::
  "exec_env \<Rightarrow> TaskId \<Rightarrow> TaskPeerIdentity option \<Rightarrow> ExecutionAdmissionState \<Rightarrow>
   TaskSnapshot option option \<times> ExecutionAdmissionState" where
  "x_wait_attempt env i peer x =
     (if is_cooperative_task x i then (Some None, x)
      else case x_find i x of
        None \<Rightarrow> (Some None, x)
      | Some sn \<Rightarrow>
          if snap_state sn = TaskState_kRunning
          then (Some (if x_running_visible x i peer then Some sn else None), x)
          else if snap_state sn \<noteq> TaskState_kQueued then (Some None, x)
          else if \<not> x_pending_owner_matches x i peer then (Some None, x)
          else (case x_announce env (dispatch_and_record env i peer x) of
            (None, x1) \<Rightarrow> (None, x1)
          | (Some sn1, x1) \<Rightarrow> (Some (Some sn1), x1)))"

record exec_wait_round =
  xw_before :: "ExecutionAdmissionState \<Rightarrow> ExecutionAdmissionState"
  xw_env :: exec_env
  xw_clock_after :: time_ns
  xw_while_waiting :: "ExecutionAdmissionState \<Rightarrow> ExecutionAdmissionState"

fun x_wait_claim_loop ::
  "exec_wait_round list \<Rightarrow> time_ns \<Rightarrow> TaskId \<Rightarrow> TaskPeerIdentity option \<Rightarrow> ExecutionAdmissionState \<Rightarrow>
   TaskSnapshot option option \<times> ExecutionAdmissionState" where
  "x_wait_claim_loop [] deadline i peer x = (None, x)"
| "x_wait_claim_loop (r # rs) deadline i peer x =
     (let observed_generation = xa_state_generation x in
      case x_wait_attempt (xw_env r) i peer (xw_before r x) of
        (Some result, x1) \<Rightarrow> (Some result, x1)
      | (None, x1) \<Rightarrow>
          if deadline \<noteq> time_point_max \<and> xw_clock_after r \<ge> deadline then (Some None, x1)
          else
            let x2 = xw_while_waiting r x1
            in if xa_state_generation x2 \<noteq> observed_generation then x_wait_claim_loop rs deadline i peer x2
               else if deadline = time_point_max then (None, x2)
               else (Some None, x2))"

definition x_wait_claim ::
  "exec_wait_round list \<Rightarrow> time_ns \<Rightarrow> TaskId \<Rightarrow> int \<Rightarrow> TaskPeerIdentity option \<Rightarrow> ExecutionAdmissionState \<Rightarrow>
   TaskSnapshot option option \<times> ExecutionAdmissionState" where
  "x_wait_claim rounds now i timeout peer x =
     (if i = 0 \<or> timeout < 0 \<or> xa_bind_leases_to_process x \<and> \<not> valid_peer_identity peer then (Some None, x)
      else x_wait_claim_loop rounds (if timeout = 0 then time_point_max else now + milliseconds timeout) i peer x)"

section \<open>Heartbeats and terminal reports\<close>

definition x_heartbeat ::
  "exec_env \<Rightarrow> TaskId \<Rightarrow> TaskPeerIdentity option \<Rightarrow> ExecutionAdmissionState \<Rightarrow> bool \<times> ExecutionAdmissionState" where
  "x_heartbeat env i peer x =
     (if map_option snap_state (x_find i x) \<noteq> Some TaskState_kRunning then (False, x)
      else if \<not> xa_bind_leases_to_process x \<and> xa_lease_timeout x = 0 then (True, x)
      else (case map_of (xa_active_leases x) i of
        None \<Rightarrow> (False, x)
      | Some l \<Rightarrow>
          if xl_reaping l \<or> xl_is_cooperative l \<or> \<not> x_owner_matches x l peer then (False, x)
          else (True,
            if xa_lease_timeout x \<noteq> 0
            then x_put_active i (l\<lparr>xl_deadline := at_lease env + milliseconds (xa_lease_timeout x)\<rparr>) x
            else x)))"

definition x_active_rejected ::
  "ExecutionAdmissionState \<Rightarrow> TaskId \<Rightarrow> TaskPeerIdentity option \<Rightarrow> bool" where
  "x_active_rejected x i peer \<longleftrightarrow>
     xa_bind_leases_to_process x \<and>
     (case map_of (xa_active_leases x) i of
        None \<Rightarrow> True
      | Some l \<Rightarrow> xl_is_cooperative l \<or> \<not> x_owner_matches x l peer)"

definition x_report ::
  "exec_env \<Rightarrow> TaskId \<Rightarrow> TaskState \<Rightarrow> bool \<times> Scheduler \<Rightarrow> ExecutionAdmissionState \<Rightarrow> bool \<times> ExecutionAdmissionState" where
  "x_report env i terminal r x =
     (let before = (if \<not> xa_completion_observer x then None else x_find i x) in
      case r of (finished, s) \<Rightarrow>
        (finished,
         if finished
         then
           let lease = map_of (xa_active_leases x) i;
               x1 = x_erase_active i (x_set_scheduler s x)
           in x_notify (case before of None \<Rightarrow> x1 | Some sn \<Rightarrow> x_observe_completion env sn terminal lease x1)
         else x_set_scheduler s x))"

definition x_complete ::
  "exec_env \<Rightarrow> TaskId \<Rightarrow> TaskPeerIdentity option \<Rightarrow> ExecutionAdmissionState \<Rightarrow> bool \<times> ExecutionAdmissionState" where
  "x_complete env i peer x =
     (if x_active_rejected x i peer then (False, x)
      else x_report env i TaskState_kCompleted (Scheduler_complete (at_scheduler env) i (xa_scheduler x)) x)"

definition x_fail ::
  "exec_env \<Rightarrow> TaskId \<Rightarrow> TaskPeerIdentity option \<Rightarrow> ExecutionAdmissionState \<Rightarrow> bool \<times> ExecutionAdmissionState" where
  "x_fail env i peer x =
     (if x_active_rejected x i peer then (False, x)
      else x_report env i TaskState_kFailed (Scheduler_fail (at_scheduler env) i (xa_scheduler x)) x)"

section \<open>Expiry\<close>

definition x_expired :: "time_ns \<Rightarrow> ExecutionLease \<Rightarrow> bool" where
  "x_expired now l \<longleftrightarrow> \<not> xl_reaping l \<and> now \<ge> xl_deadline l"

fun mark_expired_pending ::
  "time_ns \<Rightarrow> (TaskId \<times> ExecutionLease) list \<Rightarrow> TaskId option \<times> (TaskId \<times> ExecutionLease) list" where
  "mark_expired_pending now [] = (None, [])"
| "mark_expired_pending now ((i, l) # m) =
     (if x_expired now l then (Some i, (i, l\<lparr>xl_reaping := True\<rparr>) # m)
      else (case mark_expired_pending now m of (r, m') \<Rightarrow> (r, (i, l) # m')))"

text \<open>An expired cooperative lease loses its deadline and keeps everything else.\<close>

fun mark_expired_active ::
  "time_ns \<Rightarrow> (TaskId \<times> ExecutionLease) list \<Rightarrow> TaskId option \<times> (TaskId \<times> ExecutionLease) list" where
  "mark_expired_active now [] = (None, [])"
| "mark_expired_active now ((i, l) # m) =
     (if x_expired now l
      then if xl_is_cooperative l
           then (case mark_expired_active now m of (r, m') \<Rightarrow> (r, (i, l\<lparr>xl_deadline := time_point_max\<rparr>) # m'))
           else (Some i, (i, l\<lparr>xl_reaping := True\<rparr>) # m)
      else (case mark_expired_active now m of (r, m') \<Rightarrow> (r, (i, l) # m')))"

definition x_renewed :: "exec_env \<Rightarrow> ExecutionAdmissionState \<Rightarrow> ExecutionLease \<Rightarrow> ExecutionLease" where
  "x_renewed env x l =
     l\<lparr>xl_reaping := False, xl_deadline := at_retry env + milliseconds (xa_lease_timeout x)\<rparr>"

definition x_reap_pending ::
  "exec_env \<Rightarrow> TaskId \<Rightarrow> ExecutionAdmissionState \<Rightarrow> bool \<times> ExecutionAdmissionState" where
  "x_reap_pending env i x =
     (let before = (if \<not> xa_completion_observer x then None else x_find i x) in
      case Scheduler_cancel_queued i (xa_scheduler x) of
        (cancelled, s) \<Rightarrow>
          let x1 = x_set_scheduler s x in
          case map_of (xa_pending_leases x1) i of
            None \<Rightarrow> (cancelled, x1)
          | Some l \<Rightarrow>
              if cancelled
              then
                let x2 = x_erase_pending i x1
                in (True, x_notify (case before of None \<Rightarrow> x2
                                    | Some sn \<Rightarrow> x_observe_completion env sn TaskState_kCancelled (Some l) x2))
              else (False, x_put_pending i (x_renewed env x1 l) x1))"

definition x_reap_running ::
  "exec_env \<Rightarrow> TaskId \<Rightarrow> ExecutionAdmissionState \<Rightarrow> bool \<times> ExecutionAdmissionState" where
  "x_reap_running env i x =
     (let before = (if \<not> xa_completion_observer x then None else x_find i x) in
      case Scheduler_fail (at_scheduler env) i (xa_scheduler x) of
        (failed, s) \<Rightarrow>
          let x1 = x_set_scheduler s x in
          case map_of (xa_active_leases x1) i of
            None \<Rightarrow> (failed, x1)
          | Some l \<Rightarrow>
              if failed \<or> map_option snap_state (x_find i x1) \<noteq> Some TaskState_kRunning
              then
                let x2 = x_erase_active i x1
                in (failed, x_notify
                     (if failed
                      then (case before of None \<Rightarrow> x2 | Some sn \<Rightarrow> x_observe_completion env sn TaskState_kFailed (Some l) x2)
                      else x2))
              else (failed, x_put_active i (x_renewed env x1 l) x1))"

definition x_reap_expired :: "exec_env \<Rightarrow> ExecutionAdmissionState \<Rightarrow> bool \<times> ExecutionAdmissionState" where
  "x_reap_expired env x =
     (if xa_lease_timeout x = 0 then (False, x)
      else (case mark_expired_pending (at_lease env) (xa_pending_leases x) of
        (Some i, m) \<Rightarrow> x_reap_pending env i (x\<lparr>xa_pending_leases := m\<rparr>)
      | (None, _) \<Rightarrow>
          (case mark_expired_active (at_lease env) (xa_active_leases x) of
             (None, m) \<Rightarrow> (False, x\<lparr>xa_active_leases := m\<rparr>)
           | (Some i, m) \<Rightarrow> x_reap_running env i (x\<lparr>xa_active_leases := m\<rparr>))))"

section \<open>Cooperative execution\<close>

definition claim_execution ::
  "exec_env \<Rightarrow> TaskId \<Rightarrow> TaskPeerIdentity option \<Rightarrow> ExecutionAdmissionState \<Rightarrow>
   TaskSnapshot option \<times> ExecutionAdmissionState" where
  "claim_execution env i peer x =
     (if \<not> xa_bind_leases_to_process x then (None, x)
      else case map_of (xa_pending_leases x) i of
        None \<Rightarrow> (None, x)
      | Some p \<Rightarrow>
          if \<not> xl_is_cooperative p \<or> xl_native_epoch p \<noteq> None \<or> xl_reaping p then (None, x)
          else (case x_find i x of
            None \<Rightarrow> (None, x)
          | Some current \<Rightarrow>
              if snap_state current \<noteq> TaskState_kQueued \<or> \<not> x_pending_owner_matches x i peer then (None, x)
              else (case dispatch_and_record env i peer x of
                (None, x1) \<Rightarrow> (None, x1)
              | (Some sn, x1) \<Rightarrow>
                  (case map_of (xa_active_leases x1) i of
                     None \<Rightarrow> (None, x1)
                   | Some l \<Rightarrow>
                       (Some sn, x_notify (x_observe_dispatch env sn
                          (x_put_active i (l\<lparr>xl_is_cooperative := True\<rparr>) x1)))))))"

definition cancel_pending_cooperative ::
  "exec_env \<Rightarrow> TaskId \<Rightarrow> TaskPeerIdentity option \<Rightarrow> ExecutionAdmissionState \<Rightarrow> bool \<times> ExecutionAdmissionState" where
  "cancel_pending_cooperative env i peer x =
     (case (map_of (xa_pending_leases x) i, x_find i x) of
        (Some l, Some task) \<Rightarrow>
          if \<not> xl_is_cooperative l \<or> xl_native_epoch l \<noteq> None \<or> xl_reaping l \<or> \<not> x_owner_matches x l peer \<or>
            snap_state task \<noteq> TaskState_kQueued \<or> snap_dispatch_sequence task \<noteq> 0
          then (False, x)
          else (case Scheduler_cancel_queued i (xa_scheduler x) of
            (cancelled, s) \<Rightarrow>
              if \<not> cancelled then (False, x_set_scheduler s x)
              else (True, x_notify (x_observe_completion env task TaskState_kCancelled (Some l)
                     (x_erase_pending i (x_set_scheduler s x)))))
      | _ \<Rightarrow> (False, x))"

text \<open>The lease of a running execution that its owner may act on under this generation.\<close>

definition cooperative_lease ::
  "TaskExecutionIdentity \<Rightarrow> TaskPeerIdentity option \<Rightarrow> TaskState \<Rightarrow> (TaskId \<times> ExecutionLease) list \<Rightarrow>
   ExecutionAdmissionState \<Rightarrow> (TaskSnapshot \<times> ExecutionLease) option" where
  "cooperative_lease execution peer state leases x =
     (case (x_find (xi_task_id execution) x, map_of leases (xi_task_id execution)) of
        (Some snapshot, Some l) \<Rightarrow>
          if \<not> xa_bind_leases_to_process x \<or> xi_generation execution = 0 \<or> snap_state snapshot \<noteq> state \<or>
            snap_dispatch_sequence snapshot \<noteq> xi_generation execution \<or>
            \<not> xl_is_cooperative l \<or> xl_reaping l \<or> xl_native_epoch l \<noteq> None \<or> \<not> x_owner_matches x l peer
          then None else Some (snapshot, l)
      | _ \<Rightarrow> None)"

definition x_retreat_requested ::
  "TaskExecutionIdentity \<Rightarrow> TaskPeerIdentity option \<Rightarrow> ExecutionAdmissionState \<Rightarrow> bool option" where
  "x_retreat_requested execution peer x =
     (case cooperative_lease execution peer TaskState_kRunning (xa_active_leases x) x of
        None \<Rightarrow> None
      | Some _ \<Rightarrow> Some (Scheduler_retreat_requested (xi_task_id execution) (xa_scheduler x)))"

definition suspend_execution ::
  "exec_env \<Rightarrow> TaskExecutionIdentity \<Rightarrow> TaskPeerIdentity option \<Rightarrow> ExecutionAdmissionState \<Rightarrow> bool \<times> ExecutionAdmissionState" where
  "suspend_execution env execution peer x =
     (let i = xi_task_id execution in
      case cooperative_lease execution peer TaskState_kRunning (xa_active_leases x) x of
        None \<Rightarrow> (False, x)
      | Some (snapshot, l) \<Rightarrow>
          let pending = (stop_lease_timing (at_lease env) l)\<lparr>xl_is_cooperative := True,
                          xl_deadline := x_deadline_from x (at_retry env)\<rparr>
          in if env_lease_fails env \<or> map_of (xa_pending_leases x) i \<noteq> None then (False, x)
             else (case Scheduler_suspend (env_suspend_fails env) (at_scheduler env) i (xa_scheduler x) of
               (suspended, s) \<Rightarrow>
                 let x1 = x_set_scheduler s (x_put_pending i pending x)
                 in if \<not> suspended then (False, x_erase_pending i x1)
                    else (True, x_notify (x_erase_active i x1))))"

definition heartbeat_execution ::
  "exec_env \<Rightarrow> TaskExecutionIdentity \<Rightarrow> TaskPeerIdentity option \<Rightarrow> ExecutionAdmissionState \<Rightarrow> bool \<times> ExecutionAdmissionState" where
  "heartbeat_execution env execution peer x =
     (let i = xi_task_id execution;
          renewed = (\<lambda>l. l\<lparr>xl_deadline := at_lease env + milliseconds (xa_lease_timeout x)\<rparr>) in
      case map_option snap_state (x_find i x) of
        Some TaskState_kRunning \<Rightarrow>
          (case cooperative_lease execution peer TaskState_kRunning (xa_active_leases x) x of
             None \<Rightarrow> (False, x)
           | Some (_, l) \<Rightarrow> (True, if xa_lease_timeout x \<noteq> 0 then x_put_active i (renewed l) x else x))
      | Some TaskState_kQueued \<Rightarrow>
          (case cooperative_lease execution peer TaskState_kQueued (xa_pending_leases x) x of
             None \<Rightarrow> (False, x)
           | Some (_, l) \<Rightarrow> (True, if xa_lease_timeout x \<noteq> 0 then x_put_pending i (renewed l) x else x))
      | _ \<Rightarrow> (False, x))"

definition finish_execution ::
  "exec_env \<Rightarrow> TaskExecutionIdentity \<Rightarrow> TaskPeerIdentity option \<Rightarrow> TaskState \<Rightarrow> ExecutionAdmissionState \<Rightarrow>
   bool \<times> ExecutionAdmissionState" where
  "finish_execution env execution peer state x =
     (let i = xi_task_id execution;
          is_cancel = (state = TaskState_kCancelled)
      in case cooperative_lease execution peer (if is_cancel then TaskState_kQueued else TaskState_kRunning)
                (if is_cancel then xa_pending_leases x else xa_active_leases x) x of
        None \<Rightarrow> (False, x)
      | Some (snapshot, l) \<Rightarrow>
          (case (if is_cancel then Scheduler_cancel_queued i (xa_scheduler x)
                 else if state = TaskState_kCompleted then Scheduler_complete (at_scheduler env) i (xa_scheduler x)
                 else Scheduler_fail (at_scheduler env) i (xa_scheduler x)) of
             (finished, s) \<Rightarrow>
               let x1 = x_set_scheduler s x
               in if \<not> finished then (False, x1)
                  else (True, x_notify (x_observe_completion env snapshot state (Some l)
                         (if is_cancel then x_erase_pending i x1 else x_erase_active i x1)))))"

definition complete_execution ::
  "exec_env \<Rightarrow> TaskExecutionIdentity \<Rightarrow> TaskPeerIdentity option \<Rightarrow> ExecutionAdmissionState \<Rightarrow> bool \<times> ExecutionAdmissionState" where
  "complete_execution env execution peer x = finish_execution env execution peer TaskState_kCompleted x"

definition fail_execution ::
  "exec_env \<Rightarrow> TaskExecutionIdentity \<Rightarrow> TaskPeerIdentity option \<Rightarrow> ExecutionAdmissionState \<Rightarrow> bool \<times> ExecutionAdmissionState" where
  "fail_execution env execution peer x = finish_execution env execution peer TaskState_kFailed x"

definition cancel_execution ::
  "exec_env \<Rightarrow> TaskExecutionIdentity \<Rightarrow> TaskPeerIdentity option \<Rightarrow> ExecutionAdmissionState \<Rightarrow> bool \<times> ExecutionAdmissionState" where
  "cancel_execution env execution peer x = finish_execution env execution peer TaskState_kCancelled x"

definition supports_cooperative_execution :: "ExecutionAdmissionState \<Rightarrow> bool" where
  "supports_cooperative_execution x = xa_bind_leases_to_process x"

section \<open>Native epochs\<close>

definition monotonic_nanoseconds :: "time_ns \<Rightarrow> u64" where
  "monotonic_nanoseconds now = (if now \<le> 0 then 0 else word_of_int now)"

definition grant_from :: "TaskSnapshot \<Rightarrow> NativeEpochExtent \<Rightarrow> u64 \<Rightarrow> NativeEpochGrant" where
  "grant_from task extent deadline_nanoseconds =
     \<lparr>ng_execution = \<lparr>xi_task_id = snap_task_id task, xi_generation = snap_dispatch_sequence task\<rparr>,
      ng_extent = extent, ng_acceptance_deadline_nanoseconds = deadline_nanoseconds\<rparr>"

definition submit_native_epoch ::
  "exec_env \<Rightarrow> (TaskId \<Rightarrow> bool) option \<Rightarrow> TaskAdmissionRequest \<Rightarrow> NativeEpochExtent \<Rightarrow> TaskPeerIdentity option \<Rightarrow>
   ExecutionAdmissionState \<Rightarrow> SubmitResult \<times> ExecutionAdmissionState" where
  "submit_native_epoch env registrar req extent peer x =
     (case xa_native_epoch_policy x of
        None \<Rightarrow> (submit_failed SubmitStatus_kInvalidTask, x)
      | Some policy \<Rightarrow>
          if \<not> xa_bind_leases_to_process x \<or> \<not> valid_native_epoch_extent policy \<or>
            \<not> valid_native_epoch_extent extent \<or> max_calls extent > max_calls policy \<or>
            calls_per_prefix extent > calls_per_prefix policy \<or>
            max_pending_prefixes extent > max_pending_prefixes policy \<or>
            acceptance_microseconds extent > acceptance_microseconds policy \<or> req_work_units req \<noteq> max_calls extent
          then (submit_failed SubmitStatus_kInvalidTask, x)
          else submit_impl env registrar req peer (Some extent) Admission_kNative x)"

definition acceptance_deadline :: "time_ns \<Rightarrow> NativeEpochExtent \<Rightarrow> u64" where
  "acceptance_deadline now extent =
     (let n = monotonic_nanoseconds now;
          duration = ucast (acceptance_microseconds extent) * 1000
      in if duration > u64_max - n then u64_max else n + duration)"

definition claim_native_epoch ::
  "exec_env \<Rightarrow> TaskId \<Rightarrow> TaskPeerIdentity option \<Rightarrow> ExecutionAdmissionState \<Rightarrow>
   NativeEpochGrant option \<times> ExecutionAdmissionState" where
  "claim_native_epoch env i peer x =
     (if map_of (xa_active_leases x) i \<noteq> None then (None, x)
      else case map_of (xa_pending_leases x) i of
        None \<Rightarrow> (None, x)
      | Some p \<Rightarrow>
          if xl_native_epoch p = None \<or> \<not> x_pending_owner_matches x i peer then (None, x)
          else (case dispatch_and_record env i peer x of
            (None, x1) \<Rightarrow> (None, x1)
          | (Some task, x1) \<Rightarrow>
              (case map_of (xa_active_leases x1) i of
                 None \<Rightarrow> (None, x1)
               | Some l \<Rightarrow>
                   (case xl_native_epoch l of
                      None \<Rightarrow> (None, x1)
                    | Some extent \<Rightarrow>
                        let deadline = acceptance_deadline (at_retry env) extent
                        in (Some (grant_from task extent deadline),
                            x_notify (x_observe_dispatch env task
                              (x_put_active i (l\<lparr>xl_acceptance_deadline_nanoseconds := deadline\<rparr>) x1)))))))"

definition native_epoch_owner_matches ::
  "TaskExecutionIdentity \<Rightarrow> TaskPeerIdentity option \<Rightarrow> ExecutionAdmissionState \<Rightarrow> bool" where
  "native_epoch_owner_matches execution peer x \<longleftrightarrow>
     (case map_of (xa_active_leases x) (xi_task_id execution) of
        None \<Rightarrow> False
      | Some l \<Rightarrow>
          xl_native_epoch l \<noteq> None \<and> xa_bind_leases_to_process x \<and> xi_generation execution \<noteq> 0 \<and>
          (case x_find (xi_task_id execution) x of
             None \<Rightarrow> False
           | Some task \<Rightarrow>
               snap_state task = TaskState_kRunning \<and> snap_dispatch_sequence task = xi_generation execution) \<and>
          \<not> xl_reaping l \<and> x_owner_matches x l peer)"

definition pending_native_epoch_extent ::
  "TaskId \<Rightarrow> TaskPeerIdentity option \<Rightarrow> ExecutionAdmissionState \<Rightarrow> NativeEpochExtent option" where
  "pending_native_epoch_extent i peer x =
     (case (map_of (xa_pending_leases x) i, x_find i x) of
        (Some l, Some task) \<Rightarrow>
          if xl_native_epoch l = None \<or> snap_state task \<noteq> TaskState_kQueued \<or> \<not> x_pending_owner_matches x i peer
          then None else xl_native_epoch l
      | _ \<Rightarrow> None)"

definition native_epoch_retreat_requested ::
  "exec_env \<Rightarrow> TaskExecutionIdentity \<Rightarrow> TaskPeerIdentity option \<Rightarrow> ExecutionAdmissionState \<Rightarrow> bool option" where
  "native_epoch_retreat_requested env execution peer x =
     (if \<not> native_epoch_owner_matches execution peer x then None
      else if monotonic_nanoseconds (at_lease env) \<ge>
        (case map_of (xa_active_leases x) (xi_task_id execution) of
           None \<Rightarrow> 0 | Some l \<Rightarrow> xl_acceptance_deadline_nanoseconds l)
      then Some True
      else Some (Scheduler_retreat_requested (xi_task_id execution) (xa_scheduler x)))"

definition heartbeat_native_epoch ::
  "TaskExecutionIdentity \<Rightarrow> TaskPeerIdentity option \<Rightarrow> ExecutionAdmissionState \<Rightarrow> bool" where
  "heartbeat_native_epoch execution peer x = native_epoch_owner_matches execution peer x"

definition finish_native_epoch ::
  "exec_env \<Rightarrow> TaskExecutionIdentity \<Rightarrow> u32 \<Rightarrow> bool \<Rightarrow> TaskPeerIdentity option \<Rightarrow> ExecutionAdmissionState \<Rightarrow>
   bool \<times> ExecutionAdmissionState" where
  "finish_native_epoch env execution issued_calls has_failed peer x =
     (let i = xi_task_id execution in
      if \<not> native_epoch_owner_matches execution peer x then (False, x)
      else case map_of (xa_active_leases x) i of
        None \<Rightarrow> (False, x)
      | Some l \<Rightarrow>
          (case xl_native_epoch l of
             None \<Rightarrow> (False, x)
           | Some extent \<Rightarrow>
               if issued_calls > max_calls extent then (False, x)
               else (case x_find i x of
                 None \<Rightarrow> (False, x)
               | Some task \<Rightarrow>
                   (case (if has_failed then Scheduler_fail (at_scheduler env) i (xa_scheduler x)
                          else Scheduler_complete (at_scheduler env) i (xa_scheduler x)) of
                      (finished, s) \<Rightarrow>
                        let x1 = x_set_scheduler s x
                        in if \<not> finished then (False, x1)
                           else (True, x_notify (x_observe_completion env task
                                  (if has_failed then TaskState_kFailed else TaskState_kCompleted) (Some l)
                                  (x_erase_active i x1)))))))"

definition cancel_pending_native_epoch ::
  "exec_env \<Rightarrow> TaskId \<Rightarrow> TaskPeerIdentity option \<Rightarrow> ExecutionAdmissionState \<Rightarrow> bool \<times> ExecutionAdmissionState" where
  "cancel_pending_native_epoch env i peer x =
     (case map_of (xa_pending_leases x) i of
        None \<Rightarrow> (False, x)
      | Some l \<Rightarrow>
          if xl_native_epoch l = None \<or> \<not> x_pending_owner_matches x i peer then (False, x)
          else (case x_find i x of
            None \<Rightarrow> (False, x)
          | Some task \<Rightarrow>
              if snap_dispatch_sequence task \<noteq> 0 then (False, x)
              else (case Scheduler_cancel_queued i (xa_scheduler x) of
                (cancelled, s) \<Rightarrow>
                  if \<not> cancelled then (False, x_set_scheduler s x)
                  else (True, x_notify (x_observe_completion env task TaskState_kCancelled (Some l)
                         (x_erase_pending i (x_set_scheduler s x)))))))"

section \<open>Status\<close>

definition count_leases :: "(ExecutionLease \<Rightarrow> bool) \<Rightarrow> (TaskId \<times> ExecutionLease) list \<Rightarrow> nat" where
  "count_leases P m = length (filter (\<lambda>(i, l). P l) m)"

definition lease_status :: "ExecutionAdmissionState \<Rightarrow> TaskExecutionLeaseStatus" where
  "lease_status x =
     (let native = (\<lambda>l. xl_native_epoch l \<noteq> None);
          cooperative = (\<lambda>l. xl_native_epoch l = None \<and> xl_is_cooperative l);
          legacy = (\<lambda>l. xl_native_epoch l = None \<and> \<not> xl_is_cooperative l);
          pending = xa_pending_leases x; active = xa_active_leases x
      in \<lparr>ls_queued_tasks = stats_queued_task_count (x_stats x), ls_running_tasks = stats_running_task_count (x_stats x),
          ls_pending_legacy = count_leases legacy pending, ls_pending_cooperative = count_leases cooperative pending,
          ls_pending_native = count_leases native pending, ls_active_legacy = count_leases legacy active,
          ls_active_cooperative = count_leases cooperative active, ls_active_native = count_leases native active,
          ls_reaping = count_leases xl_reaping pending + count_leases xl_reaping active\<rparr>)"

end
