(* ===== verification/SchedulerSequence.thy ===== *)
theory SchedulerSequence
  imports SchedulerSteps
begin

text \<open>
  Dispatch sequences as fencing tokens: a task that is dispatched again gets a strictly greater
  sequence than it had, even when the counter of the scheduler saturates, because a task that holds
  the last value is never suspended.
\<close>

definition sequence_of :: "Scheduler \<Rightarrow> TaskId \<Rightarrow> u64" where
  "sequence_of s i = (case map_of (tasks s) i of None \<Rightarrow> 0 | Some t \<Rightarrow> task_dispatch_sequence t)"

definition sequences_ok :: "Scheduler \<Rightarrow> bool" where
  "sequences_ok s \<longleftrightarrow> next_dispatch_sequence s \<noteq> 0 \<and>
     (\<forall>i t. map_of (tasks s) i = Some t \<longrightarrow>
        task_dispatch_sequence t < next_dispatch_sequence s \<or>
        task_dispatch_sequence t = u64_max \<and> task_st t \<noteq> TaskState_kQueued)"

text \<open>What an operation does to the sequence of a task that it keeps.\<close>

definition next_sequence :: "u64 \<Rightarrow> u64" where
  "next_sequence n = (if n \<noteq> u64_max then n + 1 else n)"

definition seq_move :: "Scheduler \<Rightarrow> Scheduler \<Rightarrow> TaskRecord \<Rightarrow> TaskRecord \<Rightarrow> bool" where
  "seq_move s s' t t' \<longleftrightarrow>
     task_dispatch_sequence t' = task_dispatch_sequence t \<and>
       (task_st t' = TaskState_kQueued \<longrightarrow> task_st t = TaskState_kQueued \<or> task_dispatch_sequence t \<noteq> u64_max) \<and>
       (task_st t' = TaskState_kRunning \<longrightarrow> task_st t \<noteq> TaskState_kQueued) \<or>
     task_st t = TaskState_kQueued \<and> task_st t' = TaskState_kRunning \<and>
       task_dispatch_sequence t' = next_dispatch_sequence s \<and> next_dispatch_sequence s' = next_sequence (next_dispatch_sequence s)"

definition seq_frame :: "Scheduler \<Rightarrow> Scheduler \<Rightarrow> bool" where
  "seq_frame s s' \<longleftrightarrow>
     next_dispatch_sequence s' \<in> {next_dispatch_sequence s, next_sequence (next_dispatch_sequence s)} \<and>
     (\<forall>i t'. map_of (tasks s') i = Some t' \<longrightarrow>
        (case map_of (tasks s) i of
           None \<Rightarrow> task_dispatch_sequence t' = 0
         | Some t \<Rightarrow> seq_move s s' t t'))"

lemma next_sequence_ge: "n \<le> next_sequence n" "n \<noteq> u64_max \<Longrightarrow> n < next_sequence n" "n \<noteq> 0 \<Longrightarrow> next_sequence n \<noteq> 0"
proof -
  have "n < n + 1" if "n \<noteq> u64_max"
    using unat_Suc_no_wrap [OF that] by (simp add: word_less_nat_alt)
  then show "n \<le> next_sequence n" "n \<noteq> u64_max \<Longrightarrow> n < next_sequence n" "n \<noteq> 0 \<Longrightarrow> next_sequence n \<noteq> 0"
    by (auto simp: next_sequence_def)
qed

lemma seq_frameD:
  assumes "seq_frame s s'" and "map_of (tasks s') i = Some t'"
  shows "map_of (tasks s) i = None \<Longrightarrow> task_dispatch_sequence t' = 0" "map_of (tasks s) i = Some t \<Longrightarrow> seq_move s s' t t'"
  using assms(1) [unfolded seq_frame_def, THEN conjunct2, THEN spec [of _ i], THEN spec [of _ t']] assms(2) by simp_all

lemma seq_frame_refl [simp]: "seq_frame s s"
  by (auto simp: seq_frame_def seq_move_def split: option.split)

lemma seq_frame_cong:
  assumes "tasks s1 = tasks s" "next_dispatch_sequence s1 = next_dispatch_sequence s" "seq_frame s1 s'"
  shows "seq_frame s s'"
proof -
  have m: "seq_move s1 s' = seq_move s s'" using assms(2) by (intro ext) (simp add: seq_move_def)
  show ?thesis using assms(3) unfolding seq_frame_def assms(1,2) m .
qed

lemma seq_frame_task:
  assumes "map_of (tasks s) i = Some t" and "map_of (tasks s') = (map_of (tasks s))(i \<mapsto> t')" and "seq_move s s' t t'"
    and "next_dispatch_sequence s' \<in> {next_dispatch_sequence s, next_sequence (next_dispatch_sequence s)}"
  shows "seq_frame s s'"
  using assms unfolding seq_frame_def
  by (auto simp: seq_move_def split: option.split if_splits)

lemma seq_frame_ok:
  assumes "seq_frame s s'" and "sequences_ok s"
  shows "sequences_ok s'"
proof -
  note F = assms(1) [unfolded seq_frame_def] and O = assms(2) [unfolded sequences_ok_def]
  have n: "next_dispatch_sequence s' \<noteq> 0" "next_dispatch_sequence s \<le> next_dispatch_sequence s'"
    using F O next_sequence_ge by auto
  have "task_dispatch_sequence t' < next_dispatch_sequence s' \<or>
      task_dispatch_sequence t' = u64_max \<and> task_st t' \<noteq> TaskState_kQueued"
    if t': "map_of (tasks s') i = Some t'" for i t'
  proof (cases "map_of (tasks s) i")
    case None
    then have "task_dispatch_sequence t' = 0" by (rule seq_frameD(1) [OF assms(1) t'])
    then show ?thesis using n(1) by (simp add: word_gt_0)
  next
    case (Some t)
    then have "seq_move s s' t t'" by (rule seq_frameD(2) [OF assms(1) t'])
    moreover have "task_dispatch_sequence t < next_dispatch_sequence s \<or>
        task_dispatch_sequence t = u64_max \<and> task_st t \<noteq> TaskState_kQueued"
      using O Some by blast
    ultimately show ?thesis
      using n(2) next_sequence_ge(2) [of "next_dispatch_sequence s"] unfolding seq_move_def by (metis TaskState.distinct(1) order_less_le_trans)
  qed
  with n(1) show ?thesis by (simp add: sequences_ok_def)
qed

text \<open>A dispatched task moves to a strictly greater sequence; every other task keeps its own.\<close>

lemma seq_frame_of:
  assumes "seq_frame s s'" and "sequences_ok s" and "map_of (tasks s) i = Some t" and "map_of (tasks s') i = Some t'"
  shows "sequence_of s i \<le> sequence_of s' i"
    and "task_st t = TaskState_kQueued \<Longrightarrow> task_st t' = TaskState_kRunning \<Longrightarrow> sequence_of s i < sequence_of s' i"
proof -
  have "seq_move s s' t t'" by (rule seq_frameD(2) [OF assms(1,4,3)])
  moreover have "task_dispatch_sequence t < next_dispatch_sequence s \<or>
        task_dispatch_sequence t = u64_max \<and> task_st t \<noteq> TaskState_kQueued"
    using assms(2,3) by (simp add: sequences_ok_def)
  ultimately show "sequence_of s i \<le> sequence_of s' i"
    "task_st t = TaskState_kQueued \<Longrightarrow> task_st t' = TaskState_kRunning \<Longrightarrow> sequence_of s i < sequence_of s' i"
    using assms(3,4) by (auto simp: seq_move_def sequence_of_def)
qed

section \<open>Every operation\<close>

lemma finish_seq: "seq_frame s (snd (finish_running_task_locked now i terminal s))" if "terminal \<notin> {TaskState_kQueued, TaskState_kRunning}"
  using that
  by (auto simp: finish_running_task_locked_def seq_move_def Let_def set_task_def record_service_def fun_upd_idem
      intro!: seq_frame_task [of s i] split: option.split prod.split)

lemma cancel_queued_seq:
  assumes "map_of (tasks s) i = Some t" "task_st t = TaskState_kQueued"
  shows "seq_frame s (snd (cancel_queued_task_locked i t s))"
  using assms
  by (auto simp: cancel_queued_task_locked_def seq_move_def Let_def set_task_def fun_upd_idem
      intro!: seq_frame_task [of s i] split: option.split prod.split)

lemma suspend_seq: "seq_frame s (snd (Scheduler_suspend f now i s))"
  by (auto simp: Scheduler_suspend_def seq_move_def Let_def set_task_def set_queue_def record_service_def
      intro!: seq_frame_task [of s i] split: option.split)

lemma dispatch_selected_seq: "seq_frame s (snd (dispatch_selected_task_locked f now i s))"
  by (auto simp: dispatch_selected_task_locked_def dispatch_abort_def dispatch_commit_def seq_move_def next_sequence_def Let_def set_task_def
      intro!: seq_frame_task [of s i] split: option.split prod.split)

lemma select_seq:
  assumes inv: "sched_inv s" and sel: "select_next_task_locked s = (r, s1)"
  shows "tasks s1 = tasks s" "next_dispatch_sequence s1 = next_dispatch_sequence s"
proof -
  note ok = sched_invD(1) [OF inv]
  have "rr_frame s s1"
    using sel sel.select_None [OF ok] sel.select_Some [OF ok] by (cases r) (auto simp: idle_round_def dequeued_def)
  then show "tasks s1 = tasks s" "next_dispatch_sequence s1 = next_dispatch_sequence s" by (auto dest: rr_frameD)
qed

lemma dispatch_next_seq:
  assumes inv: "sched_inv s"
  shows "seq_frame s (snd (Scheduler_dispatch_next f now s))"
proof -
  obtain r s1 where sel: "select_next_task_locked s = (r, s1)" by (cases "select_next_task_locked s")
  note S = select_seq [OF inv sel]
  show ?thesis
    using sel seq_frame_cong [OF S dispatch_selected_seq] seq_frame_cong [OF S seq_frame_refl]
    by (auto simp: Scheduler_dispatch_next_def split: option.split)
qed

lemma dispatch_task_seq:
  assumes inv: "sched_inv s"
  shows "seq_frame s (snd (Scheduler_dispatch_task f now i s))"
proof -
  obtain r s1 where sel: "select_next_task_locked s = (r, s1)" by (cases "select_next_task_locked s")
  note S = select_seq [OF inv sel]
  have "seq_frame s (snd (select_deficit_round_robin_task_locked s))"
    if "peek_next_task_locked s = None" "scheduling_policy s = kDeficitRoundRobin"
  proof -
    have "rr_frame s (snd (select_deficit_round_robin_task_locked s))"
      using drr.peek_None_idle [OF sched_invD(1) [OF inv]] that by (auto simp: peek_next_task_locked_def idle_round_def)
    then show ?thesis by (intro seq_frame_cong [OF _ _ seq_frame_refl]) (auto dest: rr_frameD)
  qed
  then show ?thesis
    using sel seq_frame_cong [OF S dispatch_selected_seq] seq_frame_cong [OF S seq_frame_refl]
    by (auto simp: Scheduler_dispatch_task_def split: option.split)
qed

lemma submit_seq:
  assumes inv: "sched_inv s"
  shows "seq_frame s (snd (Scheduler_submit f now spec s))"
proof -
  obtain r s' where sub: "Scheduler_submit f now spec s = (r, s')" by (cases "Scheduler_submit f now spec s")
  show ?thesis
  proof (cases "sr_status r = SubmitStatus_kAccepted")
    case True
    then show ?thesis
      using submit_accepted(1) [OF inv sub True] fresh_task_id [OF inv] sub
      by (auto simp: submit_transition_def seq_frame_def seq_move_def submitted_record_def split: option.split if_splits)
  next
    case False
    then show ?thesis using submit_rejected [OF inv sub] sub by simp
  qed
qed

theorem run_op_seq:
  assumes inv: "sched_inv s"
  shows "seq_frame s (run_op op s)"
proof (cases op)
  case (Op_cancel now i)
  then show ?thesis
    by (auto simp: Scheduler_cancel_def cancel_queued_seq finish_seq split: option.split)
next
  case (Op_cancel_queued i)
  then show ?thesis by (auto simp: Scheduler_cancel_queued_def cancel_queued_seq split: option.split)
next
  case (Op_forget i)
  then show ?thesis
    by (auto simp: Scheduler_forget_def seq_frame_def seq_move_def split: option.split if_splits)
next
  case (Op_set_reserved_slots n)
  then show ?thesis
    by (auto simp: Scheduler_set_priority_reserved_slots_def intro: seq_frame_cong [OF _ _ seq_frame_refl])
qed (simp_all add: Scheduler_complete_def Scheduler_fail_def finish_seq suspend_seq dispatch_next_seq [OF inv]
      dispatch_task_seq [OF inv] submit_seq [OF inv])

lemma new_sequences_ok: "sequences_ok (Scheduler_new limit opts)"
  by (simp add: sequences_ok_def Scheduler_new_def)

lemma reachable_sequences_ok: "sched_reachable limit opts s \<Longrightarrow> sequences_ok s"
  by (induction rule: sched_reachable.induct)
    (auto intro: new_sequences_ok seq_frame_ok [OF run_op_seq] reachable_inv)

end
