(* ===== verification/ExecutionAdmissionProps.thy ===== *)
theory ExecutionAdmissionProps
  imports ExecutionAdmission TaskAdmissionProps SchedulerSequence
begin

text \<open>
  The execution admission service as a transition system: every method is one of a few changes of
  one task together with its leases, and a running cooperative execution is changed only by a
  report of its owner under its current generation.
\<close>

section \<open>Operations\<close>

datatype exec_op =
    X_submit exec_env "(TaskId \<Rightarrow> bool) option" TaskAdmissionRequest "TaskPeerIdentity option"
  | X_submit_cooperative exec_env "(TaskId \<Rightarrow> bool) option" TaskAdmissionRequest "TaskPeerIdentity option"
  | X_submit_native exec_env "(TaskId \<Rightarrow> bool) option" TaskAdmissionRequest NativeEpochExtent "TaskPeerIdentity option"
  | X_cancel exec_env TaskId
  | X_cancel_queued TaskId "TaskPeerIdentity option"
  | X_forget TaskId
  | X_claim_next exec_env "TaskPeerIdentity option"
  | X_claim exec_env TaskId "TaskPeerIdentity option"
  | X_wait_attempt exec_env TaskId "TaskPeerIdentity option"
  | X_heartbeat exec_env TaskId "TaskPeerIdentity option"
  | X_complete exec_env TaskId "TaskPeerIdentity option"
  | X_fail exec_env TaskId "TaskPeerIdentity option"
  | X_reap exec_env
  | X_claim_execution exec_env TaskId "TaskPeerIdentity option"
  | X_cancel_pending exec_env TaskId "TaskPeerIdentity option"
  | X_suspend exec_env TaskExecutionIdentity "TaskPeerIdentity option"
  | X_heartbeat_execution exec_env TaskExecutionIdentity "TaskPeerIdentity option"
  | X_complete_execution exec_env TaskExecutionIdentity "TaskPeerIdentity option"
  | X_fail_execution exec_env TaskExecutionIdentity "TaskPeerIdentity option"
  | X_cancel_execution exec_env TaskExecutionIdentity "TaskPeerIdentity option"
  | X_claim_native exec_env TaskId "TaskPeerIdentity option"
  | X_finish_native exec_env TaskExecutionIdentity u32 bool "TaskPeerIdentity option"
  | X_cancel_native exec_env TaskId "TaskPeerIdentity option"

fun run_exec :: "exec_op \<Rightarrow> ExecutionAdmissionState \<Rightarrow> ExecutionAdmissionState" where
  "run_exec (X_submit env reg req peer) x = snd (x_submit env reg req peer x)"
| "run_exec (X_submit_cooperative env reg req peer) x = snd (submit_cooperative env reg req peer x)"
| "run_exec (X_submit_native env reg req extent peer) x = snd (submit_native_epoch env reg req extent peer x)"
| "run_exec (X_cancel env i) x = snd (x_cancel env i x)"
| "run_exec (X_cancel_queued i peer) x = snd (x_cancel_queued i peer x)"
| "run_exec (X_forget i) x = snd (forget_terminal i x)"
| "run_exec (X_claim_next env peer) x = snd (x_claim_next env peer x)"
| "run_exec (X_claim env i peer) x = snd (x_claim env i peer x)"
| "run_exec (X_wait_attempt env i peer) x = snd (x_wait_attempt env i peer x)"
| "run_exec (X_heartbeat env i peer) x = snd (x_heartbeat env i peer x)"
| "run_exec (X_complete env i peer) x = snd (x_complete env i peer x)"
| "run_exec (X_fail env i peer) x = snd (x_fail env i peer x)"
| "run_exec (X_reap env) x = snd (x_reap_expired env x)"
| "run_exec (X_claim_execution env i peer) x = snd (claim_execution env i peer x)"
| "run_exec (X_cancel_pending env i peer) x = snd (cancel_pending_cooperative env i peer x)"
| "run_exec (X_suspend env e peer) x = snd (suspend_execution env e peer x)"
| "run_exec (X_heartbeat_execution env e peer) x = snd (heartbeat_execution env e peer x)"
| "run_exec (X_complete_execution env e peer) x = snd (complete_execution env e peer x)"
| "run_exec (X_fail_execution env e peer) x = snd (fail_execution env e peer x)"
| "run_exec (X_cancel_execution env e peer) x = snd (cancel_execution env e peer x)"
| "run_exec (X_claim_native env i peer) x = snd (claim_native_epoch env i peer x)"
| "run_exec (X_finish_native env e n failed peer) x = snd (finish_native_epoch env e n failed peer x)"
| "run_exec (X_cancel_native env i peer) x = snd (cancel_pending_native_epoch env i peer x)"

text \<open>The report of a physical stop that an operation carries: who reports, and for which dispatch.\<close>

type_synonym stop_report = "(TaskPeerIdentity option \<times> TaskExecutionIdentity) option"

fun stop_report :: "exec_op \<Rightarrow> stop_report" where
  "stop_report (X_suspend env e peer) = Some (peer, e)"
| "stop_report (X_complete_execution env e peer) = Some (peer, e)"
| "stop_report (X_fail_execution env e peer) = Some (peer, e)"
| "stop_report (X_finish_native env e n failed peer) = Some (peer, e)"
| "stop_report _ = None"

section \<open>Frame lemmas\<close>

definition x_config :: "ExecutionAdmissionState \<Rightarrow> int \<times> bool \<times> bool \<times> NativeEpochExtent option" where
  "x_config x = (xa_lease_timeout x, xa_bind_leases_to_process x, xa_completion_observer x, xa_native_epoch_policy x)"

lemma x_notify_frame [simp]:
  "xa_scheduler (x_notify x) = xa_scheduler x" "x_config (x_notify x) = x_config x"
  "xa_active_leases (x_notify x) = xa_active_leases x" "xa_pending_leases (x_notify x) = xa_pending_leases x"
  by (simp_all add: x_notify_def x_config_def)

lemma x_observe_frame [simp]:
  "xa_scheduler (x_observe_dispatch env sn x) = xa_scheduler x" "x_config (x_observe_dispatch env sn x) = x_config x"
  "xa_active_leases (x_observe_dispatch env sn x) = xa_active_leases x"
  "xa_pending_leases (x_observe_dispatch env sn x) = xa_pending_leases x"
  "xa_scheduler (x_observe_completion env sn t l x) = xa_scheduler x"
  "x_config (x_observe_completion env sn t l x) = x_config x"
  "xa_active_leases (x_observe_completion env sn t l x) = xa_active_leases x"
  "xa_pending_leases (x_observe_completion env sn t l x) = xa_pending_leases x"
  by (simp_all add: x_observe_dispatch_def x_observe_completion_def x_config_def)

lemma x_update_frame [simp]:
  "xa_scheduler (x_set_scheduler s x) = s" "x_config (x_set_scheduler s x) = x_config x"
  "xa_active_leases (x_set_scheduler s x) = xa_active_leases x"
  "xa_pending_leases (x_set_scheduler s x) = xa_pending_leases x"
  "xa_scheduler (x_put_active i l x) = xa_scheduler x" "x_config (x_put_active i l x) = x_config x"
  "xa_active_leases (x_put_active i l x) = AList.update i l (xa_active_leases x)"
  "xa_pending_leases (x_put_active i l x) = xa_pending_leases x"
  "xa_scheduler (x_put_pending i l x) = xa_scheduler x" "x_config (x_put_pending i l x) = x_config x"
  "xa_active_leases (x_put_pending i l x) = xa_active_leases x"
  "xa_pending_leases (x_put_pending i l x) = AList.update i l (xa_pending_leases x)"
  "xa_scheduler (x_erase_active i x) = xa_scheduler x" "x_config (x_erase_active i x) = x_config x"
  "xa_active_leases (x_erase_active i x) = AList.delete i (xa_active_leases x)"
  "xa_pending_leases (x_erase_active i x) = xa_pending_leases x"
  "xa_scheduler (x_erase_pending i x) = xa_scheduler x" "x_config (x_erase_pending i x) = x_config x"
  "xa_active_leases (x_erase_pending i x) = xa_active_leases x"
  "xa_pending_leases (x_erase_pending i x) = AList.delete i (xa_pending_leases x)"
  by (simp_all add: x_set_scheduler_def x_put_active_def x_put_pending_def x_erase_active_def x_erase_pending_def x_config_def)

lemma x_config_fields:
  assumes "x_config x' = x_config x"
  shows "xa_lease_timeout x' = xa_lease_timeout x" "xa_bind_leases_to_process x' = xa_bind_leases_to_process x"
    "xa_completion_observer x' = xa_completion_observer x" "xa_native_epoch_policy x' = xa_native_epoch_policy x"
    "x_tracks_leases x' = x_tracks_leases x"
  using assms by (simp_all add: x_config_def x_tracks_leases_def)

lemma x_announce_frame [simp]:
  "xa_scheduler (snd (x_announce env r)) = xa_scheduler (snd r)"
  "x_config (snd (x_announce env r)) = x_config (snd r)"
  "xa_active_leases (snd (x_announce env r)) = xa_active_leases (snd r)"
  "xa_pending_leases (snd (x_announce env r)) = xa_pending_leases (snd r)"
  by (cases r; cases "fst r"; simp add: x_announce_def)+

section \<open>Keys and states\<close>

text \<open>
  What a lease says for good: its owner, whether it is cooperative, and its native extent. A
  dispatch takes it from the pending to the active leases, a suspension back.
\<close>

type_synonym lease_key = "TaskPeerIdentity option \<times> bool \<times> NativeEpochExtent option"

definition lease_key :: "ExecutionLease \<Rightarrow> lease_key" where
  "lease_key l = (xl_owner l, xl_is_cooperative l, xl_native_epoch l)"

abbreviation xst :: "ExecutionAdmissionState \<Rightarrow> TaskId \<Rightarrow> TaskState option" where
  "xst x i \<equiv> Scheduler_task_state i (xa_scheduler x)"

definition akey :: "ExecutionAdmissionState \<Rightarrow> TaskId \<Rightarrow> lease_key option" where
  "akey x i = map_option lease_key (map_of (xa_active_leases x) i)"

definition pkey :: "ExecutionAdmissionState \<Rightarrow> TaskId \<Rightarrow> lease_key option" where
  "pkey x i = map_option lease_key (map_of (xa_pending_leases x) i)"

abbreviation generation :: "ExecutionAdmissionState \<Rightarrow> TaskId \<Rightarrow> u64" where
  "generation x i \<equiv> sequence_of (xa_scheduler x) i"

text \<open>A cooperative or native lease has an owner, and the service binds leases to processes.\<close>

definition key_ok :: "bool \<Rightarrow> lease_key \<Rightarrow> bool" where
  "key_ok bound k \<longleftrightarrow> (case k of (owner, cooperative, native) \<Rightarrow>
     cooperative \<or> native \<noteq> None \<longrightarrow> cooperative \<and> bound \<and> valid_peer_identity owner)"

text \<open>The maps hold no lease that is being reaped between two calls.\<close>

definition leases_settled :: "ExecutionAdmissionState \<Rightarrow> bool" where
  "leases_settled x \<longleftrightarrow>
     keys_distinct (xa_active_leases x) \<and> keys_distinct (xa_pending_leases x) \<and>
     list_all (\<lambda>l. \<not> xl_reaping l) (map snd (xa_active_leases x)) \<and>
     list_all (\<lambda>l. \<not> xl_reaping l) (map snd (xa_pending_leases x))"

definition authorised :: "stop_report \<Rightarrow> ExecutionAdmissionState \<Rightarrow> TaskId \<Rightarrow> lease_key \<Rightarrow> bool" where
  "authorised report x i k \<longleftrightarrow>
     (\<exists>peer g. report = Some (peer, \<lparr>xi_task_id = i, xi_generation = g\<rparr>) \<and> generation x i = g \<and> g \<noteq> 0 \<and>
        peer = fst k \<and> valid_peer_identity peer)"

section \<open>Changes\<close>

text \<open>
  The change of one task: its state, its active and its pending key, before and after.
\<close>

inductive change ::
  "stop_report \<Rightarrow> ExecutionAdmissionState \<Rightarrow> TaskId \<Rightarrow>
   TaskState option \<times> lease_key option \<times> lease_key option \<Rightarrow>
   TaskState option \<times> lease_key option \<times> lease_key option \<Rightarrow> bool" where
  submitted: "key_ok (xa_bind_leases_to_process x) k \<Longrightarrow> next_task_id (xa_scheduler x) \<le> i \<Longrightarrow>
    change report x i (None, a, p) (Some TaskState_kQueued, a, Some k)"
| aborted: "p' = p \<or> p' = None \<Longrightarrow> next_task_id (xa_scheduler x) \<le> i \<Longrightarrow>
    change report x i (None, a, p) (Some TaskState_kCancelled, a, p')"
| granted: "(xa_bind_leases_to_process x \<Longrightarrow> p = Some k) \<Longrightarrow> (p = None \<Longrightarrow> snd k = (False, None)) \<Longrightarrow>
    (\<And>k0. p = Some k0 \<Longrightarrow> snd k = snd k0) \<Longrightarrow>
    change report x i (Some TaskState_kQueued, a, p) (Some TaskState_kRunning, Some k, None)"
| refused: "change report x i (Some TaskState_kQueued, a, p) (Some TaskState_kFailed, a, None)"
| suspended: "authorised report x i k \<Longrightarrow> snd k = (True, None) \<Longrightarrow>
    change report x i (Some TaskState_kRunning, Some k, None) (Some TaskState_kQueued, None, Some k)"
| ended: "terminal \<in> {TaskState_kCompleted, TaskState_kFailed, TaskState_kCancelled} \<Longrightarrow>
    (fst (snd k) \<Longrightarrow> authorised report x i k) \<Longrightarrow> p' = p \<or> p' = None \<Longrightarrow>
    change report x i (Some TaskState_kRunning, Some k, p) (Some terminal, None, p')"
| cancelled: "change report x i (Some TaskState_kQueued, a, p) (Some TaskState_kCancelled, a, None)"
| forgotten: "terminal \<notin> {TaskState_kQueued, TaskState_kRunning} \<Longrightarrow>
    change report x i (Some terminal, None, None) (None, None, None)"

text \<open>Between two states of the scheduler: sequences only grow, and grow strictly when a task is dispatched.\<close>

definition sched_frame :: "Scheduler \<Rightarrow> Scheduler \<Rightarrow> bool" where
  "sched_frame s s' \<longleftrightarrow>
     sched_inv s' \<and> sequences_ok s' \<and> next_task_id s \<le> next_task_id s' \<and>
     (\<forall>j. Scheduler_task_state j s' = Scheduler_task_state j s \<longrightarrow> sequence_of s' j = sequence_of s j) \<and>
     (\<forall>j. Scheduler_task_state j s \<noteq> None \<and> Scheduler_task_state j s' \<noteq> None \<longrightarrow> sequence_of s j \<le> sequence_of s' j) \<and>
     (\<forall>j. Scheduler_task_state j s = Some TaskState_kQueued \<and> Scheduler_task_state j s' = Some TaskState_kRunning \<longrightarrow>
        sequence_of s j < sequence_of s' j)"

definition exec_frame :: "ExecutionAdmissionState \<Rightarrow> ExecutionAdmissionState \<Rightarrow> bool" where
  "exec_frame x x' \<longleftrightarrow>
     sched_frame (xa_scheduler x) (xa_scheduler x') \<and> x_config x' = x_config x \<and> leases_settled x'"

inductive exec_step :: "stop_report \<Rightarrow> ExecutionAdmissionState \<Rightarrow> ExecutionAdmissionState \<Rightarrow> bool" where
  quiet: "exec_frame x x' \<Longrightarrow> idle_states (xa_scheduler x) (xa_scheduler x') \<Longrightarrow> akey x' = akey x \<Longrightarrow> pkey x' = pkey x \<Longrightarrow>
    exec_step report x x'"
| moved: "exec_frame x x' \<Longrightarrow> (\<And>j. j \<noteq> i \<Longrightarrow> xst x' j = xst x j \<and> akey x' j = akey x j \<and> pkey x' j = pkey x j) \<Longrightarrow>
    change report x i (xst x i, akey x i, pkey x i) (xst x' i, akey x' i, pkey x' i) \<Longrightarrow> exec_step report x x'"

section \<open>The invariant\<close>

definition exec_inv :: "ExecutionAdmissionState \<Rightarrow> bool" where
  "exec_inv x \<longleftrightarrow>
     sched_inv (xa_scheduler x) \<and> x_tracks_leases x \<and> leases_settled x \<and> 0 \<le> xa_lease_timeout x \<and>
     (\<forall>i. (akey x i \<noteq> None) = (xst x i = Some TaskState_kRunning)) \<and>
     (\<forall>i. xst x i = Some TaskState_kQueued \<longrightarrow> pkey x i \<noteq> None) \<and>
     (\<forall>i. pred_option (key_ok (xa_bind_leases_to_process x)) (akey x i)) \<and>
     (\<forall>i. pred_option (key_ok (xa_bind_leases_to_process x)) (pkey x i)) \<and> sequences_ok (xa_scheduler x)"

lemma exec_invD:
  assumes "exec_inv x"
  shows "sched_inv (xa_scheduler x)" "x_tracks_leases x" "leases_settled x" "0 \<le> xa_lease_timeout x"
    "(akey x i \<noteq> None) = (xst x i = Some TaskState_kRunning)"
    "xst x i = Some TaskState_kQueued \<Longrightarrow> pkey x i \<noteq> None"
    "pred_option (key_ok (xa_bind_leases_to_process x)) (akey x i)"
    "pred_option (key_ok (xa_bind_leases_to_process x)) (pkey x i)" "sequences_ok (xa_scheduler x)"
  using assms unfolding exec_inv_def by blast+

lemma akey_None: "exec_inv x \<Longrightarrow> xst x i \<noteq> Some TaskState_kRunning \<Longrightarrow> akey x i = None"
  using exec_invD(5) [of x i] by blast

lemma akey_Some:
  assumes "exec_inv x" and "xst x i = Some TaskState_kRunning"
  obtains k where "akey x i = Some k"
  using exec_invD(5) [OF assms(1), of i] assms(2) by blast

lemma exec_step_inv:
  assumes inv: "exec_inv x" and step: "exec_step report x x'"
  shows "exec_inv x'"
  using step
proof cases
  case quiet
  note F = quiet(1) [unfolded exec_frame_def sched_frame_def]
  then have C: "x_config x' = x_config x" by simp
  note C = x_config_fields [OF C]
  have r: "xst x' i = Some TaskState_kRunning \<longleftrightarrow> xst x i = Some TaskState_kRunning"
    and q: "xst x' i = Some TaskState_kQueued \<Longrightarrow> xst x i = Some TaskState_kQueued" for i
    using quiet(2) [unfolded idle_states_def, THEN spec [of _ i]] by auto
  show ?thesis
    unfolding exec_inv_def quiet(3,4) C r
    using F exec_invD [OF inv] q by blast
next
  case (moved i)
  note F = moved(1) [unfolded exec_frame_def sched_frame_def]
  then have C: "x_config x' = x_config x" by simp
  note C = x_config_fields [OF C]
  have at_i: "((akey x' i \<noteq> None) = (xst x' i = Some TaskState_kRunning)) \<and>
      (xst x' i = Some TaskState_kQueued \<longrightarrow> pkey x' i \<noteq> None) \<and>
      pred_option (key_ok (xa_bind_leases_to_process x)) (akey x' i) \<and>
      pred_option (key_ok (xa_bind_leases_to_process x)) (pkey x' i)"
    using moved(3) exec_invD(5-8) [OF inv, of i]
  proof cases
    case (granted k)
    then show ?thesis using exec_invD(8) [OF inv, of i] by (cases "pkey x i") (auto simp: key_ok_def)
  qed auto
  have "((akey x' j \<noteq> None) = (xst x' j = Some TaskState_kRunning)) \<and>
      (xst x' j = Some TaskState_kQueued \<longrightarrow> pkey x' j \<noteq> None) \<and>
      pred_option (key_ok (xa_bind_leases_to_process x)) (akey x' j) \<and>
      pred_option (key_ok (xa_bind_leases_to_process x)) (pkey x' j)" for j
    using at_i moved(2) [of j] exec_invD(5-8) [OF inv, of j] by (cases "j = i") auto
  then show ?thesis
    unfolding exec_inv_def C using F exec_invD(2,4) [OF inv] by blast
qed

section \<open>Building steps\<close>

lemma akey_frame [simp]:
  "akey (x_notify x) = akey x" "akey (x_observe_dispatch env sn x) = akey x"
  "akey (x_observe_completion env sn t lo x) = akey x" "akey (x_set_scheduler s x) = akey x"
  "akey (x_put_pending i l x) = akey x" "akey (x_erase_pending i x) = akey x"
  "akey (x_put_active i l x) = (akey x)(i \<mapsto> lease_key l)" "akey (x_erase_active i x) = (akey x)(i := None)"
  by (auto simp: akey_def)

lemma pkey_frame [simp]:
  "pkey (x_notify x) = pkey x" "pkey (x_observe_dispatch env sn x) = pkey x"
  "pkey (x_observe_completion env sn t lo x) = pkey x" "pkey (x_set_scheduler s x) = pkey x"
  "pkey (x_put_active i l x) = pkey x" "pkey (x_erase_active i x) = pkey x"
  "pkey (x_put_pending i l x) = (pkey x)(i \<mapsto> lease_key l)" "pkey (x_erase_pending i x) = (pkey x)(i := None)"
  by (auto simp: pkey_def)

lemma settled_frame [simp]:
  "leases_settled (x_notify x) = leases_settled x" "leases_settled (x_observe_dispatch env sn x) = leases_settled x"
  "leases_settled (x_observe_completion env sn t lo x) = leases_settled x" "leases_settled (x_set_scheduler s x) = leases_settled x"
  "leases_settled x \<Longrightarrow> leases_settled (x_erase_active i x)" "leases_settled x \<Longrightarrow> leases_settled (x_erase_pending i x)"
  "leases_settled x \<Longrightarrow> \<not> xl_reaping l \<Longrightarrow> leases_settled (x_put_active i l x)"
  "leases_settled x \<Longrightarrow> \<not> xl_reaping l \<Longrightarrow> leases_settled (x_put_pending i l x)"
  by (simp_all add: leases_settled_def list_all_update list_all_delete)

lemma settledD:
  assumes "leases_settled x"
  shows "map_of (xa_active_leases x) i = Some l \<Longrightarrow> \<not> xl_reaping l" "map_of (xa_pending_leases x) i = Some l \<Longrightarrow> \<not> xl_reaping l"
  using assms by (auto simp: leases_settled_def list_all_iff dest!: map_of_SomeD)

lemma same_scheduler [simp]: "x_set_scheduler (xa_scheduler x) x = x"
  by (simp add: x_set_scheduler_def)

lemma frame_refl [simp]: "sched_inv s \<Longrightarrow> sequences_ok s \<Longrightarrow> sched_frame s s"
  by (simp add: sched_frame_def)

lemma seq_sched_frame:
  assumes "seq_frame s s'" and "sequences_ok s" and "sched_inv s'" and "next_task_id s \<le> next_task_id s'"
    and "\<And>j. Scheduler_task_state j s' = Scheduler_task_state j s \<Longrightarrow> sequence_of s' j = sequence_of s j"
  shows "sched_frame s s'"
  using assms seq_frame_ok [OF assms(1,2)] seq_frame_of [OF assms(1,2)]
  by (auto simp: sched_frame_def Scheduler_task_state_def)

lemma op_frame:
  assumes inv: "sched_inv s" and ok: "sequences_ok s" and op: "lifecycle_op op"
  shows "sched_frame s (run_op op s)"
proof -
  have "next_task_id (run_op op s) = next_task_id s \<and>
      (\<forall>j. Scheduler_task_state j (run_op op s) = Scheduler_task_state j s \<longrightarrow> sequence_of (run_op op s) j = sequence_of s j)"
    using run_op_lifecycle [OF inv op]
  proof cases
    case (moved i t t')
    then have "task_st t' \<noteq> task_st t" by (cases "task_st t") auto
    with moved show ?thesis
      by (auto simp: task_transition_def frame_config_def sequence_of_def Scheduler_task_state_def)
  next
    case turned
    then show ?thesis by (auto simp: idle_round_def sequence_of_def dest: rr_frameD)
  qed simp
  then show ?thesis by (intro seq_sched_frame run_op_seq run_op_inv inv ok) auto
qed

lemma call_frames:
  assumes "sched_inv s" and "sequences_ok s"
  shows "sched_frame s (snd (Scheduler_cancel now i s))" "sched_frame s (snd (Scheduler_cancel_queued i s))"
    "sched_frame s (snd (Scheduler_complete now i s))" "sched_frame s (snd (Scheduler_fail now i s))"
    "sched_frame s (snd (Scheduler_suspend sf now i s))" "sched_frame s (snd (Scheduler_dispatch_next df now s))"
    "sched_frame s (snd (Scheduler_dispatch_task df now i s))"
  using op_frame [OF assms, of "Op_cancel now i"] op_frame [OF assms, of "Op_cancel_queued i"]
    op_frame [OF assms, of "Op_complete now i"] op_frame [OF assms, of "Op_fail now i"] op_frame [OF assms, of "Op_suspend sf now i"]
    op_frame [OF assms, of "Op_dispatch_next df now"] op_frame [OF assms, of "Op_dispatch_task df now i"] by simp_all

lemma exec_refl: "exec_inv x \<Longrightarrow> exec_step report x x"
  by (rule exec_step.quiet) (simp_all add: exec_frame_def exec_invD)

lemma exec_cong:
  assumes "exec_step report x x1" and "xa_scheduler x2 = xa_scheduler x1" and "x_config x2 = x_config x1"
    and "leases_settled x2" and "akey x2 = akey x1" and "pkey x2 = pkey x1"
  shows "exec_step report x x2"
  using assms(1)
proof cases
  case quiet
  then show ?thesis using assms by (intro exec_step.quiet) (simp_all add: exec_frame_def)
next
  case (moved i)
  then show ?thesis using assms by (intro exec_step.moved [of x x2 i]) (simp_all add: exec_frame_def)
qed

text \<open>A step that changes task \<open>i\<close>, and one that changes no state and no key.\<close>

lemma moved_step:
  assumes "sched_frame (xa_scheduler x) (xa_scheduler x')" and "x_config x' = x_config x" and "leases_settled x'"
    and "\<And>j. xst x' j = (if j = i then new else xst x j)"
    and "akey x' = (akey x)(i := a)" and "pkey x' = (pkey x)(i := p)"
    and "change report x i (xst x i, akey x i, pkey x i) (new, a, p)"
  shows "exec_step report x x'"
  using assms by (intro exec_step.moved [of x x' i]) (simp_all add: exec_frame_def)

lemma quiet_step:
  assumes "exec_inv x" and "xa_scheduler x' = xa_scheduler x" and "x_config x' = x_config x" and "leases_settled x'"
    and "akey x' = akey x" and "pkey x' = pkey x"
  shows "exec_step report x x'"
  using assms by (intro exec_step.quiet) (simp_all add: exec_frame_def exec_invD)

lemma x_find_Some:
  assumes "x_find i x = Some sn"
  shows "xst x i = Some (snap_state sn)" "generation x i = snap_dispatch_sequence sn"
  using assms by (auto simp: x_find_def Scheduler_find_def snapshot_locked_def sequence_of_def Scheduler_task_state_def)

lemma x_find_state: "map_option snap_state (x_find i x) = xst x i"
  by (simp add: x_find_def find_state)

section \<open>Every operation is a step\<close>

lemma cancel_queued_steps:
  assumes inv: "exec_inv x"
  shows "fst (Scheduler_cancel_queued i (xa_scheduler x)) \<Longrightarrow>
      exec_step report x (x_erase_pending i (x_set_scheduler (snd (Scheduler_cancel_queued i (xa_scheduler x))) x))"
    and "\<not> fst (Scheduler_cancel_queued i (xa_scheduler x)) \<Longrightarrow> snd (Scheduler_cancel_queued i (xa_scheduler x)) = xa_scheduler x"
proof -
  note I = exec_invD [OF inv] and C = cancel_queued_step [OF exec_invD(1) [OF inv], of i]
  show "\<not> fst (Scheduler_cancel_queued i (xa_scheduler x)) \<Longrightarrow> snd (Scheduler_cancel_queued i (xa_scheduler x)) = xa_scheduler x"
    using C by (auto split: if_splits)
  assume ok: "fst (Scheduler_cancel_queued i (xa_scheduler x))"
  obtain b s where s: "Scheduler_cancel_queued i (xa_scheduler x) = (b, s)" by (cases "Scheduler_cancel_queued i (xa_scheduler x)")
  have q: "xst x i = Some TaskState_kQueued" using C ok by (auto split: if_splits)
  have "akey x i = None" using akey_None [OF inv, of i] q by simp
  then show "exec_step report x (x_erase_pending i (x_set_scheduler (snd (Scheduler_cancel_queued i (xa_scheduler x))) x))"
    using C q ok s I(3) call_frames(2) [OF I(1,9), of i]
    by (intro moved_step [where i = i and new = "Some TaskState_kCancelled" and a = "akey x i" and p = None])
      (auto intro: change.cancelled)
qed

lemma ended_step:
  assumes inv: "exec_inv x" and run: "xst x i = Some TaskState_kRunning"
    and k: "akey x i = Some k" "fst (snd k) \<Longrightarrow> authorised report x i k"
    and s: "r = Scheduler_complete now i (xa_scheduler x) \<or> r = Scheduler_fail now i (xa_scheduler x)"
  shows "fst r" "exec_step report x (x_erase_active i (x_set_scheduler (snd r) x))"
proof -
  note I = exec_invD [OF inv]
  have "\<exists>terminal \<in> {TaskState_kCompleted, TaskState_kFailed}. fst r \<and>
      (\<forall>j. Scheduler_task_state j (snd r) = (if j = i then Some terminal else xst x j)) \<and> sched_frame (xa_scheduler x) (snd r)"
    using s run complete_step [OF I(1), of i now] fail_step [OF I(1), of i now]
      call_frames(3,4) [OF I(1,9), of now i] by auto
  then obtain terminal where t: "terminal \<in> {TaskState_kCompleted, TaskState_kFailed}" "fst r"
      "\<And>j. Scheduler_task_state j (snd r) = (if j = i then Some terminal else xst x j)" "sched_frame (xa_scheduler x) (snd r)"
    by blast
  show "fst r" by (rule t(2))
  show "exec_step report x (x_erase_active i (x_set_scheduler (snd r) x))"
    using t run k I(3)
    by (intro moved_step [where i = i and new = "Some terminal" and a = None and p = "pkey x i"])
      (auto intro!: change.ended)
qed

end
