(* ===== verification/ExecutionAdmissionSteps.thy ===== *)
theory ExecutionAdmissionSteps
  imports ExecutionAdmissionProps
begin

text \<open>Every method of the execution admission service is a step of the transition system.\<close>

section \<open>Submission, cancellation and reports\<close>

lemma submit_frame:
  assumes inv: "sched_inv s" and ok: "sequences_ok s" and sub: "Scheduler_submit f now spec s = (res, s')" and acc: "accepted res"
  shows "sched_frame s s'"
proof -
  have st: "sr_status res = SubmitStatus_kAccepted" using acc by (simp add: accepted_def)
  note A = submit_accepted [OF inv sub st]
  have n: "map_of (tasks s) (next_task_id s) = None" by (rule fresh_task_id [OF inv])
  have "tasks s' = AList.update (next_task_id s) (submitted_record now spec) (tasks s)"
    "next_task_id s' = next_task_id s + 1" using A(1) by (simp_all add: submit_transition_def)
  moreover have "next_task_id s < next_task_id s + 1"
    using A(4) by (simp add: word_less_nat_alt unat_Suc_no_wrap)
  ultimately show ?thesis
    using submit_seq [OF inv, of f now spec] sub submit_inv [OF inv sub] n
    by (intro seq_sched_frame ok) (auto simp: sequence_of_def Scheduler_task_state_def submitted_record_def)
qed

lemma frame_trans:
  assumes "sched_frame s s1" and "sched_frame s1 s2"
    and "\<And>j. Scheduler_task_state j s \<noteq> None \<Longrightarrow> Scheduler_task_state j s2 \<noteq> None \<Longrightarrow> Scheduler_task_state j s1 \<noteq> None"
    and "\<And>j. Scheduler_task_state j s2 = Scheduler_task_state j s \<Longrightarrow> Scheduler_task_state j s1 = Scheduler_task_state j s"
    and "\<And>j. Scheduler_task_state j s = Some TaskState_kQueued \<Longrightarrow> Scheduler_task_state j s2 = Some TaskState_kRunning \<Longrightarrow>
      Scheduler_task_state j s1 \<in> {Some TaskState_kQueued, Some TaskState_kRunning}"
  shows "sched_frame s s2"
proof -
  note F = assms(1,2) [unfolded sched_frame_def]
  have "sequence_of s j \<le> sequence_of s2 j" if "Scheduler_task_state j s \<noteq> None" "Scheduler_task_state j s2 \<noteq> None" for j
    using F that assms(3) [OF that] order_trans by blast
  moreover have "sequence_of s j < sequence_of s2 j"
    if "Scheduler_task_state j s = Some TaskState_kQueued" "Scheduler_task_state j s2 = Some TaskState_kRunning" for j
    using assms(5) [OF that]
  proof (elim insertE, goal_cases)
    case 1
    then show ?case using F that by metis
  next
    case 2
    then have "sequence_of s j < sequence_of s1 j" "sequence_of s2 j = sequence_of s1 j" using F that by metis+
    then show ?case by simp
  qed simp
  moreover have "next_task_id s \<le> next_task_id s2" using F by auto
  ultimately show ?thesis using F assms(4) unfolding sched_frame_def by metis
qed

lemma submit_impl_step:
  assumes inv: "exec_inv x"
  shows "exec_step report x (snd (submit_impl env reg req peer extent kind x))"
proof (cases "reg = None \<or> xa_bind_leases_to_process x \<and> \<not> valid_peer_identity peer \<or>
    kind \<noteq> Admission_kLegacy \<and> (\<not> xa_bind_leases_to_process x \<or> \<not> valid_peer_identity peer) \<or>
    (kind = Admission_kNative) \<noteq> (extent \<noteq> None)")
  case True
  then have "snd (submit_impl env reg req peer extent kind x) = x"
    by (cases reg) (auto simp: submit_impl_def)
  then show ?thesis using exec_refl [OF inv] by simp
next
  case guard: False
  then obtain register where reg: "reg = Some register" by auto
  note I = exec_invD [OF inv]
  obtain res s where sub: "Scheduler_submit (env_submit_fault env) (at_scheduler env) (request_spec req) (xa_scheduler x) = (res, s)"
    by (cases "Scheduler_submit (env_submit_fault env) (at_scheduler env) (request_spec req) (xa_scheduler x)")
  note S = submit_step [OF I(1) sub]
  let ?i = "sr_task_id res" and ?x = "x_set_scheduler s x"
  let ?l = "pending_lease env ?x peer kind extent"
  have eq: "submit_impl env reg req peer extent kind x =
      (if \<not> accepted res then (res, ?x)
       else if env_lease_fails env \<or> map_of (xa_pending_leases x) ?i \<noteq> None then x_submit_aborted env ?i ?x
       else if register ?i then (res, x_put_pending ?i ?l ?x)
       else x_submit_aborted env ?i (x_erase_pending ?i (x_put_pending ?i ?l ?x)))"
    using guard reg sub I(2) x_config_fields(5) [of ?x x] by (auto simp: submit_impl_def Let_def)
  show ?thesis
  proof (cases "accepted res")
    case False
    with S show ?thesis using exec_refl [OF inv] by (simp add: eq)
  next
    case True
    have new: "xst x ?i = None" using S True by (auto simp: Scheduler_task_state_def)
    then have a: "akey x ?i = None" using akey_None [OF inv, of ?i] by simp
    have q: "Scheduler_task_state j s = (if j = ?i then Some TaskState_kQueued else xst x j)" for j
      using S True by simp
    have fr: "sched_frame (xa_scheduler x) s" by (rule submit_frame [OF I(1,9) sub True])
    then have si: "sched_inv s" "sequences_ok s" by (simp_all add: sched_frame_def)
    have fresh: "next_task_id (xa_scheduler x) \<le> ?i" using S True by simp
    obtain b c where c: "Scheduler_cancel (at_scheduler env) ?i s = (b, c)" by (cases "Scheduler_cancel (at_scheduler env) ?i s")
    have cs: "Scheduler_task_state j c = (if j = ?i then Some TaskState_kCancelled else xst x j)" for j
      using cancel_step [OF si(1), of ?i "at_scheduler env"] q c by simp
    have fc: "sched_frame (xa_scheduler x) c"
      using call_frames(1) [OF si, of "at_scheduler env" ?i] c cs q new by (intro frame_trans [OF fr]) (auto split: if_splits)
    have ab: "exec_step report x (x_notify (x_set_scheduler c y))"
      if "x_config y = x_config x" "leases_settled y" "akey y = akey x" "pkey y = (pkey x)(?i := p)" "p = pkey x ?i \<or> p = None" for y p
      using that fc cs new a fresh
      by (intro moved_step [where i = ?i and new = "Some TaskState_kCancelled" and a = "akey x ?i" and p = p])
        (auto intro!: change.aborted)
    have key: "lease_key ?l = (peer, kind \<noteq> Admission_kLegacy, extent)" "\<not> xl_reaping ?l"
      by (simp_all add: pending_lease_def lease_key_def)
    have kok: "key_ok (xa_bind_leases_to_process x) (lease_key ?l)"
      unfolding key(1) key_ok_def using guard by (cases kind) auto
    have ok: "exec_step report x (x_put_pending ?i ?l ?x)"
      using fr q new a I(3) key kok fresh
      by (intro moved_step [where i = ?i and new = "Some TaskState_kQueued" and a = "akey x ?i" and p = "Some (lease_key ?l)"])
        (auto intro!: change.submitted)
    have A1: "exec_step report x (snd (x_submit_aborted env ?i ?x))"
      using ab [of x "pkey x ?i"] I(3) c by (simp add: x_submit_aborted_def x_set_scheduler_def)
    have A2: "exec_step report x (snd (x_submit_aborted env ?i (x_erase_pending ?i (x_put_pending ?i ?l ?x))))"
      using ab [of "x_erase_pending ?i (x_put_pending ?i ?l ?x)" None] I(3) c key(2) by (simp add: x_submit_aborted_def)
    show ?thesis using True ok A1 A2 by (simp add: eq)
  qed
qed

text \<open>What the key of a lease says about the checks of the service.\<close>

lemma legacy_key:
  assumes "akey x i = Some k" and "\<not> is_cooperative_task x i"
  shows "\<not> fst (snd k)"
  using assms by (auto simp: akey_def is_cooperative_task_def cooperative_in_def lease_key_def)

lemma owner_key:
  assumes "xa_bind_leases_to_process x" and "x_owner_matches x l peer"
  shows "xl_owner l = peer" "valid_peer_identity peer"
  using assms by (simp_all add: x_owner_matches_def)

lemma cancel_exec_step:
  assumes inv: "exec_inv x"
  shows "exec_step report x (snd (x_cancel env i x))"
proof -
  note I = exec_invD [OF inv]
  obtain b s where c: "Scheduler_cancel (at_scheduler env) i (xa_scheduler x) = (b, s)"
    by (cases "Scheduler_cancel (at_scheduler env) i (xa_scheduler x)")
  note S = cancel_step [OF I(1), of i "at_scheduler env"]
  have fr: "sched_frame (xa_scheduler x) s" using call_frames(1) [OF I(1,9), of "at_scheduler env" i] c by simp
  let ?x = "x_notify (x_erase_pending i (x_erase_active i (x_set_scheduler s x)))"
  have gone: "exec_step report x ?x"
    if b and co: "\<not> is_cooperative_task x i"
  proof -
    have st: "Scheduler_task_state j s = (if j = i then Some TaskState_kCancelled else xst x j)" for j
      using S c \<open>b\<close> by (auto split: if_splits)
    have "change report x i (xst x i, akey x i, pkey x i) (Some TaskState_kCancelled, None, None)"
    proof (cases "xst x i = Some TaskState_kRunning")
      case True
      obtain k where k: "akey x i = Some k" by (rule akey_Some [OF inv True])
      then show ?thesis using True legacy_key [OF k co] by (auto intro!: change.ended)
    next
      case False
      then have "xst x i = Some TaskState_kQueued" using S c \<open>b\<close> by (auto split: if_splits)
      then show ?thesis using akey_None [OF inv False] by (auto intro!: change.cancelled)
    qed
    then show ?thesis using fr st I(3)
      by (intro moved_step [where i = i and new = "Some TaskState_kCancelled" and a = None and p = None]) auto
  qed
  have "\<not> b \<Longrightarrow> s = xa_scheduler x" using S c by (auto split: if_splits)
  then show ?thesis using gone exec_refl [OF inv, of report] c by (auto simp: x_cancel_def)
qed

lemma forget_exec_step:
  assumes inv: "exec_inv x"
  shows "exec_step report x (snd (forget_terminal i x))"
proof (cases "akey x i = None \<and> pkey x i = None \<and> fst (Scheduler_forget i (xa_scheduler x))")
  case True
  note I = exec_invD [OF inv]
  obtain t s where t: "map_of (tasks (xa_scheduler x)) i = Some t" "task_st t \<notin> {TaskState_kQueued, TaskState_kRunning}"
    and s: "Scheduler_forget i (xa_scheduler x) = (True, s)" "tasks s = AList.delete i (tasks (xa_scheduler x))"
      "next_task_id s = next_task_id (xa_scheduler x)"
    using True by (auto simp: Scheduler_forget_def split: option.splits if_splits)
  have fr: "sched_frame (xa_scheduler x) s"
    using forget_inv [OF I(1) s(1)] run_op_seq [OF I(1), of "Op_forget i"] t(1) s
    by (intro seq_sched_frame I(9)) (auto simp: sequence_of_def Scheduler_task_state_def)
  have "change report x i (xst x i, akey x i, pkey x i) (None, None, None)"
    using True t by (auto simp: Scheduler_task_state_def intro!: change.forgotten)
  then show ?thesis using True fr s I(3)
    by (intro moved_step [where i = i and new = None and a = None and p = None])
      (auto simp: forget_terminal_def Scheduler_task_state_def akey_def pkey_def)
next
  case False
  then have "snd (forget_terminal i x) = x"
    by (auto simp: forget_terminal_def akey_def pkey_def Scheduler_forget_def split: option.splits if_splits)
  then show ?thesis using exec_refl [OF inv] by simp
qed

lemma cancel_queued_exec_step:
  assumes inv: "exec_inv x"
  shows "exec_step report x (snd (x_cancel_queued i peer x))"
proof -
  note C = cancel_queued_steps [OF inv, of i]
  have "exec_step report x (x_notify (x_erase_pending i (x_set_scheduler (snd (Scheduler_cancel_queued i (xa_scheduler x))) x)))"
    if "fst (Scheduler_cancel_queued i (xa_scheduler x))"
    using exec_invD(3) [OF inv] by (intro exec_cong [OF C(1) [OF that]]) auto
  then show ?thesis
    using C(2) exec_refl [OF inv, of report] by (auto simp: x_cancel_queued_def Let_def case_prod_beta)
qed

section \<open>Claims\<close>

lemma x_record_cases:
  assumes "x_tracks_leases x" and "map_of (xa_active_leases x) (snap_task_id sn) = None"
  obtains
    (granted) "\<not> x_pending_invalid x (snap_task_id sn) peer"
      and "x_record_lease env (Some sn) peer x =
        (Some sn, x_put_active (snap_task_id sn)
           (active_lease env (x_erase_pending (snap_task_id sn) x) peer (map_of (xa_pending_leases x) (snap_task_id sn)))
           (x_erase_pending (snap_task_id sn) x))"
  | (refused) "x_record_lease env (Some sn) peer x = x_lease_refused env (snap_task_id sn) (x_erase_pending (snap_task_id sn) x)"
proof (cases "x_pending_invalid x (snap_task_id sn) peer \<or> env_lease_fails env")
  case True
  with assms have "x_record_lease env (Some sn) peer x = x_lease_refused env (snap_task_id sn) (x_erase_pending (snap_task_id sn) x)"
    by (auto simp: x_record_lease_def Let_def)
  then show thesis by (rule refused)
next
  case False
  with assms show thesis by (intro granted) (auto simp: x_record_lease_def Let_def)
qed

text \<open>A granted lease has the key of the pending one, except that an unbound service takes the claimant as owner.\<close>

lemma granted_key:
  assumes "\<not> x_pending_invalid x i peer" and k: "k = lease_key (active_lease env y peer (map_of (xa_pending_leases x) i))"
  shows "xa_bind_leases_to_process x \<Longrightarrow> pkey x i = Some k" "pkey x i = None \<Longrightarrow> snd k = (False, None)"
    "pkey x i = Some k0 \<Longrightarrow> snd k = snd k0"
  using assms(1) unfolding k
  by (auto simp: x_pending_invalid_def pkey_def lease_key_def active_lease_def Let_def x_owner_matches_def split: option.splits)

lemma record_step:
  assumes inv: "exec_inv x" and fr: "sched_frame (xa_scheduler x) s"
    and d: "case r of None \<Rightarrow> idle_states (xa_scheduler x) s | Some sn \<Rightarrow> dispatched_states sn (xa_scheduler x) s"
  shows "exec_step report x (snd (x_record_lease env r peer (x_set_scheduler s x)))"
proof (cases r)
  case None
  then show ?thesis using d fr exec_invD(3) [OF inv]
    by (intro exec_step.quiet) (simp_all add: x_record_lease_def exec_frame_def)
next
  case (Some sn)
  note I = exec_invD [OF inv]
  let ?i = "snap_task_id sn" and ?x = "x_set_scheduler s x"
  have d: "dispatched_states sn (xa_scheduler x) s" using d Some by simp
  then have q: "xst x ?i = Some TaskState_kQueued"
    and st: "Scheduler_task_state j s = (if j = ?i then Some TaskState_kRunning else xst x j)" for j
    by (simp_all add: dispatched_states_def)
  have a: "akey x ?i = None" using akey_None [OF inv, of ?i] q by simp
  have T: "x_tracks_leases ?x" "map_of (xa_active_leases ?x) ?i = None"
    using I(2) a x_config_fields(5) [of ?x x] by (simp_all add: akey_def)
  show ?thesis
  proof (rule x_record_cases [OF T, of peer env], goal_cases)
    case 1
    let ?l = "active_lease env (x_erase_pending ?i ?x) peer (map_of (xa_pending_leases ?x) ?i)"
    have "xa_bind_leases_to_process ?x = xa_bind_leases_to_process x" by (rule x_config_fields) simp
    moreover have "\<not> xl_reaping ?l" by (simp add: active_lease_def Let_def)
    ultimately show ?thesis
      using Some fr st q a 1 I(3) granted_key [OF 1(1) refl, where env = env and y = "x_erase_pending ?i ?x"]
      by (intro moved_step [where i = ?i and new = "Some TaskState_kRunning" and a = "Some (lease_key ?l)" and p = None])
        (auto intro!: change.granted)
  next
    case 2
    have si: "sched_inv s" "sequences_ok s" using fr by (simp_all add: sched_frame_def)
    have fs: "Scheduler_task_state j (snd (Scheduler_fail (at_scheduler env) ?i s)) =
        (if j = ?i then Some TaskState_kFailed else xst x j)" for j
      using fail_step [OF si(1), of ?i "at_scheduler env"] st by simp
    have "sched_frame (xa_scheduler x) (snd (Scheduler_fail (at_scheduler env) ?i s))"
      using call_frames(4) [OF si, of "at_scheduler env" ?i] fs st q
      by (intro frame_trans [OF fr]) (auto split: if_splits)
    then show ?thesis
      using Some fs q a 2 I(3)
      by (intro moved_step [where i = ?i and new = "Some TaskState_kFailed" and a = None and p = None])
        (auto simp: x_lease_refused_def intro!: change.refused)
  qed
qed

lemma dispatch_and_record_step:
  assumes inv: "exec_inv x"
  shows "exec_step report x (snd (dispatch_and_record env i peer x))"
proof -
  obtain r s where d: "Scheduler_dispatch_task (env_dispatch_fault env) (at_scheduler env) i (xa_scheduler x) = (r, s)"
    by (cases "Scheduler_dispatch_task (env_dispatch_fault env) (at_scheduler env) i (xa_scheduler x)")
  note I = exec_invD(1,9) [OF inv]
  show ?thesis
    using record_step [OF inv, of s r report env peer] call_frames(7) [OF I, of "env_dispatch_fault env" "at_scheduler env" i]
      dispatch_task_step [OF I(1) d] d
    by (auto simp: dispatch_and_record_def split: option.splits)
qed

lemma dispatch_and_record_granted:
  assumes inv: "exec_inv x" and d: "dispatch_and_record env i peer x = (Some sn, x1)"
  shows "snap_task_id sn = i" "xst x i = Some TaskState_kQueued" "x_find i x1 = Some sn" "snap_state sn = TaskState_kRunning"
    "xa_bind_leases_to_process x \<Longrightarrow> pkey x i = akey x1 i" "leases_settled x1"
proof -
  obtain r s where dt: "Scheduler_dispatch_task (env_dispatch_fault env) (at_scheduler env) i (xa_scheduler x) = (r, s)"
    by (cases "Scheduler_dispatch_task (env_dispatch_fault env) (at_scheduler env) i (xa_scheduler x)")
  note I = exec_invD [OF inv]
  let ?x = "x_set_scheduler s x"
  have "r \<noteq> None" using d dt by (cases r) (simp_all add: dispatch_and_record_def x_record_lease_def)
  then obtain sn' where r: "r = Some sn'" by auto
  have sn': "snap_task_id sn' = i" "dispatched_states sn' (xa_scheduler x) s"
    using dispatch_task_step [OF I(1) dt] r by simp_all
  then have st: "xst x i = Some TaskState_kQueued" "Scheduler_find i s = Some sn'" "snap_state sn' = TaskState_kRunning"
    by (auto simp: dispatched_states_def)
  have b: "xa_bind_leases_to_process ?x = xa_bind_leases_to_process x" by (rule x_config_fields) simp
  have T: "x_tracks_leases ?x" "map_of (xa_active_leases ?x) (snap_task_id sn') = None"
    using I(2) akey_None [OF inv, of i] st(1) sn'(1) x_config_fields(5) [of ?x x] by (simp_all add: akey_def)
  have rec: "x_record_lease env (Some sn') peer ?x = (Some sn, x1)" using d dt r by (simp add: dispatch_and_record_def)
  show "leases_settled x1"
    using exec_step_inv [OF inv dispatch_and_record_step [OF inv, of None env i peer]] d exec_invD(3) by simp
  have g: "\<not> x_pending_invalid ?x i peer \<and> sn = sn' \<and>
      x1 = x_put_active i (active_lease env (x_erase_pending i ?x) peer (map_of (xa_pending_leases ?x) i)) (x_erase_pending i ?x)"
    by (rule x_record_cases [OF T, of peer env]) (use rec sn'(1) in \<open>simp_all add: x_lease_refused_def\<close>)
  show "snap_task_id sn = i" "xst x i = Some TaskState_kQueued" "x_find i x1 = Some sn" "snap_state sn = TaskState_kRunning"
    using g st sn'(1) by (simp_all add: x_find_def)
  show "pkey x i = akey x1 i" if "xa_bind_leases_to_process x"
    using granted_key(1) [of ?x i peer, OF _ refl, of env "x_erase_pending i ?x"] g that b by simp
qed

lemma exec_settled: "exec_step report x x' \<Longrightarrow> leases_settled x'"
  by (auto elim!: exec_step.cases simp: exec_frame_def)

lemma step_same:
  assumes "xa_scheduler y' = xa_scheduler y" and "x_config y' = x_config y" and "akey y' = akey y" and "pkey y' = pkey y"
    and "leases_settled y' = leases_settled y"
  shows "exec_step report x y' = exec_step report x y"
  using assms exec_settled exec_cong [of report x y y'] exec_cong [of report x y' y] by auto

lemma step_frame [simp]:
  "exec_step report x (x_notify y) = exec_step report x y"
  "exec_step report x (x_observe_dispatch env sn y) = exec_step report x y"
  "exec_step report x (x_observe_completion env sn t lo y) = exec_step report x y"
  by (rule step_same; simp)+

text \<open>Replacing a lease by one with the same key.\<close>

lemma put_same_key:
  assumes "exec_step report x y" and "\<not> xl_reaping l"
  shows "akey y i = Some (lease_key l) \<Longrightarrow> exec_step report x (x_put_active i l y)"
    "pkey y i = Some (lease_key l) \<Longrightarrow> exec_step report x (x_put_pending i l y)"
  using exec_settled [OF assms(1)] assms(2) by (simp_all add: exec_cong [OF assms(1)] fun_upd_idem)

lemma announce_step: "exec_step report x (snd r) \<Longrightarrow> exec_step report x (snd (x_announce env r))"
  by (cases r; cases "fst r") (simp_all add: x_announce_def)

lemma claim_next_exec_step:
  assumes inv: "exec_inv x"
  shows "exec_step report x (snd (x_claim_next env peer x))"
proof -
  obtain r s where d: "Scheduler_dispatch_next (env_dispatch_fault env) (at_scheduler env) (xa_scheduler x) = (r, s)"
    by (cases "Scheduler_dispatch_next (env_dispatch_fault env) (at_scheduler env) (xa_scheduler x)")
  note I = exec_invD(1,9) [OF inv]
  have "sched_frame (xa_scheduler x) s" using call_frames(6) [OF I, of "env_dispatch_fault env" "at_scheduler env"] d by simp
  then show ?thesis
    using announce_step [OF record_step [OF inv _ dispatch_next_step [OF I(1) d]]] exec_refl [OF inv] d
    by (simp add: x_claim_next_def)
qed

lemma claim_exec_step:
  assumes inv: "exec_inv x"
  shows "exec_step report x (snd (x_claim env i peer x))"
  using announce_step [OF dispatch_and_record_step [OF inv]] exec_refl [OF inv] by (simp add: x_claim_def Let_def)

lemma wait_attempt_exec_step:
  assumes inv: "exec_inv x"
  shows "exec_step report x (snd (x_wait_attempt env i peer x))"
  using announce_step [OF dispatch_and_record_step [OF inv], of report env env i peer] exec_refl [OF inv]
  by (auto simp: x_wait_attempt_def split: option.split prod.split)

text \<open>A claim of an execution or of a native epoch finds the lease it just recorded, and keeps its key.\<close>

lemma claim_execution_step:
  assumes inv: "exec_inv x"
  shows "exec_step report x (snd (claim_execution env i peer x))"
proof -
  note D = dispatch_and_record_step [OF inv, of report env i peer]
  have "exec_step report x (x_notify (x_observe_dispatch env sn (x_put_active i (l\<lparr>xl_is_cooperative := True\<rparr>) x1)))"
    if b: "xa_bind_leases_to_process x" and p: "map_of (xa_pending_leases x) i = Some p" "xl_is_cooperative p"
      and d: "dispatch_and_record env i peer x = (Some sn, x1)" and l: "map_of (xa_active_leases x1) i = Some l" for p sn x1 l
  proof -
    note G = dispatch_and_record_granted [OF inv d]
    have "lease_key l = lease_key p" using G(5) [OF b] p(1) l by (simp add: akey_def pkey_def)
    then have "lease_key (l\<lparr>xl_is_cooperative := True\<rparr>) = lease_key l" using p(2) by (simp add: lease_key_def)
    then show ?thesis
      using D d settledD(1) [OF G(6) l] l by (simp add: put_same_key akey_def)
  qed
  then show ?thesis
    using D exec_refl [OF inv, of report] by (auto simp: claim_execution_def split: option.split prod.split)
qed

lemma claim_native_step:
  assumes inv: "exec_inv x"
  shows "exec_step report x (snd (claim_native_epoch env i peer x))"
proof -
  note D = dispatch_and_record_step [OF inv, of report env i peer]
  have "exec_step report x (x_notify (x_observe_dispatch env sn (x_put_active i (l\<lparr>xl_acceptance_deadline_nanoseconds := dl\<rparr>) x1)))"
    if d: "dispatch_and_record env i peer x = (Some sn, x1)" and l: "map_of (xa_active_leases x1) i = Some l" for sn x1 l dl
  proof -
    note G = dispatch_and_record_granted [OF inv d]
    have "lease_key (l\<lparr>xl_acceptance_deadline_nanoseconds := dl\<rparr>) = lease_key l" by (simp add: lease_key_def)
    then show ?thesis
      using D d settledD(1) [OF G(6) l] l by (simp add: put_same_key akey_def)
  qed
  then show ?thesis
    using D exec_refl [OF inv, of report] by (auto simp: claim_native_epoch_def Let_def split: option.split prod.split)
qed

section \<open>Heartbeats and reports of legacy leases\<close>

lemma heartbeat_exec_step:
  assumes inv: "exec_inv x"
  shows "exec_step report x (snd (x_heartbeat env i peer x))"
proof -
  have "exec_step report x (x_put_active i (l\<lparr>xl_deadline := d\<rparr>) x)" if "map_of (xa_active_leases x) i = Some l" for l d
    using that settledD(1) [OF exec_invD(3) [OF inv] that]
    by (intro put_same_key exec_refl inv) (simp_all add: akey_def lease_key_def)
  then show ?thesis using exec_refl [OF inv, of report] by (simp add: x_heartbeat_def split: option.split)
qed

lemma report_step:
  assumes inv: "exec_inv x" and ok: "\<not> x_active_rejected x i peer"
    and r: "r = Scheduler_complete now i (xa_scheduler x) \<or> r = Scheduler_fail now i (xa_scheduler x)"
  shows "exec_step report x (snd (x_report env i t r x))"
proof (cases "xst x i = Some TaskState_kRunning")
  case True
  obtain k where k: "akey x i = Some k" by (rule akey_Some [OF inv True])
  have "\<not> fst (snd k)"
    using ok k exec_invD(7) [OF inv, of i]
    by (auto simp: x_active_rejected_def akey_def lease_key_def key_ok_def split: option.splits)
  then have "fst r" "exec_step report x (x_erase_active i (x_set_scheduler (snd r) x))"
    using ended_step [OF inv True k _ r, of report] by auto
  then show ?thesis by (simp add: x_report_def case_prod_beta Let_def split: option.split)
next
  case False
  then have "r = (False, xa_scheduler x)"
    using r complete_step [OF exec_invD(1) [OF inv], of i now] fail_step [OF exec_invD(1) [OF inv], of i now] by auto
  then show ?thesis using exec_refl [OF inv] by (simp add: x_report_def)
qed

lemma complete_exec_step:
  assumes "exec_inv x"
  shows "exec_step report x (snd (x_complete env i peer x))" "exec_step report x (snd (x_fail env i peer x))"
  using report_step [OF assms _ disjI1 [OF refl]] report_step [OF assms _ disjI2 [OF refl]] exec_refl [OF assms]
  by (simp_all add: x_complete_def x_fail_def)

section \<open>Expiry\<close>

lemma update_update [simp]: "AList.update i v (AList.update i w m) = AList.update i v m"
  by (induction m) auto

declare AList.delete_update_same [simp]

lemma mark_expired_pending_None: "mark_expired_pending now m = (None, m') \<Longrightarrow> m' = m"
  by (induction m arbitrary: m') (auto split: if_splits prod.splits)

lemma mark_expired_pending_Some:
  assumes "mark_expired_pending now m = (Some i, m')" and "keys_distinct m"
  obtains l where "map_of m i = Some l" "m' = AList.update i (l\<lparr>xl_reaping := True\<rparr>) m"
  using assms
proof (induction m arbitrary: m' thesis)
  case (Cons e m)
  obtain j l where e: "e = (j, l)" by (cases e)
  show ?case
  proof (cases "x_expired now l")
    case True
    with Cons.prems e show ?thesis by auto
  next
    case False
    then obtain m1 where m1: "mark_expired_pending now m = (Some i, m1)" "m' = e # m1"
      using Cons.prems(2) e by (auto split: prod.splits)
    then obtain l' where l': "map_of m i = Some l'" "m1 = AList.update i (l'\<lparr>xl_reaping := True\<rparr>) m"
      using Cons.IH [OF _ m1(1)] Cons.prems(3) by auto
    then have "i \<noteq> j" using Cons.prems(3) e by (force dest!: map_of_SomeD)
    with l' m1 e Cons.prems(1) show ?thesis by auto
  qed
qed simp

text \<open>The scan of the active leases moves deadlines of cooperative leases, and marks at most one other lease.\<close>

definition relaxed :: "(TaskId \<times> ExecutionLease) list \<Rightarrow> (TaskId \<times> ExecutionLease) list \<Rightarrow> bool" where
  "relaxed = list_all2 (\<lambda>(i, l) (j, l'). j = i \<and> lease_key l' = lease_key l \<and> xl_reaping l' = xl_reaping l)"

lemma relaxed_simps [simp]:
  "relaxed [] m' = (m' = [])"
  "relaxed ((i, l) # m) ((j, l') # m') = (j = i \<and> lease_key l' = lease_key l \<and> xl_reaping l' = xl_reaping l \<and> relaxed m m')"
  by (auto simp: relaxed_def)

lemma relaxed_refl: "relaxed m m"
  by (induction m) auto

lemma relaxedD:
  assumes "relaxed m m'"
  shows "map fst m' = map fst m" "map_option lease_key (map_of m' i) = map_option lease_key (map_of m i)"
    "list_all (\<lambda>l. \<not> xl_reaping l) (map snd m') = list_all (\<lambda>l. \<not> xl_reaping l) (map snd m)"
  using assms unfolding relaxed_def by (induction rule: list_all2_induct; auto)+

lemma mark_expired_active_cases:
  assumes "mark_expired_active now m = (r, m')" and "keys_distinct m"
  obtains m1 where "relaxed m m1" "r = None" "m' = m1"
  | m1 i l where "relaxed m m1" "r = Some i" "map_of m1 i = Some l" "\<not> xl_is_cooperative l"
      "m' = AList.update i (l\<lparr>xl_reaping := True\<rparr>) m1"
  using assms
proof (induction m arbitrary: r m' thesis)
  case (Cons e m)
  obtain j l where e: "e = (j, l)" by (cases e)
  obtain r1 m1 where rec: "mark_expired_active now m = (r1, m1)" by (cases "mark_expired_active now m")
  have d: "keys_distinct m" "j \<notin> fst ` set m" using Cons.prems(4) e by auto
  show ?case
  proof (cases "x_expired now l \<and> \<not> xl_is_cooperative l")
    case True
    with Cons.prems(3) e have "r = Some j" "m' = (j, l\<lparr>xl_reaping := True\<rparr>) # m" by auto
    then show ?thesis using True e Cons.prems(2) [of "e # m" j l] relaxed_refl by auto
  next
    case False
    define l1 where "l1 = (if x_expired now l then l\<lparr>xl_deadline := time_point_max\<rparr> else l)"
    have l1: "lease_key l1 = lease_key l" "xl_reaping l1 = xl_reaping l" by (simp_all add: l1_def lease_key_def)
    have m': "r = r1" "m' = (j, l1) # m1" using False Cons.prems(3) e rec by (auto simp: l1_def split: if_splits)
    show ?thesis
    proof (rule Cons.IH [OF _ _ rec d(1)], goal_cases)
      case (1 m2)
      then show ?thesis using Cons.prems(1) [of "(j, l1) # m2"] m' l1 e by auto
    next
      case (2 m2 i l2)
      then have "i \<in> fst ` set m2" by (auto dest: map_of_SomeD simp: rev_image_eqI)
      then have "i \<noteq> j" using relaxedD(1) [OF 2(1)] d(2) by (metis list.set_map)
      then show ?thesis using Cons.prems(2) [of "(j, l1) # m2" i l2] 2 m' l1 e by auto
    qed
  qed
qed auto

lemma exec_cong_start:
  assumes "exec_step report y x'" and "xa_scheduler y = xa_scheduler x" and "x_config y = x_config x"
    and "akey y = akey x" and "pkey y = pkey x"
  shows "exec_step report x x'"
  using assms(1)
proof cases
  case quiet
  then show ?thesis using assms by (intro exec_step.quiet) (simp_all add: exec_frame_def)
next
  case (moved i)
  have b: "xa_bind_leases_to_process y = xa_bind_leases_to_process x" by (rule x_config_fields) fact
  have au: "authorised report y i k = authorised report x i k" for k by (simp add: authorised_def assms)
  have "change report x i p q" if "change report y i p q" for p q
    using that by cases (auto simp: b au assms(2) intro: change.intros)
  then show ?thesis using moved assms by (intro exec_step.moved [of x x' i]) (simp_all add: exec_frame_def)
qed

lemma reap_pending_step:
  assumes inv: "exec_inv x" and l: "map_of (xa_pending_leases x) i = Some l"
  shows "exec_step report x
    (snd (x_reap_pending env i (x\<lparr>xa_pending_leases := AList.update i (l\<lparr>xl_reaping := True\<rparr>) (xa_pending_leases x)\<rparr>)))"
    (is "exec_step _ _ (snd (x_reap_pending env i ?x))")
proof -
  note C = cancel_queued_steps [OF inv, of i]
  let ?r = "Scheduler_cancel_queued i (xa_scheduler x)"
  have x: "xa_scheduler ?x = xa_scheduler x" "x_find i ?x = x_find i x" by (simp_all add: x_find_def)
  have erase: "x_erase_pending i (x_set_scheduler s ?x) = x_erase_pending i (x_set_scheduler s x)" for s
    by (simp add: x_erase_pending_def x_set_scheduler_def)
  have put: "x_put_pending i p (x_set_scheduler (xa_scheduler x) ?x) = x_put_pending i p x" for p
    by (simp add: x_put_pending_def x_set_scheduler_def)
  have "exec_step report x (x_put_pending i (x_renewed env y (l\<lparr>xl_reaping := True\<rparr>)) x)" for y
    using l by (intro put_same_key exec_refl inv) (simp_all add: pkey_def lease_key_def x_renewed_def)
  then show ?thesis
    using C l put
    by (cases "fst ?r") (simp_all add: x_reap_pending_def x erase case_prod_beta Let_def split: option.split)
qed

lemma reap_running_step:
  assumes inv: "exec_inv x" and l: "map_of (xa_active_leases x) i = Some l" "\<not> xl_is_cooperative l"
  shows "exec_step report x
    (snd (x_reap_running env i (x\<lparr>xa_active_leases := AList.update i (l\<lparr>xl_reaping := True\<rparr>) (xa_active_leases x)\<rparr>)))"
    (is "exec_step _ _ (snd (x_reap_running env i ?x))")
proof -
  have k: "akey x i = Some (lease_key l)" using l by (simp add: akey_def)
  then have run: "xst x i = Some TaskState_kRunning" using exec_invD(5) [OF inv, of i] by simp
  have x: "xa_scheduler ?x = xa_scheduler x" "x_find i ?x = x_find i x" by (simp_all add: x_find_def)
  have erase: "x_erase_active i (x_set_scheduler s ?x) = x_erase_active i (x_set_scheduler s x)" for s
    by (simp add: x_erase_active_def x_set_scheduler_def)
  note E = ended_step [OF inv run k _ disjI2 [OF refl], of report "at_scheduler env"]
  show ?thesis
    using E l by (simp add: x_reap_running_def x erase case_prod_beta Let_def lease_key_def split: option.split)
qed

lemma reap_exec_step:
  assumes inv: "exec_inv x"
  shows "exec_step report x (snd (x_reap_expired env x))"
proof -
  note I = exec_invD [OF inv]
  have kd: "keys_distinct (xa_active_leases x)" "keys_distinct (xa_pending_leases x)" using I(3) by (simp_all add: leases_settled_def)
  obtain r m where p: "mark_expired_pending (at_lease env) (xa_pending_leases x) = (r, m)"
    by (cases "mark_expired_pending (at_lease env) (xa_pending_leases x)")
  obtain r1 m1 where a: "mark_expired_active (at_lease env) (xa_active_leases x) = (r1, m1)"
    by (cases "mark_expired_active (at_lease env) (xa_active_leases x)")
  have relax: "exec_step report x (x\<lparr>xa_active_leases := m2\<rparr>) \<and> exec_inv (x\<lparr>xa_active_leases := m2\<rparr>) \<and>
      akey (x\<lparr>xa_active_leases := m2\<rparr>) = akey x" if "relaxed (xa_active_leases x) m2" for m2
  proof -
    note R = relaxedD [OF that]
    have "akey (x\<lparr>xa_active_leases := m2\<rparr>) = akey x" using R(2) by (auto simp: akey_def)
    then have "exec_step report x (x\<lparr>xa_active_leases := m2\<rparr>)"
      using R I(3) by (intro quiet_step inv) (simp_all add: x_config_def leases_settled_def pkey_def fun_eq_iff)
    with exec_step_inv [OF inv this] \<open>akey _ = _\<close> show ?thesis by blast
  qed
  show ?thesis
  proof (cases "xa_lease_timeout x = 0 \<or> r \<noteq> None")
    case True
    have "exec_step report x (snd (x_reap_pending env i (x\<lparr>xa_pending_leases := m\<rparr>)))" if "r = Some i" for i
      using that mark_expired_pending_Some [OF p [unfolded that] kd(2)] reap_pending_step [OF inv, of i _ report env] by metis
    then show ?thesis using True p exec_refl [OF inv] by (auto simp: x_reap_expired_def)
  next
    case False
    then have eq: "x_reap_expired env x = (case r1 of None \<Rightarrow> (False, x\<lparr>xa_active_leases := m1\<rparr>)
        | Some i \<Rightarrow> x_reap_running env i (x\<lparr>xa_active_leases := m1\<rparr>))"
      using p a by (auto simp: x_reap_expired_def split: option.split)
    show ?thesis
    proof (rule mark_expired_active_cases [OF a kd(1)], goal_cases)
      case (1 m2)
      then show ?thesis using relax [OF 1(1)] by (simp add: eq)
    next
      case (2 m2 i l)
      note X = relax [OF 2(1)]
      have "exec_step report (x\<lparr>xa_active_leases := m2\<rparr>) (snd (x_reap_expired env x))"
        using reap_running_step [of "x\<lparr>xa_active_leases := m2\<rparr>" i l report env] X 2 by (simp add: eq)
      then show ?thesis by (rule exec_cong_start) (simp_all add: x_config_def pkey_def X fun_eq_iff)
    qed
  qed
qed

section \<open>Cooperative and native reports\<close>

lemma cooperative_leaseD:
  assumes "cooperative_lease e peer state m x = Some (sn, l)"
  shows "x_find (xi_task_id e) x = Some sn" "map_of m (xi_task_id e) = Some l" "snap_state sn = state"
    "xst x (xi_task_id e) = Some state" "generation x (xi_task_id e) = xi_generation e" "xi_generation e \<noteq> 0"
    "lease_key l = (peer, True, None)" "valid_peer_identity peer" "\<not> xl_reaping l" "xa_bind_leases_to_process x"
  using assms x_find_Some [of "xi_task_id e" x sn]
  by (auto simp: cooperative_lease_def lease_key_def x_owner_matches_def split: option.splits if_splits)

lemma authorisedI:
  assumes "generation x (xi_task_id e) = xi_generation e" "xi_generation e \<noteq> 0" "valid_peer_identity peer"
  shows "authorised (Some (peer, e)) x (xi_task_id e) (peer, k)"
  using assms by (auto simp: authorised_def intro!: exI [of _ "xi_generation e"])

lemma native_ownerD:
  assumes "native_epoch_owner_matches e peer x"
  obtains l sn where "map_of (xa_active_leases x) (xi_task_id e) = Some l" "x_find (xi_task_id e) x = Some sn"
    "xst x (xi_task_id e) = Some TaskState_kRunning" "generation x (xi_task_id e) = xi_generation e" "xi_generation e \<noteq> 0"
    "xl_owner l = peer" "valid_peer_identity peer"
  using assms
  by (auto simp: native_epoch_owner_matches_def x_owner_matches_def x_find_Some split: option.splits)

lemma cancel_pending_step:
  assumes inv: "exec_inv x"
  shows "exec_step report x (snd (cancel_pending_cooperative env i peer x))"
    "exec_step report x (snd (cancel_pending_native_epoch env i peer x))"
  using cancel_queued_steps [OF inv, of i] exec_refl [OF inv, of report]
  by (auto simp: cancel_pending_cooperative_def cancel_pending_native_epoch_def case_prod_beta split: option.split)

lemma suspend_step:
  assumes inv: "sched_inv s"
  shows "if fst (Scheduler_suspend f now i s)
    then Scheduler_task_state i s = Some TaskState_kRunning \<and>
      (\<forall>j. Scheduler_task_state j (snd (Scheduler_suspend f now i s)) =
         (if j = i then Some TaskState_kQueued else Scheduler_task_state j s))
    else snd (Scheduler_suspend f now i s) = s"
proof (cases "fst (Scheduler_suspend f now i s)")
  case True
  then obtain t where t: "map_of (tasks s) i = Some t" "task_st t = TaskState_kRunning" "task_dispatch_sequence t \<noteq> u64_max" "\<not> f"
    by (auto simp: Scheduler_suspend_def split: option.splits if_splits)
  obtain s' where "Scheduler_suspend False now i s = (True, s')"
    "task_transition i t (t\<lparr>task_st := TaskState_kQueued, task_queued_at := now\<rparr>) s s'"
    by (rule suspend_ok [OF inv t(1-3)])
  with t show ?thesis by (simp add: transition_state) (simp add: Scheduler_task_state_def)
qed (auto simp: Scheduler_suspend_def split: option.splits if_splits)

lemma suspend_execution_step:
  assumes inv: "exec_inv x"
  shows "exec_step (Some (peer, e)) x (snd (suspend_execution env e peer x))"
proof (cases "cooperative_lease e peer TaskState_kRunning (xa_active_leases x) x")
  case None
  then show ?thesis using exec_refl [OF inv] by (simp add: suspend_execution_def Let_def)
next
  case (Some snl)
  then obtain sn l where c: "cooperative_lease e peer TaskState_kRunning (xa_active_leases x) x = Some (sn, l)" by (cases snl) auto
  note L = cooperative_leaseD [OF c] and I = exec_invD [OF inv]
  let ?i = "xi_task_id e" and ?r = "Scheduler_suspend (env_suspend_fails env) (at_scheduler env) (xi_task_id e) (xa_scheduler x)"
  let ?p = "(stop_lease_timing (at_lease env) l)\<lparr>xl_is_cooperative := True, xl_deadline := x_deadline_from x (at_retry env)\<rparr>"
  have key: "lease_key ?p = (peer, True, None)" "\<not> xl_reaping ?p"
    using L(7,9) by (simp_all add: lease_key_def stop_lease_timing_def)
  note S = suspend_step [OF I(1), of "env_suspend_fails env" "at_scheduler env" ?i]
  have fr: "sched_frame (xa_scheduler x) (snd ?r)"
    by (rule call_frames(5) [OF I(1,9)])
  have "exec_step (Some (peer, e)) x (x_erase_active ?i (x_set_scheduler (snd ?r) (x_put_pending ?i ?p x)))"
    if "fst ?r" and "pkey x ?i = None"
  proof -
    have "change (Some (peer, e)) x ?i (xst x ?i, akey x ?i, pkey x ?i) (Some TaskState_kQueued, None, Some (peer, True, None))"
      using L that by (auto simp: akey_def intro!: change.suspended authorisedI)
    then show ?thesis using S that fr key I(3)
      by (intro moved_step [where i = ?i and new = "Some TaskState_kQueued" and a = None and p = "Some (peer, True, None)"]) auto
  qed
  moreover have "exec_step (Some (peer, e)) x (x_erase_pending ?i (x_set_scheduler (snd ?r) (x_put_pending ?i ?p x)))"
    if "\<not> fst ?r" and "pkey x ?i = None"
    using S that key(2) I(3) by (intro quiet_step inv) (auto simp: fun_upd_idem)
  ultimately show ?thesis
    using c exec_refl [OF inv] by (auto simp: suspend_execution_def Let_def case_prod_beta pkey_def)
qed

lemma heartbeat_execution_step:
  assumes inv: "exec_inv x"
  shows "exec_step report x (snd (heartbeat_execution env e peer x))"
proof -
  have "exec_step report x (x_put_active (xi_task_id e) (l\<lparr>xl_deadline := d\<rparr>) x)"
    if "cooperative_lease e peer st (xa_active_leases x) x = Some (sn, l)" for st sn l d
    using cooperative_leaseD [OF that] by (intro put_same_key exec_refl inv) (simp_all add: akey_def lease_key_def)
  moreover have "exec_step report x (x_put_pending (xi_task_id e) (l\<lparr>xl_deadline := d\<rparr>) x)"
    if "cooperative_lease e peer st (xa_pending_leases x) x = Some (sn, l)" for st sn l d
    using cooperative_leaseD [OF that] by (intro put_same_key exec_refl inv) (simp_all add: pkey_def lease_key_def)
  ultimately show ?thesis
    using exec_refl [OF inv, of report]
    by (auto simp: heartbeat_execution_def Let_def split: option.split TaskState.split)
qed

lemma finish_execution_step:
  assumes inv: "exec_inv x" and st: "state \<in> {TaskState_kCompleted, TaskState_kFailed}"
  shows "exec_step (Some (peer, e)) x (snd (finish_execution env e peer state x))"
proof (cases "cooperative_lease e peer TaskState_kRunning (xa_active_leases x) x")
  case None
  then show ?thesis using exec_refl [OF inv] st by (auto simp: finish_execution_def Let_def)
next
  case (Some snl)
  then obtain sn l where c: "cooperative_lease e peer TaskState_kRunning (xa_active_leases x) x = Some (sn, l)" by (cases snl) auto
  note L = cooperative_leaseD [OF c]
  define r where "r = (if state = TaskState_kCompleted then Scheduler_complete (at_scheduler env) (xi_task_id e) (xa_scheduler x)
                       else Scheduler_fail (at_scheduler env) (xi_task_id e) (xa_scheduler x))"
  have "fst r" "exec_step (Some (peer, e)) x (x_erase_active (xi_task_id e) (x_set_scheduler (snd r) x))"
    using ended_step [OF inv L(4), of "(peer, True, None)" "Some (peer, e)" r "at_scheduler env"] L
    by (auto simp: r_def akey_def authorisedI)
  then show ?thesis
    using c st by (auto simp: finish_execution_def Let_def case_prod_beta r_def)
qed

lemma cancel_execution_step:
  assumes inv: "exec_inv x"
  shows "exec_step report x (snd (cancel_execution env e peer x))"
  using cancel_queued_steps [OF inv, of "xi_task_id e"] exec_refl [OF inv, of report]
  by (auto simp: cancel_execution_def finish_execution_def case_prod_beta Let_def split: option.split)

lemma finish_native_step:
  assumes inv: "exec_inv x"
  shows "exec_step (Some (peer, e)) x (snd (finish_native_epoch env e n failed peer x))"
proof (cases "native_epoch_owner_matches e peer x")
  case False
  then show ?thesis using exec_refl [OF inv] by (simp add: finish_native_epoch_def Let_def)
next
  case True
  then obtain l sn where L: "map_of (xa_active_leases x) (xi_task_id e) = Some l" "x_find (xi_task_id e) x = Some sn"
    "xst x (xi_task_id e) = Some TaskState_kRunning" "generation x (xi_task_id e) = xi_generation e" "xi_generation e \<noteq> 0"
    "xl_owner l = peer" "valid_peer_identity peer" by (rule native_ownerD)
  define r where "r = (if failed then Scheduler_fail (at_scheduler env) (xi_task_id e) (xa_scheduler x)
                       else Scheduler_complete (at_scheduler env) (xi_task_id e) (xa_scheduler x))"
  have "fst r" "exec_step (Some (peer, e)) x (x_erase_active (xi_task_id e) (x_set_scheduler (snd r) x))"
    using ended_step [OF inv L(3), of "lease_key l" "Some (peer, e)" r "at_scheduler env"] L
    by (auto simp: r_def akey_def lease_key_def authorisedI)
  then show ?thesis
    using True exec_refl [OF inv] L
    by (auto simp: finish_native_epoch_def Let_def case_prod_beta r_def split: option.split)
qed

theorem run_exec_step:
  assumes inv: "exec_inv x"
  shows "exec_step (stop_report op) x (run_exec op x)"
proof (cases op)
  case (X_submit_native env reg req extent peer)
  then show ?thesis
    using submit_impl_step [OF inv] exec_refl [OF inv] by (simp add: submit_native_epoch_def split: option.split)
qed (simp_all add: x_submit_def submit_cooperative_def complete_execution_def fail_execution_def
      submit_impl_step [OF inv] cancel_exec_step [OF inv] forget_exec_step [OF inv] cancel_queued_exec_step [OF inv]
      claim_next_exec_step [OF inv] claim_exec_step [OF inv] wait_attempt_exec_step [OF inv] heartbeat_exec_step [OF inv]
      complete_exec_step [OF inv] reap_exec_step [OF inv] claim_execution_step [OF inv] cancel_pending_step [OF inv]
      suspend_execution_step [OF inv] heartbeat_execution_step [OF inv] finish_execution_step [OF inv]
      cancel_execution_step [OF inv] claim_native_step [OF inv] finish_native_step [OF inv])

lemma new_exec_inv:
  assumes "x_tracks_leases (TaskExecutionAdmissionService_new limit opts timeout bound dobs cobs policy)"
  shows "exec_inv (TaskExecutionAdmissionService_new limit opts timeout bound dobs cobs policy)"
proof -
  have "sched_inv (Scheduler_new limit opts)" by (rule new_inv)
  moreover have "Scheduler_task_state i (Scheduler_new limit opts) = None" for i
    by (simp add: Scheduler_new_def Scheduler_task_state_def)
  ultimately show ?thesis
    using assms new_sequences_ok
    by (simp add: exec_inv_def TaskExecutionAdmissionService_new_def ExecutionAdmissionState_new_def leases_settled_def akey_def pkey_def)
qed

lemma history_exec_inv: "exec_inv x \<Longrightarrow> exec_inv (fold run_exec ops x)"
  by (induction ops arbitrary: x) (auto intro: exec_step_inv run_exec_step)

end
