(* ===== verification/ExecutionAdmissionContract.thy ===== *)
theory ExecutionAdmissionContract
  imports ExecutionAdmissionSteps
begin

text \<open>
  What the execution admission service promises over whole histories: its leases match the tasks of
  the scheduler, a running execution is stopped only by its owner under its current generation,
  generations and native grants are handed out once, and a wait with a deadline returns.
\<close>

section \<open>Leases match tasks\<close>






section \<open>An example\<close>

definition xd_env :: "time_ns \<Rightarrow> exec_env" where
  "xd_env t =
     \<lparr>at_scheduler = t, at_lease = t, at_retry = t, at_observer = t, env_submit_fault = None,
      env_dispatch_fault = None, env_lease_fails = False, env_observation_fails = False, env_suspend_fails = False\<rparr>"

definition xd_peer :: "u32 \<Rightarrow> TaskPeerIdentity option" where
  "xd_peer n = Some \<lparr>peer_pid = n, peer_uid = 1000, peer_start_time_ticks = 77\<rparr>"

definition xd_request :: "MemoryBytes \<Rightarrow> TaskAdmissionRequest" where
  "xd_request b = \<lparr>req_tenant_id = ''a'', req_memory_bytes = b, req_weight = 1, req_work_units = 8, req_priority = 0\<rparr>"

definition xd_extent :: NativeEpochExtent where
  "xd_extent = \<lparr>max_calls = 8, calls_per_prefix = 4, max_pending_prefixes = 2, acceptance_microseconds = 1000\<rparr>"

definition xd_new :: ExecutionAdmissionState where
  "xd_new = TaskExecutionAdmissionService_new 100 (demo_opts kFifo) 5 True False True (Some xd_extent)"

text \<open>A cooperative task is claimed, suspended and claimed again by its owner; a native epoch is granted.\<close>

definition xd_ops :: "exec_op list" where
  "xd_ops =
     [X_submit_cooperative (xd_env 10) (Some (\<lambda>_. True)) (xd_request 30) (xd_peer 7),
      X_submit_native (xd_env 20) (Some (\<lambda>_. True)) (xd_request 40) xd_extent (xd_peer 8),
      X_claim_execution (xd_env 30) 1 (xd_peer 7),
      X_suspend (xd_env 40) \<lparr>xi_task_id = 1, xi_generation = 1\<rparr> (xd_peer 7),
      X_claim_execution (xd_env 50) 1 (xd_peer 7),
      X_claim_native (xd_env 60) 2 (xd_peer 8)]"

definition xd_service :: ExecutionAdmissionState where
  "xd_service = fold run_exec xd_ops xd_new"


section \<open>A running execution is stopped by its owner only\<close>

lemma exec_step_fenced:
  assumes step: "exec_step report x x'" and run: "xst x i = Some TaskState_kRunning"
    and k: "akey x i = Some k" "fst (snd k)" and no: "\<not> authorised report x i k"
  shows "xst x' i = Some TaskState_kRunning \<and> akey x' i = Some k \<and> generation x' i = generation x i"
proof -
  have "xst x' i = Some TaskState_kRunning \<and> akey x' i = Some k"
    using step
  proof cases
    case quiet
    then have "xst x' i = xst x i" using run by (auto simp: idle_states_def dest: spec [of _ i])
    then show ?thesis using run k quiet by simp
  next
    case (moved j)
    show ?thesis
    proof (cases "j = i")
      case True
      then show ?thesis using moved(3) run k no by (auto elim!: change.cases)
    next
      case False
      then show ?thesis using moved(2) [of i] run k by simp
    qed
  qed
  moreover have "sched_frame (xa_scheduler x) (xa_scheduler x')"
    using step by cases (auto simp: exec_frame_def)
  ultimately show ?thesis using run by (simp add: sched_frame_def)
qed

lemma history_fenced:
  assumes "exec_inv x" and "xst x i = Some TaskState_kRunning" and "akey x i = Some k" and "fst (snd k)"
    and "\<forall>op \<in> set ops. stop_report op \<noteq> Some (fst k, \<lparr>xi_task_id = i, xi_generation = generation x i\<rparr>)"
  shows "xst (fold run_exec ops x) i = Some TaskState_kRunning \<and> akey (fold run_exec ops x) i = Some k \<and>
    generation (fold run_exec ops x) i = generation x i"
  using assms
proof (induction ops arbitrary: x)
  case (Cons op ops)
  have "\<not> authorised (stop_report op) x i k" using Cons.prems(5) by (auto simp: authorised_def)
  note F = exec_step_fenced [OF run_exec_step [OF Cons.prems(1)] Cons.prems(2-4) this]
  then show ?case
    using Cons.IH [of "run_exec op x"] exec_step_inv [OF Cons.prems(1) run_exec_step [OF Cons.prems(1)]] Cons.prems(4,5)
    by simp
qed simp

text \<open>
  C31. A running cooperative or native execution is stopped by its owner only: whatever operations follow in
  any order, expiry, cancellation and the claims and reports of other processes included, as long as
  none of them is a stop reported by the owner under the current generation the task keeps running with the
  same generation and the same lease identity.
\<close>

theorem running_execution_fenced:
  assumes "x_tracks_leases (TaskExecutionAdmissionService_new limit opts timeout bound dobs cobs policy)"
    and "x = fold run_exec ops (TaskExecutionAdmissionService_new limit opts timeout bound dobs cobs policy)"
    and "map_of (xa_active_leases x) i = Some l" and "xl_is_cooperative l"
    and "\<forall>op \<in> set later. stop_report op \<noteq>
      Some (xl_owner l, \<lparr>xi_task_id = i, xi_generation = sequence_of (xa_scheduler x) i\<rparr>)"
  shows "Scheduler_task_state i (xa_scheduler (fold run_exec later x)) = Some TaskState_kRunning \<and>
    sequence_of (xa_scheduler (fold run_exec later x)) i = sequence_of (xa_scheduler x) i \<and>
    (\<exists>l'. map_of (xa_active_leases (fold run_exec later x)) i = Some l' \<and> xl_owner l' = xl_owner l \<and>
       xl_is_cooperative l' \<and> xl_native_epoch l' = xl_native_epoch l)"
proof -
  have inv: "exec_inv x" unfolding assms(2) by (rule history_exec_inv [OF new_exec_inv [OF assms(1)]])
  have k: "akey x i = Some (lease_key l)" using assms(3) by (simp add: akey_def)
  then have run: "xst x i = Some TaskState_kRunning" using exec_invD(5) [OF inv, of i] by simp
  have "fst (snd (lease_key l))" "fst (lease_key l) = xl_owner l" using assms(4) by (simp_all add: lease_key_def)
  then show ?thesis
    using history_fenced [OF inv run k, of later] assms(4,5) by (auto simp: akey_def lease_key_def)
qed

text \<open>The service reaps, cancels and lets other processes report; the execution stays with its owner.\<close>

definition xd_later :: "exec_op list" where
  "xd_later =
     [X_reap (xd_env 20000000), X_cancel (xd_env 20000001) 1, X_complete (xd_env 20000002) 1 (xd_peer 7),
      X_suspend (xd_env 20000003) \<lparr>xi_task_id = 1, xi_generation = 1\<rparr> (xd_peer 7),
      X_fail_execution (xd_env 20000004) \<lparr>xi_task_id = 1, xi_generation = 2\<rparr> (xd_peer 9)]"

theorem running_execution_fenced_witness:
  "Scheduler_task_state 1 (xa_scheduler (fold run_exec xd_later xd_service)) = Some TaskState_kRunning"
proof -
  have tr: "x_tracks_leases xd_new" by code_simp
  have c: "map_option (\<lambda>l. (xl_is_cooperative l, xl_owner l)) (map_of (xa_active_leases xd_service) 1) = Some (True, xd_peer 7)"
    "sequence_of (xa_scheduler xd_service) 1 = 2" by code_simp+
  then obtain l where l: "map_of (xa_active_leases xd_service) 1 = Some l" "xl_is_cooperative l" "xl_owner l = xd_peer 7" by auto
  have "xd_peer 9 \<noteq> xd_peer 7" by (simp add: xd_peer_def)
  then have "\<forall>op \<in> set xd_later. stop_report op \<noteq>
      Some (xl_owner l, \<lparr>xi_task_id = 1, xi_generation = sequence_of (xa_scheduler xd_service) 1\<rparr>)"
    unfolding c(2) l(3) by (simp add: xd_later_def)
  from running_execution_fenced [OF tr [unfolded xd_new_def] xd_service_def [unfolded xd_new_def] l(1,2) this] show ?thesis by blast
qed

section \<open>Reports\<close>

text \<open>The execution is running under this generation, and this process owns it.\<close>

definition execution_current :: "ExecutionAdmissionState \<Rightarrow> TaskExecutionIdentity \<Rightarrow> TaskPeerIdentity option \<Rightarrow> bool" where
  "execution_current x e peer \<longleftrightarrow>
     (case map_of (xa_active_leases x) (xi_task_id e) of
        None \<Rightarrow> False
      | Some l \<Rightarrow>
          xl_is_cooperative l \<and> xl_native_epoch l = None \<and> xl_owner l = peer \<and>
          sequence_of (xa_scheduler x) (xi_task_id e) = xi_generation e)"

lemma cooperative_lease_iff:
  assumes inv: "exec_inv x"
  shows "cooperative_lease e peer TaskState_kRunning (xa_active_leases x) x \<noteq> None \<longleftrightarrow> execution_current x e peer"
proof (cases "map_of (xa_active_leases x) (xi_task_id e)")
  case None
  then show ?thesis by (simp add: cooperative_lease_def execution_current_def split: option.split)
next
  case (Some l)
  note I = exec_invD [OF inv]
  have k: "akey x (xi_task_id e) = Some (lease_key l)" using Some by (simp add: akey_def)
  then have run: "xst x (xi_task_id e) = Some TaskState_kRunning" using I(5) [of "xi_task_id e"] by simp
  then obtain sn where sn: "x_find (xi_task_id e) x = Some sn" "snap_state sn = TaskState_kRunning"
    using x_find_state [of "xi_task_id e" x] by auto
  obtain t where t: "map_of (tasks (xa_scheduler x)) (xi_task_id e) = Some t" "task_st t = TaskState_kRunning"
    using run by (auto simp: Scheduler_task_state_def)
  have "sequence_of (xa_scheduler x) (xi_task_id e) \<noteq> 0"
    using task_okD [OF I(1) t(1)] t by (simp add: task_ok_def sequence_of_def)
  moreover have "key_ok (xa_bind_leases_to_process x) (lease_key l)" using I(7) [of "xi_task_id e"] k by simp
  ultimately show ?thesis
    using Some sn x_find_Some(2) [OF sn(1)] settledD(1) [OF I(3) Some]
    by (auto simp: cooperative_lease_def execution_current_def x_owner_matches_def key_ok_def lease_key_def)
qed

text \<open>
  C34. In every history a completion or failure of a cooperative execution is accepted exactly when the
  execution is running under the reported generation and the reporter owns it, and only then does the
  service answer whether it should retreat; a report under another generation or from another process
  changes nothing at all.
\<close>

theorem execution_reports_exact:
  assumes "x_tracks_leases (TaskExecutionAdmissionService_new limit opts timeout bound dobs cobs policy)"
    and "x = fold run_exec ops (TaskExecutionAdmissionService_new limit opts timeout bound dobs cobs policy)"
  shows "(fst (complete_execution env e peer x) \<longleftrightarrow> execution_current x e peer) \<and>
    (fst (fail_execution env e peer x) \<longleftrightarrow> execution_current x e peer) \<and>
    (x_retreat_requested e peer x \<noteq> None \<longleftrightarrow> execution_current x e peer) \<and>
    (\<not> execution_current x e peer \<longrightarrow>
       complete_execution env e peer x = (False, x) \<and> fail_execution env e peer x = (False, x) \<and>
       suspend_execution env e peer x = (False, x))"
proof -
  have inv: "exec_inv x" unfolding assms(2) by (rule history_exec_inv [OF new_exec_inv [OF assms(1)]])
  note I = exec_invD [OF inv] and C = cooperative_lease_iff [OF inv, of e peer]
  show ?thesis
  proof (cases "cooperative_lease e peer TaskState_kRunning (xa_active_leases x) x")
    case None
    then have "\<not> execution_current x e peer" using C by simp
    with None show ?thesis
      by (simp add: complete_execution_def fail_execution_def suspend_execution_def x_retreat_requested_def finish_execution_def)
  next
    case (Some snl)
    then obtain sn l where c: "cooperative_lease e peer TaskState_kRunning (xa_active_leases x) x = Some (sn, l)" by (cases snl) auto
    note L = cooperative_leaseD [OF c]
    have "fst (Scheduler_complete (at_scheduler env) (xi_task_id e) (xa_scheduler x))"
      "fst (Scheduler_fail (at_scheduler env) (xi_task_id e) (xa_scheduler x))"
      using complete_step [OF I(1)] fail_step [OF I(1)] L(4) by simp_all
    moreover have "execution_current x e peer" using C c by simp
    ultimately show ?thesis
      using c by (simp add: complete_execution_def fail_execution_def x_retreat_requested_def finish_execution_def Let_def case_prod_beta)
  qed
qed

theorem execution_reports_exact_witness:
  "fst (complete_execution (xd_env 70) \<lparr>xi_task_id = 1, xi_generation = 2\<rparr> (xd_peer 7) xd_service) \<and>
   fail_execution (xd_env 70) \<lparr>xi_task_id = 1, xi_generation = 1\<rparr> (xd_peer 7) xd_service = (False, xd_service)"
proof -
  have tr: "x_tracks_leases xd_new" by code_simp
  have "execution_current xd_service \<lparr>xi_task_id = 1, xi_generation = 2\<rparr> (xd_peer 7)"
    "\<not> execution_current xd_service \<lparr>xi_task_id = 1, xi_generation = 1\<rparr> (xd_peer 7)" by code_simp+
  then show ?thesis
    using execution_reports_exact [OF tr [unfolded xd_new_def] xd_service_def [unfolded xd_new_def]] by blast
qed

section \<open>Identities are handed out once\<close>

text \<open>The executions that a history hands out, and the native grants among them.\<close>

fun claimed_by :: "exec_op \<Rightarrow> ExecutionAdmissionState \<Rightarrow> TaskExecutionIdentity list" where
  "claimed_by (X_claim_execution env i peer) x =
     (case fst (claim_execution env i peer x) of
        None \<Rightarrow> []
      | Some sn \<Rightarrow> [\<lparr>xi_task_id = snap_task_id sn, xi_generation = snap_dispatch_sequence sn\<rparr>])"
| "claimed_by (X_claim_native env i peer) x =
     (case fst (claim_native_epoch env i peer x) of None \<Rightarrow> [] | Some g \<Rightarrow> [ng_execution g])"
| "claimed_by _ x = []"

fun native_by :: "exec_op \<Rightarrow> ExecutionAdmissionState \<Rightarrow> TaskId list" where
  "native_by (X_claim_native env i peer) x =
     (case fst (claim_native_epoch env i peer x) of None \<Rightarrow> [] | Some g \<Rightarrow> [xi_task_id (ng_execution g)])"
| "native_by _ x = []"

fun along :: "(exec_op \<Rightarrow> ExecutionAdmissionState \<Rightarrow> 'a list) \<Rightarrow> exec_op list \<Rightarrow> ExecutionAdmissionState \<Rightarrow> 'a list" where
  "along f [] x = []"
| "along f (op # ops) x = f op x @ along f ops (run_exec op x)"

lemma claim_execution_SomeD:
  assumes "claim_execution env i peer x = (Some sn, x')"
  obtains p x1 l where "xa_bind_leases_to_process x" "map_of (xa_pending_leases x) i = Some p"
    "dispatch_and_record env i peer x = (Some sn, x1)"
    "x' = x_notify (x_observe_dispatch env sn (x_put_active i (l\<lparr>xl_is_cooperative := True\<rparr>) x1))"
  using assms by (auto simp: claim_execution_def split: if_splits option.splits prod.splits)

lemma claim_native_SomeD:
  assumes "claim_native_epoch env i peer x = (Some g, x')"
  obtains p sn x1 l extent d where "map_of (xa_pending_leases x) i = Some p" "xl_native_epoch p \<noteq> None"
    "dispatch_and_record env i peer x = (Some sn, x1)" "map_of (xa_active_leases x1) i = Some l"
    "xl_native_epoch l = Some extent" "g = grant_from sn extent d"
    "x' = x_notify (x_observe_dispatch env sn (x_put_active i (l\<lparr>xl_acceptance_deadline_nanoseconds := d\<rparr>) x1))"
  using assms by (auto simp: claim_native_epoch_def Let_def split: if_splits option.splits prod.splits)

text \<open>A claim dispatches: the task was queued, and its new generation is the one handed out.\<close>

lemma claimed_by_dispatch:
  assumes inv: "exec_inv x" and e: "e \<in> set (claimed_by op x)"
  shows "claimed_by op x = [e]" "xst x (xi_task_id e) = Some TaskState_kQueued"
    "xst (run_exec op x) (xi_task_id e) = Some TaskState_kRunning" "generation (run_exec op x) (xi_task_id e) = xi_generation e"
proof -
  have "claimed_by op x = [e] \<and> xst x (xi_task_id e) = Some TaskState_kQueued \<and>
    xst (run_exec op x) (xi_task_id e) = Some TaskState_kRunning \<and> generation (run_exec op x) (xi_task_id e) = xi_generation e"
  proof (cases op)
    case (X_claim_execution env i peer)
    then obtain sn x' where c: "claim_execution env i peer x = (Some sn, x')"
      and e': "e = \<lparr>xi_task_id = snap_task_id sn, xi_generation = snap_dispatch_sequence sn\<rparr>"
      using e by (cases "claim_execution env i peer x") (auto split: option.splits)
    from c obtain x1 l where d: "dispatch_and_record env i peer x = (Some sn, x1)"
      and x': "x' = x_notify (x_observe_dispatch env sn (x_put_active i (l\<lparr>xl_is_cooperative := True\<rparr>) x1))"
      by (elim claim_execution_SomeD)
    note G = dispatch_and_record_granted [OF inv d]
    show ?thesis
      using X_claim_execution c e' x' G x_find_Some [OF G(3)] by simp
  next
    case (X_claim_native env i peer)
    then obtain g x' where c: "claim_native_epoch env i peer x = (Some g, x')" and e': "e = ng_execution g"
      using e by (cases "claim_native_epoch env i peer x") (auto split: option.splits)
    from c obtain sn x1 l extent t where d: "dispatch_and_record env i peer x = (Some sn, x1)" and g: "g = grant_from sn extent t"
      and x': "x' = x_notify (x_observe_dispatch env sn (x_put_active i (l\<lparr>xl_acceptance_deadline_nanoseconds := t\<rparr>) x1))"
      by (elim claim_native_SomeD)
    note G = dispatch_and_record_granted [OF inv d]
    show ?thesis
      using X_claim_native c e' g x' G x_find_Some [OF G(3)] by (simp add: grant_from_def)
  qed (use e in simp_all)
  then show "claimed_by op x = [e]" "xst x (xi_task_id e) = Some TaskState_kQueued"
    "xst (run_exec op x) (xi_task_id e) = Some TaskState_kRunning" "generation (run_exec op x) (xi_task_id e) = xi_generation e"
    by auto
qed

lemma exec_step_sched_frame: "exec_step report x x' \<Longrightarrow> sched_frame (xa_scheduler x) (xa_scheduler x')"
  by (auto elim!: exec_step.cases simp: exec_frame_def)

lemma exec_step_born:
  assumes "exec_step report x x'" and "xst x i = None" and "xst x' i \<noteq> None"
  shows "next_task_id (xa_scheduler x) \<le> i"
  using assms(1)
proof cases
  case quiet
  then show ?thesis using assms(2,3) by (auto simp: idle_states_def dest: spec [of _ i])
next
  case (moved j)
  then have "j = i" using assms(2,3) by metis
  then show ?thesis using moved(3) assms(2) by (auto elim!: change.cases)
qed

lemma live_task_id:
  assumes "exec_inv x" and "xst x i \<noteq> None"
  shows "i < next_task_id (xa_scheduler x)"
  using assms task_okD [OF exec_invD(1) [OF assms(1)], of i] by (auto simp: Scheduler_task_state_def task_ok_def)

text \<open>An identity that was handed out: its task keeps it or has a later generation, or is gone for good.\<close>

definition handed_out :: "TaskExecutionIdentity \<Rightarrow> ExecutionAdmissionState \<Rightarrow> bool" where
  "handed_out e x \<longleftrightarrow> xi_task_id e < next_task_id (xa_scheduler x) \<and>
     (xst x (xi_task_id e) \<noteq> None \<longrightarrow> xi_generation e \<le> generation x (xi_task_id e))"

lemma handed_out_step:
  assumes "exec_step report x x'" and "handed_out e x"
  shows "handed_out e x'"
proof -
  have F: "sched_frame (xa_scheduler x) (xa_scheduler x')" by (rule exec_step_sched_frame [OF assms(1)])
  then have "xi_task_id e < next_task_id (xa_scheduler x')"
    using assms(2) by (auto simp: sched_frame_def handed_out_def)
  moreover have "xi_generation e \<le> generation x' (xi_task_id e)" if "xst x' (xi_task_id e) \<noteq> None"
  proof -
    have "xst x (xi_task_id e) \<noteq> None"
      using exec_step_born [OF assms(1) _ that] assms(2) by (metis handed_out_def linorder_not_less)
    with that F have "generation x (xi_task_id e) \<le> generation x' (xi_task_id e)" unfolding sched_frame_def by blast
    with \<open>xst x _ \<noteq> None\<close> assms(2) show ?thesis by (auto simp: handed_out_def)
  qed
  ultimately show ?thesis by (simp add: handed_out_def)
qed

lemma claimed_fresh:
  assumes inv: "exec_inv x" and e: "e \<in> set (claimed_by op x)"
  shows "\<not> handed_out e x" "handed_out e (run_exec op x)"
proof -
  note C = claimed_by_dispatch [OF inv e] and S = run_exec_step [OF inv, of op]
  have "generation x (xi_task_id e) < generation (run_exec op x) (xi_task_id e)"
    using exec_step_sched_frame [OF S] C(2,3) unfolding sched_frame_def by blast
  then show "\<not> handed_out e x" using C by (auto simp: handed_out_def)
  show "handed_out e (run_exec op x)"
    using C live_task_id [OF exec_step_inv [OF inv S], of "xi_task_id e"] by (simp add: handed_out_def)
qed

text \<open>
  What a trace hands out is distinct when each item is new to the state it is handed out in and known to
  every state after it.
\<close>

lemma along_distinct:
  assumes inv: "exec_inv x" and single: "\<And>op x. exec_inv x \<Longrightarrow> distinct (f op x)"
    and fresh: "\<And>op x e. exec_inv x \<Longrightarrow> e \<in> set (f op x) \<Longrightarrow> \<not> known e x \<and> known e (run_exec op x)"
    and kept: "\<And>op x e. exec_inv x \<Longrightarrow> known e x \<Longrightarrow> known e (run_exec op x)"
  shows "distinct (along f ops x) \<and> (\<forall>e \<in> set (along f ops x). \<not> known e x)"
  using inv
proof (induction ops arbitrary: x)
  case (Cons op ops)
  have inv': "exec_inv (run_exec op x)" by (rule exec_step_inv [OF Cons.prems run_exec_step [OF Cons.prems]])
  have "e \<notin> set (along f ops (run_exec op x))" if "known e x \<or> e \<in> set (f op x)" for e
    using Cons.IH [OF inv'] fresh [OF Cons.prems, of e op] kept [OF Cons.prems, of e op] that by blast
  then show ?case using Cons.IH [OF inv'] single [OF Cons.prems, of op] fresh [OF Cons.prems, of _ op] by auto
qed simp

text \<open>
  C32. The execution identities that a history hands out, to cooperative claims and as native grants, are
  pairwise distinct: a generation is never reissued for a task, also when tasks are forgotten and when the
  64-bit counter of dispatches saturates, so a delayed report can never be taken for one about a later
  dispatch.
\<close>

theorem generations_never_reissued:
  assumes "x_tracks_leases (TaskExecutionAdmissionService_new limit opts timeout bound dobs cobs policy)"
  shows "distinct (along claimed_by ops (TaskExecutionAdmissionService_new limit opts timeout bound dobs cobs policy))"
proof (rule along_distinct [where known = handed_out, THEN conjunct1])
  show "distinct (claimed_by op x)" if "exec_inv x" for op x
    using claimed_by_dispatch(1) [OF that, of "hd (claimed_by op x)" op] by (cases "claimed_by op x") auto
qed (auto simp: new_exec_inv [OF assms] claimed_fresh intro: handed_out_step run_exec_step)

theorem generations_never_reissued_witness:
  "distinct (along claimed_by xd_ops xd_new) \<and>
   along claimed_by xd_ops xd_new =
     [\<lparr>xi_task_id = 1, xi_generation = 1\<rparr>, \<lparr>xi_task_id = 1, xi_generation = 2\<rparr>, \<lparr>xi_task_id = 2, xi_generation = 3\<rparr>]"
proof -
  have "x_tracks_leases xd_new" by code_simp
  moreover have "along claimed_by xd_ops xd_new =
     [\<lparr>xi_task_id = 1, xi_generation = 1\<rparr>, \<lparr>xi_task_id = 1, xi_generation = 2\<rparr>, \<lparr>xi_task_id = 2, xi_generation = 3\<rparr>]" by code_simp
  ultimately show ?thesis
    using generations_never_reissued [of 100 "demo_opts kFifo" 5 True False True "Some xd_extent" xd_ops] by (simp add: xd_new_def)
qed

section \<open>A native epoch is granted once\<close>

definition granted_native :: "TaskId \<Rightarrow> ExecutionAdmissionState \<Rightarrow> bool" where
  "granted_native i x \<longleftrightarrow> i < next_task_id (xa_scheduler x) \<and> xst x i \<noteq> Some TaskState_kQueued \<and>
     (case akey x i of None \<Rightarrow> True | Some k \<Rightarrow> snd (snd k) \<noteq> None)"

lemma granted_native_step:
  assumes step: "exec_step report x x'" and g: "granted_native i x"
  shows "granted_native i x'"
proof -
  have "next_task_id (xa_scheduler x) \<le> next_task_id (xa_scheduler x')"
    using exec_step_sched_frame [OF step] by (simp add: sched_frame_def)
  then have n: "i < next_task_id (xa_scheduler x')" using g by (auto simp: granted_native_def)
  show ?thesis
    using step
  proof cases
    case quiet
    then show ?thesis using g n quiet(2) [unfolded idle_states_def, THEN spec [of _ i]] by (auto simp: granted_native_def)
  next
    case (moved j)
    show ?thesis
    proof (cases "j = i")
      case True
      then show ?thesis using moved(3) g n by (auto elim!: change.cases simp: granted_native_def split: option.splits)
    next
      case False
      then show ?thesis using moved(2) [of i] g n by (simp add: granted_native_def)
    qed
  qed
qed

lemma native_fresh:
  assumes inv: "exec_inv x" and i: "i \<in> set (native_by op x)"
  shows "native_by op x = [i]" "\<not> granted_native i x" "granted_native i (run_exec op x)"
proof -
  obtain env j peer where op: "op = X_claim_native env j peer" using i by (cases op) auto
  obtain g x' where c: "claim_native_epoch env j peer x = (Some g, x')" and ij: "i = xi_task_id (ng_execution g)"
    using i op by (cases "claim_native_epoch env j peer x") (auto split: option.splits)
  then have e: "ng_execution g \<in> set (claimed_by op x)" using op by simp
  note C = claimed_by_dispatch [OF inv e, folded ij]
  show "native_by op x = [i]" using op c ij by simp
  show "\<not> granted_native i x" using C(2) by (simp add: granted_native_def)
  from c obtain sn x1 l extent t where d: "dispatch_and_record env j peer x = (Some sn, x1)" and g: "g = grant_from sn extent t"
    and l: "map_of (xa_active_leases x1) j = Some l" "xl_native_epoch l = Some extent"
    and x': "x' = x_notify (x_observe_dispatch env sn (x_put_active j (l\<lparr>xl_acceptance_deadline_nanoseconds := t\<rparr>) x1))"
    by (elim claim_native_SomeD)
  have "j = i" using dispatch_and_record_granted(1) [OF inv d] g ij by (simp add: grant_from_def)
  then have "akey (run_exec op x) i = Some (xl_owner l, xl_is_cooperative l, Some extent)"
    using op c x' l by (simp add: lease_key_def)
  then show "granted_native i (run_exec op x)"
    using C(3) live_task_id [OF exec_step_inv [OF inv run_exec_step [OF inv, of op]], of i] by (simp add: granted_native_def)
qed

text \<open>
  C33. Over every history a native epoch is granted at most once per task: a lost or delayed answer, an
  expired lease or a cancelled wait never leads to a second grant of the same epoch.
\<close>

theorem native_epoch_granted_once:
  assumes "x_tracks_leases (TaskExecutionAdmissionService_new limit opts timeout bound dobs cobs policy)"
  shows "distinct (along native_by ops (TaskExecutionAdmissionService_new limit opts timeout bound dobs cobs policy))"
proof (rule along_distinct [where known = granted_native, THEN conjunct1])
  show "distinct (native_by op x)" if "exec_inv x" for op x
    using native_fresh(1) [OF that, of "hd (native_by op x)" op] by (cases "native_by op x") auto
qed (auto simp: new_exec_inv [OF assms] native_fresh intro: granted_native_step run_exec_step)

theorem native_epoch_granted_once_witness:
  "distinct (along native_by (xd_ops @ [X_claim_native (xd_env 70) 2 (xd_peer 8)]) xd_new) \<and>
   along native_by (xd_ops @ [X_claim_native (xd_env 70) 2 (xd_peer 8)]) xd_new = [2]"
proof -
  have "x_tracks_leases xd_new" by code_simp
  moreover have "along native_by (xd_ops @ [X_claim_native (xd_env 70) 2 (xd_peer 8)]) xd_new = [2]" by code_simp
  ultimately show ?thesis
    using native_epoch_granted_once [of 100 "demo_opts kFifo" 5 True False True "Some xd_extent"
        "xd_ops @ [X_claim_native (xd_env 70) 2 (xd_peer 8)]"] by (simp add: xd_new_def)
qed

section \<open>A wait with a deadline returns\<close>

lemma wait_loop_returns:
  assumes "deadline \<noteq> time_point_max" and "\<exists>r \<in> set rounds. deadline \<le> xw_clock_after r"
  shows "fst (x_wait_claim_loop rounds deadline i peer x) \<noteq> None"
  using assms(2)
proof (induction rounds arbitrary: x)
  case (Cons r rounds)
  then show ?case using assms(1) by (auto simp: Let_def split: option.split prod.split)
qed simp

text \<open>
  C35. A waiting claim with a timeout returns once the clock reaches its deadline, whatever other processes
  do to the service before and during the wait and however often it is woken up in vain.
\<close>

theorem waiting_claim_terminates:
  assumes "0 < timeout" and "now + milliseconds timeout \<noteq> time_point_max"
    and "\<exists>r \<in> set rounds. now + milliseconds timeout \<le> xw_clock_after r"
  shows "\<exists>result x'. x_wait_claim rounds now i timeout peer x = (Some result, x')"
  using wait_loop_returns [OF assms(2,3), of i peer x] assms(1)
  by (cases "x_wait_claim_loop rounds (now + milliseconds timeout) i peer x") (auto simp: x_wait_claim_def)

text \<open>The second of two queued tasks is waited for: two wake-ups by unrelated notifications, then the deadline.\<close>

definition xd_queued :: ExecutionAdmissionState where
  "xd_queued = fold run_exec
     [X_submit (xd_env 10) (Some (\<lambda>_. True)) (xd_request 30) (xd_peer 7),
      X_submit (xd_env 20) (Some (\<lambda>_. True)) (xd_request 40) (xd_peer 8)] xd_new"

definition xd_round :: "time_ns \<Rightarrow> exec_wait_round" where
  "xd_round t = \<lparr>xw_before = id, xw_env = xd_env t, xw_clock_after = t, xw_while_waiting = x_notify\<rparr>"

theorem waiting_claim_terminates_witness:
  "\<exists>result x'. x_wait_claim [xd_round 100, xd_round 200, xd_round 1000100] 100 2 1 (xd_peer 8) xd_queued = (Some result, x')"
  by (rule waiting_claim_terminates) (simp_all add: milliseconds_def time_point_max_def xd_round_def)

end
