(* ===== verification/ExecutionProtocol.thy ===== *)
theory ExecutionProtocol
  imports TaskProtocol ExecutionAdmission
begin

text \<open>
  The line protocol of the execution control channel, \<^verbatim>\<open>src/src/control/task_execution_protocol.cc\<close>: the
  requests of the task protocol under another version token, the generation-bound requests of
  cooperative executions, and their responses. The tokeniser, the number parsing and the token tables
  of states and error codes are those of the task protocol, which the source repeats word for word.
\<close>

section \<open>Data\<close>

definition kTaskExecutionProtocolVersion :: string where
  "kTaskExecutionProtocolVersion = ''GLIMMER_TASK_EXEC_V1''"

datatype TaskExecutionProtocolOperation =
    XOp_kSubmit
  | XOp_kAcquire
  | XOp_kCancel
  | XOp_kQuery
  | XOp_kClaim
  | XOp_kWait
  | XOp_kHeartbeat
  | XOp_kComplete
  | XOp_kFail
  | XOp_kStats
  | XOp_kMetrics
  | XOp_kExecutionClaim
  | XOp_kRetreat
  | XOp_kSuspend
  | XOp_kExecutionHeartbeat
  | XOp_kExecutionComplete
  | XOp_kExecutionFail
  | XOp_kExecutionCancel
  | XOp_kExecutionAcquire
  | XOp_kExecutionCompleteAcquire
  | XOp_unlisted

record TaskExecutionProtocolRequest =
  xreq_operation :: TaskExecutionProtocolOperation
  xreq_admission :: TaskAdmissionRequest
  xreq_task_id :: TaskId
  xreq_wait_timeout_ms :: u32
  xreq_generation :: u64

record TaskExecutionProtocolRequestParseResult =
  xrp_error :: TaskProtocolParseError
  xrp_request :: "TaskExecutionProtocolRequest option"

datatype TaskExecutionProtocolResponseKind =
    XKind_kAccepted
  | XKind_kState
  | XKind_kError
  | XKind_kLease
  | XKind_kEmpty
  | XKind_kStats
  | XKind_kMetrics
  | XKind_kExecutionLease
  | XKind_kRetreat
  | XKind_kExecutionHandoff
  | XKind_unlisted

record TaskExecutionProtocolResponse =
  xres_kind :: TaskExecutionProtocolResponseKind
  xres_task_id :: TaskId
  xres_state :: TaskProtocolState
  xres_error :: TaskProtocolErrorCode
  xres_tenant_id :: string
  xres_memory_bytes :: MemoryBytes
  xres_weight :: u32
  xres_work_units :: u32
  xres_stats :: TaskProtocolStats
  xres_generation :: u64
  xres_should_retreat :: bool
  xres_completed_execution :: TaskExecutionIdentity

record TaskExecutionProtocolResponseParseResult =
  xsp_error :: TaskProtocolParseError
  xsp_response :: "TaskExecutionProtocolResponse option"

definition no_execution :: TaskExecutionIdentity where
  "no_execution = \<lparr>xi_task_id = 0, xi_generation = 0\<rparr>"

definition default_xrequest :: TaskExecutionProtocolRequest where
  "default_xrequest =
     \<lparr>xreq_operation = XOp_kSubmit, xreq_admission = default_admission, xreq_task_id = 0,
      xreq_wait_timeout_ms = 0, xreq_generation = 0\<rparr>"

definition default_xresponse :: TaskExecutionProtocolResponse where
  "default_xresponse =
     \<lparr>xres_kind = XKind_kError, xres_task_id = 0, xres_state = PState_kQueued, xres_error = PError_kInternalError,
      xres_tenant_id = [], xres_memory_bytes = 0, xres_weight = 0, xres_work_units = 0, xres_stats = default_stats,
      xres_generation = 0, xres_should_retreat = False, xres_completed_execution = no_execution\<rparr>"

section \<open>Operation tokens\<close>

definition kExecutionOperations :: "(string \<times> TaskExecutionProtocolOperation) list" where
  "kExecutionOperations =
     [(''EXEC_CLAIM'', XOp_kExecutionClaim), (''RETREAT'', XOp_kRetreat), (''SUSPEND'', XOp_kSuspend),
      (''EXEC_HEARTBEAT'', XOp_kExecutionHeartbeat), (''EXEC_COMPLETE'', XOp_kExecutionComplete),
      (''EXEC_FAIL'', XOp_kExecutionFail), (''EXEC_CANCEL'', XOp_kExecutionCancel)]"

definition execution_operation :: "string \<Rightarrow> TaskExecutionProtocolOperation option" where
  "execution_operation name = map_of kExecutionOperations name"

definition execution_token :: "TaskExecutionProtocolOperation \<Rightarrow> string option" where
  "execution_token op = map_of (map prod.swap kExecutionOperations) op"

section \<open>Requests\<close>

definition xrequest_error :: "TaskProtocolParseError \<Rightarrow> TaskExecutionProtocolRequestParseResult" where
  "xrequest_error e = \<lparr>xrp_error = e, xrp_request = None\<rparr>"

definition xrequest_parsed :: "TaskExecutionProtocolRequest \<Rightarrow> TaskExecutionProtocolRequestParseResult" where
  "xrequest_parsed r = \<lparr>xrp_error = Parse_kNone, xrp_request = Some r\<rparr>"

definition xresponse_error :: "TaskProtocolParseError \<Rightarrow> TaskExecutionProtocolResponseParseResult" where
  "xresponse_error e = \<lparr>xsp_error = e, xsp_response = None\<rparr>"

definition xresponse_parsed :: "TaskExecutionProtocolResponse \<Rightarrow> TaskExecutionProtocolResponseParseResult" where
  "xresponse_parsed r = \<lparr>xsp_error = Parse_kNone, xsp_response = Some r\<rparr>"

text \<open>SUBMIT, ACQUIRE, EXEC\_ACQUIRE, and EXEC\_COMPLETE\_ACQUIRE, which names a finished execution first.\<close>

definition admission_operation :: "string \<Rightarrow> TaskExecutionProtocolOperation" where
  "admission_operation name =
     (if name = ''EXEC_COMPLETE_ACQUIRE'' then XOp_kExecutionCompleteAcquire
      else if name = ''SUBMIT'' then XOp_kSubmit
      else if name = ''ACQUIRE'' then XOp_kAcquire
      else XOp_kExecutionAcquire)"

definition parse_xadmission :: "bool \<Rightarrow> string list \<Rightarrow> TaskExecutionProtocolRequestParseResult" where
  "parse_xadmission alloc_fails vs =
     (let is_handoff = vs ! 1 = ''EXEC_COMPLETE_ACQUIRE'';
          offset = (if is_handoff then 2 else 0);
          n = length vs
      in if n \<noteq> 6 + offset \<and> n \<noteq> 7 + offset then xrequest_error Parse_kMalformed
         else if \<not> is_valid_tenant_id (vs ! (2 + offset)) then xrequest_error Parse_kInvalidTenant
         else (case (if is_handoff then parse_positive_integer (vs ! 2) else Some 0,
                     if is_handoff then parse_positive_integer (vs ! 3) else Some 0) of
           (Some i, Some g) \<Rightarrow>
             if alloc_fails then xrequest_error Parse_kInternalError
             else (case (parse_positive_integer (vs ! (3 + offset)), parse_positive_integer (vs ! (4 + offset)),
                         parse_positive_integer (vs ! (5 + offset))) of
               (Some m, Some w, Some u) \<Rightarrow>
                 (case (if n = 7 + offset then parse_unsigned_integer (vs ! (6 + offset)) else Some 0) of
                    None \<Rightarrow> xrequest_error Parse_kInvalidValue
                  | Some p \<Rightarrow>
                      xrequest_parsed (default_xrequest\<lparr>xreq_operation := admission_operation (vs ! 1),
                        xreq_admission := \<lparr>req_tenant_id = vs ! (2 + offset), req_memory_bytes = m, req_weight = w,
                                           req_work_units = u, req_priority = p\<rparr>,
                        xreq_task_id := i, xreq_generation := g\<rparr>))
             | _ \<Rightarrow> xrequest_error Parse_kInvalidValue)
         | _ \<Rightarrow> xrequest_error Parse_kInvalidValue))"

definition parse_xclaim :: "string list \<Rightarrow> TaskExecutionProtocolRequestParseResult" where
  "parse_xclaim vs =
     (if length vs \<noteq> 2 \<and> length vs \<noteq> 3 then xrequest_error Parse_kMalformed
      else if length vs = 3
      then (case parse_unsigned_integer (vs ! 2) of
          None \<Rightarrow> xrequest_error Parse_kMalformed
        | Some i \<Rightarrow>
            if i = 0 then xrequest_error Parse_kInvalidValue
            else xrequest_parsed (default_xrequest\<lparr>xreq_operation := XOp_kClaim, xreq_task_id := i\<rparr>))
      else xrequest_parsed (default_xrequest\<lparr>xreq_operation := XOp_kClaim\<rparr>))"

definition parse_xexecution ::
  "TaskExecutionProtocolOperation \<Rightarrow> string list \<Rightarrow> TaskExecutionProtocolRequestParseResult" where
  "parse_xexecution op vs =
     (let is_claim = op = XOp_kExecutionClaim
      in if length vs \<noteq> (if is_claim then 3 else 4) then xrequest_error Parse_kMalformed
         else (case (parse_positive_integer (vs ! 2), if is_claim then Some 0 else parse_positive_integer (vs ! 3)) of
           (Some i, Some g) \<Rightarrow>
             xrequest_parsed (default_xrequest\<lparr>xreq_operation := op, xreq_task_id := i, xreq_generation := g\<rparr>)
         | _ \<Rightarrow> xrequest_error Parse_kInvalidValue))"

definition parse_xwait :: "string list \<Rightarrow> TaskExecutionProtocolRequestParseResult" where
  "parse_xwait vs =
     (if length vs \<noteq> 4 then xrequest_error Parse_kMalformed
      else (case (parse_positive_integer (vs ! 2), parse_positive_integer (vs ! 3)) of
        (Some i, Some t) \<Rightarrow>
          if t > kMaxWaitTimeoutMs then xrequest_error Parse_kInvalidValue
          else xrequest_parsed (default_xrequest\<lparr>xreq_operation := XOp_kWait, xreq_task_id := i, xreq_wait_timeout_ms := t\<rparr>)
      | _ \<Rightarrow> xrequest_error Parse_kInvalidValue))"

definition parse_xtask :: "string list \<Rightarrow> TaskExecutionProtocolRequestParseResult" where
  "parse_xtask vs =
     (if length vs \<noteq> 3 then xrequest_error Parse_kMalformed
      else (case parse_positive_integer (vs ! 2) of
        None \<Rightarrow> xrequest_error Parse_kInvalidValue
      | Some i \<Rightarrow>
          let parsed = (\<lambda>op. xrequest_parsed (default_xrequest\<lparr>xreq_operation := op, xreq_task_id := i\<rparr>))
          in if vs ! 1 = ''CANCEL'' then parsed XOp_kCancel
             else if vs ! 1 = ''QUERY'' then parsed XOp_kQuery
             else if vs ! 1 = ''HEARTBEAT'' then parsed XOp_kHeartbeat
             else if vs ! 1 = ''COMPLETE'' then parsed XOp_kComplete
             else if vs ! 1 = ''FAIL'' then parsed XOp_kFail
             else xrequest_error Parse_kMalformed))"

definition parse_task_execution_protocol_request :: "bool \<Rightarrow> string \<Rightarrow> TaskExecutionProtocolRequestParseResult" where
  "parse_task_execution_protocol_request alloc_fails line =
     (if length line > kTaskProtocolMaxLineBytes then xrequest_error Parse_kLineTooLong
      else
        let tokens = split_tokens (strip_suffix CHR 0x0D (strip_suffix newline line));
            vs = tok_values tokens
        in if tok_count tokens = 0 then xrequest_error Parse_kEmpty
           else if tok_overflow tokens then xrequest_error Parse_kMalformed
           else if vs ! 0 \<noteq> kTaskExecutionProtocolVersion then xrequest_error Parse_kUnsupportedVersion
           else if tok_count tokens < 2 then xrequest_error Parse_kMalformed
           else if vs ! 1 = ''SUBMIT'' \<or> vs ! 1 = ''ACQUIRE'' \<or> vs ! 1 = ''EXEC_ACQUIRE'' \<or>
                   vs ! 1 = ''EXEC_COMPLETE_ACQUIRE''
           then parse_xadmission alloc_fails vs
           else if vs ! 1 = ''CLAIM'' then parse_xclaim vs
           else (case execution_operation (vs ! 1) of
             Some op \<Rightarrow> parse_xexecution op vs
           | None \<Rightarrow>
               if vs ! 1 = ''WAIT'' then parse_xwait vs
               else if vs ! 1 = ''STATS'' \<or> vs ! 1 = ''METRICS''
               then if tok_count tokens \<noteq> 2 then xrequest_error Parse_kMalformed
                    else xrequest_parsed (default_xrequest\<lparr>xreq_operation :=
                           (if vs ! 1 = ''STATS'' then XOp_kStats else XOp_kMetrics)\<rparr>)
               else parse_xtask vs))"

fun xtask_operation_token :: "TaskExecutionProtocolOperation \<Rightarrow> string" where
  "xtask_operation_token XOp_kCancel = ''CANCEL''"
| "xtask_operation_token XOp_kQuery = ''QUERY''"
| "xtask_operation_token XOp_kHeartbeat = ''HEARTBEAT''"
| "xtask_operation_token XOp_kComplete = ''COMPLETE''"
| "xtask_operation_token XOp_kFail = ''FAIL''"
| "xtask_operation_token _ = ''''"

definition format_xadmission :: "TaskExecutionProtocolRequest \<Rightarrow> string option" where
  "format_xadmission r =
     (let op = xreq_operation r; a = xreq_admission r;
          is_handoff = op = XOp_kExecutionCompleteAcquire
      in if \<not> is_valid_tenant_id (req_tenant_id a) \<or> req_memory_bytes a = 0 \<or> req_weight a = 0 \<or> req_work_units a = 0 \<or>
           is_handoff \<and> (xreq_task_id r = 0 \<or> xreq_generation r = 0)
         then None
         else Some (format_line
           ([kTaskExecutionProtocolVersion,
             if is_handoff then ''EXEC_COMPLETE_ACQUIRE'' else if op = XOp_kSubmit then ''SUBMIT''
             else if op = XOp_kAcquire then ''ACQUIRE'' else ''EXEC_ACQUIRE''] @
            (if is_handoff then [to_string (xreq_task_id r), to_string (xreq_generation r)] else []) @
            [req_tenant_id a, to_string (req_memory_bytes a), to_string (req_weight a), to_string (req_work_units a)] @
            (if req_priority a \<noteq> 0 then [to_string (req_priority a)] else []))))"

definition format_xrequest_line :: "TaskExecutionProtocolRequest \<Rightarrow> string option" where
  "format_xrequest_line r =
     (let op = xreq_operation r in
      if op = XOp_kSubmit \<or> op = XOp_kAcquire \<or> op = XOp_kExecutionAcquire \<or> op = XOp_kExecutionCompleteAcquire
      then format_xadmission r
      else if op = XOp_kCancel \<or> op = XOp_kQuery \<or> op = XOp_kHeartbeat \<or> op = XOp_kComplete \<or> op = XOp_kFail
      then (case format_task_id (xreq_task_id r) of
          None \<Rightarrow> None
        | Some i \<Rightarrow>
            if xtask_operation_token op = [] then None
            else Some (format_line [kTaskExecutionProtocolVersion, xtask_operation_token op, i]))
      else if op = XOp_kClaim
      then Some (format_line ([kTaskExecutionProtocolVersion, ''CLAIM''] @
             (if xreq_task_id r = 0 then [] else [to_string (xreq_task_id r)])))
      else if op = XOp_kWait
      then if xreq_task_id r = 0 \<or> xreq_wait_timeout_ms r = 0 \<or> xreq_wait_timeout_ms r > kMaxWaitTimeoutMs then None
           else Some (format_line [kTaskExecutionProtocolVersion, ''WAIT'', to_string (xreq_task_id r),
                        to_string (xreq_wait_timeout_ms r)])
      else if op = XOp_kStats \<or> op = XOp_kMetrics
      then Some (format_line [kTaskExecutionProtocolVersion, if op = XOp_kStats then ''STATS'' else ''METRICS''])
      else None)"

definition format_task_execution_protocol_request :: "TaskExecutionProtocolRequest \<Rightarrow> string option" where
  "format_task_execution_protocol_request r =
     (let op = xreq_operation r in
      if op \<notin> {XOp_kExecutionCompleteAcquire, XOp_kRetreat, XOp_kSuspend, XOp_kExecutionHeartbeat,
                XOp_kExecutionComplete, XOp_kExecutionFail, XOp_kExecutionCancel} \<and> xreq_generation r \<noteq> 0
      then None
      else if op \<in> {XOp_kSubmit, XOp_kAcquire, XOp_kExecutionAcquire, XOp_kStats, XOp_kMetrics} \<and> xreq_task_id r \<noteq> 0
      then None
      else (case execution_token op of
        Some token \<Rightarrow>
          let is_claim = op = XOp_kExecutionClaim
          in if xreq_task_id r = 0 \<or> is_claim \<and> xreq_generation r \<noteq> 0 \<or> \<not> is_claim \<and> xreq_generation r = 0 then None
             else Some (format_line ([kTaskExecutionProtocolVersion, token, to_string (xreq_task_id r)] @
                    (if is_claim then [] else [to_string (xreq_generation r)])))
      | None \<Rightarrow>
          (case format_xrequest_line r of
             None \<Rightarrow> None
           | Some line \<Rightarrow> if length line > kTaskProtocolMaxLineBytes then None else Some line)))"

section \<open>Responses\<close>

definition parse_xhandoff :: "string list \<Rightarrow> TaskExecutionProtocolResponse option" where
  "parse_xhandoff vs =
     (if length vs = 6 \<and> vs ! 1 = ''EXEC_HANDOFF''
      then (case (parse_positive_integer (vs ! 2), parse_positive_integer (vs ! 3), parse_unsigned_integer (vs ! 4),
                  parse_unsigned_integer (vs ! 5)) of
          (Some ci, Some cg, Some i, Some g) \<Rightarrow>
            if i \<noteq> ci \<and> (i \<noteq> 0 \<or> g = 0)
            then Some (default_xresponse\<lparr>xres_kind := XKind_kExecutionHandoff, xres_task_id := i, xres_generation := g,
                   xres_completed_execution := \<lparr>xi_task_id = ci, xi_generation = cg\<rparr>\<rparr>)
            else None
        | _ \<Rightarrow> None)
      else None)"

definition parse_xretreat :: "string list \<Rightarrow> TaskExecutionProtocolResponse option" where
  "parse_xretreat vs =
     (if length vs = 5 \<and> vs ! 1 = ''RETREAT''
      then (case (parse_positive_integer (vs ! 2), parse_positive_integer (vs ! 3)) of
          (Some i, Some g) \<Rightarrow>
            if vs ! 4 = ''0'' \<or> vs ! 4 = ''1''
            then Some (default_xresponse\<lparr>xres_kind := XKind_kRetreat, xres_task_id := i, xres_generation := g,
                   xres_should_retreat := (vs ! 4 = ''1'')\<rparr>)
            else None
        | _ \<Rightarrow> None)
      else None)"

text \<open>LEASE and EXEC\_LEASE; the tenant is copied into a string.\<close>

definition parse_xlease :: "bool \<Rightarrow> string list \<Rightarrow> TaskExecutionProtocolResponseParseResult" where
  "parse_xlease alloc_fails vs =
     (if length vs = 7 \<and> vs ! 1 = ''LEASE'' \<or> length vs = 8 \<and> vs ! 1 = ''EXEC_LEASE''
      then (case (if length vs = 8 then parse_positive_integer (vs ! 7) else Some 0, parse_positive_integer (vs ! 2),
                  parse_positive_integer (vs ! 4), parse_positive_integer (vs ! 5), parse_positive_integer (vs ! 6)) of
          (Some g, Some i, Some m, Some w, Some u) \<Rightarrow>
            if \<not> is_valid_tenant_id (vs ! 3) then xresponse_error Parse_kMalformed
            else if alloc_fails then xresponse_error Parse_kInternalError
            else xresponse_parsed (default_xresponse\<lparr>
                   xres_kind := (if length vs = 8 then XKind_kExecutionLease else XKind_kLease), xres_task_id := i,
                   xres_tenant_id := vs ! 3, xres_memory_bytes := m, xres_weight := w, xres_work_units := u,
                   xres_generation := g\<rparr>)
        | _ \<Rightarrow> xresponse_error Parse_kMalformed)
      else xresponse_error Parse_kMalformed)"

definition parse_xresponse_tokens :: "bool \<Rightarrow> string list \<Rightarrow> TaskExecutionProtocolResponseParseResult" where
  "parse_xresponse_tokens alloc_fails vs =
     (if parse_xhandoff vs \<noteq> None then xresponse_parsed (the (parse_xhandoff vs))
      else if parse_xretreat vs \<noteq> None then xresponse_parsed (the (parse_xretreat vs))
      else if length vs = 2 \<and> vs ! 1 = ''EMPTY'' then xresponse_parsed (default_xresponse\<lparr>xres_kind := XKind_kEmpty\<rparr>)
      else if (length vs = 13 \<and> vs ! 1 = ''STATS'' \<or> length vs = 17 \<and> vs ! 1 = ''METRICS'') \<and> parse_stats_tokens vs \<noteq> None
      then xresponse_parsed (default_xresponse\<lparr>
             xres_kind := (if vs ! 1 = ''STATS'' then XKind_kStats else XKind_kMetrics),
             xres_stats := the (parse_stats_tokens vs)\<rparr>)
      else if length vs = 3 \<and> vs ! 1 = ''OK'' \<and> parse_positive_integer (vs ! 2) \<noteq> (None :: TaskId option)
      then xresponse_parsed (default_xresponse\<lparr>xres_kind := XKind_kAccepted,
             xres_task_id := the (parse_positive_integer (vs ! 2))\<rparr>)
      else if length vs = 4 \<and> vs ! 1 = ''STATE'' \<and> parse_positive_integer (vs ! 2) \<noteq> (None :: TaskId option) \<and>
              parse_state (vs ! 3) \<noteq> None
      then xresponse_parsed (default_xresponse\<lparr>xres_kind := XKind_kState,
             xres_task_id := the (parse_positive_integer (vs ! 2)), xres_state := the (parse_state (vs ! 3))\<rparr>)
      else if length vs = 3 \<and> vs ! 1 = ''ERROR'' \<and> parse_error_code (vs ! 2) \<noteq> None
      then xresponse_parsed (default_xresponse\<lparr>xres_kind := XKind_kError, xres_error := the (parse_error_code (vs ! 2))\<rparr>)
      else parse_xlease alloc_fails vs)"

definition parse_task_execution_protocol_response :: "bool \<Rightarrow> string \<Rightarrow> TaskExecutionProtocolResponseParseResult" where
  "parse_task_execution_protocol_response alloc_fails line =
     (if length line > kTaskProtocolMaxLineBytes then xresponse_error Parse_kLineTooLong
      else
        let tokens = split_tokens (strip_suffix CHR 0x0D (strip_suffix newline line));
            vs = tok_values tokens
        in if tok_count tokens = 0 then xresponse_error Parse_kEmpty
           else if tok_overflow tokens then xresponse_error Parse_kMalformed
           else if vs ! 0 \<noteq> kTaskExecutionProtocolVersion then xresponse_error Parse_kUnsupportedVersion
           else parse_xresponse_tokens alloc_fails vs)"

definition format_xlease :: "TaskExecutionProtocolResponse \<Rightarrow> string option" where
  "format_xlease r =
     (let is_execution = xres_kind r = XKind_kExecutionLease in
      case format_task_id (xres_task_id r) of
        None \<Rightarrow> None
      | Some i \<Rightarrow>
          if \<not> is_valid_tenant_id (xres_tenant_id r) \<or> xres_memory_bytes r = 0 \<or> xres_weight r = 0 \<or>
            xres_work_units r = 0 \<or> is_execution \<and> xres_generation r = 0
          then None
          else within_line_limit (format_line
            ([kTaskExecutionProtocolVersion, if is_execution then ''EXEC_LEASE'' else ''LEASE'', i, xres_tenant_id r,
              to_string (xres_memory_bytes r), to_string (xres_weight r), to_string (xres_work_units r)] @
             (if is_execution then [to_string (xres_generation r)] else []))))"

definition format_xhandoff :: "TaskExecutionProtocolResponse \<Rightarrow> string option" where
  "format_xhandoff r =
     (let c = xres_completed_execution r in
      if xi_task_id c = 0 \<or> xi_generation c = 0 \<or> xres_task_id r = xi_task_id c \<or>
        xres_task_id r = 0 \<and> xres_generation r \<noteq> 0
      then None
      else Some (format_line [kTaskExecutionProtocolVersion, ''EXEC_HANDOFF'', to_string (xi_task_id c),
             to_string (xi_generation c), to_string (xres_task_id r), to_string (xres_generation r)]))"

definition format_task_execution_protocol_response :: "TaskExecutionProtocolResponse \<Rightarrow> string option" where
  "format_task_execution_protocol_response r =
     (let kind = xres_kind r in
      if kind \<noteq> XKind_kExecutionHandoff \<and>
        (xi_task_id (xres_completed_execution r) \<noteq> 0 \<or> xi_generation (xres_completed_execution r) \<noteq> 0)
      then None
      else if kind \<noteq> XKind_kExecutionHandoff \<and> kind \<noteq> XKind_kExecutionLease \<and> kind \<noteq> XKind_kRetreat \<and>
        xres_generation r \<noteq> 0
      then None
      else if (kind = XKind_kEmpty \<or> kind = XKind_kStats \<or> kind = XKind_kMetrics \<or> kind = XKind_kError) \<and>
        xres_task_id r \<noteq> 0
      then None
      else if kind = XKind_kExecutionHandoff then format_xhandoff r
      else if kind = XKind_kAccepted
      then (case format_task_id (xres_task_id r) of
          None \<Rightarrow> None
        | Some i \<Rightarrow> Some (format_line [kTaskExecutionProtocolVersion, ''OK'', i]))
      else if kind = XKind_kEmpty then Some (format_line [kTaskExecutionProtocolVersion, ''EMPTY''])
      else if kind = XKind_kLease \<or> kind = XKind_kExecutionLease then format_xlease r
      else if kind = XKind_kRetreat
      then if xres_task_id r = 0 \<or> xres_generation r = 0 then None
           else Some (format_line [kTaskExecutionProtocolVersion, ''RETREAT'', to_string (xres_task_id r),
                  to_string (xres_generation r), if xres_should_retreat r then ''1'' else ''0''])
      else if kind = XKind_kState
      then (case (format_task_id (xres_task_id r), state_token (xres_state r)) of
          (Some i, Some st) \<Rightarrow> Some (format_line [kTaskExecutionProtocolVersion, ''STATE'', i, st])
        | _ \<Rightarrow> None)
      else if kind = XKind_kStats \<or> kind = XKind_kMetrics
      then within_line_limit (format_line
             ([kTaskExecutionProtocolVersion, if kind = XKind_kStats then ''STATS'' else ''METRICS''] @
              stats_tokens (xres_stats r) @ (if kind = XKind_kMetrics then timing_tokens (xres_stats r) else [])))
      else if kind \<noteq> XKind_kError then None
      else (case error_token (xres_error r) of
          None \<Rightarrow> None
        | Some e \<Rightarrow> Some (format_line [kTaskExecutionProtocolVersion, ''ERROR'', e])))"

end
