(* ===== verification/NativeEpochProtocol.thy ===== *)
theory NativeEpochProtocol
  imports ExecutionProtocol
begin

text \<open>
  The line protocol of native epochs, \<^verbatim>\<open>src/src/control/native_epoch_protocol.cc\<close>. Its tokeniser has its
  own limit and gives up at once when there are too many tokens; admissions and error codes are checked
  by handing rebuilt lines to the parsers of the task protocol. The only exception the parsers can
  catch is a failed string allocation, which is an argument.
\<close>

section \<open>Data\<close>

definition kNativeEpochProtocolVersion :: string where
  "kNativeEpochProtocolVersion = ''GLIMMER_EPOCH_V2''"

datatype NativeEpochOperation =
    NOp_kAcquire
  | NOp_kClaim
  | NOp_kRetreat
  | NOp_kHeartbeat
  | NOp_kComplete
  | NOp_kFail
  | NOp_kCancelPending
  | NOp_unlisted

record NativeEpochRequest =
  nreq_operation :: NativeEpochOperation
  nreq_admission :: TaskAdmissionRequest
  nreq_extent :: NativeEpochExtent
  nreq_execution :: TaskExecutionIdentity
  nreq_issued_calls :: u32
  nreq_request_sequence :: u64

datatype NativeEpochResponseKind =
    NKind_kPending
  | NKind_kGranted
  | NKind_kRetreat
  | NKind_kAcknowledged
  | NKind_kError
  | NKind_unlisted

record NativeEpochResponse =
  nres_kind :: NativeEpochResponseKind
  nres_operation :: NativeEpochOperation
  nres_grant :: NativeEpochGrant
  nres_issued_calls :: u32
  nres_should_retreat :: bool
  nres_error :: TaskProtocolErrorCode
  nres_request_sequence :: u64

definition no_extent :: NativeEpochExtent where
  "no_extent = \<lparr>max_calls = 0, calls_per_prefix = 0, max_pending_prefixes = 0, acceptance_microseconds = 0\<rparr>"

definition no_grant :: NativeEpochGrant where
  "no_grant = \<lparr>ng_execution = no_execution, ng_extent = no_extent, ng_acceptance_deadline_nanoseconds = 0\<rparr>"

definition default_nrequest :: NativeEpochRequest where
  "default_nrequest =
     \<lparr>nreq_operation = NOp_kAcquire, nreq_admission = default_admission, nreq_extent = no_extent,
      nreq_execution = no_execution, nreq_issued_calls = 0, nreq_request_sequence = 0\<rparr>"

definition default_nresponse :: NativeEpochResponse where
  "default_nresponse =
     \<lparr>nres_kind = NKind_kError, nres_operation = NOp_kAcquire, nres_grant = no_grant, nres_issued_calls = 0,
      nres_should_retreat = False, nres_error = PError_kInvalidRequest, nres_request_sequence = 0\<rparr>"

section \<open>Tokens\<close>

definition kOperations :: "(string \<times> NativeEpochOperation) list" where
  "kOperations =
     [(''ACQUIRE'', NOp_kAcquire), (''CLAIM'', NOp_kClaim), (''RETREAT'', NOp_kRetreat), (''HEARTBEAT'', NOp_kHeartbeat),
      (''COMPLETE'', NOp_kComplete), (''FAIL'', NOp_kFail), (''CANCEL_PENDING'', NOp_kCancelPending)]"

text \<open>The loop over the rest of the line, with the tokens found so far.\<close>

function epoch_split :: "string \<Rightarrow> string list \<Rightarrow> string list option" where
  "epoch_split line found =
     (let rest = dropWhile is_separator line in
      if rest = [] then Some found
      else if length found = 16 then None
      else epoch_split (dropWhile (\<lambda>c. \<not> is_separator c) rest) (found @ [takeWhile (\<lambda>c. \<not> is_separator c) rest]))"
  by pat_completeness auto

termination epoch_split
  by (relation "measure (length \<circ> fst)") (auto simp: split_round_shorter)

declare epoch_split.simps [simp del]

definition tokenize :: "string \<Rightarrow> string list option" where
  "tokenize line =
     (if line = [] \<or> length line > kTaskProtocolMaxLineBytes then None
      else (case epoch_split (strip_suffix CHR 0x0D (strip_suffix newline line)) [] of
        None \<Rightarrow> None
      | Some vs \<Rightarrow> if length vs < 2 \<or> vs ! 0 \<noteq> kNativeEpochProtocolVersion then None else Some vs))"

definition epoch_operation :: "string \<Rightarrow> NativeEpochOperation option" where
  "epoch_operation token = map_of kOperations token"

definition epoch_operation_token :: "NativeEpochOperation \<Rightarrow> string option" where
  "epoch_operation_token op = map_of (map prod.swap kOperations) op"

definition parse_extent :: "string list \<Rightarrow> nat \<Rightarrow> NativeEpochExtent option" where
  "parse_extent vs offset =
     (case (parse_unsigned_integer (vs ! offset), parse_unsigned_integer (vs ! (offset + 1)),
            parse_unsigned_integer (vs ! (offset + 2)), parse_unsigned_integer (vs ! (offset + 3))) of
        (Some a, Some b, Some c, Some d) \<Rightarrow>
          let e = \<lparr>max_calls = a, calls_per_prefix = b, max_pending_prefixes = c, acceptance_microseconds = d\<rparr>
          in if valid_native_epoch_extent e then Some e else None
      | _ \<Rightarrow> None)"

definition extent_tokens :: "NativeEpochExtent \<Rightarrow> string list" where
  "extent_tokens e =
     [to_string (max_calls e), to_string (calls_per_prefix e), to_string (max_pending_prefixes e),
      to_string (acceptance_microseconds e)]"

definition format_extent :: "NativeEpochExtent \<Rightarrow> string" where
  "format_extent e = join_tokens (extent_tokens e)"

definition is_terminal :: "NativeEpochOperation \<Rightarrow> bool" where
  "is_terminal op \<longleftrightarrow> op = NOp_kComplete \<or> op = NOp_kFail"

definition is_pending_operation :: "NativeEpochOperation \<Rightarrow> bool" where
  "is_pending_operation op \<longleftrightarrow> op = NOp_kClaim \<or> op = NOp_kCancelPending"

section \<open>Requests\<close>

text \<open>The admission of an ACQUIRE, checked as the SUBMIT line it would be in the task protocol.\<close>

definition parse_epoch_acquire :: "bool \<Rightarrow> u64 \<Rightarrow> string list \<Rightarrow> NativeEpochRequest option" where
  "parse_epoch_acquire alloc_fails sq vs =
     (if length vs \<noteq> 11 then None
      else case parse_extent vs 7 of
        None \<Rightarrow> None
      | Some extent \<Rightarrow>
          if alloc_fails then None
          else (case rp_request (parse_task_protocol_request False
                  (kTaskProtocolVersion @ '' SUBMIT '' @ join_tokens [vs ! 2, vs ! 3, vs ! 4, vs ! 5, vs ! 6])) of
             None \<Rightarrow> None
           | Some request \<Rightarrow>
               if req_work_units (preq_admission request) \<noteq> max_calls extent then None
               else Some (default_nrequest\<lparr>nreq_operation := NOp_kAcquire, nreq_admission := preq_admission request,
                      nreq_extent := extent, nreq_request_sequence := sq\<rparr>)))"

definition parse_epoch_execution :: "NativeEpochOperation \<Rightarrow> u64 \<Rightarrow> string list \<Rightarrow> NativeEpochRequest option" where
  "parse_epoch_execution op sq vs =
     (let pending = is_pending_operation op;
          count = (if pending then 3 else if is_terminal op then 5 else 4)
      in if length vs \<noteq> count then None
         else (case (parse_unsigned_integer (vs ! 2), if pending then Some 0 else parse_unsigned_integer (vs ! 3),
                     if is_terminal op then parse_unsigned_integer (vs ! 4) else Some 0) of
           (Some i, Some g, Some calls) \<Rightarrow>
             if i = 0 \<or> \<not> pending \<and> g = 0 \<or> is_terminal op \<and> calls > 65536 then None
             else Some (default_nrequest\<lparr>nreq_operation := op, nreq_execution := \<lparr>xi_task_id = i, xi_generation = g\<rparr>,
                    nreq_issued_calls := calls, nreq_request_sequence := sq\<rparr>)
         | _ \<Rightarrow> None))"

definition parse_native_epoch_request :: "bool \<Rightarrow> string \<Rightarrow> NativeEpochRequest option" where
  "parse_native_epoch_request alloc_fails line =
     (case tokenize line of
        None \<Rightarrow> None
      | Some vs \<Rightarrow>
          (case epoch_operation (vs ! 1) of
             None \<Rightarrow> None
           | Some op \<Rightarrow>
               if length vs < 3 then None
               else (case parse_unsigned_integer (last vs) of
                 None \<Rightarrow> None
               | Some sq \<Rightarrow>
                   if sq = 0 then None
                   else if op = NOp_kAcquire then parse_epoch_acquire alloc_fails sq (butlast vs)
                   else parse_epoch_execution op sq (butlast vs))))"

definition epoch_line :: "string \<Rightarrow> u64 \<Rightarrow> string" where
  "epoch_line body sq = kNativeEpochProtocolVersion @ '' '' @ body @ '' '' @ to_string sq @ [newline]"

definition format_native_epoch_request :: "NativeEpochRequest \<Rightarrow> string option" where
  "format_native_epoch_request r =
     (let op = nreq_operation r; a = nreq_admission r; x = nreq_execution r in
      case epoch_operation_token op of
        None \<Rightarrow> None
      | Some token \<Rightarrow>
          if is_pending_operation op \<and> xi_generation x \<noteq> 0 \<or> \<not> is_terminal op \<and> nreq_issued_calls r \<noteq> 0 \<or>
            op = NOp_kAcquire \<and> length (req_tenant_id a) > kTaskProtocolMaxTenantIdBytes
          then None
          else
            let line = epoch_line
              (if op = NOp_kAcquire
               then join_tokens ([token, req_tenant_id a, to_string (req_memory_bytes a), to_string (req_weight a),
                      to_string (req_work_units a), to_string (req_priority a), format_extent (nreq_extent r)])
               else join_tokens ([token, to_string (xi_task_id x)] @
                      (if \<not> is_pending_operation op then [to_string (xi_generation x)] else []) @
                      (if is_terminal op then [to_string (nreq_issued_calls r)] else [])))
              (nreq_request_sequence r)
            in if parse_native_epoch_request False line \<noteq> None then Some line else None)"

section \<open>Responses\<close>

definition parse_epoch_grant :: "bool \<Rightarrow> u64 \<Rightarrow> string list \<Rightarrow> NativeEpochResponse option" where
  "parse_epoch_grant granted sq vs =
     (case (parse_unsigned_integer (vs ! 2), parse_extent vs (if granted then 4 else 3),
            if granted then parse_unsigned_integer (vs ! 3) else Some 0,
            if granted then parse_unsigned_integer (vs ! 8) else Some 0) of
        (Some i, Some extent, Some g, Some deadline) \<Rightarrow>
          if i = 0 \<or> granted \<and> (g = 0 \<or> deadline = 0) then None
          else Some (default_nresponse\<lparr>nres_kind := (if granted then NKind_kGranted else NKind_kPending),
                 nres_grant := \<lparr>ng_execution = \<lparr>xi_task_id = i, xi_generation = g\<rparr>, ng_extent = extent,
                                ng_acceptance_deadline_nanoseconds = deadline\<rparr>,
                 nres_request_sequence := sq\<rparr>)
      | _ \<Rightarrow> None)"

definition parse_epoch_retreat :: "u64 \<Rightarrow> string list \<Rightarrow> NativeEpochResponse option" where
  "parse_epoch_retreat sq vs =
     (case (parse_unsigned_integer (vs ! 2), parse_unsigned_integer (vs ! 3)) of
        (Some i, Some g) \<Rightarrow>
          if i \<noteq> 0 \<and> g \<noteq> 0 \<and> (vs ! 4 = ''0'' \<or> vs ! 4 = ''1'')
          then Some (default_nresponse\<lparr>nres_kind := NKind_kRetreat, nres_operation := NOp_kRetreat,
                 nres_should_retreat := (vs ! 4 = ''1''),
                 nres_grant := no_grant\<lparr>ng_execution := \<lparr>xi_task_id = i, xi_generation = g\<rparr>\<rparr>, nres_request_sequence := sq\<rparr>)
          else None
      | _ \<Rightarrow> None)"

definition parse_epoch_ack :: "u64 \<Rightarrow> string list \<Rightarrow> NativeEpochResponse option" where
  "parse_epoch_ack sq vs =
     (case (epoch_operation (vs ! 2), parse_unsigned_integer (vs ! 3), parse_unsigned_integer (vs ! 4),
            parse_unsigned_integer (vs ! 5)) of
        (Some op, Some i, Some g, Some calls) \<Rightarrow>
          if op \<noteq> NOp_kHeartbeat \<and> \<not> is_terminal op \<and> op \<noteq> NOp_kCancelPending \<or> i = 0 \<or>
            (op = NOp_kCancelPending) \<noteq> (g = 0) \<or> calls > 65536 \<or> \<not> is_terminal op \<and> calls \<noteq> 0
          then None
          else Some (default_nresponse\<lparr>nres_kind := NKind_kAcknowledged, nres_operation := op,
                 nres_grant := no_grant\<lparr>ng_execution := \<lparr>xi_task_id = i, xi_generation = g\<rparr>\<rparr>,
                 nres_issued_calls := calls, nres_request_sequence := sq\<rparr>)
      | _ \<Rightarrow> None)"

definition parse_native_epoch_response :: "bool \<Rightarrow> string \<Rightarrow> NativeEpochResponse option" where
  "parse_native_epoch_response alloc_fails line =
     (case tokenize line of
        None \<Rightarrow> None
      | Some vs \<Rightarrow>
          let kind = vs ! 1 in
          if length vs < 3 then None
          else (case parse_unsigned_integer (last vs) of
            None \<Rightarrow> None
          | Some sq \<Rightarrow>
              let us = butlast vs in
              if kind \<noteq> ''ERROR'' \<and> sq = 0 then None
              else if kind = ''ERROR'' \<and> length us = 3
              then if alloc_fails then None
                   else (case sp_response (parse_task_protocol_response False (kTaskProtocolVersion @ '' ERROR '' @ us ! 2)) of
                     None \<Rightarrow> None
                   | Some error \<Rightarrow> Some (default_nresponse\<lparr>nres_error := pres_error error, nres_request_sequence := sq\<rparr>))
              else if kind = ''PENDING'' \<and> length us = 7 \<or> kind = ''GRANTED'' \<and> length us = 9
              then parse_epoch_grant (kind = ''GRANTED'') sq us
              else if kind = ''RETREAT'' \<and> length us = 5 then parse_epoch_retreat sq us
              else if kind = ''ACK'' \<and> length us = 6 then parse_epoch_ack sq us
              else None))"

definition epoch_response_body :: "NativeEpochResponse \<Rightarrow> string option" where
  "epoch_response_body r =
     (let grant = nres_grant r; i = to_string (xi_task_id (ng_execution grant));
          g = to_string (xi_generation (ng_execution grant))
      in case nres_kind r of
        NKind_kPending \<Rightarrow>
          if xi_generation (ng_execution grant) \<noteq> 0 \<or> ng_acceptance_deadline_nanoseconds grant \<noteq> 0 then None
          else Some (join_tokens [''PENDING'', i, format_extent (ng_extent grant)])
      | NKind_kGranted \<Rightarrow>
          Some (join_tokens [''GRANTED'', i, g, format_extent (ng_extent grant),
                  to_string (ng_acceptance_deadline_nanoseconds grant)])
      | NKind_kRetreat \<Rightarrow> Some (join_tokens [''RETREAT'', i, g, if nres_should_retreat r then ''1'' else ''0''])
      | NKind_kAcknowledged \<Rightarrow>
          (case epoch_operation_token (nres_operation r) of
             None \<Rightarrow> None
           | Some token \<Rightarrow> Some (join_tokens [''ACK'', token, i, g, to_string (nres_issued_calls r)]))
      | NKind_kError \<Rightarrow>
          (case format_task_protocol_response (default_response\<lparr>pres_error := nres_error r\<rparr>) of
             None \<Rightarrow> None
           | Some formatted \<Rightarrow> Some (butlast (drop (length kTaskProtocolVersion + 1) formatted)))
      | NKind_unlisted \<Rightarrow> Some [])"

definition format_native_epoch_response :: "NativeEpochResponse \<Rightarrow> string option" where
  "format_native_epoch_response r =
     (case epoch_response_body r of
        None \<Rightarrow> None
      | Some body \<Rightarrow>
          let line = epoch_line body (nres_request_sequence r)
          in if parse_native_epoch_response False line \<noteq> None then Some line else None)"

end
