(* ===== verification/ExecutionProtocolProps.thy ===== *)
theory ExecutionProtocolProps
  imports ExecutionProtocol TaskProtocolProps
begin

text \<open>
  What the line protocol of the execution channel guarantees: which requests and responses have a
  line, and that a line is read back as what was written.
\<close>

section \<open>Tokens\<close>

lemma xversion_token [simp]: "line_token kTaskExecutionProtocolVersion" "length kTaskExecutionProtocolVersion = 20"
  by (simp_all add: line_token_def token_ok_def is_separator_def kTaskExecutionProtocolVersion_def)

lemma xliteral_tokens [simp]:
  "line_token ''EXEC_ACQUIRE''" "line_token ''EXEC_COMPLETE_ACQUIRE''" "line_token ''EXEC_CLAIM''" "line_token ''RETREAT''"
  "line_token ''SUSPEND''" "line_token ''EXEC_HEARTBEAT''" "line_token ''EXEC_COMPLETE''" "line_token ''EXEC_FAIL''"
  "line_token ''EXEC_CANCEL''" "line_token ''EXEC_HANDOFF''" "line_token ''EXEC_LEASE''" "line_token ''0''" "line_token ''1''"
  by (simp_all add: line_token_def token_ok_def is_separator_def)

lemmas execution_names = execution_operation_def execution_token_def kExecutionOperations_def

section \<open>Requests\<close>

definition admission_ok :: "TaskAdmissionRequest \<Rightarrow> bool" where
  "admission_ok a \<longleftrightarrow> is_valid_tenant_id (req_tenant_id a) \<and> req_memory_bytes a \<noteq> 0 \<and> req_weight a \<noteq> 0 \<and> req_work_units a \<noteq> 0"

definition valid_xrequest :: "TaskExecutionProtocolRequest \<Rightarrow> bool" where
  "valid_xrequest r \<longleftrightarrow>
     (let op = xreq_operation r; i = xreq_task_id r; g = xreq_generation r in
      if op \<in> {XOp_kSubmit, XOp_kAcquire, XOp_kExecutionAcquire} then admission_ok (xreq_admission r) \<and> i = 0 \<and> g = 0
      else if op = XOp_kExecutionCompleteAcquire then admission_ok (xreq_admission r) \<and> i \<noteq> 0 \<and> g \<noteq> 0
      else if op \<in> {XOp_kRetreat, XOp_kSuspend, XOp_kExecutionHeartbeat, XOp_kExecutionComplete, XOp_kExecutionFail, XOp_kExecutionCancel}
      then i \<noteq> 0 \<and> g \<noteq> 0
      else if op = XOp_kWait then i \<noteq> 0 \<and> g = 0 \<and> xreq_wait_timeout_ms r \<noteq> 0 \<and> xreq_wait_timeout_ms r \<le> kMaxWaitTimeoutMs
      else if op \<in> {XOp_kStats, XOp_kMetrics} then i = 0 \<and> g = 0
      else if op = XOp_kClaim then g = 0
      else op \<noteq> XOp_unlisted \<and> i \<noteq> 0 \<and> g = 0)"

text \<open>A line carries the admission only where the operation has one, and the timeout only for a wait.\<close>

definition carried_xrequest :: "TaskExecutionProtocolRequest \<Rightarrow> TaskExecutionProtocolRequest" where
  "carried_xrequest r =
     r\<lparr>xreq_admission := (if xreq_operation r \<in> {XOp_kSubmit, XOp_kAcquire, XOp_kExecutionAcquire, XOp_kExecutionCompleteAcquire}
                          then xreq_admission r else default_admission),
       xreq_wait_timeout_ms := (if xreq_operation r = XOp_kWait then xreq_wait_timeout_ms r else 0)\<rparr>"

definition admission_tokens :: "TaskAdmissionRequest \<Rightarrow> string list" where
  "admission_tokens a =
     [req_tenant_id a, to_string (req_memory_bytes a), to_string (req_weight a), to_string (req_work_units a)] @
     (if req_priority a \<noteq> 0 then [to_string (req_priority a)] else [])"

definition xrequest_tokens :: "TaskExecutionProtocolRequest \<Rightarrow> string list" where
  "xrequest_tokens r =
     kTaskExecutionProtocolVersion #
     (case xreq_operation r of
        XOp_kSubmit \<Rightarrow> ''SUBMIT'' # admission_tokens (xreq_admission r)
      | XOp_kAcquire \<Rightarrow> ''ACQUIRE'' # admission_tokens (xreq_admission r)
      | XOp_kExecutionAcquire \<Rightarrow> ''EXEC_ACQUIRE'' # admission_tokens (xreq_admission r)
      | XOp_kExecutionCompleteAcquire \<Rightarrow>
          [''EXEC_COMPLETE_ACQUIRE'', to_string (xreq_task_id r), to_string (xreq_generation r)] @ admission_tokens (xreq_admission r)
      | XOp_kClaim \<Rightarrow> ''CLAIM'' # (if xreq_task_id r = 0 then [] else [to_string (xreq_task_id r)])
      | XOp_kWait \<Rightarrow> [''WAIT'', to_string (xreq_task_id r), to_string (xreq_wait_timeout_ms r)]
      | XOp_kStats \<Rightarrow> [''STATS'']
      | XOp_kMetrics \<Rightarrow> [''METRICS'']
      | XOp_kExecutionClaim \<Rightarrow> [''EXEC_CLAIM'', to_string (xreq_task_id r)]
      | op \<Rightarrow> (case execution_token op of
           Some t \<Rightarrow> [t, to_string (xreq_task_id r), to_string (xreq_generation r)]
         | None \<Rightarrow> [xtask_operation_token op, to_string (xreq_task_id r)]))"

lemma xrequest_tokens_wf:
  assumes "valid_xrequest r"
  shows "list_all line_token (xrequest_tokens r)" "length (xrequest_tokens r) \<le> 9" "xrequest_tokens r \<noteq> []"
  using assms
  by (cases "xreq_operation r"; simp add: valid_xrequest_def xrequest_tokens_def admission_tokens_def admission_ok_def execution_names)+

lemma admission_tokens_length:
  assumes "admission_ok a"
  shows "sum_list (map length (admission_tokens a)) + length (admission_tokens a) \<le> 151"
  using assms tenant_length [of "req_tenant_id a"] to_string_length_u64 [of "req_memory_bytes a"]
    to_string_length_u32 [of "req_weight a"] to_string_length_u32 [of "req_work_units a"] to_string_length_u32 [of "req_priority a"]
  by (simp add: admission_tokens_def admission_ok_def)

lemma xrequest_line_length:
  assumes "valid_xrequest r"
  shows "length (format_line (xrequest_tokens r)) \<le> 236"
  using assms admission_tokens_length [of "xreq_admission r"] to_string_length_u64 [of "xreq_task_id r"]
    to_string_length_u64 [of "xreq_generation r"] to_string_length_u32 [of "xreq_wait_timeout_ms r"]
  by (cases "xreq_operation r") (simp_all add: length_format_line xrequest_tokens_def valid_xrequest_def execution_names)

lemmas format_request_defs = format_task_execution_protocol_request_def format_xrequest_line_def format_xadmission_def
  format_task_id_def execution_names Let_def

lemma format_xrequest_eq:
  "format_task_execution_protocol_request r = (if valid_xrequest r then Some (format_line (xrequest_tokens r)) else None)"
proof (cases "valid_xrequest r")
  case True
  have len: "length (format_line (xrequest_tokens r)) \<le> kTaskProtocolMaxLineBytes"
    using xrequest_line_length [OF True] by (simp add: kTaskProtocolMaxLineBytes_def)
  from True len show ?thesis
    by (cases "xreq_operation r")
      (simp_all add: format_request_defs valid_xrequest_def xrequest_tokens_def admission_tokens_def admission_ok_def not_less)
next
  case False
  then show ?thesis
    by (cases "xreq_operation r") (auto simp: format_request_defs valid_xrequest_def admission_ok_def)
qed

lemma parse_xrequest_tokens:
  assumes "valid_xrequest r"
  shows "parse_task_execution_protocol_request False (format_line (xrequest_tokens r)) = xrequest_parsed (carried_xrequest r)"
proof -
  have len: "\<not> length (format_line (xrequest_tokens r)) > kTaskProtocolMaxLineBytes"
    using xrequest_line_length [OF assms] by (simp add: kTaskProtocolMaxLineBytes_def)
  have sp: "split_tokens (strip_suffix CHR 0x0D (strip_suffix newline (format_line (xrequest_tokens r)))) =
            \<lparr>tok_values = xrequest_tokens r, tok_overflow = False\<rparr>"
    using xrequest_tokens_wf [OF assms] by (intro split_format_line) (simp_all add: kMaxTokens_def)
  show ?thesis
    using assms len unfolding parse_task_execution_protocol_request_def sp
    by (cases r; cases "xreq_operation r")
      (auto simp: Let_def xrequest_tokens_def valid_xrequest_def carried_xrequest_def default_xrequest_def admission_ok_def
        admission_tokens_def execution_names parse_xadmission_def parse_xclaim_def parse_xexecution_def parse_xwait_def
        parse_xtask_def admission_operation_def not_less)
qed

definition well_xparsed :: "TaskExecutionProtocolRequestParseResult \<Rightarrow> bool" where
  "well_xparsed p \<longleftrightarrow>
     (case xrp_request p of
        None \<Rightarrow> xrp_error p \<noteq> Parse_kNone
      | Some r \<Rightarrow> xrp_error p = Parse_kNone \<and> valid_xrequest r \<and> carried_xrequest r = r)"

lemma well_xparsed_error [simp]: "well_xparsed (xrequest_error e) \<longleftrightarrow> e \<noteq> Parse_kNone"
  by (simp add: well_xparsed_def xrequest_error_def)

lemma well_xparsed_request [simp]: "well_xparsed (xrequest_parsed r) \<longleftrightarrow> valid_xrequest r \<and> carried_xrequest r = r"
  by (simp add: well_xparsed_def xrequest_parsed_def)

lemmas xrequest_forms = valid_xrequest_def carried_xrequest_def default_xrequest_def admission_ok_def Let_def

lemma well_xparsed_admission: "well_xparsed (parse_xadmission af vs)"
  by (auto simp: parse_xadmission_def admission_operation_def xrequest_forms numeral_2_eq_2 dest: parse_positive_nonzero split: option.split)

lemma well_xparsed_claim: "well_xparsed (parse_xclaim vs)"
  by (simp add: parse_xclaim_def xrequest_forms split: option.split)

lemma well_xparsed_execution: "execution_operation t = Some op \<Longrightarrow> well_xparsed (parse_xexecution op vs)"
  by (auto simp: parse_xexecution_def execution_names xrequest_forms dest: parse_positive_nonzero split: option.split if_splits)

lemma well_xparsed_wait: "well_xparsed (parse_xwait vs)"
  by (auto simp: parse_xwait_def xrequest_forms not_less dest: parse_positive_nonzero split: option.split)

lemma well_xparsed_task: "well_xparsed (parse_xtask vs)"
  by (auto simp: parse_xtask_def xrequest_forms dest: parse_positive_nonzero split: option.split)

lemma parse_xrequest_well_parsed: "well_xparsed (parse_task_execution_protocol_request af line)"
  by (auto simp: parse_task_execution_protocol_request_def Let_def well_xparsed_admission well_xparsed_claim well_xparsed_wait
      well_xparsed_task well_xparsed_execution split: option.split) (simp_all add: xrequest_forms)

section \<open>Responses\<close>

definition valid_xresponse :: "TaskExecutionProtocolResponse \<Rightarrow> bool" where
  "valid_xresponse r \<longleftrightarrow>
     (let kind = xres_kind r; i = xres_task_id r; g = xres_generation r; c = xres_completed_execution r;
          lease = is_valid_tenant_id (xres_tenant_id r) \<and> xres_memory_bytes r \<noteq> 0 \<and> xres_weight r \<noteq> 0 \<and> xres_work_units r \<noteq> 0
      in if kind = XKind_kExecutionHandoff
         then xi_task_id c \<noteq> 0 \<and> xi_generation c \<noteq> 0 \<and> i \<noteq> xi_task_id c \<and> (i \<noteq> 0 \<or> g = 0)
         else c = no_execution \<and>
           (case kind of
              XKind_kAccepted \<Rightarrow> i \<noteq> 0 \<and> g = 0
            | XKind_kState \<Rightarrow> i \<noteq> 0 \<and> g = 0 \<and> xres_state r \<noteq> PState_unlisted
            | XKind_kError \<Rightarrow> i = 0 \<and> g = 0 \<and> xres_error r \<noteq> PError_unlisted
            | XKind_kLease \<Rightarrow> i \<noteq> 0 \<and> g = 0 \<and> lease
            | XKind_kExecutionLease \<Rightarrow> i \<noteq> 0 \<and> g \<noteq> 0 \<and> lease
            | XKind_kRetreat \<Rightarrow> i \<noteq> 0 \<and> g \<noteq> 0
            | XKind_unlisted \<Rightarrow> False
            | _ \<Rightarrow> i = 0 \<and> g = 0))"

text \<open>The fields a response line carries; the rest is read back as the default.\<close>

definition carried_xresponse :: "TaskExecutionProtocolResponse \<Rightarrow> TaskExecutionProtocolResponse" where
  "carried_xresponse r =
     (let kind = xres_kind r; lease = kind = XKind_kLease \<or> kind = XKind_kExecutionLease
      in r\<lparr>xres_state := (if kind = XKind_kState then xres_state r else PState_kQueued),
           xres_error := (if kind = XKind_kError then xres_error r else PError_kInternalError),
           xres_tenant_id := (if lease then xres_tenant_id r else []),
           xres_memory_bytes := (if lease then xres_memory_bytes r else 0),
           xres_weight := (if lease then xres_weight r else 0),
           xres_work_units := (if lease then xres_work_units r else 0),
           xres_should_retreat := (kind = XKind_kRetreat \<and> xres_should_retreat r),
           xres_stats := (if kind = XKind_kMetrics then xres_stats r
             else if kind = XKind_kStats then (xres_stats r)\<lparr>
               ps_total_queue_wait_microseconds := 0, ps_max_queue_wait_microseconds := 0,
               ps_total_service_time_microseconds := 0, ps_max_service_time_microseconds := 0\<rparr>
             else default_stats)\<rparr>)"

definition xresponse_tokens :: "TaskExecutionProtocolResponse \<Rightarrow> string list" where
  "xresponse_tokens r =
     (let i = to_string (xres_task_id r); g = to_string (xres_generation r); c = xres_completed_execution r;
          lease = [i, xres_tenant_id r, to_string (xres_memory_bytes r), to_string (xres_weight r), to_string (xres_work_units r)]
      in kTaskExecutionProtocolVersion #
         (case xres_kind r of
            XKind_kAccepted \<Rightarrow> [''OK'', i]
          | XKind_kState \<Rightarrow> [''STATE'', i, the (state_token (xres_state r))]
          | XKind_kLease \<Rightarrow> ''LEASE'' # lease
          | XKind_kExecutionLease \<Rightarrow> ''EXEC_LEASE'' # lease @ [g]
          | XKind_kEmpty \<Rightarrow> [''EMPTY'']
          | XKind_kStats \<Rightarrow> ''STATS'' # stats_tokens (xres_stats r)
          | XKind_kMetrics \<Rightarrow> ''METRICS'' # stats_tokens (xres_stats r) @ timing_tokens (xres_stats r)
          | XKind_kRetreat \<Rightarrow> [''RETREAT'', i, g, if xres_should_retreat r then ''1'' else ''0'']
          | XKind_kExecutionHandoff \<Rightarrow> [''EXEC_HANDOFF'', to_string (xi_task_id c), to_string (xi_generation c), i, g]
          | _ \<Rightarrow> [''ERROR'', the (error_token (xres_error r))]))"

lemma xresponse_tokens_wf:
  assumes "valid_xresponse r"
  shows "list_all line_token (xresponse_tokens r)" "length (xresponse_tokens r) \<le> 17" "xresponse_tokens r \<noteq> []"
  using assms state_token_props [of "xres_state r"] error_token_props [of "xres_error r"]
  by (cases "xres_kind r"; simp add: valid_xresponse_def xresponse_tokens_def stats_tokens_def timing_tokens_def Let_def)+

lemma xresponse_line_length:
  assumes "valid_xresponse r" and "xres_kind r \<notin> {XKind_kStats, XKind_kMetrics}"
  shows "length (format_line (xresponse_tokens r)) \<le> 214"
  using assms to_string_length_u64 [of "xres_task_id r"] to_string_length_u64 [of "xres_memory_bytes r"]
    to_string_length_u64 [of "xres_generation r"] to_string_length_u64 [of "xi_task_id (xres_completed_execution r)"]
    to_string_length_u64 [of "xi_generation (xres_completed_execution r)"]
    to_string_length_u32 [of "xres_weight r"] to_string_length_u32 [of "xres_work_units r"] tenant_length [of "xres_tenant_id r"]
    state_token_props(2) [of "xres_state r"] error_token_props(2) [of "xres_error r"]
  by (cases "xres_kind r") (simp_all add: length_format_line xresponse_tokens_def valid_xresponse_def Let_def)

lemma no_execution_iff: "c = no_execution \<longleftrightarrow> xi_task_id c = 0 \<and> xi_generation c = 0"
  by (cases c) (simp add: no_execution_def)

lemmas format_response_defs = format_task_execution_protocol_response_def format_xlease_def format_xhandoff_def
  format_task_id_def Let_def

lemma format_xresponse_eq:
  "format_task_execution_protocol_response r =
     (if valid_xresponse r then within_line_limit (format_line (xresponse_tokens r)) else None)"
proof (cases "valid_xresponse r")
  case True
  with state_token_props(4) [of "xres_state r"] error_token_props(4) [of "xres_error r"] xresponse_line_length [OF True]
  show ?thesis
    by (cases "xres_kind r")
       (auto simp: format_response_defs valid_xresponse_def xresponse_tokens_def no_execution_iff
          within_line_limit_def kTaskProtocolMaxLineBytes_def)
next
  case False
  then show ?thesis
    by (cases "xres_kind r"; cases "xres_state r"; cases "xres_error r")
       (auto simp: format_response_defs valid_xresponse_def no_execution_iff)
qed

lemma parse_xresponse_carried:
  assumes "valid_xresponse r"
  shows "parse_xresponse_tokens False (xresponse_tokens r) = xresponse_parsed (carried_xresponse r)"
  using assms state_token_props(3) [of "xres_state r"] error_token_props(3) [of "xres_error r"]
  by (cases r; cases "xres_kind r"; cases "xres_stats r"; cases "xres_completed_execution r")
     (simp_all add: parse_xresponse_tokens_def parse_xhandoff_def parse_xretreat_def parse_xlease_def xresponse_tokens_def
        valid_xresponse_def carried_xresponse_def parse_stats_tokens_def stats_tokens_def timing_tokens_def default_xresponse_def
        default_stats_def no_execution_iff Let_def)

lemma parse_xresponse_line:
  assumes "valid_xresponse r" and "length (format_line (xresponse_tokens r)) \<le> kTaskProtocolMaxLineBytes"
  shows "parse_task_execution_protocol_response False (format_line (xresponse_tokens r)) = xresponse_parsed (carried_xresponse r)"
proof -
  have sp: "split_tokens (strip_suffix CHR 0x0D (strip_suffix newline (format_line (xresponse_tokens r)))) =
            \<lparr>tok_values = xresponse_tokens r, tok_overflow = False\<rparr>"
    using xresponse_tokens_wf [OF assms(1)] by (intro split_format_line) (simp_all add: kMaxTokens_def)
  have "xresponse_tokens r ! 0 = kTaskExecutionProtocolVersion" by (simp add: xresponse_tokens_def Let_def)
  then show ?thesis
    using assms(2) xresponse_tokens_wf(3) [OF assms(1)] parse_xresponse_carried [OF assms(1)]
    unfolding parse_task_execution_protocol_response_def sp by (simp add: Let_def)
qed

lemma formatted_xresponse_parses:
  assumes "format_task_execution_protocol_response r = Some line"
  shows "length line \<le> kTaskProtocolMaxLineBytes \<and>
    parse_task_execution_protocol_response False line = xresponse_parsed (carried_xresponse r)"
proof -
  have v: "valid_xresponse r" and w: "within_line_limit (format_line (xresponse_tokens r)) = Some line"
    using assms by (auto simp: format_xresponse_eq split: if_splits)
  then have "line = format_line (xresponse_tokens r)" "length (format_line (xresponse_tokens r)) \<le> kTaskProtocolMaxLineBytes"
    by (auto simp: within_line_limit_def split: if_splits)
  with parse_xresponse_line [OF v] show ?thesis by simp
qed

text \<open>How many digits the numbers of a statistics line may take together.\<close>

definition xstats_fit :: "TaskExecutionProtocolResponse \<Rightarrow> bool" where
  "xstats_fit r \<longleftrightarrow>
     (case xres_kind r of
        XKind_kStats \<Rightarrow> sum_list (map length (stats_tokens (xres_stats r))) \<le> 218
      | XKind_kMetrics \<Rightarrow> sum_list (map length (stats_tokens (xres_stats r) @ timing_tokens (xres_stats r))) \<le> 212
      | _ \<Rightarrow> True)"

lemma formatted_xresponse_iff: "format_task_execution_protocol_response r \<noteq> None \<longleftrightarrow> valid_xresponse r \<and> xstats_fit r"
proof (cases "valid_xresponse r")
  case True
  have "length (format_line (xresponse_tokens r)) \<le> 256 \<longleftrightarrow> xstats_fit r"
  proof (cases "xres_kind r \<in> {XKind_kStats, XKind_kMetrics}")
    case True
    then show ?thesis
      by (auto simp: xstats_fit_def length_format_line xresponse_tokens_def stats_tokens_def timing_tokens_def Let_def)
  next
    case False
    then have "xstats_fit r" by (auto simp: xstats_fit_def split: TaskExecutionProtocolResponseKind.split)
    then show ?thesis using xresponse_line_length [OF \<open>valid_xresponse r\<close> False] by linarith
  qed
  with True show ?thesis by (auto simp: format_xresponse_eq within_line_limit_def kTaskProtocolMaxLineBytes_def)
qed (simp add: format_xresponse_eq)

section \<open>Properties\<close>

text \<open>
  C36. Exactly the valid requests of the execution channel have a line, of at most 236 bytes, which parses
  back to the operation with every field it carries; and whatever bytes arrive, an accepted request
  is valid, never names a zero task, generation, memory, weight or work size, and is the only meaning of
  its own line.
\<close>

theorem execution_request_round_trip:
  "(format_task_execution_protocol_request r \<noteq> None \<longleftrightarrow> valid_xrequest r) \<and>
   (\<forall>line. format_task_execution_protocol_request r = Some line \<longrightarrow>
      length line \<le> 236 \<and> parse_task_execution_protocol_request False line = xrequest_parsed (carried_xrequest r)) \<and>
   (\<forall>alloc_fails line. xrp_request (parse_task_execution_protocol_request alloc_fails line) = Some r \<longrightarrow>
      valid_xrequest r \<and> carried_xrequest r = r)"
proof -
  have "valid_xrequest r \<and> carried_xrequest r = r"
    if "xrp_request (parse_task_execution_protocol_request alloc_fails line) = Some r" for alloc_fails line
    using parse_xrequest_well_parsed [of alloc_fails line] that by (simp add: well_xparsed_def)
  then show ?thesis by (simp add: format_xrequest_eq xrequest_line_length parse_xrequest_tokens)
qed

theorem execution_request_round_trip_witness:
  "\<exists>r line. xreq_operation r = XOp_kSuspend \<and> format_task_execution_protocol_request r = Some line \<and>
     parse_task_execution_protocol_request False line = xrequest_parsed r"
proof -
  let ?r = "default_xrequest\<lparr>xreq_operation := XOp_kSuspend, xreq_task_id := 7, xreq_generation := 3\<rparr>"
  have "valid_xrequest ?r" by (simp add: valid_xrequest_def)
  then obtain line where f: "format_task_execution_protocol_request ?r = Some line"
    using execution_request_round_trip [of ?r] by blast
  then have "parse_task_execution_protocol_request False line = xrequest_parsed (carried_xrequest ?r)"
    using execution_request_round_trip [of ?r] by blast
  moreover have "carried_xrequest ?r = ?r" by (simp add: carried_xrequest_def default_xrequest_def)
  moreover have "xreq_operation ?r = XOp_kSuspend" by simp
  ultimately show ?thesis using f by (metis (no_types))
qed

text \<open>
  C37. A response line of the execution channel is within the limit and parses back to the response with
  every field its kind carries. The responses with a line are exactly the valid ones, except for
  statistics whose eleven numbers take more than 218 digits and metrics whose fifteen numbers take more
  than 212.
\<close>

theorem execution_response_round_trip:
  "(\<forall>line. format_task_execution_protocol_response r = Some line \<longrightarrow>
      length line \<le> kTaskProtocolMaxLineBytes \<and>
      parse_task_execution_protocol_response False line = xresponse_parsed (carried_xresponse r)) \<and>
   (format_task_execution_protocol_response r \<noteq> None \<longleftrightarrow> valid_xresponse r \<and> xstats_fit r)"
  using formatted_xresponse_parses formatted_xresponse_iff by blast

theorem execution_response_round_trip_witness:
  "\<exists>r line. xres_kind r = XKind_kExecutionHandoff \<and> format_task_execution_protocol_response r = Some line \<and>
     parse_task_execution_protocol_response False line = xresponse_parsed r"
proof -
  let ?r = "default_xresponse\<lparr>xres_kind := XKind_kExecutionHandoff, xres_task_id := 8, xres_generation := 5,
    xres_completed_execution := \<lparr>xi_task_id = 7, xi_generation = 3\<rparr>\<rparr>"
  have "valid_xresponse ?r" "xstats_fit ?r" by (simp_all add: valid_xresponse_def xstats_fit_def)
  then obtain line where f: "format_task_execution_protocol_response ?r = Some line"
    using execution_response_round_trip [of ?r] by blast
  then have "parse_task_execution_protocol_response False line = xresponse_parsed (carried_xresponse ?r)"
    using execution_response_round_trip [of ?r] by blast
  moreover have "carried_xresponse ?r = ?r" by (simp add: carried_xresponse_def default_xresponse_def Let_def)
  moreover have "xres_kind ?r = XKind_kExecutionHandoff" by simp
  ultimately show ?thesis using f by (metis (no_types))
qed

end
