(* ===== verification/NativeEpochProtocolProps.thy ===== *)
theory NativeEpochProtocolProps
  imports NativeEpochProtocol ExecutionProtocolProps
begin

text \<open>
  What the native epoch protocol guarantees: a request or response with a line is read back as what
  was written, and exactly the valid ones have a line.
\<close>

section \<open>Lines and tokens\<close>

lemma epoch_split_token:
  assumes "token_ok t" and "rest = [] \<or> is_separator (hd rest)" and "length found < 16"
  shows "epoch_split (t @ rest) found = epoch_split rest (found @ [t])"
  using assms(1,3) token_prefix [OF assms(1,2)]
  by (subst epoch_split.simps) (simp add: Let_def token_ok_def)

lemma epoch_split_space: "epoch_split (CHR '' '' # line) f = epoch_split line f"
  by (subst (1 2) epoch_split.simps) simp

lemma epoch_split_prefix:
  assumes "list_all token_ok ts" and "length found + length ts \<le> 16" and "rest = [] \<or> is_separator (hd rest)"
  shows "epoch_split (join_tokens ts @ rest) found = epoch_split rest (found @ ts)"
  using assms(1,2)
proof (induction ts arbitrary: found rule: join_tokens.induct)
  case (2 t)
  with epoch_split_token [of t rest found] assms(3) show ?case by simp
next
  case (3 t u ts)
  with epoch_split_token [of t "'' '' @ join_tokens (u # ts) @ rest" found] show ?case by (simp add: epoch_split_space)
qed simp

lemma epoch_split_join:
  assumes "list_all token_ok ts" and "length found + length ts \<le> 16"
  shows "epoch_split (join_tokens ts) found = Some (found @ ts)"
  using epoch_split_prefix [OF assms, of "[]"] by (simp add: epoch_split.simps [of "[]"])

lemma tokenize_line:
  assumes "list_all token_ok ts" and "line_token (last ts)" and "2 \<le> length ts" and "length ts \<le> 16"
    and "hd ts = kNativeEpochProtocolVersion" and "length (format_line ts) \<le> 256"
  shows "tokenize (format_line ts) = Some ts"
proof -
  have ne: "ts \<noteq> []" using assms(3) by auto
  have "epoch_split (strip_suffix CHR 0x0D (strip_suffix newline (format_line ts))) [] = Some ts"
    using strip_format_last [OF assms(1) ne assms(2)] epoch_split_join [of ts "[]"] assms(1,4) by simp
  then show ?thesis
    using assms ne by (simp add: tokenize_def kTaskProtocolMaxLineBytes_def hd_conv_nth) (simp add: format_line_def)
qed

lemma join_append: "ts \<noteq> [] \<Longrightarrow> us \<noteq> [] \<Longrightarrow> join_tokens (ts @ us) = join_tokens ts @ '' '' @ join_tokens us"
  by (induction ts rule: join_tokens.induct) (auto simp: neq_Nil_conv)

text \<open>An empty field leaves two spaces, which separate like one.\<close>

lemma tokenize_empty_field:
  assumes ts: "list_all token_ok (ts @ us)" and ne: "ts \<noteq> []" "us \<noteq> []" and l: "line_token (last us)"
    and n: "2 \<le> length (ts @ us)" "length (ts @ us) \<le> 16"
    and v: "hd ts = kNativeEpochProtocolVersion" and b: "length (format_line (ts @ [] # us)) \<le> 256"
  shows "tokenize (format_line (ts @ [] # us)) = Some (ts @ us)"
proof -
  have join: "join_tokens (ts @ [] # us) = join_tokens ts @ CHR '' '' # CHR '' '' # join_tokens us"
    using join_append [OF ne(1), of "[] # us"] join_append [of "[[]]" us] ne by simp
  have u: "join_tokens us \<noteq> []" "last (join_tokens us) = last (last us)"
    using join_tokens_last [OF ne(2)] ts by simp_all
  have "last (last us) \<noteq> CHR 0x0D" using l by (auto simp: line_token_def token_ok_def list_all_iff)
  then have "strip_suffix CHR 0x0D (strip_suffix newline (format_line (ts @ [] # us))) = join_tokens (ts @ [] # us)"
    using u unfolding format_line_def join by (simp add: strip_suffix_def butlast_append)
  moreover have "epoch_split (join_tokens (ts @ [] # us)) [] = Some (ts @ us)"
    unfolding join using epoch_split_prefix [of ts "[]"] epoch_split_join [of us ts] ts n by (simp add: epoch_split_space is_separator_def)
  ultimately show ?thesis
    using n v b ne by (simp add: tokenize_def kTaskProtocolMaxLineBytes_def hd_conv_nth nth_append) (simp add: format_line_def)
qed

lemma epoch_line_tokens:
  "ts \<noteq> [] \<Longrightarrow> epoch_line (join_tokens ts) sq = format_line (kNativeEpochProtocolVersion # ts @ [to_string sq])"
  using join_append [of "[kNativeEpochProtocolVersion]" "ts @ [to_string sq]"] join_append [of ts "[to_string sq]"]
  by (simp add: epoch_line_def format_line_def)

lemma epoch_tokens [simp]:
  "line_token kNativeEpochProtocolVersion" "length kNativeEpochProtocolVersion = 16"
  "line_token ''CANCEL_PENDING''" "line_token ''PENDING''" "line_token ''GRANTED''" "line_token ''ACK''"
  by (simp_all add: line_token_def token_ok_def is_separator_def kNativeEpochProtocolVersion_def)

lemmas epoch_names = epoch_operation_def epoch_operation_token_def kOperations_def is_pending_operation_def is_terminal_def

lemma join_extent:
  "join_tokens (ts @ [format_extent e]) = join_tokens (ts @ extent_tokens e)"
  "join_tokens (ts @ format_extent e # us) = join_tokens (ts @ extent_tokens e @ us)"
proof -
  have *: "extent_tokens e \<noteq> []" by (simp add: extent_tokens_def)
  show "join_tokens (ts @ [format_extent e]) = join_tokens (ts @ extent_tokens e)"
    using * join_append [of ts "[format_extent e]"] join_append [of ts "extent_tokens e"]
    by (cases "ts = []") (simp_all add: format_extent_def)
  show "join_tokens (ts @ format_extent e # us) = join_tokens (ts @ extent_tokens e @ us)"
    using * join_append [of ts "format_extent e # us"] join_append [of ts "extent_tokens e @ us"]
      join_append [of "[format_extent e]" us] join_append [of "extent_tokens e" us]
    by (cases "ts = []"; cases "us = []") (simp_all add: format_extent_def)
qed

lemma parse_extent_tokens:
  assumes "length ts = n" and "valid_native_epoch_extent e"
  shows "parse_extent (ts @ extent_tokens e @ us) n = Some e"
  using assms by (cases e) (simp add: parse_extent_def extent_tokens_def nth_append Let_def)

section \<open>Requests\<close>

definition valid_nrequest :: "NativeEpochRequest \<Rightarrow> bool" where
  "valid_nrequest r \<longleftrightarrow>
     (let op = nreq_operation r; x = nreq_execution r in
      nreq_request_sequence r \<noteq> 0 \<and> op \<noteq> NOp_unlisted \<and>
      (if op = NOp_kAcquire
       then admission_ok (nreq_admission r) \<and> valid_native_epoch_extent (nreq_extent r) \<and>
         req_work_units (nreq_admission r) = max_calls (nreq_extent r) \<and> nreq_issued_calls r = 0
       else xi_task_id x \<noteq> 0 \<and> (is_pending_operation op \<longleftrightarrow> xi_generation x = 0) \<and>
         (if is_terminal op then nreq_issued_calls r \<le> 65536 else nreq_issued_calls r = 0)))"

definition carried_nrequest :: "NativeEpochRequest \<Rightarrow> NativeEpochRequest" where
  "carried_nrequest r =
     (if nreq_operation r = NOp_kAcquire then r\<lparr>nreq_execution := no_execution\<rparr>
      else r\<lparr>nreq_admission := default_admission, nreq_extent := no_extent\<rparr>)"

definition nrequest_tokens :: "NativeEpochRequest \<Rightarrow> string list" where
  "nrequest_tokens r =
     (let op = nreq_operation r; a = nreq_admission r; x = nreq_execution r; token = the (epoch_operation_token op)
      in if op = NOp_kAcquire
         then [token, req_tenant_id a, to_string (req_memory_bytes a), to_string (req_weight a), to_string (req_work_units a),
               to_string (req_priority a)] @ extent_tokens (nreq_extent r)
         else [token, to_string (xi_task_id x)] @ (if is_pending_operation op then [] else [to_string (xi_generation x)]) @
              (if is_terminal op then [to_string (nreq_issued_calls r)] else []))"

abbreviation nrequest_line :: "NativeEpochRequest \<Rightarrow> string" where
  "nrequest_line r \<equiv> format_line (kNativeEpochProtocolVersion # nrequest_tokens r @ [to_string (nreq_request_sequence r)])"

lemma format_nrequest_line:
  "format_native_epoch_request r =
     (if nreq_operation r = NOp_unlisted \<or> is_pending_operation (nreq_operation r) \<and> xi_generation (nreq_execution r) \<noteq> 0 \<or>
        \<not> is_terminal (nreq_operation r) \<and> nreq_issued_calls r \<noteq> 0 \<or>
        nreq_operation r = NOp_kAcquire \<and> length (req_tenant_id (nreq_admission r)) > 96 \<or>
        parse_native_epoch_request False (nrequest_line r) = None
      then None else Some (nrequest_line r))"
proof (cases "nreq_operation r = NOp_kAcquire")
  case True
  have "join_tokens ([''ACQUIRE'', req_tenant_id a, b, c, d, f] @ [format_extent e]) =
      join_tokens ([''ACQUIRE'', req_tenant_id a, b, c, d, f] @ extent_tokens e)" for a b c d e f
    by (rule join_extent)
  then show ?thesis
    using True epoch_line_tokens [of "nrequest_tokens r" "nreq_request_sequence r"]
    by (simp add: format_native_epoch_request_def nrequest_tokens_def epoch_names Let_def kTaskProtocolMaxTenantIdBytes_def)
next
  case False
  then show ?thesis
    using epoch_line_tokens [of "nrequest_tokens r" "nreq_request_sequence r"]
    by (cases "nreq_operation r")
      (simp_all add: format_native_epoch_request_def nrequest_tokens_def epoch_names Let_def)
qed

text \<open>The SUBMIT line rebuilt from the tokens of an admission.\<close>

lemma parse_rebuilt_submit:
  assumes t: "token_ok t" and len: "length t \<le> 96"
  shows "rp_request (parse_task_protocol_request False
      (kTaskProtocolVersion @ '' SUBMIT '' @ join_tokens [t, to_string (req_memory_bytes a), to_string (req_weight a),
         to_string (req_work_units a), to_string (req_priority a)])) =
    (if admission_ok (a\<lparr>req_tenant_id := t\<rparr>) then Some (default_request\<lparr>preq_admission := a\<lparr>req_tenant_id := t\<rparr>\<rparr>) else None)"
proof -
  let ?ts = "[kTaskProtocolVersion, ''SUBMIT'', t, to_string (req_memory_bytes a), to_string (req_weight a),
      to_string (req_work_units a), to_string (req_priority a)]"
  let ?line = "join_tokens ?ts"
  have "token_ok kTaskProtocolVersion" "token_ok ''SUBMIT''"
    using version_token literal_tokens(1) by (simp_all add: line_token_def)
  then have ok: "list_all token_ok ?ts" using t by simp
  have "is_digit (last ?line)"
    using join_tokens_last [OF _ ok] to_decimal_props [of "unat (req_priority a)"]
    by (simp add: to_string_def list_all_iff)
  then have nl: "last ?line \<noteq> newline" "last ?line \<noteq> CHR 0x0D" by (auto simp: is_digit_def newline_def)
  have sp: "split_tokens (strip_suffix CHR 0x0D (strip_suffix newline ?line)) = \<lparr>tok_values = ?ts, tok_overflow = False\<rparr>"
    using nl split_join [OF ok] by (simp add: strip_suffix_def kMaxTokens_def del: join_tokens.simps)
  have "length ?line \<le> 256"
    using len to_string_length_u64 [of "req_memory_bytes a"]
      to_string_length_u32 [of "req_weight a"] to_string_length_u32 [of "req_work_units a"] to_string_length_u32 [of "req_priority a"]
    by (simp add: length_join_tokens del: join_tokens.simps)
  then have "rp_request (parse_task_protocol_request False ?line) =
      (if admission_ok (a\<lparr>req_tenant_id := t\<rparr>) then Some (default_request\<lparr>preq_admission := a\<lparr>req_tenant_id := t\<rparr>\<rparr>) else None)"
    unfolding parse_task_protocol_request_def sp
    by (cases a) (auto simp: Let_def kTaskProtocolMaxLineBytes_def parse_admission_request_def request_parsed_def request_error_def admission_ok_def
        default_request_def parse_positive_integer_def simp del: join_tokens.simps)
  then show ?thesis by simp
qed

lemma nrequest_tokenize:
  assumes op: "nreq_operation r \<noteq> NOp_unlisted"
    and t: "nreq_operation r = NOp_kAcquire \<longrightarrow> token_ok (req_tenant_id (nreq_admission r)) \<and> length (req_tenant_id (nreq_admission r)) \<le> 96"
  shows "tokenize (nrequest_line r) = Some (kNativeEpochProtocolVersion # nrequest_tokens r @ [to_string (nreq_request_sequence r)])"
proof (rule tokenize_line)
  have tok: "line_token s \<Longrightarrow> token_ok s" for s by (simp add: line_token_def)
  show "list_all token_ok (kNativeEpochProtocolVersion # nrequest_tokens r @ [to_string (nreq_request_sequence r)])"
    using op t by (cases "nreq_operation r") (simp_all add: nrequest_tokens_def epoch_names extent_tokens_def Let_def tok)
  show "length (nrequest_line r) \<le> 256"
    using op t to_string_length_u64 [of "req_memory_bytes (nreq_admission r)"] to_string_length_u32 [of "req_weight (nreq_admission r)"]
      to_string_length_u32 [of "req_work_units (nreq_admission r)"] to_string_length_u32 [of "req_priority (nreq_admission r)"]
      to_string_length_u32 [of "max_calls (nreq_extent r)"] to_string_length_u32 [of "calls_per_prefix (nreq_extent r)"]
      to_string_length_u32 [of "max_pending_prefixes (nreq_extent r)"] to_string_length_u32 [of "acceptance_microseconds (nreq_extent r)"]
      to_string_length_u64 [of "nreq_request_sequence r"] to_string_length_u64 [of "xi_task_id (nreq_execution r)"]
      to_string_length_u64 [of "xi_generation (nreq_execution r)"] to_string_length_u32 [of "nreq_issued_calls r"]
    by (cases "nreq_operation r") (simp_all add: length_format_line nrequest_tokens_def epoch_names extent_tokens_def Let_def)
qed (simp_all add: nrequest_tokens_def epoch_names extent_tokens_def Let_def)

text \<open>A tenant without blanks stands alone in its line; the other fields are numbers.\<close>

definition no_blanks :: "string \<Rightarrow> bool" where
  "no_blanks t \<longleftrightarrow> list_all (\<lambda>c. \<not> is_separator c) t"

lemma parse_nrequest_line:
  assumes op: "nreq_operation r \<noteq> NOp_unlisted"
    and pending: "is_pending_operation (nreq_operation r) \<Longrightarrow> xi_generation (nreq_execution r) = 0"
    and issued: "\<not> is_terminal (nreq_operation r) \<Longrightarrow> nreq_issued_calls r = 0"
    and t: "nreq_operation r = NOp_kAcquire \<longrightarrow> token_ok (req_tenant_id (nreq_admission r)) \<and> length (req_tenant_id (nreq_admission r)) \<le> 96"
  shows "parse_native_epoch_request False (nrequest_line r) = (if valid_nrequest r then Some (carried_nrequest r) else None)"
proof (cases "nreq_operation r = NOp_kAcquire")
  case True
  let ?a = "nreq_admission r" and ?e = "nreq_extent r"
  let ?ts = "[kNativeEpochProtocolVersion, ''ACQUIRE'', req_tenant_id ?a, to_string (req_memory_bytes ?a), to_string (req_weight ?a),
    to_string (req_work_units ?a), to_string (req_priority ?a)]"
  let ?us = "?ts @ extent_tokens ?e"
  have us: "kNativeEpochProtocolVersion # nrequest_tokens r = ?ts @ extent_tokens ?e"
    using True by (simp add: nrequest_tokens_def epoch_names Let_def)
  have ext: "parse_extent (?ts @ extent_tokens ?e) 7 = (if valid_native_epoch_extent ?e then Some ?e else None)"
    by (cases ?e) (simp add: parse_extent_def extent_tokens_def nth_append Let_def)
  have "?a\<lparr>req_tenant_id := req_tenant_id ?a\<rparr> = ?a" by simp
  then have rebuilt: "rp_request (parse_task_protocol_request False (kTaskProtocolVersion @ '' SUBMIT '' @
      join_tokens [?us ! 2, ?us ! 3, ?us ! 4, ?us ! 5, ?us ! 6])) =
      (if admission_ok ?a then Some (default_request\<lparr>preq_admission := ?a\<rparr>) else None)"
    using parse_rebuilt_submit [of "req_tenant_id ?a" ?a] t True by (simp del: join_tokens.simps)
  have acq: "parse_epoch_acquire False sq (?ts @ extent_tokens ?e) =
      (if valid_native_epoch_extent ?e \<and> admission_ok ?a \<and> req_work_units ?a = max_calls ?e
       then Some (default_nrequest\<lparr>nreq_operation := NOp_kAcquire, nreq_admission := ?a, nreq_extent := ?e, nreq_request_sequence := sq\<rparr>) else None)" for sq
    unfolding parse_epoch_acquire_def ext rebuilt by (simp add: extent_tokens_def)
  have "parse_native_epoch_request False (nrequest_line r) =
      (if nreq_request_sequence r = 0 then None else parse_epoch_acquire False (nreq_request_sequence r) (?ts @ extent_tokens ?e))"
    unfolding parse_native_epoch_request_def nrequest_tokenize [OF op t]
    using us True by (simp add: nrequest_tokens_def epoch_names Let_def butlast_append) 
  then show ?thesis
    using True issued unfolding acq
    by (cases r) (auto simp: valid_nrequest_def carried_nrequest_def default_nrequest_def epoch_names Let_def)
next
  case False
  from False show ?thesis
    using op pending issued unfolding parse_native_epoch_request_def nrequest_tokenize [OF op t]
    by (cases r; cases "nreq_execution r"; cases "nreq_operation r")
      (auto simp: nrequest_tokens_def epoch_names Let_def butlast_append parse_epoch_execution_def valid_nrequest_def
        carried_nrequest_def default_nrequest_def)
qed

lemma parse_empty_tenant:
  assumes "nreq_operation r = NOp_kAcquire" and "req_tenant_id (nreq_admission r) = []"
  shows "parse_native_epoch_request False (nrequest_line r) = None"
proof -
  let ?a = "nreq_admission r" and ?e = "nreq_extent r"
  let ?us = "[to_string (req_memory_bytes ?a), to_string (req_weight ?a), to_string (req_work_units ?a), to_string (req_priority ?a)] @
    extent_tokens ?e @ [to_string (nreq_request_sequence r)]"
  let ?ts = "[kNativeEpochProtocolVersion, ''ACQUIRE'']"
  have tok: "line_token s \<Longrightarrow> token_ok s" for s by (simp add: line_token_def)
  have line: "nrequest_line r = format_line (?ts @ [] # ?us)"
    using assms by (simp add: nrequest_tokens_def epoch_names Let_def)
  have b: "length (format_line (?ts @ [] # ?us)) \<le> 256"
    using to_string_length_u64 [of "req_memory_bytes ?a"] to_string_length_u32 [of "req_weight ?a"]
      to_string_length_u32 [of "req_work_units ?a"] to_string_length_u32 [of "req_priority ?a"]
      to_string_length_u32 [of "max_calls ?e"] to_string_length_u32 [of "calls_per_prefix ?e"]
      to_string_length_u32 [of "max_pending_prefixes ?e"] to_string_length_u32 [of "acceptance_microseconds ?e"]
      to_string_length_u64 [of "nreq_request_sequence r"]
    by (simp add: length_format_line extent_tokens_def)
  have "tokenize (nrequest_line r) = Some (?ts @ ?us)"
    unfolding line by (rule tokenize_empty_field) (use b in \<open>simp_all add: extent_tokens_def tok\<close>)
  then show ?thesis
    unfolding parse_native_epoch_request_def
    by (simp add: epoch_names parse_epoch_acquire_def extent_tokens_def butlast_append)
qed

lemma format_nrequest_eq:
  assumes "no_blanks (req_tenant_id (nreq_admission r))"
  shows "format_native_epoch_request r = (if valid_nrequest r then Some (nrequest_line r) else None)"
proof (cases "nreq_operation r = NOp_kAcquire \<and> req_tenant_id (nreq_admission r) = []")
  case True
  then have "\<not> valid_nrequest r" by (simp add: valid_nrequest_def admission_ok_def is_valid_tenant_id_def Let_def)
  with True parse_empty_tenant [of r] show ?thesis by (simp add: format_nrequest_line)
next
  case False
  have len: "valid_nrequest r \<Longrightarrow> nreq_operation r = NOp_kAcquire \<Longrightarrow> length (req_tenant_id (nreq_admission r)) \<le> 96"
    by (simp add: valid_nrequest_def Let_def admission_ok_def tenant_length)
  show ?thesis
  proof (cases "nreq_operation r = NOp_unlisted \<or> is_pending_operation (nreq_operation r) \<and> xi_generation (nreq_execution r) \<noteq> 0 \<or>
        \<not> is_terminal (nreq_operation r) \<and> nreq_issued_calls r \<noteq> 0 \<or>
        nreq_operation r = NOp_kAcquire \<and> length (req_tenant_id (nreq_admission r)) > 96")
    case True
    then have "\<not> valid_nrequest r"
      using len by (auto simp: valid_nrequest_def Let_def is_terminal_def is_pending_operation_def)
    with True show ?thesis unfolding format_nrequest_line by auto
  next
    case g: False
    have "parse_native_epoch_request False (nrequest_line r) = (if valid_nrequest r then Some (carried_nrequest r) else None)"
      by (rule parse_nrequest_line) (use g False assms in \<open>auto simp: token_ok_def no_blanks_def\<close>)
    with g show ?thesis unfolding format_nrequest_line by auto
  qed
qed

lemma parse_nrequest_valid:
  assumes "valid_nrequest r"
  shows "parse_native_epoch_request False (nrequest_line r) = Some (carried_nrequest r)"
proof -
  have "nreq_operation r = NOp_kAcquire \<longrightarrow> line_token (req_tenant_id (nreq_admission r)) \<and> length (req_tenant_id (nreq_admission r)) \<le> 96"
    using assms by (auto simp: valid_nrequest_def Let_def admission_ok_def tenant_length)
  then show ?thesis
    using assms parse_nrequest_line [of r]
    by (auto simp: valid_nrequest_def Let_def is_terminal_def is_pending_operation_def line_token_def split: if_splits)
qed

text \<open>Whatever follows them, the first tokens of a rebuilt line are its version and its verb.\<close>

lemma split_loop_values: "\<exists>us. tok_values (split_loop line r) = tok_values r @ us"
proof (induction line r rule: split_loop.induct)
  case (1 line r)
  then show ?case by (subst split_loop.simps) (fastforce simp: Let_def)
qed

lemma rebuilt_tokens:
  assumes "token_ok v" and "token_ok verb"
  shows "\<exists>us. tok_values (split_tokens (strip_suffix CHR 0x0D (strip_suffix newline (v @ '' '' @ verb @ '' '' @ x)))) = v # verb # us"
proof -
  have strip: "strip_suffix c (p @ y) = p @ strip_suffix c y" if "p \<noteq> []" "last p \<noteq> c" for c p y
    using that by (simp add: strip_suffix_def butlast_append)
  let ?p = "v @ '' '' @ verb @ '' ''"
  obtain y where "strip_suffix CHR 0x0D (strip_suffix newline (?p @ x)) = ?p @ y"
    using strip [of ?p newline x] strip [of ?p "CHR 0x0D"] by (auto simp: newline_def)
  moreover have "split_tokens (?p @ y) = split_loop y \<lparr>tok_values = [v, verb], tok_overflow = False\<rparr>"
    using split_loop_token [OF assms(1), of "'' '' @ verb @ '' '' @ y"] split_loop_token [OF assms(2), of "'' '' @ y"]
    by (simp add: split_tokens_def split_loop_space kMaxTokens_def)
  ultimately show ?thesis using split_loop_values [of y "\<lparr>tok_values = [v, verb], tok_overflow = False\<rparr>"] by simp
qed

lemma rebuilt_submit_ok:
  assumes "rp_request (parse_task_protocol_request af (kTaskProtocolVersion @ '' SUBMIT '' @ x)) = Some q"
  shows "admission_ok (preq_admission q)"
proof -
  have "token_ok kTaskProtocolVersion" "token_ok ''SUBMIT''"
    using version_token literal_tokens(1) by (simp_all add: line_token_def)
  from rebuilt_tokens [OF this, of x] obtain us where
    ts: "tok_values (split_tokens (strip_suffix CHR 0x0D (strip_suffix newline (kTaskProtocolVersion @ '' SUBMIT '' @ x)))) =
      kTaskProtocolVersion # ''SUBMIT'' # us" by auto
  then have "preq_operation q = POp_kSubmit"
    using assms unfolding parse_task_protocol_request_def
    by (auto simp: Let_def parse_admission_request_def request_parsed_def request_error_def default_request_def
        split: if_splits option.splits prod.splits)
  with parsed_request_valid [OF assms] show ?thesis by (simp add: valid_request_def admission_ok_def)
qed

lemma parsed_nrequest_valid:
  assumes "parse_native_epoch_request af line = Some r"
  shows "valid_nrequest r \<and> carried_nrequest r = r"
proof -
  obtain vs op sq where p: "epoch_operation (vs ! 1) = Some op" "sq \<noteq> 0"
      "(if op = NOp_kAcquire then parse_epoch_acquire af sq (butlast vs) else parse_epoch_execution op sq (butlast vs)) = Some r"
    using assms by (auto simp: parse_native_epoch_request_def split: option.splits if_splits)
  have op: "op \<noteq> NOp_unlisted" using p(1) by (auto simp: epoch_names split: if_splits)
  show ?thesis
  proof (cases "op = NOp_kAcquire")
    case True
    let ?us = "butlast vs"
    from True obtain e q where e: "parse_extent ?us 7 = Some e" "req_work_units (preq_admission q) = max_calls e"
        "r = default_nrequest\<lparr>nreq_operation := NOp_kAcquire, nreq_admission := preq_admission q, nreq_extent := e, nreq_request_sequence := sq\<rparr>"
        and q: "rp_request (parse_task_protocol_request False
          (kTaskProtocolVersion @ '' SUBMIT '' @ join_tokens [?us ! 2, ?us ! 3, ?us ! 4, ?us ! 5, ?us ! 6])) = Some q"
      using p(3) by (auto simp: parse_epoch_acquire_def split: option.splits if_splits)
    note e rebuilt_submit_ok [OF q]
    moreover from e(1) have "valid_native_epoch_extent e"
      by (auto simp: parse_extent_def Let_def split: option.splits if_splits)
    ultimately show ?thesis
      using p(2) by (simp add: valid_nrequest_def carried_nrequest_def default_nrequest_def)
  next
    case False
    then show ?thesis
      using p op by (auto simp: parse_epoch_execution_def Let_def valid_nrequest_def carried_nrequest_def default_nrequest_def
          is_pending_operation_def is_terminal_def split: option.splits if_splits)
  qed
qed

section \<open>Responses\<close>

definition valid_nresponse :: "NativeEpochResponse \<Rightarrow> bool" where
  "valid_nresponse r \<longleftrightarrow>
     (let x = ng_execution (nres_grant r); op = nres_operation r in
      (nres_kind r \<noteq> NKind_kError \<longrightarrow> nres_request_sequence r \<noteq> 0 \<and> xi_task_id x \<noteq> 0) \<and>
      (case nres_kind r of
         NKind_kPending \<Rightarrow> xi_generation x = 0 \<and> ng_acceptance_deadline_nanoseconds (nres_grant r) = 0 \<and>
           valid_native_epoch_extent (ng_extent (nres_grant r))
       | NKind_kGranted \<Rightarrow> xi_generation x \<noteq> 0 \<and> ng_acceptance_deadline_nanoseconds (nres_grant r) \<noteq> 0 \<and>
           valid_native_epoch_extent (ng_extent (nres_grant r))
       | NKind_kRetreat \<Rightarrow> xi_generation x \<noteq> 0
       | NKind_kAcknowledged \<Rightarrow> op \<in> {NOp_kHeartbeat, NOp_kComplete, NOp_kFail, NOp_kCancelPending} \<and>
           (op = NOp_kCancelPending \<longleftrightarrow> xi_generation x = 0) \<and>
           (if is_terminal op then nres_issued_calls r \<le> 65536 else nres_issued_calls r = 0)
       | NKind_kError \<Rightarrow> error_token (nres_error r) \<noteq> None
       | NKind_unlisted \<Rightarrow> False))"

definition carried_nresponse :: "NativeEpochResponse \<Rightarrow> NativeEpochResponse" where
  "carried_nresponse r =
     (let d = default_nresponse\<lparr>nres_kind := nres_kind r, nres_request_sequence := nres_request_sequence r\<rparr>;
          x = no_grant\<lparr>ng_execution := ng_execution (nres_grant r)\<rparr>
      in case nres_kind r of
         NKind_kRetreat \<Rightarrow> d\<lparr>nres_operation := NOp_kRetreat, nres_grant := x, nres_should_retreat := nres_should_retreat r\<rparr>
       | NKind_kAcknowledged \<Rightarrow> d\<lparr>nres_operation := nres_operation r, nres_grant := x, nres_issued_calls := nres_issued_calls r\<rparr>
       | NKind_kError \<Rightarrow> d\<lparr>nres_error := nres_error r\<rparr>
       | _ \<Rightarrow> d\<lparr>nres_grant := nres_grant r\<rparr>)"

definition nresponse_tokens :: "NativeEpochResponse \<Rightarrow> string list" where
  "nresponse_tokens r =
     (let grant = nres_grant r; i = to_string (xi_task_id (ng_execution grant));
          g = to_string (xi_generation (ng_execution grant))
      in case nres_kind r of
        NKind_kPending \<Rightarrow> [''PENDING'', i] @ extent_tokens (ng_extent grant)
      | NKind_kGranted \<Rightarrow>
          [''GRANTED'', i, g] @ extent_tokens (ng_extent grant) @ [to_string (ng_acceptance_deadline_nanoseconds grant)]
      | NKind_kRetreat \<Rightarrow> [''RETREAT'', i, g, if nres_should_retreat r then ''1'' else ''0'']
      | NKind_kAcknowledged \<Rightarrow> [''ACK'', the (epoch_operation_token (nres_operation r)), i, g, to_string (nres_issued_calls r)]
      | NKind_kError \<Rightarrow> [''ERROR'', the (error_token (nres_error r))]
      | NKind_unlisted \<Rightarrow> [[]])"

abbreviation nresponse_line :: "NativeEpochResponse \<Rightarrow> string" where
  "nresponse_line r \<equiv> format_line (kNativeEpochProtocolVersion # nresponse_tokens r @ [to_string (nres_request_sequence r)])"

text \<open>The responses for which there is a line to be parsed again.\<close>

definition has_body :: "NativeEpochResponse \<Rightarrow> bool" where
  "has_body r \<longleftrightarrow>
     (case nres_kind r of
        NKind_kPending \<Rightarrow> xi_generation (ng_execution (nres_grant r)) = 0 \<and> ng_acceptance_deadline_nanoseconds (nres_grant r) = 0
      | NKind_kAcknowledged \<Rightarrow> nres_operation r \<noteq> NOp_unlisted
      | NKind_kError \<Rightarrow> error_token (nres_error r) \<noteq> None
      | _ \<Rightarrow> True)"

lemma error_body:
  assumes "error_token e = Some t"
  shows "format_task_protocol_response (default_response\<lparr>pres_error := e\<rparr>) = Some (format_line [kTaskProtocolVersion, ''ERROR'', t])"
proof -
  have "e \<noteq> PError_unlisted" using assms by auto
  with error_token_props(2) [of e] assms show ?thesis
    by (simp add: format_response_eq valid_response_def response_tokens_def default_response_def
        within_line_limit_def kTaskProtocolMaxLineBytes_def length_format_line)
qed

lemma epoch_body_tokens:
  "epoch_response_body r = (if has_body r then Some (join_tokens (nresponse_tokens r)) else None)"
proof (cases "nres_kind r")
  case NKind_kPending
  have "join_tokens ([''PENDING'', i] @ [format_extent e]) = join_tokens ([''PENDING'', i] @ extent_tokens e)" for i e
    by (rule join_extent)
  with NKind_kPending show ?thesis by (simp add: epoch_response_body_def has_body_def nresponse_tokens_def Let_def)
next
  case NKind_kGranted
  have "join_tokens ([''GRANTED'', i, g] @ format_extent e # [u]) = join_tokens ([''GRANTED'', i, g] @ extent_tokens e @ [u])" for i g e u
    by (rule join_extent)
  with NKind_kGranted show ?thesis by (simp add: epoch_response_body_def has_body_def nresponse_tokens_def Let_def)
next
  case NKind_kAcknowledged
  then show ?thesis
    by (cases "nres_operation r") (simp_all add: epoch_response_body_def has_body_def nresponse_tokens_def Let_def epoch_names)
next
  case NKind_kError
  show ?thesis
  proof (cases "error_token (nres_error r)")
    case None
    then have "nres_error r = PError_unlisted" by (cases "nres_error r") simp_all
    with NKind_kError show ?thesis
      by (simp add: epoch_response_body_def has_body_def format_response_eq valid_response_def default_response_def Let_def)
  next
    case (Some t)
    with NKind_kError error_body [OF Some] show ?thesis
      by (simp add: epoch_response_body_def has_body_def nresponse_tokens_def Let_def format_line_def)
  qed
qed (simp_all add: epoch_response_body_def has_body_def nresponse_tokens_def Let_def)

lemma format_nresponse_line:
  "format_native_epoch_response r =
     (if has_body r \<and> parse_native_epoch_response False (nresponse_line r) \<noteq> None then Some (nresponse_line r) else None)"
proof -
  have "nresponse_tokens r \<noteq> []" by (cases "nres_kind r") (simp_all add: nresponse_tokens_def Let_def)
  then show ?thesis
    using epoch_line_tokens [of "nresponse_tokens r"] by (simp add: format_native_epoch_response_def epoch_body_tokens Let_def)
qed

lemma parse_rebuilt_error:
  assumes "error_token e \<noteq> None"
  shows "sp_response (parse_task_protocol_response False (kTaskProtocolVersion @ '' ERROR '' @ the (error_token e))) =
    Some (default_response\<lparr>pres_error := e\<rparr>)"
proof -
  have "list_all (\<lambda>e. sp_response (parse_task_protocol_response False (kTaskProtocolVersion @ '' ERROR '' @ the (error_token e))) =
      Some (default_response\<lparr>pres_error := e\<rparr>))
    [PError_kInvalidRequest, PError_kQuotaExceeded, PError_kQueueFull, PError_kUnknownTask, PError_kInternalError, PError_kUnsupportedVersion]"
    by code_simp
  then show ?thesis using assms by (cases e; simp only: list.pred_inject error_token.simps option.distinct simp_thms)
qed

lemma nresponse_tokenize:
  assumes "has_body r" and "nres_kind r \<noteq> NKind_unlisted"
  shows "tokenize (nresponse_line r) = Some (kNativeEpochProtocolVersion # nresponse_tokens r @ [to_string (nres_request_sequence r)])"
    and "length (nresponse_line r) \<le> 256"
proof -
  have tok: "line_token s \<Longrightarrow> token_ok s" for s by (simp add: line_token_def)
  have op: "token_ok (the (epoch_operation_token p)) \<and> length (the (epoch_operation_token p)) \<le> 14" if "p \<noteq> NOp_unlisted" for p
    using that by (cases p) (simp_all add: epoch_names tok)
  have er: "token_ok (the (error_token e)) \<and> length (the (error_token e)) \<le> 19" if "error_token e \<noteq> None" for e
    using that error_token_props [of e] tok by (cases "e = PError_unlisted") auto
  have bit: "token_ok ''0''" "token_ok ''1''" by (simp_all add: token_ok_def is_separator_def)
  note hyps = assms op er
  have t: "list_all token_ok (kNativeEpochProtocolVersion # nresponse_tokens r @ [to_string (nres_request_sequence r)])"
    using hyps by (cases "nres_kind r") (simp_all add: has_body_def nresponse_tokens_def extent_tokens_def Let_def tok bit)
  show b: "length (nresponse_line r) \<le> 256"
    using assms to_string_length_u64 [of "xi_task_id (ng_execution (nres_grant r))"] to_string_length_u64 [of "xi_generation (ng_execution (nres_grant r))"]
      to_string_length_u64 [of "ng_acceptance_deadline_nanoseconds (nres_grant r)"]
      to_string_length_u32 [of "max_calls (ng_extent (nres_grant r))"] to_string_length_u32 [of "calls_per_prefix (ng_extent (nres_grant r))"]
      to_string_length_u32 [of "max_pending_prefixes (ng_extent (nres_grant r))"] to_string_length_u32 [of "acceptance_microseconds (ng_extent (nres_grant r))"]
      to_string_length_u64 [of "nres_request_sequence r"] to_string_length_u32 [of "nres_issued_calls r"]
      op [of "nres_operation r"] er [of "nres_error r"]
    by (cases "nres_kind r") (simp_all add: has_body_def length_format_line nresponse_tokens_def extent_tokens_def Let_def)
  show "tokenize (nresponse_line r) = Some (kNativeEpochProtocolVersion # nresponse_tokens r @ [to_string (nres_request_sequence r)])"
    by (rule tokenize_line) (use t b in \<open>auto simp: nresponse_tokens_def extent_tokens_def Let_def split: NativeEpochResponseKind.splits\<close>)
qed

lemma parse_nresponse_line:
  assumes "has_body r"
  shows "parse_native_epoch_response False (nresponse_line r) = (if valid_nresponse r then Some (carried_nresponse r) else None)"
proof (cases "nres_kind r = NKind_unlisted")
  case True
  have "tokenize (format_line ([kNativeEpochProtocolVersion] @ [] # [to_string (nres_request_sequence r)])) =
      Some ([kNativeEpochProtocolVersion] @ [to_string (nres_request_sequence r)])"
    by (rule tokenize_empty_field)
      (use to_string_length_u64 [of "nres_request_sequence r"] epoch_tokens(1) line_token_to_string [of "nres_request_sequence r"] in
        \<open>simp_all add: length_format_line, simp_all add: line_token_def\<close>)
  with True show ?thesis
    by (simp add: nresponse_tokens_def Let_def parse_native_epoch_response_def valid_nresponse_def)
next
  case False
  note tk = nresponse_tokenize(1) [OF assms False]
  show ?thesis
  proof (cases "nres_kind r")
    case NKind_kError
    then show ?thesis
      using assms parse_rebuilt_error [of "nres_error r"] unfolding parse_native_epoch_response_def tk
      by (simp add: nresponse_tokens_def Let_def has_body_def valid_nresponse_def carried_nresponse_def default_nresponse_def
          default_response_def)
  next
    case NKind_kAcknowledged
    then show ?thesis
      using assms unfolding parse_native_epoch_response_def tk
      by (cases "nres_operation r"; cases "ng_execution (nres_grant r)")
        (auto simp: nresponse_tokens_def Let_def has_body_def valid_nresponse_def carried_nresponse_def default_nresponse_def
          parse_epoch_ack_def epoch_names)
  next
    case NKind_kRetreat
    then show ?thesis
      using assms unfolding parse_native_epoch_response_def tk
      by (cases "ng_execution (nres_grant r)")
        (auto simp: nresponse_tokens_def Let_def has_body_def valid_nresponse_def carried_nresponse_def default_nresponse_def
          parse_epoch_retreat_def)
  next
    case NKind_kPending
    then show ?thesis
      using assms unfolding parse_native_epoch_response_def tk
      by (cases "nres_grant r"; cases "ng_execution (nres_grant r)"; cases "ng_extent (nres_grant r)")
        (auto simp: nresponse_tokens_def Let_def has_body_def valid_nresponse_def carried_nresponse_def default_nresponse_def
          parse_epoch_grant_def parse_extent_def extent_tokens_def)
  next
    case NKind_kGranted
    then show ?thesis
      using assms unfolding parse_native_epoch_response_def tk
      by (cases "nres_grant r"; cases "ng_execution (nres_grant r)"; cases "ng_extent (nres_grant r)")
        (auto simp: nresponse_tokens_def Let_def has_body_def valid_nresponse_def carried_nresponse_def default_nresponse_def
          parse_epoch_grant_def parse_extent_def extent_tokens_def)
  qed (use False in simp)
qed

lemma parsed_line_length:
  "parse_native_epoch_request af line = Some q \<Longrightarrow> length line \<le> kTaskProtocolMaxLineBytes"
  "parse_native_epoch_response af line = Some p \<Longrightarrow> length line \<le> kTaskProtocolMaxLineBytes"
  by (simp_all add: parse_native_epoch_request_def parse_native_epoch_response_def tokenize_def split: if_splits)

section \<open>Round trips\<close>

text \<open>
  C38. Exactly the valid native epoch requests have a line, provided the tenant has no blank in it: a
  listed operation, a nonzero request sequence, for ACQUIRE a valid admission whose work units are the
  calls of a valid extent, and otherwise a task, a generation exactly when the operation is not on a
  pending epoch, and issued calls within the limit only for a terminal report. The line keeps to 256
  bytes and is read back as that request, and whatever bytes arrive, a request the parser accepts is
  a valid one.
\<close>

theorem native_request_round_trip:
  assumes "no_blanks (req_tenant_id (nreq_admission r))"
  shows "(case format_native_epoch_request r of
      None \<Rightarrow> \<not> valid_nrequest r
    | Some line \<Rightarrow> valid_nrequest r \<and> length line \<le> kTaskProtocolMaxLineBytes \<and>
        parse_native_epoch_request False line = Some (carried_nrequest r)) \<and>
    (\<forall>alloc_fails line q. parse_native_epoch_request alloc_fails line = Some q \<longrightarrow> valid_nrequest q \<and> carried_nrequest q = q)"
  using format_nrequest_eq [OF assms] parse_nrequest_valid [of r] parsed_line_length(1) parsed_nrequest_valid by auto

definition example_nrequest :: NativeEpochRequest where
  "example_nrequest = default_nrequest\<lparr>nreq_admission := default_admission\<lparr>req_tenant_id := ''a'', req_memory_bytes := 4096,
     req_weight := 1, req_work_units := 8\<rparr>,
     nreq_extent := \<lparr>max_calls = 8, calls_per_prefix = 4, max_pending_prefixes = 1, acceptance_microseconds = 1000\<rparr>,
     nreq_request_sequence := 7\<rparr>"

theorem native_request_round_trip_witness:
  "no_blanks (req_tenant_id (nreq_admission example_nrequest)) \<and> valid_nrequest example_nrequest \<and>
   (\<exists>line. format_native_epoch_request example_nrequest = Some line \<and>
      parse_native_epoch_request False line = Some (carried_nrequest example_nrequest))"
proof -
  have n: "no_blanks (req_tenant_id (nreq_admission example_nrequest))" and v: "valid_nrequest example_nrequest"
    by code_simp+
  show ?thesis using native_request_round_trip [OF n] n v by (auto split: option.splits)
qed

text \<open>
  Exactly the valid native epoch responses have a line, whatever their fields hold: a pending epoch
  without and a granted one with generation and deadline, a retreat answer, an acknowledgement of an
  operation that is acknowledged, or a listed error, the last one also without a request sequence. The
  line keeps to 256 bytes and is read back as the response with the fields of its kind.
\<close>

theorem native_response_round_trip:
  "case format_native_epoch_response r of
     None \<Rightarrow> \<not> valid_nresponse r
   | Some line \<Rightarrow> valid_nresponse r \<and> length line \<le> kTaskProtocolMaxLineBytes \<and>
       parse_native_epoch_response False line = Some (carried_nresponse r)"
proof -
  have "valid_nresponse r \<Longrightarrow> has_body r"
    by (cases "nres_kind r") (auto simp: valid_nresponse_def has_body_def Let_def)
  then show ?thesis
    using parse_nresponse_line [of r] parsed_line_length(2) by (auto simp: format_nresponse_line split: if_splits)
qed

text \<open>A tenant with a blank around it has a line as well, which names the tenant without the blank.\<close>

lemma padded_tenant_renamed:
  "let r = example_nrequest\<lparr>nreq_admission := (nreq_admission example_nrequest)\<lparr>req_tenant_id := '' a''\<rparr>\<rparr>
   in case format_native_epoch_request r of
     None \<Rightarrow> False
   | Some line \<Rightarrow> \<not> valid_nrequest r \<and> parse_native_epoch_request False line = Some example_nrequest"
  by code_simp

end
