(* ===== verification/ExecutionEndpoint.thy ===== *)
theory ExecutionEndpoint
  imports TaskEndpoint NativeEpochProtocol
begin

text \<open>
  The endpoint of the execution admission, \<^verbatim>\<open>src/src/control/task_execution_endpoint.cc\<close>: a line is routed by its
  first token to the task protocol, the execution protocol or the native epoch protocol, carried out
  on the admission service and answered by one line of the same protocol. A handler makes several
  calls of the service, which locks itself for each of them, so that calls of other threads come in
  between; and what it has admitted or dispatched it takes back when there is no line to tell the
  client about it. Mapping of states, statuses and parse errors to the protocol is the same as in the
  endpoint of the task service.
\<close>

section \<open>Responses\<close>

datatype ShutdownPhase = Shutdown_kAccepting | Shutdown_kPending | Shutdown_kDraining | Shutdown_kFailed

fun creates_or_dispatches :: "TaskExecutionProtocolOperation \<Rightarrow> bool" where
  "creates_or_dispatches XOp_kSubmit = True"
| "creates_or_dispatches XOp_kAcquire = True"
| "creates_or_dispatches XOp_kClaim = True"
| "creates_or_dispatches XOp_kWait = True"
| "creates_or_dispatches XOp_kExecutionClaim = True"
| "creates_or_dispatches XOp_kExecutionAcquire = True"
| "creates_or_dispatches XOp_kExecutionCompleteAcquire = True"
| "creates_or_dispatches _ = False"

definition x_error_response :: "TaskProtocolErrorCode \<Rightarrow> TaskExecutionProtocolResponse" where
  "x_error_response e = default_xresponse\<lparr>xres_kind := XKind_kError, xres_error := e\<rparr>"

definition x_state_response :: "TaskId \<Rightarrow> TaskState \<Rightarrow> TaskExecutionProtocolResponse" where
  "x_state_response i st =
     default_xresponse\<lparr>xres_kind := XKind_kState, xres_task_id := i, xres_state := protocol_state st\<rparr>"

definition x_lease_response :: "TaskSnapshot \<Rightarrow> TaskExecutionProtocolResponse" where
  "x_lease_response sn =
     default_xresponse\<lparr>xres_kind := XKind_kLease, xres_task_id := snap_task_id sn, xres_state := PState_kRunning,
       xres_tenant_id := snap_tenant_id sn, xres_memory_bytes := snap_memory_bytes sn, xres_weight := snap_weight sn,
       xres_work_units := snap_work_units sn\<rparr>"

definition x_accepted_response :: "TaskId \<Rightarrow> TaskExecutionProtocolResponse" where
  "x_accepted_response i = default_xresponse\<lparr>xres_kind := XKind_kAccepted, xres_task_id := i\<rparr>"

definition x_empty_response :: TaskExecutionProtocolResponse where
  "x_empty_response = default_xresponse\<lparr>xres_kind := XKind_kEmpty\<rparr>"

definition x_stats_response :: "SchedulerStats \<Rightarrow> bool \<Rightarrow> TaskExecutionProtocolResponse" where
  "x_stats_response st include_metrics =
     default_xresponse\<lparr>xres_kind := (if include_metrics then XKind_kMetrics else XKind_kStats),
       xres_stats :=
        \<lparr>ps_total_task_count = of_nat (stats_total_task_count st),
         ps_queued_task_count = stats_queued_task_count st,
         ps_running_task_count = of_nat (stats_running_task_count st),
         ps_completed_task_count = of_nat (stats_completed_task_count st),
         ps_cancelled_task_count = of_nat (stats_cancelled_task_count st),
         ps_failed_task_count = of_nat (stats_failed_task_count st),
         ps_quota_limit_bytes = limit_bytes (stats_quota st),
         ps_quota_reserved_bytes = reserved_bytes (stats_quota st),
         ps_quota_allocated_bytes = allocated_bytes (stats_quota st),
         ps_max_running_tasks = stats_max_running_tasks st,
         ps_max_queued_tasks = stats_max_queued_tasks st,
         ps_total_queue_wait_microseconds = stats_total_queue_wait_microseconds st,
         ps_max_queue_wait_microseconds = stats_max_queue_wait_microseconds st,
         ps_total_service_time_microseconds = stats_total_service_time_microseconds st,
         ps_max_service_time_microseconds = stats_max_service_time_microseconds st\<rparr>\<rparr>"

text \<open>The operation of the execution protocol that an operation of the task protocol stands for.\<close>

fun legacy_operation :: "TaskProtocolOperation \<Rightarrow> TaskExecutionProtocolOperation option" where
  "legacy_operation POp_kSubmit = Some XOp_kSubmit"
| "legacy_operation POp_kAcquire = Some XOp_kAcquire"
| "legacy_operation POp_kCancel = Some XOp_kCancel"
| "legacy_operation POp_kQuery = Some XOp_kQuery"
| "legacy_operation POp_kClaim = Some XOp_kClaim"
| "legacy_operation POp_kWait = Some XOp_kWait"
| "legacy_operation POp_kHeartbeat = Some XOp_kHeartbeat"
| "legacy_operation POp_kComplete = Some XOp_kComplete"
| "legacy_operation POp_kFail = Some XOp_kFail"
| "legacy_operation POp_kStats = Some XOp_kStats"
| "legacy_operation POp_kMetrics = Some XOp_kMetrics"
| "legacy_operation POp_unlisted = None"

fun legacy_kind :: "TaskExecutionProtocolResponseKind \<Rightarrow> TaskProtocolResponseKind option" where
  "legacy_kind XKind_kAccepted = Some PKind_kAccepted"
| "legacy_kind XKind_kState = Some PKind_kState"
| "legacy_kind XKind_kError = Some PKind_kError"
| "legacy_kind XKind_kLease = Some PKind_kLease"
| "legacy_kind XKind_kEmpty = Some PKind_kEmpty"
| "legacy_kind XKind_kStats = Some PKind_kStats"
| "legacy_kind XKind_kMetrics = Some PKind_kMetrics"
| "legacy_kind _ = None"

section \<open>One call of the endpoint\<close>

text \<open>
  What one call meets: whether parsing, copying the request, copying the tenant into a lease response,
  or building the response line fails to allocate; for the service calls it makes, by their number,
  their clock readings, whether they throw, and what other threads did to the service before them; and
  the same for the call that takes back an unpublished task.
\<close>

record exec_call =
  xc_parse_fails :: bool
  xc_copy_fails :: bool
  xc_lease_copy_fails :: bool
  xc_format_fails :: bool
  xc_env :: "nat \<Rightarrow> exec_env"
  xc_throws :: "nat \<Rightarrow> bool"
  xc_other :: "nat \<Rightarrow> ExecutionAdmissionState \<Rightarrow> ExecutionAdmissionState"
  xc_retire_env :: exec_env
  xc_retire_throws :: bool
  xc_retire_other :: "ExecutionAdmissionState \<Rightarrow> ExecutionAdmissionState"
  xc_now :: time_ns
  xc_rounds :: "exec_wait_round list"

text \<open>
  The endpoint; the calls of the rollback callback it made are recorded in order. The phase of the
  shutdown and its gate are treated below.
\<close>

record TaskExecutionEndpoint =
  xe_service :: ExecutionAdmissionState
  xe_registrar :: "TaskId \<Rightarrow> bool"
  xe_rollbacks :: "TaskId list"

text \<open>The constructor throws without a service, a registrar or a rollback.\<close>

definition TaskExecutionEndpoint_new ::
  "ExecutionAdmissionState option \<Rightarrow> (TaskId \<Rightarrow> bool) option \<Rightarrow> bool \<Rightarrow> TaskExecutionEndpoint option" where
  "TaskExecutionEndpoint_new svc registrar has_rollback =
     (case (svc, registrar) of
        (Some x, Some reg) \<Rightarrow> if has_rollback then Some \<lparr>xe_service = x, xe_registrar = reg, xe_rollbacks = []\<rparr> else None
      | _ \<Rightarrow> None)"

definition encode_response :: "exec_call \<Rightarrow> bool \<Rightarrow> TaskExecutionProtocolResponse \<Rightarrow> string option" where
  "encode_response c legacy r =
     (if xc_format_fails c then None
      else if \<not> legacy then format_task_execution_protocol_response r
      else (case legacy_kind (xres_kind r) of
        None \<Rightarrow> None
      | Some kind \<Rightarrow>
          if xres_generation r \<noteq> 0 \<or> xi_task_id (xres_completed_execution r) \<noteq> 0 \<or>
            xi_generation (xres_completed_execution r) \<noteq> 0
          then None
          else format_task_protocol_response
            \<lparr>pres_kind = kind, pres_task_id = xres_task_id r, pres_state = xres_state r, pres_error = xres_error r,
             pres_tenant_id = xres_tenant_id r, pres_memory_bytes = xres_memory_bytes r, pres_weight = xres_weight r,
             pres_work_units = xres_work_units r, pres_stats = xres_stats r\<rparr>))"

definition encode_epoch_response :: "exec_call \<Rightarrow> NativeEpochResponse \<Rightarrow> string option" where
  "encode_epoch_response c r = (if xc_format_fails c then None else format_native_epoch_response r)"

definition envelope :: "string \<Rightarrow> string" where
  "envelope line =
     takeWhile (\<lambda>c. c \<notin> {CHR '' '', CHR 0x09, CHR 0x0D, newline}) (dropWhile (\<lambda>c. c \<in> {CHR '' '', CHR 0x09}) line)"

section \<open>Tasks not yet published\<close>

datatype UnpublishedKind =
    UP_kNone
  | UP_kLegacyPending
  | UP_kCooperativePending
  | UP_kCooperativeActive
  | UP_kNativePending
  | UP_kNativeActive

record UnpublishedTask =
  up_kind :: UnpublishedKind
  up_execution :: TaskExecutionIdentity

definition unpublished_new :: UnpublishedTask where
  "unpublished_new = \<lparr>up_kind = UP_kNone, up_execution = no_execution\<rparr>"

definition arm :: "UnpublishedKind \<Rightarrow> TaskId \<Rightarrow> u64 \<Rightarrow> UnpublishedTask \<Rightarrow> UnpublishedTask" where
  "arm kind i g u = u\<lparr>up_kind := kind, up_execution := \<lparr>xi_task_id = i, xi_generation = g\<rparr>\<rparr>"

definition publish :: "UnpublishedTask \<Rightarrow> UnpublishedTask" where
  "publish u = u\<lparr>up_kind := UP_kNone\<rparr>"

definition retire ::
  "exec_env \<Rightarrow> TaskPeerIdentity option \<Rightarrow> UnpublishedTask \<Rightarrow> ExecutionAdmissionState \<Rightarrow> bool \<times> ExecutionAdmissionState" where
  "retire env peer u x =
     (let e = up_execution u; i = xi_task_id e in
      case up_kind u of
        UP_kNone \<Rightarrow> (False, x)
      | UP_kLegacyPending \<Rightarrow> x_cancel_queued i peer x
      | UP_kCooperativePending \<Rightarrow> cancel_pending_cooperative env i peer x
      | UP_kCooperativeActive \<Rightarrow> fail_execution env e peer x
      | UP_kNativePending \<Rightarrow> cancel_pending_native_epoch env i peer x
      | UP_kNativeActive \<Rightarrow> finish_native_epoch env e 0 True peer x)"

text \<open>The destructor: a task that could not be retired keeps its resource.\<close>

definition unpublished_destroy ::
  "exec_call \<Rightarrow> TaskPeerIdentity option \<Rightarrow> UnpublishedTask \<Rightarrow> TaskExecutionEndpoint \<Rightarrow> TaskExecutionEndpoint" where
  "unpublished_destroy c peer u ep =
     (if up_kind u = UP_kNone then ep
      else
        let x = xc_retire_other c (xe_service ep) in
        if xc_retire_throws c then ep\<lparr>xe_service := x\<rparr>
        else (case retire (xc_retire_env c) peer u x of
          (retired, x1) \<Rightarrow>
            ep\<lparr>xe_service := x1,
               xe_rollbacks := (if retired then xe_rollbacks ep @ [xi_task_id (up_execution u)] else xe_rollbacks ep)\<rparr>))"

section \<open>Handlers\<close>

text \<open>A service call, and what follows it; \<open>caught\<close> runs when it throws.\<close>

definition serve ::
  "exec_call \<Rightarrow> nat \<Rightarrow> (exec_env \<Rightarrow> ExecutionAdmissionState \<Rightarrow> 'a \<times> ExecutionAdmissionState) \<Rightarrow>
   (TaskExecutionEndpoint \<Rightarrow> 'r \<times> TaskExecutionEndpoint) \<Rightarrow> ('a \<Rightarrow> TaskExecutionEndpoint \<Rightarrow> 'r \<times> TaskExecutionEndpoint) \<Rightarrow>
   TaskExecutionEndpoint \<Rightarrow> 'r \<times> TaskExecutionEndpoint" where
  "serve c n f caught next ep =
     (let x = xc_other c n (xe_service ep) in
      if xc_throws c n then caught (ep\<lparr>xe_service := x\<rparr>)
      else (case f (xc_env c n) x of (r, x1) \<Rightarrow> next r (ep\<lparr>xe_service := x1\<rparr>)))"

definition x_look :: "TaskId \<Rightarrow> exec_env \<Rightarrow> ExecutionAdmissionState \<Rightarrow> TaskSnapshot option \<times> ExecutionAdmissionState" where
  "x_look i env x = (x_find i x, x)"

text \<open>
  A reply is \<open>None\<close> while a wait has not returned, and \<open>Some None\<close> when there is no line. The task
  that the handler has not published yet goes out of scope as the handler returns.
\<close>

type_synonym exec_reply = "string option option"

definition x_answer ::
  "exec_call \<Rightarrow> bool \<Rightarrow> TaskPeerIdentity option \<Rightarrow> UnpublishedTask \<Rightarrow> TaskExecutionProtocolResponse \<Rightarrow>
   TaskExecutionEndpoint \<Rightarrow> exec_reply \<times> TaskExecutionEndpoint" where
  "x_answer c legacy peer u r ep =
     (let encoded = encode_response c legacy r
      in (Some encoded, unpublished_destroy c peer (if encoded \<noteq> None then publish u else u) ep))"

definition x_refuse ::
  "exec_call \<Rightarrow> bool \<Rightarrow> TaskPeerIdentity option \<Rightarrow> TaskProtocolErrorCode \<Rightarrow>
   TaskExecutionEndpoint \<Rightarrow> exec_reply \<times> TaskExecutionEndpoint" where
  "x_refuse c legacy peer e ep = x_answer c legacy peer unpublished_new (x_error_response e) ep"

text \<open>An exception: the unpublished task is taken back, and the answer is an internal error.\<close>

definition x_throw ::
  "exec_call \<Rightarrow> bool \<Rightarrow> TaskPeerIdentity option \<Rightarrow> UnpublishedTask \<Rightarrow>
   TaskExecutionEndpoint \<Rightarrow> exec_reply \<times> TaskExecutionEndpoint" where
  "x_throw c legacy peer u ep = x_refuse c legacy peer PError_kInternalError (unpublished_destroy c peer u ep)"

definition x_unknown_or_invalid ::
  "exec_call \<Rightarrow> nat \<Rightarrow> bool \<Rightarrow> TaskPeerIdentity option \<Rightarrow> TaskId \<Rightarrow>
   TaskExecutionEndpoint \<Rightarrow> exec_reply \<times> TaskExecutionEndpoint" where
  "x_unknown_or_invalid c n legacy peer i ep =
     serve c n (x_look i) (x_throw c legacy peer unpublished_new)
       (\<lambda>found. x_refuse c legacy peer (if found = None then PError_kUnknownTask else PError_kInvalidRequest)) ep"

definition handle_xsubmit ::
  "exec_call \<Rightarrow> bool \<Rightarrow> TaskPeerIdentity option \<Rightarrow> TaskAdmissionRequest \<Rightarrow>
   TaskExecutionEndpoint \<Rightarrow> exec_reply \<times> TaskExecutionEndpoint" where
  "handle_xsubmit c legacy peer a ep =
     serve c 0 (\<lambda>env. (if legacy then x_submit else submit_cooperative) env (Some (xe_registrar ep)) a peer)
       (x_throw c legacy peer unpublished_new)
       (\<lambda>res.
          if \<not> accepted res then x_refuse c legacy peer (admission_error (sr_status res))
          else x_answer c legacy peer
            (arm (if legacy then UP_kLegacyPending else UP_kCooperativePending) (sr_task_id res) 0 unpublished_new)
            (x_accepted_response (sr_task_id res))) ep"

definition answer_execution ::
  "exec_call \<Rightarrow> bool \<Rightarrow> TaskPeerIdentity option \<Rightarrow> UnpublishedTask \<Rightarrow> TaskSnapshot \<Rightarrow>
   TaskExecutionEndpoint \<Rightarrow> exec_reply \<times> TaskExecutionEndpoint" where
  "answer_execution c legacy peer u sn ep =
     (if xc_lease_copy_fails c then x_throw c legacy peer u ep
      else x_answer c legacy peer u
        ((x_lease_response sn)\<lparr>xres_kind := XKind_kExecutionLease, xres_generation := snap_dispatch_sequence sn\<rparr>) ep)"

definition handle_execution_acquire ::
  "exec_call \<Rightarrow> bool \<Rightarrow> TaskPeerIdentity option \<Rightarrow> TaskAdmissionRequest \<Rightarrow>
   TaskExecutionEndpoint \<Rightarrow> exec_reply \<times> TaskExecutionEndpoint" where
  "handle_execution_acquire c legacy peer a ep =
     (if \<not> supports_cooperative_execution (xe_service ep) then x_refuse c legacy peer PError_kInvalidRequest ep
      else serve c 0 (\<lambda>env. submit_cooperative env (Some (xe_registrar ep)) a peer) (x_throw c legacy peer unpublished_new)
        (\<lambda>res.
           if \<not> accepted res then x_refuse c legacy peer (admission_error (sr_status res))
           else
             let i = sr_task_id res; u = arm UP_kCooperativePending i 0 unpublished_new
             in serve c 1 (\<lambda>env. claim_execution env i peer) (x_throw c legacy peer u)
               (\<lambda>snapshot. case snapshot of
                  None \<Rightarrow> x_answer c legacy peer u (x_accepted_response i)
                | Some sn \<Rightarrow>
                    answer_execution c legacy peer (arm UP_kCooperativeActive i (snap_dispatch_sequence sn) u) sn)) ep)"

definition handle_complete_acquire ::
  "exec_call \<Rightarrow> bool \<Rightarrow> TaskPeerIdentity option \<Rightarrow> TaskExecutionIdentity \<Rightarrow> TaskAdmissionRequest \<Rightarrow>
   TaskExecutionEndpoint \<Rightarrow> exec_reply \<times> TaskExecutionEndpoint" where
  "handle_complete_acquire c legacy peer execution a ep =
     (if \<not> supports_cooperative_execution (xe_service ep) then x_refuse c legacy peer PError_kInvalidRequest ep
      else serve c 0 (\<lambda>env. complete_execution env execution peer) (x_throw c legacy peer unpublished_new)
        (\<lambda>completed.
           if \<not> completed then x_refuse c legacy peer PError_kInvalidRequest
           else
             let response = default_xresponse\<lparr>xres_kind := XKind_kExecutionHandoff, xres_completed_execution := execution\<rparr>
             in serve c 1 (\<lambda>env. submit_cooperative env (Some (xe_registrar ep)) a peer) (x_throw c legacy peer unpublished_new)
               (\<lambda>res.
                  if \<not> accepted res then x_answer c legacy peer unpublished_new response
                  else
                    let i = sr_task_id res; u = arm UP_kCooperativePending i 0 unpublished_new
                    in serve c 2 (\<lambda>env. claim_execution env i peer) (x_throw c legacy peer u)
                      (\<lambda>snapshot. case snapshot of
                         None \<Rightarrow> x_answer c legacy peer u (response\<lparr>xres_task_id := i\<rparr>)
                       | Some sn \<Rightarrow>
                           x_answer c legacy peer (arm UP_kCooperativeActive i (snap_dispatch_sequence sn) u)
                             (response\<lparr>xres_task_id := i, xres_generation := snap_dispatch_sequence sn\<rparr>)))) ep)"

text \<open>A lease of the task protocol may have been seen by another caller already and is not taken back.\<close>

definition answer_lease ::
  "exec_call \<Rightarrow> bool \<Rightarrow> TaskPeerIdentity option \<Rightarrow> TaskSnapshot \<Rightarrow>
   TaskExecutionEndpoint \<Rightarrow> exec_reply \<times> TaskExecutionEndpoint" where
  "answer_lease c legacy peer sn ep =
     (if xc_lease_copy_fails c then x_throw c legacy peer unpublished_new ep
      else x_answer c legacy peer unpublished_new (x_lease_response sn) ep)"

definition handle_xacquire ::
  "exec_call \<Rightarrow> bool \<Rightarrow> TaskPeerIdentity option \<Rightarrow> TaskAdmissionRequest \<Rightarrow>
   TaskExecutionEndpoint \<Rightarrow> exec_reply \<times> TaskExecutionEndpoint" where
  "handle_xacquire c legacy peer a ep =
     serve c 0 (\<lambda>env. x_submit env (Some (xe_registrar ep)) a peer) (x_throw c legacy peer unpublished_new)
       (\<lambda>res.
          if \<not> accepted res then x_refuse c legacy peer (admission_error (sr_status res))
          else
            let i = sr_task_id res; u = arm UP_kLegacyPending i 0 unpublished_new
            in serve c 1 (\<lambda>env. x_claim env i peer) (x_throw c legacy peer u)
              (\<lambda>snapshot. case snapshot of
                 Some sn \<Rightarrow> answer_lease c legacy peer sn
               | None \<Rightarrow>
                   serve c 2 (x_look i) (x_throw c legacy peer u)
                     (\<lambda>current.
                        if map_option snap_state current = Some TaskState_kQueued
                        then x_answer c legacy peer u (x_accepted_response i)
                        else (\<lambda>ep. x_refuse c legacy peer PError_kInternalError (unpublished_destroy c peer u ep))))) ep"

definition handle_xcancel ::
  "exec_call \<Rightarrow> bool \<Rightarrow> TaskPeerIdentity option \<Rightarrow> TaskId \<Rightarrow>
   TaskExecutionEndpoint \<Rightarrow> exec_reply \<times> TaskExecutionEndpoint" where
  "handle_xcancel c legacy peer i ep =
     (let caught = x_throw c legacy peer unpublished_new;
          cancelled = x_answer c legacy peer unpublished_new (x_state_response i TaskState_kCancelled);
          queued = serve c 2 (\<lambda>env. x_cancel_queued i peer) caught
            (\<lambda>done. if done then cancelled else x_unknown_or_invalid c 3 legacy peer i)
      in serve c 0 (x_look i) caught
        (\<lambda>before.
           if before \<noteq> None \<and> snap_dispatch_sequence (the before) \<noteq> 0 then x_refuse c legacy peer PError_kInvalidRequest
           else if legacy then queued
           else serve c 1 (\<lambda>env. cancel_pending_cooperative env i peer) caught
             (\<lambda>done. if done then cancelled else queued)) ep)"

definition handle_xquery ::
  "exec_call \<Rightarrow> bool \<Rightarrow> TaskPeerIdentity option \<Rightarrow> TaskId \<Rightarrow>
   TaskExecutionEndpoint \<Rightarrow> exec_reply \<times> TaskExecutionEndpoint" where
  "handle_xquery c legacy peer i ep =
     serve c 0 (x_look i) (x_throw c legacy peer unpublished_new)
       (\<lambda>snapshot. case snapshot of
          None \<Rightarrow> x_refuse c legacy peer PError_kUnknownTask
        | Some sn \<Rightarrow> x_answer c legacy peer unpublished_new (x_state_response (snap_task_id sn) (snap_state sn))) ep"

definition handle_execution_claim ::
  "exec_call \<Rightarrow> bool \<Rightarrow> TaskPeerIdentity option \<Rightarrow> TaskId \<Rightarrow>
   TaskExecutionEndpoint \<Rightarrow> exec_reply \<times> TaskExecutionEndpoint" where
  "handle_execution_claim c legacy peer i ep =
     (if \<not> supports_cooperative_execution (xe_service ep) then x_refuse c legacy peer PError_kInvalidRequest ep
      else serve c 0 (x_look i) (x_throw c legacy peer unpublished_new)
        (\<lambda>found.
           if found = None then x_refuse c legacy peer PError_kUnknownTask
           else serve c 1 (\<lambda>env. claim_execution env i peer) (x_throw c legacy peer unpublished_new)
             (\<lambda>snapshot. case snapshot of
                None \<Rightarrow> x_answer c legacy peer unpublished_new x_empty_response
              | Some sn \<Rightarrow>
                  answer_execution c legacy peer
                    (arm UP_kCooperativeActive (snap_task_id sn) (snap_dispatch_sequence sn) unpublished_new) sn)) ep)"

definition handle_xretreat ::
  "exec_call \<Rightarrow> bool \<Rightarrow> TaskPeerIdentity option \<Rightarrow> TaskExecutionIdentity \<Rightarrow>
   TaskExecutionEndpoint \<Rightarrow> exec_reply \<times> TaskExecutionEndpoint" where
  "handle_xretreat c legacy peer execution ep =
     serve c 0 (\<lambda>env x. (x_retreat_requested execution peer x, x)) (x_throw c legacy peer unpublished_new)
       (\<lambda>retreat. case retreat of
          None \<Rightarrow> x_refuse c legacy peer PError_kInvalidRequest
        | Some yes \<Rightarrow>
            x_answer c legacy peer unpublished_new
              (default_xresponse\<lparr>xres_kind := XKind_kRetreat, xres_task_id := xi_task_id execution,
                 xres_generation := xi_generation execution, xres_should_retreat := yes\<rparr>)) ep"

definition execution_report ::
  "TaskExecutionProtocolOperation \<Rightarrow> TaskExecutionIdentity \<Rightarrow> TaskPeerIdentity option \<Rightarrow> exec_env \<Rightarrow>
   ExecutionAdmissionState \<Rightarrow> bool \<times> ExecutionAdmissionState" where
  "execution_report op execution peer env x =
     (if op = XOp_kSuspend then suspend_execution env execution peer x
      else if op = XOp_kExecutionHeartbeat then heartbeat_execution env execution peer x
      else if op = XOp_kExecutionComplete then complete_execution env execution peer x
      else if op = XOp_kExecutionFail then fail_execution env execution peer x
      else cancel_execution env execution peer x)"

definition handle_execution_report ::
  "exec_call \<Rightarrow> bool \<Rightarrow> TaskPeerIdentity option \<Rightarrow> TaskExecutionProtocolOperation \<Rightarrow> TaskExecutionIdentity \<Rightarrow>
   TaskExecutionEndpoint \<Rightarrow> exec_reply \<times> TaskExecutionEndpoint" where
  "handle_execution_report c legacy peer op execution ep =
     serve c 0 (execution_report op execution peer) (x_throw c legacy peer unpublished_new)
       (\<lambda>updated. serve c 1 (x_look (xi_task_id execution)) (x_throw c legacy peer unpublished_new)
          (\<lambda>current. case current of
             None \<Rightarrow> x_refuse c legacy peer PError_kInvalidRequest
           | Some sn \<Rightarrow>
               if \<not> updated then x_refuse c legacy peer PError_kInvalidRequest
               else x_answer c legacy peer unpublished_new (x_state_response (snap_task_id sn) (snap_state sn)))) ep"

definition handle_xheartbeat ::
  "exec_call \<Rightarrow> bool \<Rightarrow> TaskPeerIdentity option \<Rightarrow> TaskId \<Rightarrow>
   TaskExecutionEndpoint \<Rightarrow> exec_reply \<times> TaskExecutionEndpoint" where
  "handle_xheartbeat c legacy peer i ep =
     serve c 0 (\<lambda>env. x_heartbeat env i peer) (x_throw c legacy peer unpublished_new)
       (\<lambda>kept. if kept then x_answer c legacy peer unpublished_new (x_state_response i TaskState_kRunning)
               else x_unknown_or_invalid c 1 legacy peer i) ep"

definition handle_xclaim ::
  "exec_call \<Rightarrow> bool \<Rightarrow> TaskPeerIdentity option \<Rightarrow> TaskId \<Rightarrow>
   TaskExecutionEndpoint \<Rightarrow> exec_reply \<times> TaskExecutionEndpoint" where
  "handle_xclaim c legacy peer i ep =
     (let empty = x_answer c legacy peer unpublished_new x_empty_response
      in serve c 0 (\<lambda>env. if i = 0 then x_claim_next env peer else x_claim env i peer) (x_throw c legacy peer unpublished_new)
        (\<lambda>snapshot. case snapshot of
           Some sn \<Rightarrow> answer_lease c legacy peer sn
         | None \<Rightarrow>
             if i = 0 then empty
             else serve c 1 (x_look i) (x_throw c legacy peer unpublished_new)
               (\<lambda>found. if found = None then x_refuse c legacy peer PError_kUnknownTask else empty)) ep)"

definition handle_xwait ::
  "exec_call \<Rightarrow> bool \<Rightarrow> TaskPeerIdentity option \<Rightarrow> TaskId \<Rightarrow> u32 \<Rightarrow>
   TaskExecutionEndpoint \<Rightarrow> exec_reply \<times> TaskExecutionEndpoint" where
  "handle_xwait c legacy peer i timeout ep =
     serve c 0 (\<lambda>env. x_wait_claim (xc_rounds c) (xc_now c) i (int (unat timeout)) peer) (x_throw c legacy peer unpublished_new)
       (\<lambda>returned. case returned of
          None \<Rightarrow> Pair None
        | Some (Some sn) \<Rightarrow> answer_lease c legacy peer sn
        | Some None \<Rightarrow>
            serve c 1 (x_look i) (x_throw c legacy peer unpublished_new)
              (\<lambda>current. case current of
                 None \<Rightarrow> x_refuse c legacy peer PError_kUnknownTask
               | Some sn \<Rightarrow>
                   x_answer c legacy peer unpublished_new
                     (if snap_state sn \<noteq> TaskState_kQueued then x_state_response (snap_task_id sn) (snap_state sn)
                      else x_empty_response))) ep"

definition handle_xstats ::
  "exec_call \<Rightarrow> bool \<Rightarrow> TaskPeerIdentity option \<Rightarrow> bool \<Rightarrow>
   TaskExecutionEndpoint \<Rightarrow> exec_reply \<times> TaskExecutionEndpoint" where
  "handle_xstats c legacy peer include_metrics ep =
     serve c 0 (\<lambda>env x. (x_stats x, x)) (x_throw c legacy peer unpublished_new)
       (\<lambda>st. x_answer c legacy peer unpublished_new (x_stats_response st include_metrics)) ep"

definition handle_xreport ::
  "exec_call \<Rightarrow> bool \<Rightarrow> TaskPeerIdentity option \<Rightarrow> bool \<Rightarrow> TaskId \<Rightarrow>
   TaskExecutionEndpoint \<Rightarrow> exec_reply \<times> TaskExecutionEndpoint" where
  "handle_xreport c legacy peer completed i ep =
     serve c 0 (\<lambda>env. (if completed then x_complete else x_fail) env i peer) (x_throw c legacy peer unpublished_new)
       (\<lambda>updated.
          if updated
          then x_answer c legacy peer unpublished_new
            (x_state_response i (if completed then TaskState_kCompleted else TaskState_kFailed))
          else x_unknown_or_invalid c 1 legacy peer i) ep"

text \<open>The switch over the operation of a request.\<close>

definition handle_xrequest ::
  "exec_call \<Rightarrow> bool \<Rightarrow> TaskPeerIdentity option \<Rightarrow> TaskExecutionProtocolRequest \<Rightarrow>
   TaskExecutionEndpoint \<Rightarrow> exec_reply \<times> TaskExecutionEndpoint" where
  "handle_xrequest c legacy peer r ep =
     (let a = xreq_admission r; i = xreq_task_id r; execution = \<lparr>xi_task_id = i, xi_generation = xreq_generation r\<rparr>
      in case xreq_operation r of
        XOp_kSubmit \<Rightarrow> handle_xsubmit c legacy peer a ep
      | XOp_kExecutionAcquire \<Rightarrow> handle_execution_acquire c legacy peer a ep
      | XOp_kExecutionCompleteAcquire \<Rightarrow> handle_complete_acquire c legacy peer execution a ep
      | XOp_kAcquire \<Rightarrow> handle_xacquire c legacy peer a ep
      | XOp_kCancel \<Rightarrow> handle_xcancel c legacy peer i ep
      | XOp_kQuery \<Rightarrow> handle_xquery c legacy peer i ep
      | XOp_kExecutionClaim \<Rightarrow> handle_execution_claim c legacy peer i ep
      | XOp_kRetreat \<Rightarrow> handle_xretreat c legacy peer execution ep
      | XOp_kHeartbeat \<Rightarrow> handle_xheartbeat c legacy peer i ep
      | XOp_kClaim \<Rightarrow> handle_xclaim c legacy peer i ep
      | XOp_kWait \<Rightarrow> handle_xwait c legacy peer i (xreq_wait_timeout_ms r) ep
      | XOp_kStats \<Rightarrow> handle_xstats c legacy peer False ep
      | XOp_kMetrics \<Rightarrow> handle_xstats c legacy peer True ep
      | XOp_kComplete \<Rightarrow> handle_xreport c legacy peer True i ep
      | XOp_kFail \<Rightarrow> handle_xreport c legacy peer False i ep
      | XOp_unlisted \<Rightarrow> x_refuse c legacy peer PError_kInternalError ep
      | op \<Rightarrow> handle_execution_report c legacy peer op execution ep)"

section \<open>Native epochs\<close>

text \<open>An exception leaves a native request without a line.\<close>

definition epoch_throw ::
  "exec_call \<Rightarrow> TaskPeerIdentity option \<Rightarrow> UnpublishedTask \<Rightarrow> TaskExecutionEndpoint \<Rightarrow> exec_reply \<times> TaskExecutionEndpoint" where
  "epoch_throw c peer u ep = (Some None, unpublished_destroy c peer u ep)"

definition epoch_answer ::
  "exec_call \<Rightarrow> TaskPeerIdentity option \<Rightarrow> UnpublishedTask \<Rightarrow> NativeEpochResponse \<Rightarrow>
   TaskExecutionEndpoint \<Rightarrow> exec_reply \<times> TaskExecutionEndpoint" where
  "epoch_answer c peer u r ep =
     (let encoded = encode_epoch_response c r
      in (Some encoded, unpublished_destroy c peer (if encoded \<noteq> None then publish u else u) ep))"

definition claim_epoch ::
  "exec_call \<Rightarrow> TaskPeerIdentity option \<Rightarrow> UnpublishedTask \<Rightarrow> NativeEpochResponse \<Rightarrow> TaskId \<Rightarrow>
   TaskExecutionEndpoint \<Rightarrow> exec_reply \<times> TaskExecutionEndpoint" where
  "claim_epoch c peer u response i ep =
     serve c 1 (\<lambda>env. claim_native_epoch env i peer) (epoch_throw c peer u)
       (\<lambda>granted. case granted of
          Some grant \<Rightarrow>
            epoch_answer c peer
              (arm UP_kNativeActive (xi_task_id (ng_execution grant)) (xi_generation (ng_execution grant)) u)
              (response\<lparr>nres_kind := NKind_kGranted, nres_grant := grant\<rparr>)
        | None \<Rightarrow>
            serve c 2 (\<lambda>env x. (pending_native_epoch_extent i peer x, x)) (epoch_throw c peer u)
              (\<lambda>pending. case pending of
                 None \<Rightarrow> epoch_answer c peer u response
               | Some extent \<Rightarrow>
                   epoch_answer c peer u
                     (response\<lparr>nres_kind := NKind_kPending,
                        nres_grant := \<lparr>ng_execution = \<lparr>xi_task_id = i, xi_generation = 0\<rparr>, ng_extent = extent,
                                       ng_acceptance_deadline_nanoseconds = 0\<rparr>\<rparr>))) ep"

definition epoch_ack ::
  "exec_call \<Rightarrow> TaskPeerIdentity option \<Rightarrow> NativeEpochResponse \<Rightarrow> u32 \<Rightarrow> bool \<Rightarrow>
   TaskExecutionEndpoint \<Rightarrow> exec_reply \<times> TaskExecutionEndpoint" where
  "epoch_ack c peer response calls ok ep =
     epoch_answer c peer unpublished_new
       (if ok then response\<lparr>nres_kind := NKind_kAcknowledged, nres_issued_calls := calls\<rparr> else response) ep"

definition handle_epoch_request ::
  "exec_call \<Rightarrow> TaskPeerIdentity option \<Rightarrow> NativeEpochRequest \<Rightarrow> NativeEpochResponse \<Rightarrow>
   TaskExecutionEndpoint \<Rightarrow> exec_reply \<times> TaskExecutionEndpoint" where
  "handle_epoch_request c peer request response ep =
     (let execution = nreq_execution request; caught = epoch_throw c peer unpublished_new
      in case nreq_operation request of
        NOp_kAcquire \<Rightarrow>
          serve c 0 (\<lambda>env. submit_native_epoch env (Some (xe_registrar ep)) (nreq_admission request) (nreq_extent request) peer) caught
            (\<lambda>res.
               if \<not> accepted res
               then epoch_answer c peer unpublished_new (response\<lparr>nres_error := admission_error (sr_status res)\<rparr>)
               else claim_epoch c peer (arm UP_kNativePending (sr_task_id res) 0 unpublished_new) response (sr_task_id res)) ep
      | NOp_kClaim \<Rightarrow> claim_epoch c peer unpublished_new response (xi_task_id execution) ep
      | NOp_kRetreat \<Rightarrow>
          serve c 0 (\<lambda>env x. (native_epoch_retreat_requested env execution peer x, x)) caught
            (\<lambda>retreat. epoch_answer c peer unpublished_new
               (case retreat of
                  None \<Rightarrow> response
                | Some yes \<Rightarrow> response\<lparr>nres_kind := NKind_kRetreat, nres_should_retreat := yes\<rparr>)) ep
      | NOp_kHeartbeat \<Rightarrow>
          serve c 0 (\<lambda>env x. (heartbeat_native_epoch execution peer x, x)) caught (epoch_ack c peer response (nres_issued_calls response)) ep
      | NOp_kComplete \<Rightarrow>
          serve c 0 (\<lambda>env. finish_native_epoch env execution (nreq_issued_calls request) False peer) caught
            (epoch_ack c peer response (nreq_issued_calls request)) ep
      | NOp_kFail \<Rightarrow>
          serve c 0 (\<lambda>env. finish_native_epoch env execution (nreq_issued_calls request) True peer) caught
            (epoch_ack c peer response (nreq_issued_calls request)) ep
      | NOp_kCancelPending \<Rightarrow>
          serve c 0 (\<lambda>env. cancel_pending_native_epoch env (xi_task_id execution) peer) caught
            (epoch_ack c peer response (nres_issued_calls response)) ep
      | NOp_unlisted \<Rightarrow> epoch_answer c peer unpublished_new response ep)"

definition handle_native_epoch ::
  "exec_call \<Rightarrow> string \<Rightarrow> TaskPeerIdentity option \<Rightarrow> bool \<Rightarrow>
   TaskExecutionEndpoint \<Rightarrow> exec_reply \<times> TaskExecutionEndpoint" where
  "handle_native_epoch c line peer draining ep =
     (case parse_native_epoch_request (xc_parse_fails c) line of
        None \<Rightarrow> epoch_answer c peer unpublished_new default_nresponse ep
      | Some request \<Rightarrow>
          let response = default_nresponse\<lparr>nres_operation := nreq_operation request,
                nres_request_sequence := nreq_request_sequence request,
                nres_grant := no_grant\<lparr>ng_execution := nreq_execution request\<rparr>\<rparr>
          in if draining \<and> (nreq_operation request = NOp_kAcquire \<or> nreq_operation request = NOp_kClaim)
             then epoch_answer c peer unpublished_new response ep
             else handle_epoch_request c peer request response ep)"

section \<open>The endpoint\<close>

definition handle_ximpl ::
  "exec_call \<Rightarrow> string \<Rightarrow> TaskPeerIdentity option \<Rightarrow> bool \<Rightarrow>
   TaskExecutionEndpoint \<Rightarrow> exec_reply \<times> TaskExecutionEndpoint" where
  "handle_ximpl c line peer draining ep =
     (let version = envelope line; legacy = version \<noteq> kTaskExecutionProtocolVersion;
          serve_request = (\<lambda>request.
            if xc_copy_fails c then x_throw c legacy peer unpublished_new ep
            else if draining \<and> creates_or_dispatches (xreq_operation request)
            then x_refuse c legacy peer PError_kInvalidRequest ep
            else handle_xrequest c legacy peer request ep)
      in if version = kNativeEpochProtocolVersion then handle_native_epoch c line peer draining ep
         else if legacy
         then let parsed = parse_task_protocol_request (xc_parse_fails c) line
              in case (rp_error parsed, rp_request parsed) of
                (Parse_kNone, Some r) \<Rightarrow>
                  (case legacy_operation (preq_operation r) of
                     None \<Rightarrow> x_refuse c legacy peer PError_kInvalidRequest ep
                   | Some op \<Rightarrow>
                       serve_request (default_xrequest\<lparr>xreq_operation := op, xreq_admission := preq_admission r,
                         xreq_task_id := preq_task_id r, xreq_wait_timeout_ms := preq_wait_timeout_ms r\<rparr>))
              | (e, _) \<Rightarrow> x_refuse c legacy peer (parse_failure_code e) ep
         else let parsed = parse_task_execution_protocol_request (xc_parse_fails c) line
              in case (xrp_error parsed, xrp_request parsed) of
                (Parse_kNone, Some r) \<Rightarrow> serve_request r
              | (e, _) \<Rightarrow> x_refuse c legacy peer (parse_failure_code e) ep)"

text \<open>
  The gate of the shutdown. In each round of its loop a reader sees a settled phase, locks the gate, which
  may throw (\<open>None\<close>), and reads the phase again. The result is the phase it goes on with, or
  \<open>Some None\<close> when it gives up; \<open>None\<close> when the rounds run out before it came through.
\<close>

fun gate_loop :: "(ShutdownPhase \<times> ShutdownPhase option) list \<Rightarrow> ShutdownPhase option option" where
  "gate_loop [] = None"
| "gate_loop ((settled, locked) # rounds) =
     (if settled = Shutdown_kFailed then Some None
      else (case locked of
        None \<Rightarrow> Some None
      | Some phase \<Rightarrow>
          if phase = Shutdown_kPending then gate_loop rounds
          else if phase = Shutdown_kFailed then Some None
          else Some (Some phase)))"

definition handle_x ::
  "exec_call \<Rightarrow> (ShutdownPhase \<times> ShutdownPhase option) list \<Rightarrow> string \<Rightarrow> TaskPeerIdentity option \<Rightarrow>
   TaskExecutionEndpoint \<Rightarrow> exec_reply \<times> TaskExecutionEndpoint" where
  "handle_x c rounds line peer ep =
     (case gate_loop rounds of
        None \<Rightarrow> (None, ep)
      | Some None \<Rightarrow> (Some None, ep)
      | Some (Some phase) \<Rightarrow> handle_ximpl c line peer (phase = Shutdown_kDraining) ep)"

definition x_lease_status ::
  "(ShutdownPhase \<times> ShutdownPhase option) list \<Rightarrow> bool \<Rightarrow> TaskExecutionEndpoint \<Rightarrow> TaskExecutionLeaseStatus option option" where
  "x_lease_status rounds throws ep =
     (case gate_loop rounds of
        None \<Rightarrow> None
      | Some None \<Rightarrow> Some None
      | Some (Some phase) \<Rightarrow> Some (if throws then None else Some (lease_status (xe_service ep))))"

text \<open>
  \<open>begin_shutdown\<close>: the exchange that makes the caller the writer, what the writer stores once it has the
  gate or failed to get it, and the answer from the phase the caller sees settled.
\<close>

definition shutdown_exchange :: "ShutdownPhase \<Rightarrow> bool \<times> ShutdownPhase" where
  "shutdown_exchange phase =
     (if phase = Shutdown_kAccepting then (True, Shutdown_kPending) else (False, phase))"

definition shutdown_store :: "bool \<Rightarrow> ShutdownPhase" where
  "shutdown_store lock_fails = (if lock_fails then Shutdown_kFailed else Shutdown_kDraining)"

definition shutdown_answer :: "ShutdownPhase \<Rightarrow> bool" where
  "shutdown_answer settled \<longleftrightarrow> settled = Shutdown_kDraining"

end
