(* ===== verification/ExecutionEndpointProps.thy ===== *)
theory ExecutionEndpointProps
  imports ExecutionEndpoint ExecutionAdmissionContract
begin

text \<open>
  What the execution endpoint guarantees: whatever bytes arrive, a handler carries out operations of the
  service under the identity of its caller, so that everything proved of histories of the service
  holds behind the endpoint; a drained endpoint admits and dispatches nothing; and a task or grant
  that the client could not be told about is taken back.
\<close>

section \<open>Handlers run operations of the service\<close>

text \<open>Operations under the identity of a caller, and operations that admit or dispatch a task.\<close>

fun op_by :: "TaskPeerIdentity option \<Rightarrow> exec_op \<Rightarrow> bool" where
  "op_by p (X_submit env reg req peer) = (peer = p)"
| "op_by p (X_submit_cooperative env reg req peer) = (peer = p)"
| "op_by p (X_submit_native env reg req extent peer) = (peer = p)"
| "op_by p (X_cancel_queued i peer) = (peer = p)"
| "op_by p (X_claim_next env peer) = (peer = p)"
| "op_by p (X_claim env i peer) = (peer = p)"
| "op_by p (X_wait_attempt env i peer) = (peer = p)"
| "op_by p (X_heartbeat env i peer) = (peer = p)"
| "op_by p (X_complete env i peer) = (peer = p)"
| "op_by p (X_fail env i peer) = (peer = p)"
| "op_by p (X_claim_execution env i peer) = (peer = p)"
| "op_by p (X_cancel_pending env i peer) = (peer = p)"
| "op_by p (X_suspend env e peer) = (peer = p)"
| "op_by p (X_heartbeat_execution env e peer) = (peer = p)"
| "op_by p (X_complete_execution env e peer) = (peer = p)"
| "op_by p (X_fail_execution env e peer) = (peer = p)"
| "op_by p (X_cancel_execution env e peer) = (peer = p)"
| "op_by p (X_claim_native env i peer) = (peer = p)"
| "op_by p (X_finish_native env e n failed peer) = (peer = p)"
| "op_by p (X_cancel_native env i peer) = (peer = p)"
| "op_by p _ = False"

fun admits :: "exec_op \<Rightarrow> bool" where
  "admits (X_submit env reg req peer) = True"
| "admits (X_submit_cooperative env reg req peer) = True"
| "admits (X_submit_native env reg req extent peer) = True"
| "admits (X_claim_next env peer) = True"
| "admits (X_claim env i peer) = True"
| "admits (X_wait_attempt env i peer) = True"
| "admits (X_claim_execution env i peer) = True"
| "admits (X_claim_native env i peer) = True"
| "admits _ = False"

definition runs :: "(exec_op \<Rightarrow> bool) \<Rightarrow> ExecutionAdmissionState \<Rightarrow> ExecutionAdmissionState \<Rightarrow> bool" where
  "runs P x x' \<longleftrightarrow> (\<exists>ops. list_all P ops \<and> x' = fold run_exec ops x)"

lemma runs_refl [simp]: "runs P x x"
  unfolding runs_def by (rule exI [of _ "[]"]) simp

lemma runs_op: "P op \<Longrightarrow> runs P x (run_exec op x)"
  unfolding runs_def by (rule exI [of _ "[op]"]) simp

lemma runs_trans: "runs P x y \<Longrightarrow> runs P y z \<Longrightarrow> runs P x z"
  unfolding runs_def by (metis fold_append comp_apply list_all_append)

lemma runs_mono: "runs P x y \<Longrightarrow> (\<And>op. P op \<Longrightarrow> Q op) \<Longrightarrow> runs Q x y"
  unfolding runs_def by (auto simp: list_all_iff)

lemma runs_inv: "runs P x x' \<Longrightarrow> exec_inv x \<Longrightarrow> exec_inv x'"
  unfolding runs_def by (auto intro: history_exec_inv)

text \<open>What other threads do in between are operations too.\<close>

definition others_run :: "(exec_op \<Rightarrow> bool) \<Rightarrow> exec_call \<Rightarrow> bool" where
  "others_run Q c \<longleftrightarrow>
     (\<forall>n x. runs Q x (xc_other c n x)) \<and> (\<forall>x. runs Q x (xc_retire_other c x)) \<and>
     (\<forall>r \<in> set (xc_rounds c). \<forall>x. runs Q x (xw_before r x) \<and> runs Q x (xw_while_waiting r x))"

text \<open>The operations that can make up a call: those of the caller, and those of other threads.\<close>

definition call_ops :: "(exec_op \<Rightarrow> bool) \<Rightarrow> TaskPeerIdentity option \<Rightarrow> bool \<Rightarrow> exec_op \<Rightarrow> bool" where
  "call_ops Q peer draining op \<longleftrightarrow> Q op \<or> op_by peer op \<and> (draining \<longrightarrow> \<not> admits op)"

abbreviation served :: "(exec_op \<Rightarrow> bool) \<Rightarrow> TaskExecutionEndpoint \<Rightarrow> 'r \<times> TaskExecutionEndpoint \<Rightarrow> bool" where
  "served P ep res \<equiv> runs P (xe_service ep) (xe_service (snd res))"

lemma others_runD:
  assumes "others_run Q c"
  shows "runs (call_ops Q peer d) x (xc_other c n x)" "runs (call_ops Q peer d) x (xc_retire_other c x)"
    "r \<in> set (xc_rounds c) \<Longrightarrow> runs (call_ops Q peer d) x (xw_before r x) \<and> runs (call_ops Q peer d) x (xw_while_waiting r x)"
  using assms runs_mono [of Q x _ "call_ops Q peer d"] by (auto simp: others_run_def call_ops_def)

lemma own_op: "op_by peer op \<Longrightarrow> d \<longrightarrow> \<not> admits op \<Longrightarrow> runs (call_ops Q peer d) x (run_exec op x)"
  by (rule runs_op) (simp add: call_ops_def)

lemma retire_runs: "runs (call_ops Q peer d) x (snd (retire env peer u x))"
  using own_op [of peer "X_cancel_queued (xi_task_id (up_execution u)) peer" d Q x]
    own_op [of peer "X_cancel_pending env (xi_task_id (up_execution u)) peer" d Q x]
    own_op [of peer "X_fail_execution env (up_execution u) peer" d Q x]
    own_op [of peer "X_cancel_native env (xi_task_id (up_execution u)) peer" d Q x]
    own_op [of peer "X_finish_native env (up_execution u) 0 True peer" d Q x]
  by (cases "up_kind u") (simp_all add: retire_def Let_def)

lemma destroy_runs:
  assumes "others_run Q c"
  shows "runs (call_ops Q peer d) (xe_service ep) (xe_service (unpublished_destroy c peer u ep))"
  using others_runD(2) [OF assms, of peer d "xe_service ep"]
    runs_trans [OF others_runD(2) [OF assms, of peer d "xe_service ep"] retire_runs [of Q peer d _ "xc_retire_env c" u]]
  by (auto simp: unpublished_destroy_def Let_def split: prod.split)

lemma answers_run:
  assumes "others_run Q c"
  shows "served (call_ops Q peer d) ep (x_answer c legacy peer u r ep)" "served (call_ops Q peer d) ep (x_refuse c legacy peer e ep)"
    "served (call_ops Q peer d) ep (x_throw c legacy peer u ep)" "served (call_ops Q peer d) ep (epoch_throw c peer u ep)"
    "served (call_ops Q peer d) ep (epoch_answer c peer u nr ep)" "served (call_ops Q peer d) ep (answer_lease c legacy peer sn ep)"
    "served (call_ops Q peer d) ep (answer_execution c legacy peer u sn ep)" "served (call_ops Q peer d) ep (epoch_ack c peer nr calls ok ep)"
proof -
  note D = destroy_runs [OF assms, of peer d]
  show a: "served (call_ops Q peer d) ep (x_answer c legacy peer u r ep)" for u r ep
    using D by (simp add: x_answer_def Let_def)
  show f: "served (call_ops Q peer d) ep (x_refuse c legacy peer e ep)" for e ep
    using a by (simp add: x_refuse_def)
  show t: "served (call_ops Q peer d) ep (x_throw c legacy peer u ep)" for u ep
    unfolding x_throw_def by (rule runs_trans [OF D f])
  show "served (call_ops Q peer d) ep (epoch_throw c peer u ep)" using D by (simp add: epoch_throw_def)
  show n: "served (call_ops Q peer d) ep (epoch_answer c peer u nr ep)" for u nr ep
    using D by (simp add: epoch_answer_def Let_def)
  show "served (call_ops Q peer d) ep (answer_lease c legacy peer sn ep)" using a t by (simp add: answer_lease_def)
  show "served (call_ops Q peer d) ep (answer_execution c legacy peer u sn ep)" using a t by (simp add: answer_execution_def)
  show "served (call_ops Q peer d) ep (epoch_ack c peer nr calls ok ep)" using n by (simp add: epoch_ack_def)
qed

lemma serve_runs:
  assumes "others_run Q c" and "\<And>x. runs (call_ops Q peer d) x (snd (f (xc_env c n) x))"
    and "\<And>ep. served (call_ops Q peer d) ep (caught ep)" and "\<And>r ep. served (call_ops Q peer d) ep (k r ep)"
  shows "served (call_ops Q peer d) ep (serve c n f caught k ep)"
proof (cases "xc_throws c n")
  case True
  with runs_trans [OF others_runD(1) [OF assms(1), of peer d "xe_service ep" n]]
    assms(3) [of "ep\<lparr>xe_service := xc_other c n (xe_service ep)\<rparr>"] show ?thesis by (simp add: serve_def Let_def)
next
  case False
  obtain r x1 where f: "f (xc_env c n) (xc_other c n (xe_service ep)) = (r, x1)" by fastforce
  have "runs (call_ops Q peer d) (xc_other c n (xe_service ep)) x1" using assms(2) [of "xc_other c n (xe_service ep)"] f by simp
  then have "runs (call_ops Q peer d) (xe_service ep) x1" by (rule runs_trans [OF others_runD(1) [OF assms(1)]])
  then show ?thesis
    using runs_trans [of _ "xe_service ep" x1] assms(4) [of "ep\<lparr>xe_service := x1\<rparr>" r] False f by (simp add: serve_def Let_def)
qed

lemma service_runs:
  "\<not> d \<Longrightarrow> runs (call_ops Q peer d) x (snd (x_submit env reg a peer x))"
  "\<not> d \<Longrightarrow> runs (call_ops Q peer d) x (snd (submit_cooperative env reg a peer x))"
  "\<not> d \<Longrightarrow> runs (call_ops Q peer d) x (snd (submit_native_epoch env reg a extent peer x))"
  "\<not> d \<Longrightarrow> runs (call_ops Q peer d) x (snd (x_claim_next env peer x))"
  "\<not> d \<Longrightarrow> runs (call_ops Q peer d) x (snd (x_claim env i peer x))"
  "\<not> d \<Longrightarrow> runs (call_ops Q peer d) x (snd (claim_execution env i peer x))"
  "\<not> d \<Longrightarrow> runs (call_ops Q peer d) x (snd (claim_native_epoch env i peer x))"
  "runs (call_ops Q peer d) x (snd (x_look i env x))"
  "runs (call_ops Q peer d) x (snd (x_cancel_queued i peer x))"
  "runs (call_ops Q peer d) x (snd (cancel_pending_cooperative env i peer x))"
  "runs (call_ops Q peer d) x (snd (execution_report op e peer env x))"
  "runs (call_ops Q peer d) x (snd (complete_execution env e peer x))"
  "runs (call_ops Q peer d) x (snd (x_heartbeat env i peer x))"
  "runs (call_ops Q peer d) x (snd (x_complete env i peer x))"
  "runs (call_ops Q peer d) x (snd (x_fail env i peer x))"
  "runs (call_ops Q peer d) x (snd (finish_native_epoch env e calls failed peer x))"
  "runs (call_ops Q peer d) x (snd (cancel_pending_native_epoch env i peer x))"
  using own_op [of peer "X_submit env reg a peer" d Q x] own_op [of peer "X_submit_cooperative env reg a peer" d Q x]
    own_op [of peer "X_submit_native env reg a extent peer" d Q x] own_op [of peer "X_claim_next env peer" d Q x]
    own_op [of peer "X_claim env i peer" d Q x] own_op [of peer "X_claim_execution env i peer" d Q x]
    own_op [of peer "X_claim_native env i peer" d Q x] own_op [of peer "X_cancel_queued i peer" d Q x]
    own_op [of peer "X_cancel_pending env i peer" d Q x] own_op [of peer "X_suspend env e peer" d Q x]
    own_op [of peer "X_heartbeat_execution env e peer" d Q x] own_op [of peer "X_complete_execution env e peer" d Q x]
    own_op [of peer "X_fail_execution env e peer" d Q x] own_op [of peer "X_cancel_execution env e peer" d Q x]
    own_op [of peer "X_heartbeat env i peer" d Q x] own_op [of peer "X_complete env i peer" d Q x]
    own_op [of peer "X_fail env i peer" d Q x] own_op [of peer "X_finish_native env e calls failed peer" d Q x]
    own_op [of peer "X_cancel_native env i peer" d Q x]
  by (simp_all add: x_look_def execution_report_def)

lemma wait_loop_runs:
  assumes "\<And>r x. r \<in> set rounds \<Longrightarrow> runs P x (xw_before r x) \<and> runs P x (xw_while_waiting r x)"
    and "\<And>env x. runs P x (snd (x_wait_attempt env i peer x))"
  shows "runs P x (snd (x_wait_claim_loop rounds deadline i peer x))"
  using assms(1)
proof (induction rounds arbitrary: x)
  case (Cons r rounds)
  obtain res x1 where a: "x_wait_attempt (xw_env r) i peer (xw_before r x) = (res, x1)" by fastforce
  have x1: "runs P x x1" using runs_trans [of P x "xw_before r x" x1] Cons.prems [of r x] assms(2) [of "xw_before r x" "xw_env r"] a by simp
  then have "runs P x (xw_while_waiting r x1)" using runs_trans [of P x x1] Cons.prems [of r x1] by simp
  then show ?case
    using x1 a runs_trans [of P x "xw_while_waiting r x1"] Cons by (auto simp: Let_def split: option.splits)
qed simp

lemma wait_runs:
  assumes "others_run Q c" and "\<not> d"
  shows "runs (call_ops Q peer d) x (snd (x_wait_claim (xc_rounds c) now i timeout peer x))"
proof -
  have "runs (call_ops Q peer d) y (snd (x_wait_attempt env i peer y))" for env y
    using own_op [of peer "X_wait_attempt env i peer" d Q y] assms(2) by simp
  then show ?thesis
    using wait_loop_runs [of "xc_rounds c" "call_ops Q peer d"] others_runD(3) [OF assms(1)] by (simp add: x_wait_claim_def)
qed

lemma handlers_run:
  assumes o: "others_run Q c"
  shows "\<not> d \<Longrightarrow> served (call_ops Q peer d) ep (handle_xsubmit c legacy peer a ep)"
    and "\<not> d \<Longrightarrow> served (call_ops Q peer d) ep (handle_execution_acquire c legacy peer a ep)"
    and "\<not> d \<Longrightarrow> served (call_ops Q peer d) ep (handle_complete_acquire c legacy peer e a ep)"
    and "\<not> d \<Longrightarrow> served (call_ops Q peer d) ep (handle_xacquire c legacy peer a ep)"
    and "\<not> d \<Longrightarrow> served (call_ops Q peer d) ep (handle_execution_claim c legacy peer i ep)"
    and "\<not> d \<Longrightarrow> served (call_ops Q peer d) ep (handle_xclaim c legacy peer i ep)"
    and "\<not> d \<Longrightarrow> served (call_ops Q peer d) ep (handle_xwait c legacy peer i timeout ep)"
    and "served (call_ops Q peer d) ep (handle_xcancel c legacy peer i ep)"
    and "served (call_ops Q peer d) ep (handle_xquery c legacy peer i ep)"
    and "served (call_ops Q peer d) ep (handle_xretreat c legacy peer e ep)"
    and "served (call_ops Q peer d) ep (handle_execution_report c legacy peer op e ep)"
    and "served (call_ops Q peer d) ep (handle_xheartbeat c legacy peer i ep)"
    and "served (call_ops Q peer d) ep (handle_xstats c legacy peer metrics ep)"
    and "served (call_ops Q peer d) ep (handle_xreport c legacy peer completed i ep)"
  unfolding handle_xsubmit_def handle_execution_acquire_def handle_complete_acquire_def handle_xacquire_def handle_execution_claim_def
    handle_xclaim_def handle_xwait_def handle_xcancel_def handle_xquery_def handle_xretreat_def handle_execution_report_def
    handle_xheartbeat_def handle_xstats_def handle_xreport_def x_unknown_or_invalid_def Let_def
  by (auto intro!: serve_runs [OF o] answers_run [OF o] service_runs wait_runs [OF o] destroy_runs [OF o] runs_trans [OF destroy_runs [OF o] answers_run(2) [OF o]]
      split: option.split)

lemma native_handlers_run:
  assumes o: "others_run Q c" and d: "d \<longrightarrow> nreq_operation q \<noteq> NOp_kAcquire \<and> nreq_operation q \<noteq> NOp_kClaim"
  shows "served (call_ops Q peer d) ep (handle_epoch_request c peer q r ep)"
proof -
  have c: "served (call_ops Q peer d) ep (claim_epoch c peer u r i ep)" if "\<not> d" for u i ep
    using that unfolding claim_epoch_def
    by (auto intro!: serve_runs [OF o] answers_run [OF o] service_runs split: option.split)
  show ?thesis
    using d c unfolding handle_epoch_request_def Let_def
    by (cases "nreq_operation q") (auto intro!: serve_runs [OF o] answers_run [OF o] service_runs)
qed

text \<open>Every call, whatever the bytes, is a sequence of operations of the caller and of other threads.\<close>

lemma request_runs:
  assumes o: "others_run Q c" and d: "d \<longrightarrow> \<not> creates_or_dispatches (xreq_operation r)"
  shows "served (call_ops Q peer d) ep (handle_xrequest c legacy peer r ep)"
proof -
  note H = handlers_run [OF o] answers_run(2) [OF o]
  show ?thesis
    using d unfolding handle_xrequest_def Let_def
    by (cases "xreq_operation r") (simp_all add: H)
qed

theorem handle_impl_runs:
  assumes o: "others_run Q c"
  shows "served (call_ops Q peer draining) ep (handle_ximpl c line peer draining ep)"
proof -
  note A = answers_run [OF o] and N = native_handlers_run [OF o] and R = request_runs [OF o]
  have n: "served (call_ops Q peer draining) ep (handle_native_epoch c line peer draining ep)"
    unfolding handle_native_epoch_def Let_def
    by (cases "parse_native_epoch_request (xc_parse_fails c) line") (simp_all add: A N)
  let ?p = "parse_task_protocol_request (xc_parse_fails c) line" and ?q = "parse_task_execution_protocol_request (xc_parse_fails c) line"
  consider "envelope line = kNativeEpochProtocolVersion" | "envelope line \<noteq> kNativeEpochProtocolVersion" "envelope line \<noteq> kTaskExecutionProtocolVersion"
    | "envelope line \<noteq> kNativeEpochProtocolVersion" "envelope line = kTaskExecutionProtocolVersion" by blast
  then show ?thesis
  proof cases
    case 1
    then show ?thesis using n by (simp add: handle_ximpl_def)
  next
    case 2
    show ?thesis
    proof (cases "rp_error ?p = Parse_kNone \<and> rp_request ?p \<noteq> None")
      case True
      then obtain r where "rp_error ?p = Parse_kNone" "rp_request ?p = Some r" by auto
      then show ?thesis
        using 2 by (cases "legacy_operation (preq_operation r)") (simp_all add: A R handle_ximpl_def Let_def)
    next
      case False
      then show ?thesis
        using 2 by (cases "rp_error ?p"; cases "rp_request ?p") (simp_all add: A handle_ximpl_def Let_def)
    qed
  next
    case 3
    then show ?thesis
      by (cases "xrp_error ?q"; cases "xrp_request ?q") (simp_all add: A R handle_ximpl_def Let_def)
  qed
qed

section \<open>Operations that start nothing\<close>

text \<open>No task is created and none is dispatched between two states of the service.\<close>

definition starts_nothing :: "ExecutionAdmissionState \<Rightarrow> ExecutionAdmissionState \<Rightarrow> bool" where
  "starts_nothing x x' \<longleftrightarrow>
     (\<forall>i. (xst x' i = Some TaskState_kRunning \<longrightarrow> xst x i = Some TaskState_kRunning) \<and> (xst x i = None \<longrightarrow> xst x' i = None))"

lemma starts_nothing_same: "xa_scheduler x' = xa_scheduler x \<Longrightarrow> starts_nothing x x'"
  by (simp add: starts_nothing_def)

lemma starts_nothing_trans: "starts_nothing x y \<Longrightarrow> starts_nothing y z \<Longrightarrow> starts_nothing x z"
  unfolding starts_nothing_def by blast

lemma starts_nothing_one:
  assumes "P \<Longrightarrow> \<forall>j. Scheduler_task_state j (snd r) = (if j = i then v else xst x j)" and "\<not> P \<Longrightarrow> snd r = xa_scheduler x"
    and "P \<Longrightarrow> xst x i \<noteq> None" and "v \<noteq> Some TaskState_kRunning" and "xa_scheduler x' = snd r"
  shows "starts_nothing x x'"
proof (cases P)
  case True
  have "xst x' j = (if j = i then v else xst x j)" for j unfolding assms(5) using assms(1) [OF True] by blast
  then show ?thesis using assms(3) [OF True] assms(4) unfolding starts_nothing_def by auto
qed (simp add: assms starts_nothing_same)

lemma scheduler_starts_nothing:
  assumes inv: "sched_inv (xa_scheduler x)"
  shows "xa_scheduler x' = snd (Scheduler_cancel now i (xa_scheduler x)) \<Longrightarrow> starts_nothing x x'"
    "xa_scheduler x' = snd (Scheduler_cancel_queued i (xa_scheduler x)) \<Longrightarrow> starts_nothing x x'"
    "xa_scheduler x' = snd (Scheduler_complete now i (xa_scheduler x)) \<Longrightarrow> starts_nothing x x'"
    "xa_scheduler x' = snd (Scheduler_fail now i (xa_scheduler x)) \<Longrightarrow> starts_nothing x x'"
    "xa_scheduler x' = snd (Scheduler_suspend f now i (xa_scheduler x)) \<Longrightarrow> starts_nothing x x'"
    "xa_scheduler x' = snd (Scheduler_forget i (xa_scheduler x)) \<Longrightarrow> starts_nothing x x'"
proof -
  note C = cancel_step [OF inv, of i now] cancel_queued_step [OF inv, of i] complete_step [OF inv, of i now]
    fail_step [OF inv, of i now] suspend_step [OF inv, of f now i]
  show "xa_scheduler x' = snd (Scheduler_cancel now i (xa_scheduler x)) \<Longrightarrow> starts_nothing x x'"
    by (rule starts_nothing_one [where P = "xst x i \<in> {Some TaskState_kQueued, Some TaskState_kRunning}" and
        v = "Some TaskState_kCancelled" and i = i]) (use C(1) in \<open>auto simp del: all_simps\<close>)
  show "xa_scheduler x' = snd (Scheduler_cancel_queued i (xa_scheduler x)) \<Longrightarrow> starts_nothing x x'"
    by (rule starts_nothing_one [where P = "xst x i = Some TaskState_kQueued" and v = "Some TaskState_kCancelled" and i = i])
      (use C(2) in simp_all)
  show "xa_scheduler x' = snd (Scheduler_complete now i (xa_scheduler x)) \<Longrightarrow> starts_nothing x x'"
    by (rule starts_nothing_one [where P = "xst x i = Some TaskState_kRunning" and v = "Some TaskState_kCompleted" and i = i])
      (use C(3) in simp_all)
  show "xa_scheduler x' = snd (Scheduler_fail now i (xa_scheduler x)) \<Longrightarrow> starts_nothing x x'"
    by (rule starts_nothing_one [where P = "xst x i = Some TaskState_kRunning" and v = "Some TaskState_kFailed" and i = i])
      (use C(4) in simp_all)
  show "xa_scheduler x' = snd (Scheduler_suspend f now i (xa_scheduler x)) \<Longrightarrow> starts_nothing x x'"
    by (rule starts_nothing_one [where P = "fst (Scheduler_suspend f now i (xa_scheduler x))" and v = "Some TaskState_kQueued" and i = i])
      (use C(5) in simp_all)
  show "starts_nothing x x'" if "xa_scheduler x' = snd (Scheduler_forget i (xa_scheduler x))"
  proof (cases "fst (Scheduler_forget i (xa_scheduler x))")
    case True
    then have "tasks (xa_scheduler x') = AList.delete i (tasks (xa_scheduler x))"
      using that by (auto simp: Scheduler_forget_def split: option.splits if_splits)
    then show ?thesis by (simp add: starts_nothing_def Scheduler_task_state_def delete_conv)
  next
    case False
    then have "xa_scheduler x' = xa_scheduler x" using that by (auto simp: Scheduler_forget_def split: option.splits if_splits)
    then show ?thesis by (rule starts_nothing_same)
  qed
qed

lemma x_scheduler [simp]:
  "xa_scheduler (x_set_scheduler s x) = s" "xa_scheduler (x_put_active i l x) = xa_scheduler x"
  "xa_scheduler (x_put_pending i l x) = xa_scheduler x" "xa_scheduler (x_erase_active i x) = xa_scheduler x"
  "xa_scheduler (x_erase_pending i x) = xa_scheduler x"
  by (simp_all add: x_set_scheduler_def x_put_active_def x_put_pending_def x_erase_active_def x_erase_pending_def)

lemma reap_scheduler:
  "xa_scheduler (snd (x_reap_pending env i x)) = snd (Scheduler_cancel_queued i (xa_scheduler x))"
  "xa_scheduler (snd (x_reap_running env i x)) = snd (Scheduler_fail (at_scheduler env) i (xa_scheduler x))"
  by (simp_all add: x_reap_pending_def x_reap_running_def Let_def case_prod_beta split: option.split)

lemma non_admitting_scheduler:
  assumes "\<not> admits op"
  obtains now i f where "xa_scheduler (run_exec op x) \<in>
    {xa_scheduler x, snd (Scheduler_cancel now i (xa_scheduler x)), snd (Scheduler_cancel_queued i (xa_scheduler x)),
     snd (Scheduler_complete now i (xa_scheduler x)), snd (Scheduler_fail now i (xa_scheduler x)),
     snd (Scheduler_suspend f now i (xa_scheduler x)), snd (Scheduler_forget i (xa_scheduler x))}"
proof (cases op)
  case (X_cancel env i)
  then show ?thesis by (intro that [of "at_scheduler env" i]) (auto simp: x_cancel_def case_prod_beta)
next
  case (X_cancel_queued i peer)
  then show ?thesis by (intro that [of _ i]) (auto simp: x_cancel_queued_def Let_def case_prod_beta)
next
  case (X_forget i)
  then show ?thesis by (intro that [of _ i]) (auto simp: forget_terminal_def case_prod_beta)
next
  case (X_heartbeat env i peer)
  then show ?thesis by (intro that) (auto simp: x_heartbeat_def split: option.split)
next
  case (X_complete env i peer)
  then show ?thesis by (intro that [of "at_scheduler env" i]) (auto simp: x_complete_def x_report_def Let_def case_prod_beta split: option.split)
next
  case (X_fail env i peer)
  then show ?thesis by (intro that [of "at_scheduler env" i]) (auto simp: x_fail_def x_report_def Let_def case_prod_beta split: option.split)
next
  case (X_reap env)
  have "xa_scheduler (snd (x_reap_expired env x)) = xa_scheduler x \<or>
      (\<exists>i. xa_scheduler (snd (x_reap_expired env x)) = snd (Scheduler_cancel_queued i (xa_scheduler x)) \<or>
           xa_scheduler (snd (x_reap_expired env x)) = snd (Scheduler_fail (at_scheduler env) i (xa_scheduler x)))"
    by (auto simp: x_reap_expired_def reap_scheduler split: prod.split option.split)
  then show ?thesis using X_reap that by (elim disjE exE) auto
next
  case (X_cancel_pending env i peer)
  then show ?thesis by (intro that [of _ i]) (auto simp: cancel_pending_cooperative_def case_prod_beta split: option.split)
next
  case (X_suspend env e peer)
  then show ?thesis
    by (intro that [of "at_scheduler env" "xi_task_id e" "env_suspend_fails env"])
      (auto simp: suspend_execution_def Let_def case_prod_beta split: option.split)
next
  case (X_heartbeat_execution env e peer)
  then show ?thesis
    by (intro that) (auto simp: heartbeat_execution_def Let_def case_prod_beta split: option.split TaskState.split)
next
  case (X_complete_execution env e peer)
  then show ?thesis
    by (intro that [of "at_scheduler env" "xi_task_id e"])
      (auto simp: complete_execution_def finish_execution_def Let_def case_prod_beta split: option.split)
next
  case (X_fail_execution env e peer)
  then show ?thesis
    by (intro that [of "at_scheduler env" "xi_task_id e"])
      (auto simp: fail_execution_def finish_execution_def Let_def case_prod_beta split: option.split)
next
  case (X_cancel_execution env e peer)
  then show ?thesis
    by (intro that [of _ "xi_task_id e"])
      (auto simp: cancel_execution_def finish_execution_def Let_def case_prod_beta split: option.split)
next
  case (X_finish_native env e n failed peer)
  then show ?thesis
    by (intro that [of "at_scheduler env" "xi_task_id e"])
      (auto simp: finish_native_epoch_def Let_def case_prod_beta split: option.split)
next
  case (X_cancel_native env i peer)
  then show ?thesis by (intro that [of _ i]) (auto simp: cancel_pending_native_epoch_def case_prod_beta split: option.split)
qed (use assms in simp_all)

lemma non_admitting_starts_nothing:
  assumes inv: "exec_inv x" and "\<not> admits op"
  shows "starts_nothing x (run_exec op x)"
proof -
  obtain now i f where "xa_scheduler (run_exec op x) \<in>
    {xa_scheduler x, snd (Scheduler_cancel now i (xa_scheduler x)), snd (Scheduler_cancel_queued i (xa_scheduler x)),
     snd (Scheduler_complete now i (xa_scheduler x)), snd (Scheduler_fail now i (xa_scheduler x)),
     snd (Scheduler_suspend f now i (xa_scheduler x)), snd (Scheduler_forget i (xa_scheduler x))}"
    by (rule non_admitting_scheduler [OF assms(2)])
  then show ?thesis
    using scheduler_starts_nothing [OF exec_invD(1) [OF inv]] starts_nothing_same by blast
qed

lemma runs_starts_nothing:
  assumes "runs P x x'" and "exec_inv x" and "\<And>op. P op \<Longrightarrow> \<not> admits op"
  shows "starts_nothing x x'"
proof -
  obtain ops where ops: "list_all P ops" "x' = fold run_exec ops x" using assms(1) by (auto simp: runs_def)
  show ?thesis
    using ops(1) assms(2) unfolding ops(2)
  proof (induction ops arbitrary: x)
    case (Cons op ops)
    then have "starts_nothing (run_exec op x) (fold run_exec ops (run_exec op x))"
      by (intro Cons.IH exec_step_inv [OF _ run_exec_step]) simp_all
    then show ?case
      using starts_nothing_trans [OF non_admitting_starts_nothing [of x op]] Cons.prems assms(3) by simp
  qed (simp add: starts_nothing_same)
qed

end
