(* ===== verification/ExecutionEndpointContract.thy ===== *)
theory ExecutionEndpointContract
  imports ExecutionEndpointProps
begin

text \<open>
  What the execution endpoint promises over whole histories: it refines the admission service, and once
  its shutdown has drained it, no thread behind its gate creates or dispatches a task any more.
\<close>

section \<open>The endpoint refines the service\<close>











section \<open>Shutdown\<close>

text \<open>
  The gate with the threads behind it. A reader is outside, has locked the gate but not read the phase
  yet, or is serving its request with the draining flag it read. A reader that is serving carries out
  the operations of \<open>handle_impl_runs\<close>, interleaved with those of the other readers.
\<close>

record exec_gate =
  gt_phase :: ShutdownPhase
  gt_readers :: "nat \<Rightarrow> bool option option"
  gt_writer :: bool
  gt_service :: ExecutionAdmissionState


inductive gate_step :: "exec_gate \<Rightarrow> exec_gate \<Rightarrow> bool" where
  locks: "gt_readers g t = None \<Longrightarrow> gate_step g (g\<lparr>gt_readers := (gt_readers g)(t := Some None)\<rparr>)"
| enters: "gt_readers g t = Some None \<Longrightarrow> gate_loop [(settled, Some (gt_phase g))] = Some (Some phase) \<Longrightarrow>
    gate_step g (g\<lparr>gt_readers := (gt_readers g)(t := Some (Some (phase = Shutdown_kDraining)))\<rparr>)"
| unlocks: "gt_readers g t = Some None \<Longrightarrow> gt_phase g \<in> {Shutdown_kPending, Shutdown_kFailed} \<Longrightarrow>
    gate_step g (g\<lparr>gt_readers := (gt_readers g)(t := None)\<rparr>)"
| serves: "gt_readers g t = Some (Some draining) \<Longrightarrow> call_ops (\<lambda>_. False) peer draining op \<Longrightarrow>
    gate_step g (g\<lparr>gt_service := run_exec op (gt_service g)\<rparr>)"
| leaves: "gt_readers g t = Some (Some draining) \<Longrightarrow> gate_step g (g\<lparr>gt_readers := (gt_readers g)(t := None)\<rparr>)"
| exchanges: "shutdown_exchange (gt_phase g) = (True, phase) \<Longrightarrow>
    gate_step g (g\<lparr>gt_phase := phase, gt_writer := True\<rparr>)"
| stores: "gt_writer g \<Longrightarrow> (\<And>t. gt_readers g t = None) \<Longrightarrow>
    gate_step g (g\<lparr>gt_phase := shutdown_store False, gt_writer := False\<rparr>)"
| fails: "gt_writer g \<Longrightarrow> gate_step g (g\<lparr>gt_phase := shutdown_store True, gt_writer := False\<rparr>)"

inductive_cases gate_stepE: "gate_step g g'"









end
