(* ===== verification/Spec2Isabelle.thy ===== *)
theory Spec2Isabelle
  imports SchedulerFairness SchedulerOutcomes AdaptiveSlo ExecutionPriorityProps QuotaStoreProps
    TaskBackend TaskAdmissionContract TaskEndpointProps SubmissionQueueHistory AllocationRegistryHistory
    ExecutionAdmissionContract NativeEpochProtocolProps ExecutionEndpointContract
begin

text \<open>
  \<^bold>\<open>Glimmer\<close> lets several tenants share a GPU. A scheduler admits tasks against a memory quota and
  picks the next one to run; a control service hands out leases on running tasks over a line
  protocol; a policy arbitrates between processes that execute on the device at the same time; a
  queue carries the commands of a client to the thread that issues them; and an interception
  library accounts for the device memory that unmodified programs allocate. This development
  models the parts of it that decide and account, and leaves out those that only call the
  operating system or CUDA.

  \<^bold>\<open>Conventions.\<close> A C++ class is a record, a method a function from the arguments and the object to
  the result and the object. A \<open>std::unordered_map\<close> is an association list in the order in which
  the map happens to iterate, so that what is proved holds for every order. Integers keep their
  width. Every clock read, caught allocation failure, failing mutex, callback and backend call is
  an argument of the definition, so a theorem about all arguments covers every outcome of them. A
  mutex makes a method one step; a method that releases the mutex in between is split where it
  does so.

  \<^bold>\<open>Theories and sources.\<close>
  \<^item> \<open>Prelude\<close>: machine types, guarded arithmetic, association lists and sums over them.
  \<^item> \<open>QuotaLedger\<close>: \<^verbatim>\<open>src/src/core/quota_ledger.cc\<close>.
  \<^item> \<open>SchedulerCore\<close>: \<^verbatim>\<open>src/src/core/scheduler.cc\<close>, the record \<open>Scheduler\<close> and all its operations.
    \<open>SchedulerPolicies\<close> and \<open>SchedulerRoundRobin\<close> treat the four selection policies behind the
    locales \<open>dispatch_policy\<close> and \<open>work_conserving\<close>, interpreted on the selection functions of the
    source. \<open>SchedulerInv\<close>, \<open>SchedulerDispatch\<close>, \<open>SchedulerLifecycle\<close> and \<open>SchedulerSubmit\<close> prove the
    invariant through every operation, \<open>SchedulerProps\<close> the simulation by an abstract scheduler over
    task states; \<open>SchedulerContract\<close>, \<open>SchedulerOutcomes\<close> and \<open>SchedulerFairness\<close> state what follows:
    exact accounting, agreement of all views of a task, refused submissions without effect, what
    each policy picks, progress, and the shares of a weighted round.
  \<^item> \<open>AdaptiveSlo\<close>: \<^verbatim>\<open>src/src/core/adaptive_slo.cc\<close> and \<^verbatim>\<open>scheduler_mode.cc\<close>; the reservation stays in
    its bounds and no 64-bit product wraps.
  \<^item> \<open>ExecutionPriority\<close>, \<open>ExecutionPriorityProps\<close>: \<^verbatim>\<open>src/src/core/execution_priority.cc\<close>, the plans for
    a snapshot of executing peers, quarantine, strict priority, pair grants and the idle window.
  \<^item> \<open>QuotaStores\<close>, \<open>QuotaStoreProps\<close>: the quota interface of \<^verbatim>\<open>include/glimmer/control/quota_store.h\<close>
    with its process, device and composed implementations. The locale \<open>quota_store\<close> states what a
    store promises; it is interpreted on the process and on the device quota, and the composed
    quota is proved all-or-nothing in the locale \<open>composite_quota\<close>.
  \<^item> \<open>TaskBackend\<close>: \<^verbatim>\<open>src/src/backend/task_executor.cc\<close> over any backend (locale \<open>task_backend\<close>,
    interpreted on the simulated backend of \<^verbatim>\<open>simulated_backend.cc\<close>).
  \<^item> \<open>TaskAdmission\<close>, \<open>TaskAdmissionProps\<close>, \<open>TaskAdmissionContract\<close>: the lease service of
    \<^verbatim>\<open>src/src/control/task_admission.cc\<close> on top of the scheduler, with \<open>SchedulerSteps\<close> for what a
    scheduler call does to the states of tasks: leases match tasks in every history, only the
    submitter controls a task, expired leases are reclaimed, heartbeats keep leases alive.
  \<^item> \<open>TextTokens\<close>, \<open>TaskProtocol\<close>, \<open>TaskProtocolProps\<close>: the line protocol of
    \<^verbatim>\<open>src/src/control/task_protocol.cc\<close>, tokeniser and number parsing included, with round trips in
    both directions.
  \<^item> \<open>TaskEndpoint\<close>, \<open>TaskEndpointProps\<close>: \<^verbatim>\<open>src/src/control/task_endpoint.cc\<close>, from the bytes of a request
    to the bytes of the reply over the service and the scheduler: every reply is true of the
    service, and every request is answered but in the listed cases.
  \<^item> \<open>SubmissionQueue\<close>, \<open>SubmissionQueueProps\<close>, \<open>SubmissionQueueHistory\<close>:
    \<^verbatim>\<open>src/src/backend/execution_submission_queue.cc\<close>, as a transition system over its critical
    sections: exact retention of inputs, one reply per command, tokens that are never reused, and
    issues that carry what was accepted.
  \<^item> \<open>AllocationRegistry\<close>, \<open>AllocationRegistryProps\<close>, \<open>AllocationRegistryHistory\<close>:
    \<^verbatim>\<open>src/src/interceptor/internal/allocation_registry.cc\<close>: conservation of recorded bytes, exact
    reference counts, attribution to devices, and cancellation as the inverse of beginning.
  \<^item> \<open>ExecutionAdmission\<close>, \<open>ExecutionAdmissionProps\<close>, \<open>ExecutionAdmissionSteps\<close>,
    \<open>ExecutionAdmissionContract\<close>: the admission of executions that stop and continue,
    \<^verbatim>\<open>src/src/control/internal/execution_admission_state.cc\<close> with its cooperative and native parts. Each method is
    proved to be one step of a transition system over tasks and lease identities; from it follow that
    leases match tasks, that a running execution is stopped by its owner only, that generations and
    native grants are handed out once (\<open>SchedulerSequence\<close>: a new dispatch always has a greater
    sequence), and that waits with a deadline return.
  \<^item> \<open>ExecutionProtocol\<close>, \<open>ExecutionProtocolProps\<close>: the line protocol of that service,
    \<^verbatim>\<open>src/src/control/task_execution_protocol.cc\<close>; \<open>NativeEpochProtocol\<close>, \<open>NativeEpochProtocolProps\<close>: the one of its
    native epochs, \<^verbatim>\<open>src/src/control/native_epoch_protocol.cc\<close>. Both with round trips in both directions, and
    with the requests and responses that have a line characterised exactly.
  \<^item> \<open>ExecutionEndpoint\<close>, \<open>ExecutionEndpointProps\<close>, \<open>ExecutionEndpointContract\<close>: the endpoint of that service,
    \<^verbatim>\<open>src/src/control/task_execution_endpoint.cc\<close>. A line is routed by its first token to one of the three
    protocols and served by several calls of the service, with those of other threads in between; the
    guard \<open>UnpublishedTask\<close> takes back what the client was not told about; readers and the writer of a
    shutdown meet at a gate. Every history of the endpoint is a history of the service in which each
    operation belongs to a caller, and after a shutdown nothing is created or dispatched.

  \<^bold>\<open>How the parts fit.\<close> The scheduler embeds the quota ledger; the executor and the lease service
  drive the scheduler only through its operations, so that every state they reach is a reachable
  state of the scheduler and inherits its invariant; the endpoints drive their services in the
  same way, and the reply theorems combine the protocol's round trip with the service's contract.
  The composed quota is built from the two stores by their contracts alone.

  \<^bold>\<open>Bounds.\<close> Loops over containers are structural recursions. The wait loops of the services run at most
  as many rounds as they are given wake-ups and report that they are still waiting when they run out, and so
  does a reader at the gate of a shutdown; the deficit
  loop of the scheduler is bounded by the source itself. The tokeniser recurses on the rest of the
  line, which gets shorter in every round.

  \<^bold>\<open>Not modelled.\<close> The binary protocols and the sockets of remote execution, the launch gate and completion tracker, the shared-memory channel and
  quota, and the recovery journal are mostly system calls, process-shared locks and encodings, and
  are not translated here. The interception of the CUDA driver and runtime calls into libraries
  whose behaviour is not part of the sources; so does the CUDA backend. The rewriting of PTX and
  module images would be correct only relative to a semantics of PTX. The main programs parse
  options and wire the parts together.
\<close>

end
